(* ===== verification/Go_Base.thy ===== *)
theory Go_Base
  imports Main "HOL-Library.Word" "HOL-Library.AList" "HOL-Library.Char_ord"
    "HOL-Library.List_Lexorder"
begin

section \<open>Prelude: the parts of Go and its standard library that the repository uses\<close>

text \<open>
  Types and functions shared by every component theory: bytes and strings, the functions of
  packages \<open>strings\<close>, \<open>strconv\<close> and \<open>encoding/binary\<close> that the sources call, the
  association lists that stand for Go maps, and the generic lemmas on them.

  A Go \<open>string\<close> is a sequence of bytes; it is an Isabelle \<open>string\<close>, whose characters are
  8-bit values. A Go \<open>[]byte\<close> is a list of \<open>8 word\<close>. A Go \<open>map\<close> is an association
  list with distinct keys: ranging over it visits its entries in list order, which is one of the
  orders Go may choose.
\<close>

unbundle bit_operations_syntax

named_theorems go_defs \<open>unfolding rules of the standard-library models\<close>
named_theorems coded_simps \<open>facts on which errors are coded\<close>

type_synonym byte = "8 word"
type_synonym bytes = "byte list"

subsection \<open>Bytes of a string\<close>

definition byte_of_char :: "char \<Rightarrow> byte" where
  "byte_of_char c = word_of_nat (of_char c)"

definition char_of_byte :: "byte \<Rightarrow> char" where
  "char_of_byte b = char_of (unat b)"

definition bytes_of_string :: "string \<Rightarrow> bytes" where
  "bytes_of_string s = map byte_of_char s"

definition string_of_bytes :: "bytes \<Rightarrow> string" where
  "string_of_bytes bs = map char_of_byte bs"

lemma of_char_less_256: "(of_char c :: nat) < 256"
  using nat_of_char_less_256 by simp

lemma char_of_byte_of_char [simp]: "char_of_byte (byte_of_char c) = c"
  by (simp add: char_of_byte_def byte_of_char_def unat_of_nat of_char_less_256)

lemma byte_of_char_of_byte [simp]: "byte_of_char (char_of_byte b) = b"
proof -
  have "unat b < 2 ^ LENGTH(8)" by (rule unsigned_less)
  then have "(of_char (char_of (unat b)) :: nat) = unat b"
    by simp
  then show ?thesis by (simp add: char_of_byte_def byte_of_char_def)
qed

lemma string_of_bytes_of_string [simp]: "string_of_bytes (bytes_of_string s) = s"
  by (simp add: string_of_bytes_def bytes_of_string_def o_def)

lemma bytes_of_string_of_bytes [simp]: "bytes_of_string (string_of_bytes b) = b"
  by (simp add: string_of_bytes_def bytes_of_string_def o_def)

lemma length_bytes_of_string [simp]: "length (bytes_of_string s) = length s"
  by (simp add: bytes_of_string_def)

lemma length_string_of_bytes [simp]: "length (string_of_bytes b) = length b"
  by (simp add: string_of_bytes_def)

subsection \<open>Package strings\<close>

definition HasPrefix :: "string \<Rightarrow> string \<Rightarrow> bool" where
  "HasPrefix s p \<longleftrightarrow> take (length p) s = p"

definition HasSuffix :: "string \<Rightarrow> string \<Rightarrow> bool" where
  "HasSuffix s p \<longleftrightarrow> length p \<le> length s \<and> drop (length s - length p) s = p"

definition TrimPrefix :: "string \<Rightarrow> string \<Rightarrow> string" where
  "TrimPrefix s p = (if HasPrefix s p then drop (length p) s else s)"

definition TrimSuffix :: "string \<Rightarrow> string \<Rightarrow> string" where
  "TrimSuffix s p = (if HasSuffix s p then take (length s - length p) s else s)"

definition CutPrefix :: "string \<Rightarrow> string \<Rightarrow> string option" where
  "CutPrefix s p = (if HasPrefix s p then Some (drop (length p) s) else None)"

fun Contains :: "string \<Rightarrow> string \<Rightarrow> bool" where
  "Contains [] p = (p = [])"
| "Contains (c # cs) p = (HasPrefix (c # cs) p \<or> Contains cs p)"

text \<open>\<open>LastIndexByte s c\<close>: the position after the last occurrence of \<open>c\<close>, that is Go's
  \<open>strings.LastIndexByte(s, c) + 1\<close> (0 where Go returns -1).\<close>

fun after_last :: "string \<Rightarrow> char \<Rightarrow> nat" where
  "after_last [] c = 0"
| "after_last (x # xs) c =
     (let r = after_last xs c in
      if r > 0 then Suc r else if x = c then 1 else 0)"

fun Join :: "string list \<Rightarrow> string \<Rightarrow> string" where
  "Join [] sep = []"
| "Join [x] sep = x"
| "Join (x # y # ys) sep = x @ sep @ Join (y # ys) sep"

text \<open>\<open>strings.Split(s, string(c))\<close> for a one-byte separator.\<close>

fun Split :: "string \<Rightarrow> char \<Rightarrow> string list" where
  "Split [] c = [[]]"
| "Split (x # xs) c =
     (if x = c then [] # Split xs c
      else case Split xs c of [] \<Rightarrow> [[x]] | y # ys \<Rightarrow> (x # y) # ys)"

text \<open>\<open>strings.FieldsFunc(s, f)\<close>: the maximal runs of characters that do not satisfy \<open>f\<close>.\<close>

fun FieldsFunc :: "(char \<Rightarrow> bool) \<Rightarrow> string \<Rightarrow> string \<Rightarrow> string list" where
  "FieldsFunc f acc [] = (if acc = [] then [] else [rev acc])"
| "FieldsFunc f acc (x # xs) =
     (if f x then (if acc = [] then FieldsFunc f [] xs else rev acc # FieldsFunc f [] xs)
      else FieldsFunc f (x # acc) xs)"

definition in_range :: "char \<Rightarrow> char \<Rightarrow> char \<Rightarrow> bool" where
  "in_range lo hi c \<longleftrightarrow>
     (of_char lo :: nat) \<le> of_char c \<and> (of_char c :: nat) \<le> of_char hi"

definition char_add :: "char \<Rightarrow> nat \<Rightarrow> char" where
  "char_add c n = char_of ((of_char c :: nat) + n)"

definition char_sub :: "char \<Rightarrow> nat \<Rightarrow> char" where
  "char_sub c n = char_of ((of_char c :: nat) - n)"

text \<open>ASCII case mapping; the sources apply it to header keys and charset names.\<close>

definition lower_char :: "char \<Rightarrow> char" where
  "lower_char c = (if in_range CHR ''A'' CHR ''Z'' c then char_add c 32 else c)"

definition upper_char :: "char \<Rightarrow> char" where
  "upper_char c = (if in_range CHR ''a'' CHR ''z'' c then char_sub c 32 else c)"

definition ToLower :: "string \<Rightarrow> string" where
  "ToLower s = map lower_char s"

definition is_space :: "char \<Rightarrow> bool" where
  "is_space c \<longleftrightarrow> c = CHR '' '' \<or> c = CHR 0x09 \<or> c = CHR 0x0A \<or> c = CHR 0x0B
     \<or> c = CHR 0x0C \<or> c = CHR 0x0D"

definition TrimSpace :: "string \<Rightarrow> string" where
  "TrimSpace s = rev (dropWhile is_space (rev (dropWhile is_space s)))"

lemma HasPrefix_append [simp]: "HasPrefix (p @ s) p"
  by (simp add: HasPrefix_def)

lemma HasPrefix_iff: "HasPrefix s p \<longleftrightarrow> (\<exists>t. s = p @ t)"
  unfolding HasPrefix_def by (metis append_take_drop_id append_eq_conv_conj)

lemma TrimPrefix_append [simp]: "TrimPrefix (p @ s) p = s"
  by (simp add: TrimPrefix_def)

lemma TrimPrefix_id: "\<not> HasPrefix s p \<Longrightarrow> TrimPrefix s p = s"
  by (simp add: TrimPrefix_def)

lemma CutPrefix_append [simp]: "CutPrefix (p @ s) p = Some s"
  by (simp add: CutPrefix_def)

lemma HasSuffix_append [simp]: "HasSuffix (s @ p) p"
  by (simp add: HasSuffix_def)

lemma HasSuffix_iff: "HasSuffix s p \<longleftrightarrow> (\<exists>t. s = t @ p)"
proof
  assume "HasSuffix s p"
  then have "s = take (length s - length p) s @ p"
    unfolding HasSuffix_def by (metis append_take_drop_id)
  then show "\<exists>t. s = t @ p" by blast
qed auto

lemma TrimSuffix_append [simp]: "TrimSuffix (s @ p) p = s"
  by (simp add: TrimSuffix_def)

lemma after_last_le: "after_last s c \<le> length s"
  by (induction s) (auto simp: Let_def)

lemma after_last_0_iff: "after_last s c = 0 \<longleftrightarrow> c \<notin> set s"
  by (induction s) (auto simp: Let_def)

lemma after_last_append_sep:
  "c \<notin> set t \<Longrightarrow> after_last (s @ c # t) c = Suc (length s)"
  by (induction s) (auto simp: Let_def after_last_0_iff)

lemma Split_not_Nil [simp]: "Split s c \<noteq> []"
  by (induction s) (auto split: list.splits)

lemma Join_Split: "Join (Split s c) [c] = s"
proof (induction s)
  case Nil
  show ?case by simp
next
  case (Cons x xs)
  obtain y ys where sp: "Split xs c = y # ys"
    by (cases "Split xs c") auto
  with Cons show ?case by (cases ys) auto
qed

subsection \<open>Package strconv: decimal numbers\<close>

definition digit_char :: "nat \<Rightarrow> char" where
  "digit_char d = char_of (48 + d)"

definition is_digit :: "char \<Rightarrow> bool" where
  "is_digit c = in_range CHR ''0'' CHR ''9'' c"

definition digit_val :: "char \<Rightarrow> nat" where
  "digit_val c = of_char c - 48"

text \<open>\<open>strconv.Itoa\<close>/\<open>FormatInt(_, 10)\<close> of a non-negative number.\<close>

fun utoa :: "nat \<Rightarrow> string" where
  "utoa n = (if n < 10 then [digit_char n] else utoa (n div 10) @ [digit_char (n mod 10)])"

declare utoa.simps [simp del]

definition itoa :: "int \<Rightarrow> string" where
  "itoa i = (if i < 0 then CHR ''-'' # utoa (nat (- i)) else utoa (nat i))"

text \<open>The value of a string of digits, \<open>None\<close> at the first character that is not one.\<close>

fun parse_digits :: "nat \<Rightarrow> string \<Rightarrow> nat option" where
  "parse_digits acc [] = Some acc"
| "parse_digits acc (c # cs) =
     (if is_digit c then parse_digits (10 * acc + digit_val c) cs else None)"

text \<open>\<open>strconv.ParseUint(s, 10, bits)\<close>; \<open>None\<close> is a syntax or range error.\<close>

definition ParseUint :: "string \<Rightarrow> nat \<Rightarrow> nat option" where
  "ParseUint s bits =
     (if s = [] then None
      else case parse_digits 0 s of
             None \<Rightarrow> None
           | Some n \<Rightarrow> if n < 2 ^ bits then Some n else None)"

text \<open>\<open>strconv.ParseInt(s, 10, 64)\<close>: an optional sign, then digits, within \<open>int64\<close>.\<close>

definition ParseInt64 :: "string \<Rightarrow> int option" where
  "ParseInt64 s =
     (case s of
        [] \<Rightarrow> None
      | c # cs \<Rightarrow>
          let neg = (c = CHR ''-'');
              digits = (if c = CHR ''+'' \<or> c = CHR ''-'' then cs else s)
          in case ParseUint digits 64 of
               None \<Rightarrow> None
             | Some n \<Rightarrow>
                 if \<not> neg \<and> n \<ge> 2 ^ 63 then None
                 else if neg \<and> n > 2 ^ 63 then None
                 else Some (if neg then - int n else int n))"

lemma of_char_digit_char [simp]: "d < 10 \<Longrightarrow> (of_char (digit_char d) :: nat) = 48 + d"
  by (simp add: digit_char_def)

lemma is_digit_digit_char [simp]: "d < 10 \<Longrightarrow> is_digit (digit_char d)"
  by (simp add: is_digit_def in_range_def)

lemma digit_val_digit_char [simp]: "d < 10 \<Longrightarrow> digit_val (digit_char d) = d"
  by (simp add: digit_val_def)

lemma digit_chars:
  "digit_char 0 = CHR ''0''" "digit_char 1 = CHR ''1''" "digit_char (Suc 0) = CHR ''1''"
  "digit_char 2 = CHR ''2''" "digit_char 3 = CHR ''3''" "digit_char 4 = CHR ''4''"
  "digit_char 5 = CHR ''5''" "digit_char 6 = CHR ''6''" "digit_char 7 = CHR ''7''"
  "digit_char 8 = CHR ''8''" "digit_char 9 = CHR ''9''"
  by (simp_all add: digit_char_def char_of_def bit_Suc_0_iff)

lemma utoa_not_Nil [simp]: "utoa n \<noteq> []"
  by (subst utoa.simps) simp

lemma parse_digits_append:
  "parse_digits acc (s @ t) =
     (case parse_digits acc s of None \<Rightarrow> None | Some n \<Rightarrow> parse_digits n t)"
  by (induction s arbitrary: acc) auto

lemma parse_digits_utoa: "parse_digits 0 (utoa n) = Some n"
proof (induction n rule: utoa.induct)
  case (1 n)
  show ?case
  proof (cases "n < 10")
    case True
    then show ?thesis by (simp add: utoa.simps [of n])
  next
    case False
    with "1.IH" have "parse_digits 0 (utoa (n div 10)) = Some (n div 10)" by simp
    with False show ?thesis
      by (simp add: utoa.simps [of n] parse_digits_append)
  qed
qed

lemma ParseUint_utoa: "n < 2 ^ bits \<Longrightarrow> ParseUint (utoa n) bits = Some n"
  by (simp add: ParseUint_def parse_digits_utoa)

lemma utoa_digits: "c \<in> set (utoa n) \<Longrightarrow> is_digit c"
proof (induction n rule: utoa.induct)
  case (1 n)
  then show ?case by (cases "n < 10") (auto simp: utoa.simps [of n])
qed

lemma utoa_inj: "utoa m = utoa n \<Longrightarrow> m = n"
  by (metis option.inject parse_digits_utoa)

lemma utoa_hd_digit: "is_digit (hd (utoa n))"
  by (rule utoa_digits) (rule hd_in_set, simp)

lemma not_digit_sign: "is_digit c \<Longrightarrow> c \<noteq> CHR ''-'' \<and> c \<noteq> CHR ''+''"
  by (auto simp: is_digit_def in_range_def)

lemma ParseInt64_utoa: "n < 2 ^ 63 \<Longrightarrow> ParseInt64 (utoa n) = Some (int n)"
proof -
  assume n: "n < 2 ^ 63"
  obtain c cs where u: "utoa n = c # cs" by (cases "utoa n") auto
  have "is_digit c" using utoa_hd_digit [of n] by (simp add: u)
  then have c: "c \<noteq> CHR ''-''" "c \<noteq> CHR ''+''" by (auto dest: not_digit_sign)
  have "ParseUint (c # cs) 64 = Some n"
    unfolding u [symmetric] using n by (intro ParseUint_utoa) simp
  with n c show ?thesis by (simp add: ParseInt64_def u Let_def)
qed

lemma length_utoa: "0 < k \<Longrightarrow> n < 10 ^ k \<Longrightarrow> length (utoa n) \<le> k"
proof (induction k arbitrary: n)
  case 0
  then show ?case by simp
next
  case (Suc k)
  show ?case
  proof (cases "n < 10")
    case True
    then show ?thesis by (simp add: utoa.simps [of n])
  next
    case False
    with Suc.prems have "n div 10 < 10 ^ k" "0 < k"
      by (auto intro: Suc_leI simp: less_mult_imp_div_less mult.commute intro!: gr0I)
    with Suc.IH have "length (utoa (n div 10)) \<le> k" by blast
    with False show ?thesis by (simp add: utoa.simps [of n])
  qed
qed

subsection \<open>Package fmt\<close>

text \<open>\<open>fmt.Sprintf\<close> with the verbs \<open>%s\<close>, \<open>%d\<close>, \<open>%v\<close>, \<open>%q\<close>
  and \<open>%w\<close>: each argument is given already rendered (a number by \<open>itoa\<close>, a quoted
  string by \<open>Quote\<close>, an error by its \<open>Error()\<close> text).\<close>

fun Sprintf :: "string \<Rightarrow> string list \<Rightarrow> string" where
  "Sprintf [] args = []"
| "Sprintf [c] args = [c]"
| "Sprintf (c # v # cs) args =
     (if c = CHR ''%''
      then (if v = CHR ''%'' then CHR ''%'' # Sprintf cs args
            else case args of
                   [] \<Rightarrow> ''%!'' @ [v] @ ''(MISSING)'' @ Sprintf cs []
                 | a # as \<Rightarrow> a @ Sprintf cs as)
      else c # Sprintf (v # cs) args)"

definition lower_hex :: "nat \<Rightarrow> char" where
  "lower_hex d = (if d < 10 then char_of (48 + d) else char_of (87 + d))"

text \<open>\<open>strconv.Quote\<close> (verb \<open>%q\<close>) for one byte. Bytes from 0x80 on are escaped one by
  one, as Go does where they are not the UTF-8 form of a printable rune; quoted text only ever
  appears inside human-readable messages.\<close>

definition quote_char :: "char \<Rightarrow> string" where
  "quote_char c =
     (if c = CHR 0x22 then [CHR 0x5C, CHR 0x22]
      else if c = CHR 0x5C then [CHR 0x5C, CHR 0x5C]
      else if c = CHR 0x07 then [CHR 0x5C, CHR ''a'']
      else if c = CHR 0x08 then [CHR 0x5C, CHR ''b'']
      else if c = CHR 0x0C then [CHR 0x5C, CHR ''f'']
      else if c = CHR 0x0A then [CHR 0x5C, CHR ''n'']
      else if c = CHR 0x0D then [CHR 0x5C, CHR ''r'']
      else if c = CHR 0x09 then [CHR 0x5C, CHR ''t'']
      else if c = CHR 0x0B then [CHR 0x5C, CHR ''v'']
      else if in_range CHR '' '' CHR ''~'' c then [c]
      else [CHR 0x5C, CHR ''x'', lower_hex (of_char c div 16), lower_hex (of_char c mod 16)])"

definition Quote :: "string \<Rightarrow> string" where
  "Quote s = [CHR 0x22] @ concat (map quote_char s) @ [CHR 0x22]"

subsection \<open>Package encoding/binary: big-endian 32-bit numbers\<close>

definition PutUint32 :: "32 word \<Rightarrow> bytes" where
  "PutUint32 v = [ucast (drop_bit 24 v), ucast (drop_bit 16 v), ucast (drop_bit 8 v), ucast v]"

fun Uint32 :: "bytes \<Rightarrow> 32 word" where
  "Uint32 (a # b # c # d # _) =
     ucast d OR push_bit 8 (ucast c) OR push_bit 16 (ucast b) OR push_bit 24 (ucast a)"
| "Uint32 _ = 0"

lemma length_PutUint32 [simp]: "length (PutUint32 v) = 4"
  by (simp add: PutUint32_def)

lemma Uint32_PutUint32 [simp]: "Uint32 (PutUint32 v @ r) = v"
proof (rule bit_word_eqI)
  fix n assume n: "n < LENGTH(32)"
  then consider "n < 8" | "8 \<le> n" "n < 16" | "16 \<le> n" "n < 24" | "24 \<le> n" "n < 32"
    by fastforce
  then show "bit (Uint32 (PutUint32 v @ r)) n = bit v n"
    by cases (auto simp: PutUint32_def bit_or_iff bit_push_bit_iff bit_ucast_iff bit_drop_bit_eq)
qed

subsection \<open>Go maps as association lists\<close>

definition has_key :: "('k \<times> 'v) list \<Rightarrow> 'k \<Rightarrow> bool" where
  "has_key m k \<longleftrightarrow> map_of m k \<noteq> None"

definition wf_map :: "('k \<times> 'v) list \<Rightarrow> bool" where
  "wf_map m \<longleftrightarrow> distinct (map fst m)"

lemma wf_map_Nil [simp]: "wf_map []"
  by (simp add: wf_map_def)

lemma wf_map_update [simp]: "wf_map m \<Longrightarrow> wf_map (AList.update k v m)"
  unfolding wf_map_def by (rule distinct_update)

lemma wf_map_delete [simp]: "wf_map m \<Longrightarrow> wf_map (AList.delete k m)"
  unfolding wf_map_def by (simp add: distinct_delete)

lemma map_of_update [simp]:
  "map_of (AList.update k v m) k' = (if k' = k then Some v else map_of m k')"
  by (simp add: update_conv')

lemma map_of_delete [simp]:
  "map_of (AList.delete k m) k' = (if k' = k then None else map_of m k')"
  by (simp add: delete_conv')

lemma has_key_iff: "has_key m k \<longleftrightarrow> k \<in> fst ` set m"
  by (simp add: has_key_def map_of_eq_None_iff)

subsection \<open>Results\<close>

text \<open>A function that returns a value and an error returns \<open>'e + 'a\<close>: \<open>Inl\<close> the error.
  A Go panic is the value \<open>None\<close> of an \<open>option\<close> around the result.\<close>

lemma sum_case_Inr_iff:
  "(case r of Inl e \<Rightarrow> Inl e | Inr x \<Rightarrow> f x) = Inr y \<longleftrightarrow> (\<exists>x. r = Inr x \<and> f x = Inr y)"
  by (cases r) auto

text \<open>A printer and a parser that agree. Every wire format of the repository that has an
  encoder and a decoder is an instance.\<close>

locale round_trip =
  fixes valid :: "'a \<Rightarrow> bool"
    and encode :: "'a \<Rightarrow> 'w"
    and decode :: "'w \<Rightarrow> 'e + 'a"
  assumes decode_encode: "valid x \<Longrightarrow> decode (encode x) = Inr x"
begin

lemma encode_inj: "inj_on encode (Collect valid)"
proof (rule inj_onI)
  fix x y
  assume "x \<in> Collect valid" "y \<in> Collect valid" "encode x = encode y"
  then show "x = y"
    by (metis decode_encode mem_Collect_eq sum.inject(2))
qed

lemma encode_eq_iff: "valid x \<Longrightarrow> valid y \<Longrightarrow> encode x = encode y \<longleftrightarrow> x = y"
  using encode_inj by (auto dest: inj_onD)

lemma decode_map: "list_all valid xs \<Longrightarrow> map decode (map encode xs) = map Inr xs"
  by (induction xs) (simp_all add: decode_encode)

end

end
