(* ===== verification/Codes.thy ===== *)
theory Codes
  imports Go_Base
begin

section \<open>Codes, stream types and idempotency levels (connect.go)\<close>

text \<open>
  The enumerations of package \<open>connect\<close>: \<open>Code\<close> (a \<open>uint32\<close>) with its text form,
  \<open>StreamType\<close> (a \<open>uint8\<close> bit set) and \<open>IdempotencyLevel\<close>; and the two maps between
  codes and HTTP status codes (\<open>connectCodeToHTTP\<close>, \<open>httpToCode\<close>). The lemmas show that
  the text form of every \<open>uint32\<close> code is read back exactly, that no other text is accepted
  for a named code, and how the two status maps relate.
\<close>

type_synonym code = "32 word"

abbreviation CodeCanceled :: code where "CodeCanceled \<equiv> 1"
abbreviation CodeUnknown :: code where "CodeUnknown \<equiv> 2"
abbreviation CodeInvalidArgument :: code where "CodeInvalidArgument \<equiv> 3"
abbreviation CodeDeadlineExceeded :: code where "CodeDeadlineExceeded \<equiv> 4"
abbreviation CodeNotFound :: code where "CodeNotFound \<equiv> 5"
abbreviation CodeAlreadyExists :: code where "CodeAlreadyExists \<equiv> 6"
abbreviation CodePermissionDenied :: code where "CodePermissionDenied \<equiv> 7"
abbreviation CodeResourceExhausted :: code where "CodeResourceExhausted \<equiv> 8"
abbreviation CodeFailedPrecondition :: code where "CodeFailedPrecondition \<equiv> 9"
abbreviation CodeAborted :: code where "CodeAborted \<equiv> 10"
abbreviation CodeOutOfRange :: code where "CodeOutOfRange \<equiv> 11"
abbreviation CodeUnimplemented :: code where "CodeUnimplemented \<equiv> 12"
abbreviation CodeInternal :: code where "CodeInternal \<equiv> 13"
abbreviation CodeUnavailable :: code where "CodeUnavailable \<equiv> 14"
abbreviation CodeDataLoss :: code where "CodeDataLoss \<equiv> 15"
abbreviation CodeUnauthenticated :: code where "CodeUnauthenticated \<equiv> 16"

abbreviation minCode :: code where "minCode \<equiv> CodeCanceled"
abbreviation maxCode :: code where "maxCode \<equiv> CodeUnauthenticated"

definition Code_String :: "code \<Rightarrow> string" where
  "Code_String c =
     (if c = CodeCanceled then ''canceled''
      else if c = CodeUnknown then ''unknown''
      else if c = CodeInvalidArgument then ''invalid_argument''
      else if c = CodeDeadlineExceeded then ''deadline_exceeded''
      else if c = CodeNotFound then ''not_found''
      else if c = CodeAlreadyExists then ''already_exists''
      else if c = CodePermissionDenied then ''permission_denied''
      else if c = CodeResourceExhausted then ''resource_exhausted''
      else if c = CodeFailedPrecondition then ''failed_precondition''
      else if c = CodeAborted then ''aborted''
      else if c = CodeOutOfRange then ''out_of_range''
      else if c = CodeUnimplemented then ''unimplemented''
      else if c = CodeInternal then ''internal''
      else if c = CodeUnavailable then ''unavailable''
      else if c = CodeDataLoss then ''data_loss''
      else if c = CodeUnauthenticated then ''unauthenticated''
      else ''code_'' @ utoa (unat c))"

definition Code_MarshalText :: "code \<Rightarrow> bytes" where
  "Code_MarshalText c = bytes_of_string (Code_String c)"

text \<open>\<open>UnmarshalText\<close> assigns the receiver on success and leaves it alone on error; the model
  returns the assigned code, or the text of the error.\<close>

definition Code_UnmarshalText :: "bytes \<Rightarrow> string + code" where
  "Code_UnmarshalText data =
     (let dataStr = string_of_bytes data in
      if dataStr = ''canceled'' then Inr CodeCanceled
      else if dataStr = ''unknown'' then Inr CodeUnknown
      else if dataStr = ''invalid_argument'' then Inr CodeInvalidArgument
      else if dataStr = ''deadline_exceeded'' then Inr CodeDeadlineExceeded
      else if dataStr = ''not_found'' then Inr CodeNotFound
      else if dataStr = ''already_exists'' then Inr CodeAlreadyExists
      else if dataStr = ''permission_denied'' then Inr CodePermissionDenied
      else if dataStr = ''resource_exhausted'' then Inr CodeResourceExhausted
      else if dataStr = ''failed_precondition'' then Inr CodeFailedPrecondition
      else if dataStr = ''aborted'' then Inr CodeAborted
      else if dataStr = ''out_of_range'' then Inr CodeOutOfRange
      else if dataStr = ''unimplemented'' then Inr CodeUnimplemented
      else if dataStr = ''internal'' then Inr CodeInternal
      else if dataStr = ''unavailable'' then Inr CodeUnavailable
      else if dataStr = ''data_loss'' then Inr CodeDataLoss
      else if dataStr = ''unauthenticated'' then Inr CodeUnauthenticated
      else case CutPrefix dataStr ''code_'' of
             None \<Rightarrow> Inl (Sprintf ''invalid code %q'' [Quote dataStr])
           | Some after \<Rightarrow>
               (case ParseUint after 32 of
                  None \<Rightarrow> Inl (Sprintf ''invalid code %q'' [Quote after])
                | Some n \<Rightarrow>
                    if n < unat minCode \<or> n > unat maxCode then Inr (word_of_nat n)
                    else Inl (Sprintf ''invalid code %q'' [Quote after])))"

subsection \<open>Stream types and idempotency levels\<close>

type_synonym stream_type = "8 word"

abbreviation StreamTypeUnary :: stream_type where "StreamTypeUnary \<equiv> 0"
abbreviation StreamTypeClient :: stream_type where "StreamTypeClient \<equiv> 1"
abbreviation StreamTypeServer :: stream_type where "StreamTypeServer \<equiv> 2"
abbreviation StreamTypeBidi :: stream_type where
  "StreamTypeBidi \<equiv> StreamTypeClient OR StreamTypeServer"

definition StreamType_String :: "stream_type \<Rightarrow> string" where
  "StreamType_String s =
     (if s = StreamTypeUnary then ''unary''
      else if s = StreamTypeClient then ''client''
      else if s = StreamTypeServer then ''server''
      else if s = StreamTypeBidi then ''bidi''
      else Sprintf ''stream_%d'' [utoa (unat s)])"

type_synonym idempotency_level = "32 word"

abbreviation IdempotencyUnknown :: idempotency_level where "IdempotencyUnknown \<equiv> 0"
abbreviation IdempotencyNoSideEffects :: idempotency_level where
  "IdempotencyNoSideEffects \<equiv> 1"
abbreviation IdempotencyIdempotent :: idempotency_level where "IdempotencyIdempotent \<equiv> 2"

definition IdempotencyLevel_String :: "idempotency_level \<Rightarrow> string" where
  "IdempotencyLevel_String i =
     (if i = IdempotencyUnknown then ''idempotency_unknown''
      else if i = IdempotencyNoSideEffects then ''no_side_effects''
      else if i = IdempotencyIdempotent then ''idempotent''
      else Sprintf ''idempotency_%d'' [itoa (sint i)])"

subsection \<open>HTTP status codes\<close>

definition connectCodeToHTTP :: "code \<Rightarrow> int" where
  "connectCodeToHTTP code =
     (if code = CodeCanceled then 499
      else if code = CodeUnknown then 500
      else if code = CodeInvalidArgument then 400
      else if code = CodeDeadlineExceeded then 504
      else if code = CodeNotFound then 404
      else if code = CodeAlreadyExists then 409
      else if code = CodePermissionDenied then 403
      else if code = CodeResourceExhausted then 429
      else if code = CodeFailedPrecondition then 400
      else if code = CodeAborted then 409
      else if code = CodeOutOfRange then 400
      else if code = CodeUnimplemented then 501
      else if code = CodeInternal then 500
      else if code = CodeUnavailable then 503
      else if code = CodeDataLoss then 500
      else if code = CodeUnauthenticated then 401
      else 500)"

definition httpToCode :: "int \<Rightarrow> code" where
  "httpToCode httpCode =
     (if httpCode = 400 then CodeInternal
      else if httpCode = 401 then CodeUnauthenticated
      else if httpCode = 403 then CodePermissionDenied
      else if httpCode = 404 then CodeUnimplemented
      else if httpCode = 429 then CodeUnavailable
      else if httpCode = 502 \<or> httpCode = 503 \<or> httpCode = 504 then CodeUnavailable
      else CodeUnknown)"

subsection \<open>Lemmas\<close>

text \<open>The codes with a name of their own.\<close>

definition known_code :: "code \<Rightarrow> bool" where
  "known_code c \<longleftrightarrow> minCode \<le> c \<and> c \<le> maxCode"

lemma known_code_unat: "known_code c \<longleftrightarrow> 1 \<le> unat c \<and> unat c \<le> 16"
  by (simp add: known_code_def word_le_nat_alt)

lemma known_code_cases:
  assumes "known_code c"
  shows "c = 1 \<or> c = 2 \<or> c = 3 \<or> c = 4 \<or> c = 5 \<or> c = 6 \<or> c = 7 \<or> c = 8 \<or> c = 9 \<or> c = 10
    \<or> c = 11 \<or> c = 12 \<or> c = 13 \<or> c = 14 \<or> c = 15 \<or> c = 16"
proof -
  have "c = word_of_nat (unat c)" by simp
  moreover have "unat c \<in> {1..16}"
    using assms by (simp add: known_code_unat)
  then have "unat c = 1 \<or> unat c = 2 \<or> unat c = 3 \<or> unat c = 4 \<or> unat c = 5 \<or> unat c = 6
    \<or> unat c = 7 \<or> unat c = 8 \<or> unat c = 9 \<or> unat c = 10 \<or> unat c = 11 \<or> unat c = 12
    \<or> unat c = 13 \<or> unat c = 14 \<or> unat c = 15 \<or> unat c = 16"
    by (simp only: atLeastAtMost_iff) arith
  ultimately show ?thesis by (elim disjE) simp_all
qed

lemma unknown_code_text: "\<not> known_code c \<Longrightarrow> Code_String c = ''code_'' @ utoa (unat c)"
  by (auto simp: Code_String_def known_code_def)

lemma Code_unmarshal_known:
  "known_code c \<Longrightarrow> Code_UnmarshalText (Code_MarshalText c) = Inr c"
  by (drule known_code_cases, elim disjE)
    (simp_all add: Code_MarshalText_def Code_UnmarshalText_def Code_String_def)

lemma Code_unmarshal_unknown:
  assumes "\<not> known_code c"
  shows "Code_UnmarshalText (Code_MarshalText c) = Inr c"
proof -
  have "unat c < 2 ^ LENGTH(32)" by (rule unsigned_less)
  then have "ParseUint (utoa (unat c)) 32 = Some (unat c)"
    by (intro ParseUint_utoa) simp
  moreover have "unat c < 1 \<or> 16 < unat c"
    using assms by (auto simp: known_code_unat)
  ultimately show ?thesis
    by (simp add: Code_MarshalText_def Code_UnmarshalText_def unknown_code_text [OF assms]
        CutPrefix_def HasPrefix_def)
qed

interpretation code_text: round_trip "\<lambda>_. True" Code_MarshalText Code_UnmarshalText
  by unfold_locales (metis Code_unmarshal_known Code_unmarshal_unknown)

lemma Code_String_eq_iff: "Code_String a = Code_String b \<longleftrightarrow> a = b"
  using code_text.encode_eq_iff [of a b]
  by (metis Code_MarshalText_def)

lemma connectCodeToHTTP_range: "connectCodeToHTTP c \<in> {400, 401, 403, 404, 409, 429, 499, 500, 501, 503, 504}"
  by (simp add: connectCodeToHTTP_def)

lemma connectCodeToHTTP_not_ok: "connectCodeToHTTP c \<noteq> 200" "connectCodeToHTTP c \<noteq> 304"
  using connectCodeToHTTP_range [of c] by auto

lemma httpToCode_known: "known_code (httpToCode h)"
  by (simp add: httpToCode_def known_code_def word_le_nat_alt)

end
