(* ===== verification/Rpc_Error.thy ===== *)
theory Rpc_Error
  imports Codes
begin

section \<open>Errors (connect.go, connecthttp/error.go, connectinprocess/stream.go)\<close>

text \<open>
  Go errors as a datatype: the sentinel errors of the standard library and of this repository,
  plain and wrapping errors, joined errors, \<open>http.MaxBytesError\<close>, \<open>url.Error\<close>, and
  \<open>*connect.Error\<close>. \<open>chain\<close> lists an error and everything it unwraps to in the order in
  which \<open>errors.Is\<close> and \<open>errors.As\<close> visit it.

  The operations of \<open>connect.Error\<close>, the translations that connecthttp applies at the edges
  of the wire (\<open>wrapIf...\<close>, \<open>scrubHandlerError\<close>) and the one of the in-process transport
  (\<open>asClientErr\<close>) follow. The lemmas show that the translations leave coded errors alone,
  always produce a coded error where they promise one, and never let the text of an error that
  is not a locally authored \<open>*connect.Error\<close> through.
\<close>

subsection \<open>Error values\<close>

datatype sentinel =
    EOF                        \<comment> \<open>io.EOF\<close>
  | ErrUnexpectedEOF           \<comment> \<open>io.ErrUnexpectedEOF\<close>
  | ErrClosedPipe              \<comment> \<open>io.ErrClosedPipe\<close>
  | Canceled                   \<comment> \<open>context.Canceled\<close>
  | DeadlineExceeded           \<comment> \<open>context.DeadlineExceeded\<close>
  | OsErrDeadlineExceeded      \<comment> \<open>os.ErrDeadlineExceeded\<close>
  | ErrNotModified             \<comment> \<open>connecthttp.errNotModified\<close>
  | ErrNotModifiedClient       \<comment> \<open>connecthttp.errNotModifiedClient\<close>
  | ErrNoTimeout               \<comment> \<open>connecthttp.errNoTimeout\<close>
  | ErrTrailersWithoutGRPCStatus \<comment> \<open>connecthttp.errTrailersWithoutGRPCStatus\<close>

record error_detail =
  Type :: string
  Value :: bytes
  Debug :: bytes

text \<open>\<open>ce_ident\<close> is the name of the package variable that holds the pointer, or empty for a
  freshly allocated error: \<open>errors.Is\<close> compares pointers.\<close>

datatype go_error =
    Sentinel sentinel
  | Plain string
  | Wrap string go_error
  | JoinErr "go_error list"
  | MaxBytesErr int
  | UrlErr string string go_error
  | Coded connect_error
and connect_error =
  ConnectError (ce_ident: string) (ce_code: code) (ce_message: string)
    (ce_details: "error_detail list") (ce_cause: "go_error option") (ce_remote: bool)

fun sentinel_text :: "sentinel \<Rightarrow> string" where
  "sentinel_text EOF = ''EOF''"
| "sentinel_text ErrUnexpectedEOF = ''unexpected EOF''"
| "sentinel_text ErrClosedPipe = ''io: read/write on closed pipe''"
| "sentinel_text Canceled = ''context canceled''"
| "sentinel_text DeadlineExceeded = ''context deadline exceeded''"
| "sentinel_text OsErrDeadlineExceeded = ''i/o timeout''"
| "sentinel_text ErrNotModified = ''not modified''"
| "sentinel_text ErrNotModifiedClient = ''HTTP 304: not modified''"
| "sentinel_text ErrNoTimeout = ''no timeout''"
| "sentinel_text ErrTrailersWithoutGRPCStatus =
     ''protocol error: no Grpc-Status trailer: unexpected EOF''"

fun sentinel_unwrap :: "sentinel \<Rightarrow> sentinel option" where
  "sentinel_unwrap ErrNotModifiedClient = Some ErrNotModified"
| "sentinel_unwrap ErrTrailersWithoutGRPCStatus = Some ErrUnexpectedEOF"
| "sentinel_unwrap _ = None"

subsection \<open>connect.Error\<close>

definition NewError :: "code \<Rightarrow> string \<Rightarrow> connect_error" where
  "NewError code message = ConnectError [] code message [] None False"

definition Errorf :: "code \<Rightarrow> string \<Rightarrow> string list \<Rightarrow> connect_error" where
  "Errorf code format args = NewError code (Sprintf format args)"

definition Error_Code :: "connect_error \<Rightarrow> code" where
  "Error_Code e = (if ce_code e = 0 then CodeUnknown else ce_code e)"

definition Error_Message :: "connect_error \<Rightarrow> string" where
  "Error_Message e = ce_message e"

definition Error_Details :: "connect_error \<Rightarrow> error_detail list" where
  "Error_Details e = ce_details e"

definition IsRemote :: "connect_error \<Rightarrow> bool" where
  "IsRemote e = ce_remote e"

definition Error_Unwrap :: "connect_error \<Rightarrow> go_error option" where
  "Error_Unwrap e = ce_cause e"

definition Error_Error :: "connect_error \<Rightarrow> string" where
  "Error_Error e =
     (if Error_Message e = [] then Code_String (Error_Code e)
      else Code_String (Error_Code e) @ '': '' @ Error_Message e)"

definition WithDetail :: "connect_error \<Rightarrow> error_detail option \<Rightarrow> connect_error" where
  "WithDetail e detail =
     (case detail of
        None \<Rightarrow> e
      | Some d \<Rightarrow>
          ConnectError [] (ce_code e) (ce_message e) (ce_details e @ [d]) (ce_cause e) (ce_remote e))"

definition WithCause :: "connect_error \<Rightarrow> go_error option \<Rightarrow> connect_error" where
  "WithCause e err =
     (case err of
        None \<Rightarrow> e
      | Some x \<Rightarrow>
          ConnectError [] (ce_code e) (ce_message e) (ce_details e)
            (case ce_cause e of None \<Rightarrow> Some x | Some c \<Rightarrow> Some (JoinErr [c, x])) (ce_remote e))"

definition WithRemote :: "connect_error \<Rightarrow> connect_error" where
  "WithRemote e =
     ConnectError [] (ce_code e) (ce_message e) (ce_details e) (ce_cause e) True"

text \<open>The text of any error, as its method \<open>Error()\<close> gives it.\<close>

fun error_text :: "go_error \<Rightarrow> string" where
  "error_text (Sentinel s) = sentinel_text s"
| "error_text (Plain m) = m"
| "error_text (Wrap m e) = m"
| "error_text (JoinErr es) = Join (map error_text es) [CHR 0x0A]"
| "error_text (MaxBytesErr n) = ''http: request body too large''"
| "error_text (UrlErr op url e) = Sprintf ''%s %q: %s'' [op, Quote url, error_text e]"
| "error_text (Coded ce) = Error_Error ce"

subsection \<open>Package errors\<close>

fun chain :: "go_error \<Rightarrow> go_error list" and chain_cause :: "connect_error \<Rightarrow> go_error list" where
  "chain (Sentinel s) =
     Sentinel s # (case sentinel_unwrap s of None \<Rightarrow> [] | Some t \<Rightarrow> [Sentinel t])"
| "chain (Plain m) = [Plain m]"
| "chain (Wrap m e) = Wrap m e # chain e"
| "chain (JoinErr es) = JoinErr es # concat (map chain es)"
| "chain (MaxBytesErr n) = [MaxBytesErr n]"
| "chain (UrlErr op url e) = UrlErr op url e # chain e"
| "chain (Coded ce) = Coded ce # chain_cause ce"
| "chain_cause (ConnectError i c m ds None r) = []"
| "chain_cause (ConnectError i c m ds (Some e) r) = chain e"

definition errors_Is :: "go_error \<Rightarrow> sentinel \<Rightarrow> bool" where
  "errors_Is err s \<longleftrightarrow> Sentinel s \<in> set (chain err)"

fun first_coded :: "go_error list \<Rightarrow> connect_error option" where
  "first_coded [] = None"
| "first_coded (Coded ce # es) = Some ce"
| "first_coded (_ # es) = first_coded es"

fun first_max_bytes :: "go_error list \<Rightarrow> int option" where
  "first_max_bytes [] = None"
| "first_max_bytes (MaxBytesErr n # es) = Some n"
| "first_max_bytes (_ # es) = first_max_bytes es"

fun first_url_error :: "go_error list \<Rightarrow> go_error option" where
  "first_url_error [] = None"
| "first_url_error (UrlErr op url e # es) = Some e"
| "first_url_error (_ # es) = first_url_error es"

text \<open>\<open>errors.Join\<close> drops nil errors and is nil when none is left.\<close>

definition errors_Join :: "go_error option list \<Rightarrow> go_error option" where
  "errors_Join es =
     (let present = concat (map (\<lambda>e. case e of None \<Rightarrow> [] | Some x \<Rightarrow> [x]) es) in
      if present = [] then None else Some (JoinErr present))"

subsection \<open>connecthttp/error.go\<close>

definition asError :: "go_error \<Rightarrow> connect_error option" where
  "asError err = first_coded (chain err)"

definition CodeOf :: "go_error option \<Rightarrow> code" where
  "CodeOf err =
     (case err of
        None \<Rightarrow> CodeUnknown
      | Some e \<Rightarrow> (case asError e of Some ce \<Rightarrow> Error_Code ce | None \<Rightarrow> CodeUnknown))"

definition NewNotModifiedError :: connect_error where
  "NewNotModifiedError =
     WithCause (Errorf CodeUnknown ''%s'' [sentinel_text ErrNotModified])
       (Some (Sentinel ErrNotModified))"

definition IsNotModifiedError :: "go_error option \<Rightarrow> bool" where
  "IsNotModifiedError err =
     (case err of None \<Rightarrow> False | Some e \<Rightarrow> errors_Is e ErrNotModified)"

text \<open>The sentinel of the envelope reader (\<open>envelope.go\<close>), recognised by its pointer.\<close>

definition errSpecialEnvelope :: connect_error where
  "errSpecialEnvelope =
     ConnectError ''errSpecialEnvelope'' CodeUnknown
       ''final message has protocol-specific flags: EOF'' [] (Some (Sentinel EOF)) False"

definition is_errSpecialEnvelope :: "go_error \<Rightarrow> bool" where
  "is_errSpecialEnvelope err \<longleftrightarrow> Coded errSpecialEnvelope \<in> set (chain err)"

definition wrap_as :: "code \<Rightarrow> go_error \<Rightarrow> go_error" where
  "wrap_as code err = Coded (WithCause (NewError code (error_text err)) (Some err))"

definition wrapIfContextError :: "go_error \<Rightarrow> go_error" where
  "wrapIfContextError err =
     (if asError err \<noteq> None then err
      else if errors_Is err Canceled then wrap_as CodeCanceled err
      else if errors_Is err DeadlineExceeded then wrap_as CodeDeadlineExceeded err
      else if errors_Is err OsErrDeadlineExceeded then wrap_as CodeDeadlineExceeded err
      else err)"

definition wrapIfUncoded :: "go_error option \<Rightarrow> go_error option" where
  "wrapIfUncoded err =
     (case err of
        None \<Rightarrow> None
      | Some e \<Rightarrow>
          let maybeCodedErr = wrapIfContextError e in
          if asError maybeCodedErr \<noteq> None then Some maybeCodedErr
          else Some (wrap_as CodeUnknown maybeCodedErr))"

definition scrubHandlerError :: "go_error option \<Rightarrow> go_error option" where
  "scrubHandlerError err =
     (case err of
        None \<Rightarrow> None
      | Some e \<Rightarrow>
          (case asError e of
             Some cerr \<Rightarrow>
               if IsRemote cerr then Some (Coded (WithCause (NewError CodeInternal []) (Some e)))
               else Some e
           | None \<Rightarrow>
               let code =
                 (if errors_Is e Canceled then CodeCanceled
                  else if errors_Is e DeadlineExceeded \<or> errors_Is e OsErrDeadlineExceeded
                  then CodeDeadlineExceeded
                  else CodeUnknown)
               in Some (Coded (WithCause (NewError code []) (Some e)))))"

text \<open>A context is what the code asks of it: its error once it is done, and its deadline in
  nanoseconds. \<open>now\<close> is the clock.\<close>

record context_t =
  cx_err :: "go_error option"
  cx_deadline :: "int option"

definition wrapIfContextDone :: "context_t \<Rightarrow> go_error \<Rightarrow> go_error" where
  "wrapIfContextDone ctx err =
     (let err = wrapIfContextError err in
      if asError err \<noteq> None then err
      else case cx_err ctx of
             None \<Rightarrow> err
           | Some ctxErr \<Rightarrow>
               if errors_Is ctxErr Canceled then wrap_as CodeCanceled err
               else if errors_Is ctxErr DeadlineExceeded then wrap_as CodeDeadlineExceeded err
               else err)"

definition wrapIfLikelyH2CNotConfiguredError :: "string option \<Rightarrow> go_error \<Rightarrow> go_error" where
  \<comment> \<open>the first argument is the scheme of the request's URL, \<open>None\<close> for a nil URL\<close>
  "wrapIfLikelyH2CNotConfiguredError scheme err =
     (if asError err \<noteq> None then err
      else if scheme \<noteq> None \<and> scheme \<noteq> Some ''http'' then err
      else let errString = error_text err in
           if HasPrefix errString (''Post '' @ [CHR 0x22])
              \<and> (Contains errString ''net/http: HTTP/1.x transport connection broken: malformed HTTP response''
                 \<or> HasSuffix errString ''write: broken pipe'')
           then Wrap (Sprintf ''possible h2c configuration issue when talking to gRPC server, see %s: %w''
                        [''https://connectrpc.com/docs/go/common-errors'', errString]) err
           else err)"

definition wrapIfLikelyWithGRPCNotUsedError :: "go_error \<Rightarrow> go_error" where
  "wrapIfLikelyWithGRPCNotUsedError err =
     (if asError err \<noteq> None then err
      else let errString = error_text err in
           if HasPrefix errString (''Post '' @ [CHR 0x22])
              \<and> Contains errString ''http2: Transport: cannot retry err''
              \<and> HasSuffix errString ''after Request.Body was written; define Request.GetBody to avoid this error''
           then Wrap (Sprintf ''possible missing connecthttp.WithGRPC() client option when talking to gRPC server, see %s: %w''
                        [''https://connectrpc.com/docs/go/common-errors'', errString]) err
           else err)"

definition rst_code_name :: "string \<Rightarrow> string option" where
  \<comment> \<open>the HTTP/2 error code at the end of a stream error's text, lines 229 to 242\<close>
  "rst_code_name msg =
     (if \<not> HasPrefix msg ''stream error: '' then None
      else if \<not> HasSuffix msg ''; received from peer'' then None
      else let msg = TrimSuffix msg ''; received from peer'';
               i = after_last msg CHR '';''
           in if i = 0 \<or> i \<ge> length msg then None
              else Some (TrimSpace (drop i msg)))"

definition wrapIfRSTError :: "int \<Rightarrow> context_t \<Rightarrow> go_error \<Rightarrow> go_error" where
  "wrapIfRSTError now ctx err =
     (if asError err \<noteq> None then err
      else let err = (case first_url_error (chain err) of Some e \<Rightarrow> e | None \<Rightarrow> err) in
           case rst_code_name (error_text err) of
             None \<Rightarrow> err
           | Some msg \<Rightarrow>
               if msg \<in> set [''NO_ERROR'', ''PROTOCOL_ERROR'', ''INTERNAL_ERROR'',
                   ''FLOW_CONTROL_ERROR'', ''SETTINGS_TIMEOUT'', ''FRAME_SIZE_ERROR'',
                   ''COMPRESSION_ERROR'', ''CONNECT_ERROR'']
               then wrap_as CodeInternal err
               else if msg = ''REFUSED_STREAM'' then wrap_as CodeUnavailable err
               else if msg = ''CANCEL'' then
                 (case cx_deadline ctx of
                    Some deadline \<Rightarrow>
                      if now > deadline then wrap_as CodeDeadlineExceeded err
                      else wrap_as CodeCanceled err
                  | None \<Rightarrow> wrap_as CodeCanceled err)
               else if msg = ''ENHANCE_YOUR_CALM'' then
                 Coded (WithCause (Errorf CodeResourceExhausted ''bandwidth exhausted: %v''
                          [error_text err]) (Some err))
               else if msg = ''INADEQUATE_SECURITY'' then
                 Coded (WithCause (Errorf CodePermissionDenied ''transport protocol insecure: %v''
                          [error_text err]) (Some err))
               else err)"

definition wrapIfMaxBytesError :: "string \<Rightarrow> go_error \<Rightarrow> go_error" where
  \<comment> \<open>the first argument is the formatted prefix \<open>fmt.Sprintf(tmpl, args...)\<close>\<close>
  "wrapIfMaxBytesError prefix err =
     (if asError err \<noteq> None then err
      else case first_max_bytes (chain err) of
             None \<Rightarrow> err
           | Some limit \<Rightarrow>
               Coded (Errorf CodeResourceExhausted ''%s: exceeded %d byte http.MaxBytesReader limit''
                 [prefix, itoa limit]))"

subsection \<open>connectinprocess/stream.go\<close>

definition asClientErr :: "go_error option \<Rightarrow> go_error option" where
  "asClientErr err =
     (case err of
        None \<Rightarrow> None
      | Some e \<Rightarrow>
          (case asError e of
             Some cerr \<Rightarrow>
               if IsRemote cerr
               then Some (Coded (WithRemote (WithCause (NewError CodeInternal []) (Some e))))
               else Some (Coded (WithRemote cerr))
           | None \<Rightarrow>
               let code =
                 (if errors_Is e Canceled then CodeCanceled
                  else if errors_Is e DeadlineExceeded then CodeDeadlineExceeded
                  else CodeUnknown)
               in Some (Coded (WithRemote (WithCause (NewError code []) (Some e))))))"

subsection \<open>Lemmas: connect.Error\<close>

lemmas connect_error_defs =
  NewError_def Errorf_def Error_Code_def Error_Message_def Error_Details_def IsRemote_def
  WithDetail_def WithCause_def WithRemote_def

lemma ce_NewError [simp]:
  "ce_code (NewError c m) = c" "ce_message (NewError c m) = m" "ce_details (NewError c m) = []"
  "ce_cause (NewError c m) = None" "ce_remote (NewError c m) = False" "ce_ident (NewError c m) = []"
  by (simp_all add: NewError_def)

lemma ce_WithCause [simp]:
  "ce_code (WithCause e x) = ce_code e" "ce_message (WithCause e x) = ce_message e"
  "ce_details (WithCause e x) = ce_details e" "ce_remote (WithCause e x) = ce_remote e"
  by (simp_all add: WithCause_def split: option.splits)

lemma ce_WithRemote [simp]:
  "ce_code (WithRemote e) = ce_code e" "ce_message (WithRemote e) = ce_message e"
  "ce_details (WithRemote e) = ce_details e" "ce_remote (WithRemote e) = True"
  "ce_cause (WithRemote e) = ce_cause e"
  by (simp_all add: WithRemote_def)

lemma ce_WithDetail [simp]:
  "ce_code (WithDetail e d) = ce_code e" "ce_message (WithDetail e d) = ce_message e"
  "ce_details (WithDetail e d) = ce_details e @ (case d of None \<Rightarrow> [] | Some x \<Rightarrow> [x])"
  "ce_cause (WithDetail e d) = ce_cause e" "ce_remote (WithDetail e d) = ce_remote e"
  by (simp_all add: WithDetail_def split: option.splits)

lemma ce_Errorf [simp]:
  "ce_code (Errorf c f as) = c" "ce_message (Errorf c f as) = Sprintf f as"
  "ce_details (Errorf c f as) = []" "ce_cause (Errorf c f as) = None"
  "ce_remote (Errorf c f as) = False"
  by (simp_all add: Errorf_def)

lemma Error_Code_nonzero [simp]: "Error_Code e \<noteq> 0"
  by (simp add: Error_Code_def)

text \<open>Causes accumulate: the newest cause is always reachable by \<open>errors.Is\<close>.\<close>

lemma chain_cause_conv: "chain_cause ce = (case ce_cause ce of None \<Rightarrow> [] | Some e \<Rightarrow> chain e)"
  by (cases ce) (auto split: option.splits)

lemma chain_Coded: "chain (Coded ce) = Coded ce # (case ce_cause ce of None \<Rightarrow> [] | Some e \<Rightarrow> chain e)"
  by (simp add: chain_cause_conv)

lemma self_in_chain [simp]: "e \<in> set (chain e)"
  by (cases e) (simp_all add: chain_Coded)

lemma errors_Is_WithCause:
  "errors_Is (Coded (WithCause ce (Some x))) s \<longleftrightarrow> errors_Is (Coded ce) s \<or> errors_Is x s"
  by (cases "ce_cause ce") (auto simp: errors_Is_def chain_cause_conv WithCause_def)

lemma errors_Is_Coded:
  "errors_Is (Coded ce) s \<longleftrightarrow> (case ce_cause ce of None \<Rightarrow> False | Some e \<Rightarrow> errors_Is e s)"
  by (auto simp: errors_Is_def chain_cause_conv split: option.splits)

lemma errors_Is_Sentinel:
  "errors_Is (Sentinel t) s \<longleftrightarrow> t = s \<or> sentinel_unwrap t = Some s"
  by (cases t; cases s) (simp_all add: errors_Is_def)

lemma asError_Coded [simp, coded_simps]: "asError (Coded ce) = Some ce"
  by (simp add: asError_def chain_Coded)

lemma asError_Sentinel [simp, coded_simps]: "asError (Sentinel s) = None"
  by (cases s) (simp_all add: asError_def)

lemma asError_Wrap [simp, coded_simps]: "asError (Wrap m e) = asError e"
  by (simp add: asError_def)

lemma asError_Plain [simp, coded_simps]: "asError (Plain m) = None"
  by (simp add: asError_def)

lemma asError_MaxBytes [simp, coded_simps]: "asError (MaxBytesErr n) = None"
  by (simp add: asError_def)

lemma asError_wrap_as [simp, coded_simps]:
  "asError (wrap_as c e) = Some (WithCause (NewError c (error_text e)) (Some e))"
  by (simp add: wrap_as_def)

lemma first_coded_mem: "first_coded es = Some ce \<Longrightarrow> Coded ce \<in> set es"
  by (induction es rule: first_coded.induct) auto

lemma first_coded_None: "first_coded es = None \<longleftrightarrow> (\<forall>ce. Coded ce \<notin> set es)"
  by (induction es rule: first_coded.induct) auto

subsection \<open>Error translations share a contract\<close>

text \<open>Every translation of an error at the edge of the wire keeps an error that already carries
  a code. The lemmas of the locale hold for any sequence of such translations, as
  \<open>duplexHTTPCall.makeRequest\<close> applies them.\<close>

locale error_wrapper =
  fixes wrap :: "go_error \<Rightarrow> go_error"
  assumes keeps_coded: "asError e \<noteq> None \<Longrightarrow> wrap e = e"
begin

lemma keeps_code: "asError e \<noteq> None \<Longrightarrow> CodeOf (Some (wrap e)) = CodeOf (Some e)"
  by (simp add: keeps_coded)

lemma still_coded: "asError e \<noteq> None \<Longrightarrow> asError (wrap e) \<noteq> None"
  by (simp add: keeps_coded)

lemma idem_if_coded: "asError (wrap e) \<noteq> None \<Longrightarrow> wrap (wrap e) = wrap e"
  by (rule keeps_coded)

lemma compose: "error_wrapper other \<Longrightarrow> error_wrapper (\<lambda>e. other (wrap e))"
  by (simp add: error_wrapper_def keeps_coded)

end

interpretation ctx_err: error_wrapper wrapIfContextError
  by unfold_locales (simp add: wrapIfContextError_def)

interpretation ctx_done: error_wrapper "wrapIfContextDone ctx" for ctx
  by unfold_locales (simp add: wrapIfContextDone_def wrapIfContextError_def)

interpretation h2c_err: error_wrapper "wrapIfLikelyH2CNotConfiguredError scheme" for scheme
  by unfold_locales (simp add: wrapIfLikelyH2CNotConfiguredError_def)

interpretation no_grpc_err: error_wrapper wrapIfLikelyWithGRPCNotUsedError
  by unfold_locales (simp add: wrapIfLikelyWithGRPCNotUsedError_def)

interpretation rst_err: error_wrapper "wrapIfRSTError now ctx" for now ctx
  by unfold_locales (simp add: wrapIfRSTError_def)

interpretation max_bytes_err: error_wrapper "wrapIfMaxBytesError prefix" for prefix
  by unfold_locales (simp add: wrapIfMaxBytesError_def)

lemma wrapIfContextError_cases:
  "wrapIfContextError e = e \<or> asError e = None \<and>
     (wrapIfContextError e = wrap_as CodeCanceled e \<or>
      wrapIfContextError e = wrap_as CodeDeadlineExceeded e)"
  by (simp add: wrapIfContextError_def)

lemma wrapIfContextError_uncoded:
  "asError (wrapIfContextError e) = None \<longleftrightarrow>
     asError e = None \<and> \<not> errors_Is e Canceled \<and> \<not> errors_Is e DeadlineExceeded
       \<and> \<not> errors_Is e OsErrDeadlineExceeded"
  by (auto simp: wrapIfContextError_def)

lemma wrapIfUncoded_coded: "wrapIfUncoded (Some e) = Some e' \<Longrightarrow> asError e' \<noteq> None"
  by (auto simp: wrapIfUncoded_def Let_def split: if_splits)

lemma wrapIfUncoded_keeps: "asError e \<noteq> None \<Longrightarrow> wrapIfUncoded (Some e) = Some e"
  by (simp add: wrapIfUncoded_def ctx_err.keeps_coded)

lemma wrapIfUncoded_idem: "wrapIfUncoded (wrapIfUncoded err) = wrapIfUncoded err"
proof (cases err)
  case None
  then show ?thesis by (simp add: wrapIfUncoded_def)
next
  case (Some e)
  obtain e' where e': "wrapIfUncoded (Some e) = Some e'"
    by (cases "wrapIfUncoded (Some e)") (simp_all add: wrapIfUncoded_def Let_def split: if_splits)
  then have "asError e' \<noteq> None" by (rule wrapIfUncoded_coded)
  with Some e' show ?thesis by (simp add: wrapIfUncoded_keeps)
qed

lemma wrapIfUncoded_None [simp]: "wrapIfUncoded None = None"
  by (simp add: wrapIfUncoded_def)

lemma wrapIfUncoded_eq_None [simp]: "wrapIfUncoded err = None \<longleftrightarrow> err = None"
  by (cases err) (simp_all add: wrapIfUncoded_def Let_def)

text \<open>Wrapping keeps what \<open>errors.Is\<close> finds.\<close>

lemma errors_Is_wrap_as [simp]: "errors_Is (wrap_as c e) s \<longleftrightarrow> errors_Is e s"
  unfolding wrap_as_def errors_Is_WithCause by (simp add: errors_Is_Coded)

lemma errors_Is_wrapIfContextError [simp]: "errors_Is (wrapIfContextError e) s \<longleftrightarrow> errors_Is e s"
  by (simp add: wrapIfContextError_def)

lemma errors_Is_wrapIfContextDone [simp]: "errors_Is (wrapIfContextDone ctx e) s \<longleftrightarrow> errors_Is e s"
  by (simp add: wrapIfContextDone_def Let_def split: option.splits)

lemma errors_Is_wrapIfUncoded:
  "wrapIfUncoded (Some e) = Some e' \<Longrightarrow> errors_Is e' s \<longleftrightarrow> errors_Is e s"
  by (auto simp: wrapIfUncoded_def Let_def split: if_splits)

subsection \<open>What a handler's error shows on the wire\<close>

text \<open>What a transport may serialise of an error: the code, message and details of the
  \<open>*connect.Error\<close> that \<open>asError\<close> finds, the bare text of any other error.\<close>

definition wire_view :: "go_error \<Rightarrow> code \<times> string \<times> error_detail list" where
  "wire_view err =
     (case asError err of
        Some ce \<Rightarrow> (Error_Code ce, Error_Message ce, Error_Details ce)
      | None \<Rightarrow> (CodeUnknown, error_text err, []))"

definition locally_authored :: "go_error \<Rightarrow> bool" where
  "locally_authored err = (case asError err of Some ce \<Rightarrow> \<not> IsRemote ce | None \<Rightarrow> False)"

lemma scrub_local: "locally_authored e \<Longrightarrow> scrubHandlerError (Some e) = Some e"
  by (simp add: locally_authored_def scrubHandlerError_def split: option.splits)

lemma scrub_coded: "scrubHandlerError (Some e) = Some e' \<Longrightarrow> asError e' \<noteq> None"
  by (auto simp: scrubHandlerError_def Let_def split: option.splits if_splits)

lemma scrub_foreign:
  assumes "\<not> locally_authored e" and "scrubHandlerError (Some e) = Some e'"
  shows "\<exists>c. wire_view e' = (c, [], []) \<and>
    c \<in> {CodeInternal, CodeCanceled, CodeDeadlineExceeded, CodeUnknown}"
  using assms
  by (auto simp: locally_authored_def scrubHandlerError_def wire_view_def Let_def Error_Code_def
      Error_Message_def Error_Details_def split: option.splits if_splits)

lemma scrub_some: "\<exists>e'. scrubHandlerError (Some e) = Some e'"
  by (auto simp: scrubHandlerError_def Let_def split: option.splits)

lemma asClientErr_remote:
  assumes "asClientErr (Some e) = Some e'"
  shows "\<exists>ce. e' = Coded ce \<and> IsRemote ce"
  using assms by (auto simp: asClientErr_def Let_def IsRemote_def split: option.splits if_splits)

text \<open>The in-process transport shows the client exactly what the wire transports show, up to
  \<open>os.ErrDeadlineExceeded\<close>, which only the wire transports classify as a deadline.\<close>

lemma asClientErr_matches_scrub:
  assumes "\<not> errors_Is e OsErrDeadlineExceeded \<or> asError e \<noteq> None"
    and "asClientErr (Some e) = Some a" and "scrubHandlerError (Some e) = Some b"
  shows "wire_view a = wire_view b"
  using assms
  by (auto simp: asClientErr_def scrubHandlerError_def wire_view_def Let_def Error_Code_def
      Error_Message_def Error_Details_def IsRemote_def split: option.splits if_splits)

end
