(* ===== verification/Go_IO.thy ===== *)
theory Go_IO
  imports Rpc_Error
begin

section \<open>Byte streams (package io) and byte counts\<close>

text \<open>
  An \<open>io.Reader\<close> is the bytes it will still deliver and the error that then ends it
  (\<open>io.EOF\<close> for a clean end); a read that delivers bytes reports no error, the error comes
  with the next read. How the bytes are cut into single reads does not show, since the code only
  reads through \<open>io.ReadFull\<close>, \<open>io.CopyN\<close>, \<open>io.Copy\<close> and \<open>bytes.Buffer.ReadFrom\<close>.
  An \<open>io.Writer\<close> is the bytes written so far, how many more it accepts before it fails, and
  the error it fails with.
\<close>

record reader =
  rd_data :: bytes
  rd_err :: go_error

definition clean_reader :: "bytes \<Rightarrow> reader" where
  "clean_reader bs = \<lparr>rd_data = bs, rd_err = Sentinel EOF\<rparr>"

definition io_ReadFull :: "nat \<Rightarrow> reader \<Rightarrow> bytes \<times> go_error option \<times> reader" where
  "io_ReadFull n r =
     (let d = take n (rd_data r); r' = r\<lparr>rd_data := drop n (rd_data r)\<rparr> in
      if length d = n then (d, None, r')
      else if d \<noteq> [] \<and> rd_err r = Sentinel EOF then (d, Some (Sentinel ErrUnexpectedEOF), r')
      else (d, Some (rd_err r), r'))"

definition io_CopyN :: "nat \<Rightarrow> reader \<Rightarrow> bytes \<times> go_error option \<times> reader" where
  "io_CopyN n r =
     (let d = take n (rd_data r); r' = r\<lparr>rd_data := drop n (rd_data r)\<rparr> in
      if length d = n then (d, None, r') else (d, Some (rd_err r), r'))"

text \<open>Reading to the end, through an \<open>io.LimitReader\<close> where a limit is given: the limited
  reader reports a clean end once the limit is used up.\<close>

definition io_ReadAll :: "nat option \<Rightarrow> reader \<Rightarrow> bytes \<times> go_error option \<times> reader" where
  "io_ReadAll limit r =
     (case limit of
        Some n \<Rightarrow>
          if n \<le> length (rd_data r)
          then (take n (rd_data r), None, r\<lparr>rd_data := drop n (rd_data r)\<rparr>)
          else (rd_data r, if rd_err r = Sentinel EOF then None else Some (rd_err r),
                r\<lparr>rd_data := []\<rparr>)
      | None \<Rightarrow>
          (rd_data r, if rd_err r = Sentinel EOF then None else Some (rd_err r),
           r\<lparr>rd_data := []\<rparr>))"

abbreviation discardLimit :: nat where "discardLimit \<equiv> 1024 * 1024 * 4"

text \<open>\<open>discard\<close> in \<open>protocol.go\<close>; none of the readers it is given is itself an
  \<open>io.LimitedReader\<close>.\<close>

definition discard :: "reader \<Rightarrow> int \<times> go_error option \<times> reader" where
  "discard r = (case io_ReadAll (Some discardLimit) r of (d, e, r') \<Rightarrow> (int (length d), e, r'))"

record writer =
  w_out :: bytes
  w_room :: "nat option"
  w_err :: go_error

definition io_Write :: "bytes \<Rightarrow> writer \<Rightarrow> nat \<times> go_error option \<times> writer" where
  "io_Write bs w =
     (case w_room w of
        None \<Rightarrow> (length bs, None, w\<lparr>w_out := w_out w @ bs\<rparr>)
      | Some k \<Rightarrow>
          if length bs \<le> k
          then (length bs, None, w\<lparr>w_out := w_out w @ bs, w_room := Some (k - length bs)\<rparr>)
          else (k, Some (w_err w), w\<lparr>w_out := w_out w @ take k bs, w_room := Some 0\<rparr>))"

definition good_writer :: writer where
  "good_writer = \<lparr>w_out = [], w_room = None, w_err = Plain []\<rparr>"

text \<open>\<open>connect.MessageStats\<close>.\<close>

record message_stats =
  Size :: int
  CompressedSize :: int

abbreviation max_int64 :: int where "max_int64 \<equiv> 2 ^ 63 - 1"

subsection \<open>Lemmas\<close>

lemma io_Write_good [simp]:
  "w_room w = None \<Longrightarrow> io_Write bs w = (length bs, None, w\<lparr>w_out := w_out w @ bs\<rparr>)"
  by (simp add: io_Write_def)

lemma io_Write_error_iff:
  "io_Write bs w = (n, e, w') \<Longrightarrow> e = None \<longleftrightarrow> n = length bs"
  by (auto simp: io_Write_def split: option.splits if_splits)

lemma io_Write_out: "io_Write bs w = (n, e, w') \<Longrightarrow> w_out w' = w_out w @ take n bs \<and> n \<le> length bs"
  by (auto simp: io_Write_def split: option.splits if_splits)

lemma io_ReadFull_ok:
  "n \<le> length (rd_data r) \<Longrightarrow>
     io_ReadFull n r = (take n (rd_data r), None, r\<lparr>rd_data := drop n (rd_data r)\<rparr>)"
  by (simp add: io_ReadFull_def Let_def)

lemma io_CopyN_ok:
  "n \<le> length (rd_data r) \<Longrightarrow>
     io_CopyN n r = (take n (rd_data r), None, r\<lparr>rd_data := drop n (rd_data r)\<rparr>)"
  by (simp add: io_CopyN_def Let_def)

lemma io_CopyN_short:
  "length (rd_data r) < n \<Longrightarrow>
     io_CopyN n r = (rd_data r, Some (rd_err r), r\<lparr>rd_data := []\<rparr>)"
  by (simp add: io_CopyN_def Let_def)

lemma io_ReadFull_empty:
  "rd_data r = [] \<Longrightarrow> 0 < n \<Longrightarrow> io_ReadFull n r = ([], Some (rd_err r), r)"
  by (simp add: io_ReadFull_def Let_def)

lemma io_ReadFull_err: "rd_err r' = rd_err r" if "io_ReadFull n r = (d, e, r')"
  using that by (auto simp: io_ReadFull_def Let_def split: if_splits)

lemma io_CopyN_err: "rd_err r' = rd_err r" if "io_CopyN n r = (d, e, r')"
  using that by (auto simp: io_CopyN_def Let_def split: if_splits)

lemma io_CopyN_length: "length d \<le> n" if "io_CopyN n r = (d, e, r')"
  using that by (auto simp: io_CopyN_def Let_def split: if_splits)

end
