(* ===== verification/Compression.thy ===== *)
theory Compression
  imports Go_IO
begin

section \<open>Compressors, codecs and their registries (connecthttp/compression.go, codec.go)\<close>

text \<open>
  A \<open>connect.Compressor\<close> is code outside the repository (gzip comes from the standard library,
  others from users), so a compressor is a record of functions: its name, what compressing a
  payload leaves in the destination buffer, and the byte stream that decompressing yields.
  \<open>compressionPool\<close> drives it; the registries \<open>namedCompressionPools\<close> and \<open>codecMap\<close>
  keep the first entry of every name. \<open>negotiateCompression\<close> is in \<open>protocol.go\<close>. The lemmas
  show that decompression is bounded by the read limit and exact below it, and what negotiation
  may answer.
\<close>

subsection \<open>Compression pools\<close>

text \<open>\<open>c_Compress\<close>: \<open>Inl\<close> is the error of \<open>Compress(dst)\<close>; otherwise the error of
  writing the payload, if any, and the destination's contents once the writer is closed.
  \<open>c_Decompress\<close>: \<open>Inl\<close> is the error of \<open>Decompress(src)\<close>.\<close>

record compressor =
  c_Name :: string
  c_Compress :: "bytes \<Rightarrow> go_error + (go_error option \<times> bytes)"
  c_Decompress :: "bytes \<Rightarrow> go_error + reader"

type_synonym compression_pool = compressor

definition newCompressionPool :: "compressor option \<Rightarrow> compression_pool option" where
  "newCompressionPool compressor = (case compressor of None \<Rightarrow> None | Some c \<Rightarrow> Some c)"

text \<open>A result of type \<open>connect_error + bytes\<close>: the error, or the contents of \<open>dst\<close>.\<close>

definition compressionPool_Decompress ::
  "compression_pool \<Rightarrow> bytes \<Rightarrow> int \<Rightarrow> connect_error + bytes" where
  "compressionPool_Decompress c src readMaxBytes =
     (case c_Decompress c src of
        Inl err \<Rightarrow>
          Inl (WithCause (Errorf CodeInvalidArgument ''get decompressor: %s'' [error_text err]) (Some err))
      | Inr decompressor \<Rightarrow>
          let limit = (if readMaxBytes > 0 \<and> readMaxBytes < max_int64
                       then Some (nat (readMaxBytes + 1)) else None)
          in case io_ReadAll limit decompressor of
               (dst, Some err, rest) \<Rightarrow>
                 let err = wrapIfContextError err in
                 (case asError err of
                    Some connectErr \<Rightarrow> Inl connectErr
                  | None \<Rightarrow>
                      Inl (WithCause (Errorf CodeInvalidArgument ''decompress: %s'' [error_text err])
                             (Some err)))
             | (dst, None, rest) \<Rightarrow>
                 if readMaxBytes > 0 \<and> int (length dst) > readMaxBytes then
                   (case io_ReadAll None rest of
                      (discarded, Some err, _) \<Rightarrow>
                        Inl (WithCause (Errorf CodeResourceExhausted
                          ''message is larger than configured max %d - unable to determine message size: %s''
                          [itoa readMaxBytes, error_text err]) (Some err))
                    | (discarded, None, _) \<Rightarrow>
                        Inl (Errorf CodeResourceExhausted
                          ''message size %d is larger than configured max %d''
                          [itoa (int (length dst) + int (length discarded)), itoa readMaxBytes]))
                 else Inr dst)"

definition compressionPool_Compress :: "compression_pool \<Rightarrow> bytes \<Rightarrow> connect_error + bytes" where
  "compressionPool_Compress c src =
     (case c_Compress c src of
        Inl err \<Rightarrow>
          Inl (WithCause (Errorf CodeUnknown ''get compressor: %s'' [error_text err]) (Some err))
      | Inr (Some err, _) \<Rightarrow>
          let err = wrapIfContextError err in
          (case asError err of
             Some connectErr \<Rightarrow> Inl connectErr
           | None \<Rightarrow>
               Inl (WithCause (Errorf CodeInternal ''compress: %s'' [error_text err]) (Some err)))
      | Inr (None, dst) \<Rightarrow> Inr dst)"

subsection \<open>Registries\<close>

abbreviation CompressionNameIdentity :: string where "CompressionNameIdentity \<equiv> ''identity''"
abbreviation CompressionNameGzip :: string where "CompressionNameGzip \<equiv> ''gzip''"

record compression_pools =
  nameToPool :: "(string \<times> compression_pool) list"
  commaSeparatedNames :: string

text \<open>The loop of \<open>newReadOnlyCompressionPools\<close>: a repeated name is skipped.\<close>

fun collect_pools ::
  "(string \<times> compression_pool) list \<Rightarrow> string list \<Rightarrow> compressor list
     \<Rightarrow> (string \<times> compression_pool) list \<times> string list" where
  "collect_pools pools names [] = (pools, names)"
| "collect_pools pools names (c # cs) =
     (if has_key pools (c_Name c) then collect_pools pools names cs
      else collect_pools (AList.update (c_Name c) c pools) (names @ [c_Name c]) cs)"

definition newReadOnlyCompressionPools :: "compressor list \<Rightarrow> compression_pools" where
  "newReadOnlyCompressionPools compressors =
     (case collect_pools [] [] compressors of
        (pools, names) \<Rightarrow> \<lparr>nameToPool = pools, commaSeparatedNames = Join names '',''\<rparr>)"

definition pools_Get :: "compression_pools \<Rightarrow> string \<Rightarrow> compression_pool option" where
  "pools_Get m name =
     (if name = [] \<or> name = CompressionNameIdentity then None else map_of (nameToPool m) name)"

definition pools_Contains :: "compression_pools \<Rightarrow> string \<Rightarrow> bool" where
  "pools_Contains m name = has_key (nameToPool m) name"

definition CommaSeparatedNames :: "compression_pools \<Rightarrow> string" where
  "CommaSeparatedNames m = commaSeparatedNames m"

text \<open>A \<open>connect.Codec\<close>: its name, what \<open>MarshalWrite\<close> appends to a fresh buffer, and
  \<open>UnmarshalRead\<close>, which updates a message. \<open>codec_stable\<close> is \<open>MarshalWriteStable\<close> and
  \<open>IsBinary\<close> where the codec is a \<open>connect.StableCodec\<close>.\<close>

record 'm codec =
  codec_Name :: string
  codec_MarshalWrite :: "'m \<Rightarrow> go_error + bytes"
  codec_UnmarshalRead :: "bytes \<Rightarrow> 'm \<Rightarrow> go_error + 'm"
  codec_stable :: "(('m \<Rightarrow> go_error + bytes) \<times> bool) option"

fun newReadOnlyCodecs :: "(string \<times> 'm codec) list \<Rightarrow> 'm codec list \<Rightarrow> (string \<times> 'm codec) list" where
  "newReadOnlyCodecs m [] = m"
| "newReadOnlyCodecs m (c # cs) =
     (if has_key m (codec_Name c) then newReadOnlyCodecs m cs
      else newReadOnlyCodecs (AList.update (codec_Name c) c m) cs)"

definition codecs_Get :: "(string \<times> 'm codec) list \<Rightarrow> string \<Rightarrow> 'm codec option" where
  "codecs_Get m name = map_of m name"

definition codecs_Protobuf :: "'m codec \<Rightarrow> (string \<times> 'm codec) list \<Rightarrow> 'm codec" where
  \<comment> \<open>the first argument stands for \<open>&connectproto.BinaryCodec{}\<close>\<close>
  "codecs_Protobuf binaryCodec m =
     (case map_of m ''proto'' of Some pb \<Rightarrow> pb | None \<Rightarrow> binaryCodec)"

definition codecs_Names :: "(string \<times> 'm codec) list \<Rightarrow> string list" where
  "codecs_Names m = map fst m"

subsection \<open>Negotiation (connecthttp/protocol.go)\<close>

definition isCommaOrSpace :: "char \<Rightarrow> bool" where
  "isCommaOrSpace c \<longleftrightarrow> c = CHR '','' \<or> c = CHR '' ''"

definition negotiateCompression ::
  "compression_pools \<Rightarrow> string \<Rightarrow> string \<Rightarrow> connect_error + (string \<times> string)" where
  "negotiateCompression availableCompressors sent accept =
     (if sent \<noteq> [] \<and> sent \<noteq> CompressionNameIdentity \<and> \<not> pools_Contains availableCompressors sent
      then Inl (Errorf CodeUnimplemented ''unknown compression %q: supported encodings are %v''
                  [Quote sent, CommaSeparatedNames availableCompressors])
      else
        let requestCompression =
              (if sent \<noteq> [] \<and> sent \<noteq> CompressionNameIdentity then sent else CompressionNameIdentity);
            responseCompression =
              (if requestCompression = CompressionNameIdentity \<and> accept \<noteq> []
               then (case find (pools_Contains availableCompressors)
                             (FieldsFunc isCommaOrSpace [] accept) of
                       Some name \<Rightarrow> name
                     | None \<Rightarrow> requestCompression)
               else requestCompression)
        in Inr (requestCompression, responseCompression))"

subsection \<open>Lemmas\<close>

lemma wf_collect_pools:
  "wf_map pools \<Longrightarrow> wf_map (fst (collect_pools pools names cs))"
  by (induction pools names cs rule: collect_pools.induct) auto

lemma collect_pools_lookup:
  "map_of (fst (collect_pools pools names cs)) n =
     (case map_of pools n of Some c \<Rightarrow> Some c | None \<Rightarrow> find (\<lambda>c. c_Name c = n) cs)"
  by (induction pools names cs rule: collect_pools.induct)
    (auto simp: has_key_def split: option.splits)

lemma collect_pools_names:
  "set names = fst ` set pools \<Longrightarrow>
     set (snd (collect_pools pools names cs)) = fst ` set (fst (collect_pools pools names cs))"
  by (induction pools names cs rule: collect_pools.induct) (simp_all add: dom_update)

lemma pools_lookup:
  "map_of (nameToPool (newReadOnlyCompressionPools cs)) n = find (\<lambda>c. c_Name c = n) cs"
  by (simp add: newReadOnlyCompressionPools_def collect_pools_lookup split: prod.splits)
    (metis collect_pools_lookup fst_conv map_of.simps(1) option.case(1))

lemma newReadOnlyCodecs_lookup:
  "map_of (newReadOnlyCodecs m cs) n =
     (case map_of m n of Some c \<Rightarrow> Some c | None \<Rightarrow> find (\<lambda>c. codec_Name c = n) cs)"
  by (induction m cs rule: newReadOnlyCodecs.induct)
    (auto simp: has_key_def split: option.splits)

lemma find_SomeD: "find P xs = Some x \<Longrightarrow> x \<in> set xs \<and> P x"
  by (auto simp: find_Some_iff)

text \<open>Decompression never yields more than the limit, and below it yields everything.\<close>

lemma Decompress_bounded:
  assumes "compressionPool_Decompress c src limit = Inr dst" and "0 < limit"
  shows "int (length dst) \<le> limit"
  using assms
  by (auto simp: compressionPool_Decompress_def Let_def
      split: sum.splits prod.splits option.splits if_splits)

lemma Decompress_exact:
  assumes "c_Decompress c src = Inr r" and "rd_err r = Sentinel EOF"
    and "limit \<le> 0 \<or> int (length (rd_data r)) \<le> limit"
  shows "compressionPool_Decompress c src limit = Inr (rd_data r)"
  using assms by (auto simp: compressionPool_Decompress_def io_ReadAll_def Let_def)

lemma Decompress_too_large:
  assumes "c_Decompress c src = Inr r" and "rd_err r = Sentinel EOF"
    and "0 < limit" and "int (length (rd_data r)) > limit"
  shows "compressionPool_Decompress c src limit =
    Inl (Errorf CodeResourceExhausted ''message size %d is larger than configured max %d''
      [itoa (int (length (rd_data r))), itoa limit])"
  using assms by (auto simp: compressionPool_Decompress_def io_ReadAll_def Let_def)

lemma negotiate_request:
  assumes "negotiateCompression m sent accept = Inr (req, resp)"
  shows "req = CompressionNameIdentity \<or> (req = sent \<and> pools_Contains m req)"
  using assms by (auto simp: negotiateCompression_def Let_def split: if_splits)

lemma negotiate_response:
  assumes "negotiateCompression m sent accept = Inr (req, resp)"
  shows "resp = CompressionNameIdentity \<or> pools_Contains m resp"
  using assms
  by (auto simp: negotiateCompression_def Let_def split: if_splits option.splits dest: find_SomeD)

lemma negotiate_symmetric:
  assumes "negotiateCompression m sent accept = Inr (req, resp)" and "req \<noteq> CompressionNameIdentity"
  shows "resp = req"
  using assms by (auto simp: negotiateCompression_def Let_def split: if_splits)

end
