(* ===== verification/Headers.thy ===== *)
theory Headers
  imports Compression
begin

section \<open>Headers (connect.go: Header; connecthttp/header.go)\<close>

text \<open>
  An \<open>http.Header\<close> and the \<open>store\<close> of a \<open>connect.Header\<close> are maps from a key to the list
  of its values. \<open>connect.Header\<close> canonicalises every key it is given; the functions of
  \<open>header.go\<close> work on keys that are canonical already. The laws both kinds of access share are
  the locale \<open>value_store\<close>, interpreted for each of them. The lemmas on \<open>mergeHeaders\<close>,
  \<open>toHTTPHeader\<close> and \<open>fromHTTPHeader\<close> say what every key maps to afterwards.
\<close>

type_synonym http_header = "(string \<times> string list) list"

text \<open>Reading a Go map at a key that is absent gives nil, the empty slice.\<close>

definition values_of :: "http_header \<Rightarrow> string \<Rightarrow> string list" where
  "values_of h key = (case map_of h key of None \<Rightarrow> [] | Some vs \<Rightarrow> vs)"

subsection \<open>textproto.CanonicalMIMEHeaderKey\<close>

definition validHeaderFieldByte :: "char \<Rightarrow> bool" where
  "validHeaderFieldByte c \<longleftrightarrow>
     in_range CHR ''a'' CHR ''z'' c \<or> in_range CHR ''A'' CHR ''Z'' c \<or> is_digit c
     \<or> c \<in> set ''!#$%&*+-.^_|~'' \<or> c = CHR 0x27 \<or> c = CHR 0x60"

fun canonical_chars :: "bool \<Rightarrow> string \<Rightarrow> string" where
  "canonical_chars upper [] = []"
| "canonical_chars upper (c # cs) =
     (let c' = (if upper then upper_char c else lower_char c)
      in c' # canonical_chars (c' = CHR ''-'') cs)"

definition CanonicalMIMEHeaderKey :: "string \<Rightarrow> string" where
  "CanonicalMIMEHeaderKey s = (if list_all validHeaderFieldByte s then canonical_chars True s else s)"

subsection \<open>connect.Header\<close>

text \<open>A \<open>*Header\<close> is \<open>None\<close> when it is the nil pointer, otherwise its \<open>store\<close> (a nil
  store is the empty map: \<open>ensure\<close> replaces it by one). \<open>Set\<close>, \<open>SetValues\<close> and \<open>Add\<close>
  panic on the nil pointer: their result is then \<open>None\<close>.\<close>

type_synonym header_ptr = "http_header option"

definition Header_Get :: "header_ptr \<Rightarrow> string \<Rightarrow> string" where
  "Header_Get m key =
     (case m of
        None \<Rightarrow> []
      | Some store \<Rightarrow>
          (case values_of store (CanonicalMIMEHeaderKey key) of [] \<Rightarrow> [] | v # _ \<Rightarrow> v))"

definition Header_Has :: "header_ptr \<Rightarrow> string \<Rightarrow> bool" where
  "Header_Has m key =
     (case m of None \<Rightarrow> False | Some store \<Rightarrow> has_key store (CanonicalMIMEHeaderKey key))"

definition Header_Values :: "header_ptr \<Rightarrow> string \<Rightarrow> string list" where
  "Header_Values m key =
     (case m of None \<Rightarrow> [] | Some store \<Rightarrow> values_of store (CanonicalMIMEHeaderKey key))"

definition Header_Set :: "header_ptr \<Rightarrow> string \<Rightarrow> string \<Rightarrow> header_ptr" where
  "Header_Set m key val =
     (case m of
        None \<Rightarrow> None
      | Some store \<Rightarrow> Some (AList.update (CanonicalMIMEHeaderKey key) [val] store))"

definition Header_SetValues :: "header_ptr \<Rightarrow> string \<Rightarrow> string list \<Rightarrow> header_ptr" where
  "Header_SetValues m key vals =
     (case m of
        None \<Rightarrow> None
      | Some store \<Rightarrow>
          let canonical = CanonicalMIMEHeaderKey key in Some (AList.update canonical vals store))"

definition Header_Add :: "header_ptr \<Rightarrow> string \<Rightarrow> string \<Rightarrow> header_ptr" where
  "Header_Add m key val =
     (case m of
        None \<Rightarrow> None
      | Some store \<Rightarrow>
          let k = CanonicalMIMEHeaderKey key
          in Some (AList.update k (values_of store k @ [val]) store))"

definition Header_Delete :: "header_ptr \<Rightarrow> string \<Rightarrow> header_ptr" where
  "Header_Delete m key =
     (case m of
        None \<Rightarrow> None
      | Some store \<Rightarrow> Some (AList.delete (CanonicalMIMEHeaderKey key) store))"

definition Header_All :: "header_ptr \<Rightarrow> (string \<times> string list) list" where
  "Header_All m = (case m of None \<Rightarrow> [] | Some store \<Rightarrow> store)"

definition Header_Len :: "header_ptr \<Rightarrow> nat" where
  "Header_Len m = (case m of None \<Rightarrow> 0 | Some store \<Rightarrow> length store)"

subsection \<open>Functions on http.Header\<close>

abbreviation headerContentType :: string where "headerContentType \<equiv> ''Content-Type''"
abbreviation headerContentEncoding :: string where "headerContentEncoding \<equiv> ''Content-Encoding''"
abbreviation headerContentLength :: string where "headerContentLength \<equiv> ''Content-Length''"
abbreviation headerHost :: string where "headerHost \<equiv> ''Host''"
abbreviation headerUserAgent :: string where "headerUserAgent \<equiv> ''User-Agent''"
abbreviation headerTrailer :: string where "headerTrailer \<equiv> ''Trailer''"
abbreviation headerDate :: string where "headerDate \<equiv> ''Date''"
abbreviation headerVary :: string where "headerVary \<equiv> ''Vary''"
abbreviation headerXUserAgent :: string where "headerXUserAgent \<equiv> ''X-User-Agent''"

abbreviation connectUnaryHeaderCompression :: string where
  "connectUnaryHeaderCompression \<equiv> ''Content-Encoding''"
abbreviation connectUnaryHeaderAcceptCompression :: string where
  "connectUnaryHeaderAcceptCompression \<equiv> ''Accept-Encoding''"
abbreviation connectUnaryTrailerPrefix :: string where "connectUnaryTrailerPrefix \<equiv> ''Trailer-''"
abbreviation connectStreamingHeaderCompression :: string where
  "connectStreamingHeaderCompression \<equiv> ''Connect-Content-Encoding''"
abbreviation connectStreamingHeaderAcceptCompression :: string where
  "connectStreamingHeaderAcceptCompression \<equiv> ''Connect-Accept-Encoding''"
abbreviation connectHeaderTimeout :: string where "connectHeaderTimeout \<equiv> ''Connect-Timeout-Ms''"
abbreviation connectHeaderProtocolVersion :: string where
  "connectHeaderProtocolVersion \<equiv> ''Connect-Protocol-Version''"
abbreviation connectProtocolVersion :: string where "connectProtocolVersion \<equiv> ''1''"

abbreviation grpcHeaderCompression :: string where "grpcHeaderCompression \<equiv> ''Grpc-Encoding''"
abbreviation grpcHeaderAcceptCompression :: string where
  "grpcHeaderAcceptCompression \<equiv> ''Grpc-Accept-Encoding''"
abbreviation grpcHeaderTimeout :: string where "grpcHeaderTimeout \<equiv> ''Grpc-Timeout''"
abbreviation grpcHeaderStatus :: string where "grpcHeaderStatus \<equiv> ''Grpc-Status''"
abbreviation grpcHeaderMessage :: string where "grpcHeaderMessage \<equiv> ''Grpc-Message''"
abbreviation grpcHeaderDetails :: string where "grpcHeaderDetails \<equiv> ''Grpc-Status-Details-Bin''"

definition protocolHeaders :: "string list" where
  "protocolHeaders =
     [headerContentType, headerContentLength, headerContentEncoding, headerTrailer, headerDate,
      connectUnaryHeaderAcceptCompression, connectUnaryTrailerPrefix,
      connectStreamingHeaderCompression, connectStreamingHeaderAcceptCompression,
      connectHeaderTimeout, connectHeaderProtocolVersion,
      grpcHeaderCompression, grpcHeaderAcceptCompression, grpcHeaderTimeout, grpcHeaderStatus,
      grpcHeaderMessage, grpcHeaderDetails]"

text \<open>One step of the loops that append the values of a key: \<open>h[key] = append(h[key], vals...)\<close>.\<close>

definition append_values :: "http_header \<Rightarrow> string \<Rightarrow> string list \<Rightarrow> http_header" where
  "append_values h key vals = AList.update key (values_of h key @ vals) h"

fun mergeHeaders :: "http_header \<Rightarrow> http_header \<Rightarrow> http_header" where
  "mergeHeaders h_into [] = h_into"
| "mergeHeaders h_into ((key, vals) # h_from) =
     (if vals = [] then mergeHeaders h_into h_from
      else mergeHeaders (append_values h_into key vals) h_from)"

definition getHeaderCanonical :: "http_header \<Rightarrow> string \<Rightarrow> string" where
  "getHeaderCanonical h key = (case values_of h key of [] \<Rightarrow> [] | v # _ \<Rightarrow> v)"

definition setUserAgentIfAbsent :: "http_header \<Rightarrow> string \<Rightarrow> http_header" where
  "setUserAgentIfAbsent header val =
     (if \<not> has_key header headerUserAgent then AList.update headerUserAgent [val] header else header)"

definition setHeaderCanonical :: "http_header \<Rightarrow> string \<Rightarrow> string \<Rightarrow> http_header" where
  "setHeaderCanonical h key val = AList.update key [val] h"

definition delHeaderCanonical :: "http_header \<Rightarrow> string \<Rightarrow> http_header" where
  "delHeaderCanonical h key = AList.delete key h"

fun to_http_loop :: "http_header \<Rightarrow> (string \<times> string list) list \<Rightarrow> http_header" where
  "to_http_loop h [] = h"
| "to_http_loop h ((key, vals) # rest) =
     (if key \<in> set protocolHeaders then to_http_loop h rest
      else to_http_loop (append_values h key vals) rest)"

definition toHTTPHeader :: "http_header \<Rightarrow> header_ptr \<Rightarrow> http_header" where
  "toHTTPHeader h header = to_http_loop h (Header_All header)"

fun fromHTTPHeader :: "header_ptr \<Rightarrow> http_header \<Rightarrow> header_ptr" where
  "fromHTTPHeader header [] = header"
| "fromHTTPHeader header ((key, vals) # h) = fromHTTPHeader (Header_SetValues header key vals) h"

text \<open>\<open>http.Header\<close>'s own methods canonicalise their key.\<close>

definition http_Get :: "http_header \<Rightarrow> string \<Rightarrow> string" where
  "http_Get h key = getHeaderCanonical h (CanonicalMIMEHeaderKey key)"

definition http_Set :: "http_header \<Rightarrow> string \<Rightarrow> string \<Rightarrow> http_header" where
  "http_Set h key val = setHeaderCanonical h (CanonicalMIMEHeaderKey key) val"

definition http_Del :: "http_header \<Rightarrow> string \<Rightarrow> http_header" where
  "http_Del h key = delHeaderCanonical h (CanonicalMIMEHeaderKey key)"

subsection \<open>Laws of a store of values\<close>

text \<open>What the rest of the code relies on when it reads and writes a header: a key that is set
  reads back, the other keys are untouched, a deleted key is empty. \<open>canon\<close> is the key actually
  used: the canonical form for \<open>connect.Header\<close>, the key itself for the canonical-key functions.\<close>

locale value_store =
  fixes canon :: "string \<Rightarrow> string"
    and vals :: "'s \<Rightarrow> string \<Rightarrow> string list"
    and put :: "'s \<Rightarrow> string \<Rightarrow> string \<Rightarrow> 's"
    and del :: "'s \<Rightarrow> string \<Rightarrow> 's"
    and ok :: "'s \<Rightarrow> bool"
  assumes vals_put: "ok s \<Longrightarrow> vals (put s k v) k' = (if canon k' = canon k then [v] else vals s k')"
    and vals_del: "ok s \<Longrightarrow> vals (del s k) k' = (if canon k' = canon k then [] else vals s k')"
    and ok_put: "ok s \<Longrightarrow> ok (put s k v)"
    and ok_del: "ok s \<Longrightarrow> ok (del s k)"
begin

lemma put_put: "ok s \<Longrightarrow> vals (put (put s k v) k w) = vals (put s k w)"
  by (rule ext) (simp add: vals_put ok_put)

lemma put_commute:
  "ok s \<Longrightarrow> canon k \<noteq> canon l \<Longrightarrow> vals (put (put s k v) l w) = vals (put (put s l w) k v)"
  by (rule ext) (auto simp: vals_put ok_put)

lemma del_put: "ok s \<Longrightarrow> vals (del (put s k v) k) = vals (del s k)"
  by (rule ext) (simp add: vals_put vals_del ok_put)

lemma put_all:
  assumes "ok s" and "distinct (map (canon \<circ> fst) kvs)" and "(k, v) \<in> set kvs"
  shows "vals (foldl (\<lambda>s (k, v). put s k v) s kvs) k = [v]"
  using assms
proof (induction kvs rule: rev_induct)
  case Nil
  then show ?case by simp
next
  case (snoc kv kvs)
  have ok: "ok (foldl (\<lambda>s (k, v). put s k v) s kvs)" for kvs
    using \<open>ok s\<close> by (induction kvs rule: rev_induct) (auto simp: ok_put split: prod.splits)
  obtain l w where kv: "kv = (l, w)" by (cases kv)
  show ?case
  proof (cases "(k, v) = kv")
    case True
    then show ?thesis by (simp add: kv vals_put ok)
  next
    case False
    with snoc.prems have inn: "(k, v) \<in> set kvs" by auto
    then have "canon k \<in> (canon \<circ> fst) ` set kvs" by (force simp: image_iff)
    moreover have "canon l \<notin> (canon \<circ> fst) ` set kvs" using snoc.prems by (simp add: kv)
    ultimately have "canon k \<noteq> canon l" by metis
    with snoc inn show ?thesis by (simp add: kv vals_put ok)
  qed
qed

end

subsection \<open>Canonical keys\<close>

lemma upper_char_idem [simp]: "upper_char (upper_char c) = upper_char c"
  by (auto simp: upper_char_def char_sub_def in_range_def)

lemma lower_char_idem [simp]: "lower_char (lower_char c) = lower_char c"
  by (auto simp: lower_char_def char_add_def in_range_def)

lemma canonical_chars_idem [simp]: "canonical_chars u (canonical_chars u s) = canonical_chars u s"
  by (induction s arbitrary: u) (auto simp: Let_def)

lemma valid_upper [simp]: "validHeaderFieldByte c \<Longrightarrow> validHeaderFieldByte (upper_char c)"
  by (auto simp: validHeaderFieldByte_def upper_char_def char_sub_def in_range_def)

lemma valid_lower [simp]: "validHeaderFieldByte c \<Longrightarrow> validHeaderFieldByte (lower_char c)"
  by (auto simp: validHeaderFieldByte_def lower_char_def char_add_def in_range_def)

lemma canonical_chars_valid:
  "list_all validHeaderFieldByte s \<Longrightarrow> list_all validHeaderFieldByte (canonical_chars u s)"
  by (induction s arbitrary: u) (auto simp: Let_def)

lemma CanonicalMIMEHeaderKey_idem [simp]:
  "CanonicalMIMEHeaderKey (CanonicalMIMEHeaderKey s) = CanonicalMIMEHeaderKey s"
  by (simp add: CanonicalMIMEHeaderKey_def canonical_chars_valid)

lemma upper_lower [simp]: "upper_char (lower_char c) = upper_char c"
  by (auto simp: upper_char_def lower_char_def char_sub_def char_add_def in_range_def)

lemma lower_upper [simp]: "lower_char (upper_char c) = lower_char c"
  by (auto simp: upper_char_def lower_char_def char_sub_def char_add_def in_range_def)

lemma upper_char_eq_iff: "lower_char c = lower_char d \<Longrightarrow> upper_char c = upper_char d"
  by (metis upper_lower)

lemma valid_lower_iff: "validHeaderFieldByte (lower_char c) \<longleftrightarrow> validHeaderFieldByte c"
proof
  assume "validHeaderFieldByte (lower_char c)"
  then show "validHeaderFieldByte c"
    by (cases "in_range CHR ''A'' CHR ''Z'' c") (auto simp: validHeaderFieldByte_def lower_char_def)
qed simp

lemma canonical_chars_ToLower: "canonical_chars u (ToLower s) = canonical_chars u s"
  by (induction s arbitrary: u) (auto simp: ToLower_def Let_def)

text \<open>Keys that differ in case only are the same key.\<close>

lemma CanonicalMIMEHeaderKey_case:
  assumes "list_all validHeaderFieldByte s"
  shows "CanonicalMIMEHeaderKey (ToLower s) = CanonicalMIMEHeaderKey s"
proof -
  have "list_all validHeaderFieldByte (ToLower s)"
    using assms by (auto simp: ToLower_def list_all_iff)
  with assms show ?thesis
    by (simp add: CanonicalMIMEHeaderKey_def canonical_chars_ToLower)
qed

lemma protocolHeaders_canonical:
  "list_all (\<lambda>k. CanonicalMIMEHeaderKey k = k) protocolHeaders"
  by code_simp

subsection \<open>The two kinds of access\<close>

lemma values_of_update [simp]:
  "values_of (AList.update k vs h) k' = (if k' = k then vs else values_of h k')"
  by (simp add: values_of_def)

lemma values_of_delete [simp]:
  "values_of (AList.delete k h) k' = (if k' = k then [] else values_of h k')"
  by (simp add: values_of_def)

lemma values_of_Nil [simp]: "values_of [] k = []"
  by (simp add: values_of_def)

interpretation raw_header: value_store id values_of setHeaderCanonical delHeaderCanonical "\<lambda>_. True"
  by unfold_locales (simp_all add: setHeaderCanonical_def delHeaderCanonical_def)

interpretation rpc_header: value_store CanonicalMIMEHeaderKey Header_Values Header_Set Header_Delete
  "\<lambda>m. m \<noteq> None"
  by unfold_locales
    (auto simp: Header_Values_def Header_Set_def Header_Delete_def)

lemma values_of_set [simp]:
  "values_of (setHeaderCanonical h k v) k' = (if k' = k then [v] else values_of h k')"
  by (simp add: setHeaderCanonical_def)

lemma values_of_del [simp]:
  "values_of (delHeaderCanonical h k) k' = (if k' = k then [] else values_of h k')"
  by (simp add: delHeaderCanonical_def)

lemma wf_set [simp]: "wf_map h \<Longrightarrow> wf_map (setHeaderCanonical h k v)"
  by (simp add: setHeaderCanonical_def)

lemma wf_del [simp]: "wf_map h \<Longrightarrow> wf_map (delHeaderCanonical h k)"
  by (simp add: delHeaderCanonical_def)

lemma getHeaderCanonical_set [simp]:
  "getHeaderCanonical (setHeaderCanonical h k v) k' = (if k' = k then v else getHeaderCanonical h k')"
  by (simp add: getHeaderCanonical_def)

lemma getHeaderCanonical_del [simp]:
  "getHeaderCanonical (delHeaderCanonical h k) k' = (if k' = k then [] else getHeaderCanonical h k')"
  by (simp add: getHeaderCanonical_def)

lemma getHeaderCanonical_Nil [simp]: "getHeaderCanonical [] k = []"
  by (simp add: getHeaderCanonical_def)

lemma map_of_set [simp]:
  "map_of (setHeaderCanonical h k v) k' = (if k' = k then Some [v] else map_of h k')"
  by (simp add: setHeaderCanonical_def)

lemma map_of_del [simp]:
  "map_of (delHeaderCanonical h k) k' = (if k' = k then None else map_of h k')"
  by (simp add: delHeaderCanonical_def)

subsection \<open>Copying whole headers\<close>

lemma wf_append_values [simp]: "wf_map h \<Longrightarrow> wf_map (append_values h k vs)"
  by (simp add: append_values_def)

lemma values_of_append_values [simp]:
  "values_of (append_values h k vs) k' = (if k' = k then values_of h k @ vs else values_of h k')"
  by (simp add: append_values_def)

lemma wf_map_Cons: "wf_map ((k, v) # h) \<longleftrightarrow> map_of h k = None \<and> wf_map h"
  by (auto simp: wf_map_def map_of_eq_None_iff)

lemma values_of_Cons [simp]:
  "values_of ((k, vs) # h) k' = (if k' = k then vs else values_of h k')"
  by (simp add: values_of_def)

lemma values_of_absent: "map_of h k = None \<Longrightarrow> values_of h k = []"
  by (simp add: values_of_def)

lemma mergeHeaders_values:
  "wf_map h_from \<Longrightarrow> values_of (mergeHeaders h_into h_from) k = values_of h_into k @ values_of h_from k"
  by (induction h_into h_from rule: mergeHeaders.induct)
    (auto simp: wf_map_Cons values_of_absent)

lemma wf_mergeHeaders: "wf_map h_into \<Longrightarrow> wf_map (mergeHeaders h_into h_from)"
  by (induction h_into h_from rule: mergeHeaders.induct) auto

lemma to_http_loop_values:
  "wf_map kvs \<Longrightarrow>
     values_of (to_http_loop h kvs) k =
       (if k \<in> set protocolHeaders then values_of h k else values_of h k @ values_of kvs k)"
  by (induction h kvs rule: to_http_loop.induct) (auto simp: wf_map_Cons values_of_absent)

lemma wf_to_http_loop: "wf_map h \<Longrightarrow> wf_map (to_http_loop h kvs)"
  by (induction h kvs rule: to_http_loop.induct) auto

lemma toHTTPHeader_values:
  "wf_map store \<Longrightarrow>
     values_of (toHTTPHeader h (Some store)) k =
       (if k \<in> set protocolHeaders then values_of h k else values_of h k @ values_of store k)"
  by (simp add: toHTTPHeader_def Header_All_def to_http_loop_values)

lemma wf_toHTTPHeader: "wf_map h \<Longrightarrow> wf_map (toHTTPHeader h m)"
  by (simp add: toHTTPHeader_def wf_to_http_loop)

text \<open>A header whose keys are all canonical, as \<open>connect.Header\<close> keeps them.\<close>

definition canonical_keys :: "http_header \<Rightarrow> bool" where
  "canonical_keys h \<longleftrightarrow> list_all (\<lambda>kv. CanonicalMIMEHeaderKey (fst kv) = fst kv) h"

lemma canonical_keys_update:
  "canonical_keys h \<Longrightarrow> CanonicalMIMEHeaderKey k = k \<Longrightarrow> canonical_keys (AList.update k v h)"
  by (induction h) (auto simp: canonical_keys_def)

lemma canonical_keys_delete: "canonical_keys h \<Longrightarrow> canonical_keys (AList.delete k h)"
  by (auto simp: canonical_keys_def list_all_iff AList.delete_eq)

text \<open>The invariant of \<open>connect.Header\<close>: distinct canonical keys.\<close>

definition Header_inv :: "header_ptr \<Rightarrow> bool" where
  "Header_inv m \<longleftrightarrow> (case m of None \<Rightarrow> True | Some store \<Rightarrow> wf_map store \<and> canonical_keys store)"

lemma Header_inv_SetValues: "Header_inv m \<Longrightarrow> Header_inv (Header_SetValues m k vs)"
  by (auto simp: Header_inv_def Header_SetValues_def canonical_keys_update split: option.splits)

lemma Header_inv_ops:
  assumes "Header_inv m"
  shows "Header_inv (Header_Set m k v)" and "Header_inv (Header_Add m k v)"
    and "Header_inv (Header_Delete m k)"
  using assms
  by (auto simp: Header_inv_def Header_Set_def Header_Add_def Header_Delete_def Let_def
      canonical_keys_update canonical_keys_delete split: option.splits)

lemma Header_inv_fromHTTPHeader: "Header_inv m \<Longrightarrow> Header_inv (fromHTTPHeader m h)"
  by (induction m h rule: fromHTTPHeader.induct) (auto simp: Header_inv_SetValues)

lemma fromHTTPHeader_Some: "m \<noteq> None \<Longrightarrow> fromHTTPHeader m h \<noteq> None"
  by (induction m h rule: fromHTTPHeader.induct) (auto simp: Header_SetValues_def Let_def)

lemma fromHTTPHeader_values:
  "wf_map h \<Longrightarrow> canonical_keys h \<Longrightarrow> CanonicalMIMEHeaderKey k = k \<Longrightarrow> m \<noteq> None \<Longrightarrow>
     Header_Values (fromHTTPHeader m h) k =
       (if has_key h k then values_of h k else Header_Values m k)"
proof (induction m h rule: fromHTTPHeader.induct)
  case (1 header)
  then show ?case by (simp add: has_key_def)
next
  case (2 header key vals h)
  then show ?case
    by (auto simp: wf_map_Cons canonical_keys_def Header_SetValues_def Header_Values_def has_key_def
        values_of_absent)
qed

end
