(* ===== verification/Base64.thy ===== *)
theory Base64
  imports Headers
begin

section \<open>Binary headers and query values (connect.go, connecthttp/protocol_connect.go)\<close>

text \<open>
  \<open>EncodeBinaryHeader\<close> and \<open>DecodeBinaryHeader\<close> carry bytes in header values, and
  \<open>encodeBinaryQueryValue\<close> and \<open>queryValueReader\<close> in the query of a GET request. Both sit on
  \<open>encoding/base64\<close>, whose encoder and lenient decoder (newlines ignored, spare bits not
  checked) are modelled first. Both pairs are instances of the locale \<open>round_trip\<close>, and padded
  text is accepted as well.
\<close>

subsection \<open>Package encoding/base64\<close>

definition std_alphabet :: string where
  "std_alphabet = ''ABCDEFGHIJKLMNOPQRSTUVWXYZabcdefghijklmnopqrstuvwxyz0123456789+/''"

definition url_alphabet :: string where
  "url_alphabet = ''ABCDEFGHIJKLMNOPQRSTUVWXYZabcdefghijklmnopqrstuvwxyz0123456789-_''"

fun index_of :: "char \<Rightarrow> string \<Rightarrow> nat option" where
  "index_of c [] = None"
| "index_of c (x # xs) = (if x = c then Some 0 else map_option Suc (index_of c xs))"

text \<open>\<open>EncodeToString\<close> of an encoding with the given alphabet, padded with \<open>=\<close> or not.\<close>

fun b64_encode :: "string \<Rightarrow> bool \<Rightarrow> bytes \<Rightarrow> string" where
  "b64_encode al pad [] = []"
| "b64_encode al pad [a] =
     (let v = unat a * 65536
      in [al ! (v div 262144), al ! (v div 4096 mod 64)] @ (if pad then ''=='' else []))"
| "b64_encode al pad [a, b] =
     (let v = unat a * 65536 + unat b * 256
      in [al ! (v div 262144), al ! (v div 4096 mod 64), al ! (v div 64 mod 64)]
         @ (if pad then ''='' else []))"
| "b64_encode al pad (a # b # c # rest) =
     (let v = unat a * 65536 + unat b * 256 + unat c
      in [al ! (v div 262144), al ! (v div 4096 mod 64), al ! (v div 64 mod 64), al ! (v mod 64)]
         @ b64_encode al pad rest)"

text \<open>The bytes of a quantum of 2 to 4 sextets.\<close>

definition quantum_bytes :: "nat list \<Rightarrow> bytes" where
  "quantum_bytes ds =
     (let v = (case ds @ replicate (4 - length ds) 0 of
                 [d0, d1, d2, d3] \<Rightarrow> d0 * 262144 + d1 * 4096 + d2 * 64 + d3
               | _ \<Rightarrow> 0)
      in take (length ds - 1)
           [word_of_nat (v div 65536), word_of_nat (v div 256 mod 256), word_of_nat (v mod 256)])"

text \<open>\<open>Decode\<close> on the input without its newlines, each character with its position: the bytes
  decoded and the position that a \<open>CorruptInputError\<close> names. \<open>n\<close> is the length of the
  input.\<close>

function b64_decode :: "string \<Rightarrow> bool \<Rightarrow> nat \<Rightarrow> (nat \<times> char) list \<Rightarrow> bytes \<times> nat option" where
  "b64_decode al pad n src =
     (let sextets = takeWhile (\<lambda>(p, c). index_of c al \<noteq> None) (take 4 src);
          ds = map (\<lambda>(p, c). the (index_of c al)) sextets;
          j = length ds;
          rest = drop j src
      in if j = 4 then
           (case b64_decode al pad n rest of (out, err) \<Rightarrow> (quantum_bytes ds @ out, err))
         else
           (case rest of
              [] \<Rightarrow> if j = 0 then ([], None)
                   else if j = 1 \<or> pad then ([], Some (n - j))
                   else (quantum_bytes ds, None)
            | (p, c) # rest' \<Rightarrow>
                if \<not> (pad \<and> c = CHR ''='') then ([], Some p)
                else if j \<le> 1 then ([], Some p)
                else if j = 2 then
                  (case rest' of
                     [] \<Rightarrow> ([], Some n)
                   | (q, c2) # trail \<Rightarrow>
                       if c2 \<noteq> CHR ''='' then ([], Some (q - 1))
                       else (quantum_bytes ds,
                             case trail of [] \<Rightarrow> None | (t, _) # _ \<Rightarrow> Some t))
                else (quantum_bytes ds, case rest' of [] \<Rightarrow> None | (t, _) # _ \<Rightarrow> Some t)))"
  by pat_completeness auto

termination b64_decode
proof (relation "measure (\<lambda>(al, pad, n, src). length src)", goal_cases)
  case 1
  show ?case by simp
next
  case (2 al pad n src x xa xb xc)
  have "length x \<le> length (take 4 src)"
    unfolding 2(1) by (rule length_takeWhile_le)
  with 2 show ?case by simp
qed

declare b64_decode.simps [simp del]

definition positions :: "string \<Rightarrow> (nat \<times> char) list" where
  "positions s =
     filter (\<lambda>(p, c). c \<noteq> CHR 0x0A \<and> c \<noteq> CHR 0x0D) (zip [0..<length s] s)"

text \<open>\<open>DecodeString\<close>; the error is a \<open>CorruptInputError\<close>.\<close>

definition DecodeString :: "string \<Rightarrow> bool \<Rightarrow> string \<Rightarrow> go_error + bytes" where
  "DecodeString al pad s =
     (case b64_decode al pad (length s) (positions s) of
        (out, None) \<Rightarrow> Inr out
      | (_, Some p) \<Rightarrow> Inl (Plain (''illegal base64 data at input byte '' @ utoa p)))"

subsection \<open>The repository's functions\<close>

definition EncodeBinaryHeader :: "bytes \<Rightarrow> string" where
  "EncodeBinaryHeader data = b64_encode std_alphabet False data"

definition DecodeBinaryHeader :: "string \<Rightarrow> go_error + bytes" where
  "DecodeBinaryHeader data =
     (if length data mod 4 \<noteq> 0 then DecodeString std_alphabet False data
      else DecodeString std_alphabet True data)"

definition encodeBinaryQueryValue :: "bytes \<Rightarrow> string" where
  "encodeBinaryQueryValue data = b64_encode url_alphabet False data"

text \<open>\<open>base64.NewDecoder\<close>: the decoded bytes, then the end of the text or the error. A text
  that ends inside a padded quantum is \<open>io.ErrUnexpectedEOF\<close>; the offset that a
  \<open>CorruptInputError\<close> counts from the decoder's internal chunk is left out of its text.\<close>

definition NewDecoder :: "string \<Rightarrow> bool \<Rightarrow> string \<Rightarrow> reader" where
  "NewDecoder al pad s =
     (case b64_decode al pad (length s) (positions s) of
        (out, None) \<Rightarrow> clean_reader out
      | (out, Some p) \<Rightarrow>
          \<lparr>rd_data = out,
           rd_err = (if pad \<and> length (positions s) mod 4 \<noteq> 0
                        \<and> list_all (\<lambda>(_, c). index_of c al \<noteq> None) (positions s)
                     then Sentinel ErrUnexpectedEOF
                     else Plain ''illegal base64 data'')\<rparr>)"

definition binaryQueryValueReader :: "string \<Rightarrow> reader" where
  "binaryQueryValueReader data =
     (if length data mod 4 \<noteq> 0 then NewDecoder url_alphabet False data
      else NewDecoder url_alphabet True data)"

definition queryValueReader :: "string \<Rightarrow> bool \<Rightarrow> reader" where
  "queryValueReader data base64Encoded =
     (if base64Encoded then binaryQueryValueReader data else clean_reader (bytes_of_string data))"

subsection \<open>Lemmas\<close>

text \<open>What the codec needs of an alphabet.\<close>

definition alphabet_ok :: "string \<Rightarrow> bool" where
  "alphabet_ok al \<longleftrightarrow> length al = 64 \<and> distinct al \<and> CHR ''='' \<notin> set al
     \<and> CHR 0x0A \<notin> set al \<and> CHR 0x0D \<notin> set al"

lemma std_alphabet_ok: "alphabet_ok std_alphabet"
  by code_simp

lemma url_alphabet_ok: "alphabet_ok url_alphabet"
  by code_simp

lemma index_of_nth: "distinct al \<Longrightarrow> i < length al \<Longrightarrow> index_of (al ! i) al = Some i"
  by (induction al arbitrary: i) (auto simp: nth_Cons split: nat.splits)

lemma index_of_None: "index_of c al = None \<longleftrightarrow> c \<notin> set al"
  by (induction al) auto

lemma sextet [simp]:
  "alphabet_ok al \<Longrightarrow> i < 64 \<Longrightarrow> index_of (al ! i) al = Some i"
  by (simp add: alphabet_ok_def index_of_nth)

lemma pad_no_sextet [simp]: "alphabet_ok al \<Longrightarrow> index_of CHR ''='' al = None"
  by (simp add: alphabet_ok_def index_of_None)

lemma byte_bound: "unat (a :: byte) < 256"
  using unsigned_less [of a] by simp

lemma sextets_sum:
  fixes v :: nat
  shows "v div 262144 * 262144 + v div 4096 mod 64 * 4096 + v div 64 mod 64 * 64 + v mod 64 = v"
proof -
  define x where "x = v div 64"
  define y where "y = x div 64"
  have e: "v div 4096 = y" "v div 262144 = y div 64"
    by (simp_all add: x_def y_def div_mult2_eq [symmetric])
  have "v = x * 64 + v mod 64" "x = y * 64 + x mod 64" "y = y div 64 * 64 + y mod 64"
    by (simp_all add: x_def y_def div_mult_mod_eq)
  then show ?thesis unfolding e x_def [symmetric] by linarith
qed

lemma digit_split: "c < m \<Longrightarrow> (x * m + c) div m = (x :: nat)" "c < m \<Longrightarrow> (x * m + c) mod m = (c :: nat)"
  by simp_all

lemma bytes_of_sum:
  fixes a b c :: nat
  assumes "a < 256" "b < 256" "c < 256"
  defines "v \<equiv> a * 65536 + b * 256 + c"
  shows "v div 65536 = a" "v div 256 mod 256 = b" "v mod 256 = c"
proof -
  have v: "v = (a * 256 + b) * 256 + c" by (simp add: v_def)
  have w: "v div 256 = a * 256 + b" "v mod 256 = c"
    unfolding v using assms(3) by (rule digit_split)+
  then show "v div 256 mod 256 = b" "v mod 256 = c" using assms(2) by simp_all
  have "v div 65536 = v div 256 div 256" by (simp add: div_mult2_eq [symmetric])
  then show "v div 65536 = a" using assms(2) by (simp add: w)
qed

lemma quantum3:
  fixes a b c :: byte
  defines "v \<equiv> unat a * 65536 + unat b * 256 + unat c"
  shows "quantum_bytes [v div 262144, v div 4096 mod 64, v div 64 mod 64, v mod 64] = [a, b, c]"
proof -
  note bytes_of_sum [OF byte_bound [of a] byte_bound [of b] byte_bound [of c], folded v_def]
  then show ?thesis
    by (simp add: quantum_bytes_def Let_def sextets_sum)
qed

lemma quantum2:
  fixes a b :: byte
  defines "v \<equiv> unat a * 65536 + unat b * 256"
  shows "quantum_bytes [v div 262144, v div 4096 mod 64, v div 64 mod 64] = [a, b]"
proof -
  have "v = 64 * (unat a * 1024 + unat b * 4)" by (simp add: v_def)
  then have "v mod 64 = 0" by (metis mod_mult_self1_is_0)
  then have "v div 262144 * 262144 + v div 4096 mod 64 * 4096 + v div 64 mod 64 * 64 = v"
    using sextets_sum [of v] by simp
  moreover have "v div 65536 = unat a" "v div 256 mod 256 = unat b"
    using bytes_of_sum [of "unat a" "unat b" 0] byte_bound [of a] byte_bound [of b]
    by (simp_all add: v_def)
  ultimately show ?thesis
    by (simp add: quantum_bytes_def Let_def numeral_2_eq_2)
qed

lemma quantum1:
  fixes a :: byte
  defines "v \<equiv> unat a * 65536"
  shows "quantum_bytes [v div 262144, v div 4096 mod 64] = [a]"
proof -
  have "v = 4096 * (unat a * 16)" by (simp add: v_def)
  then have v: "v mod 4096 = 0" by (metis mod_mult_self1_is_0)
  have "v mod 64 = v mod 4096 mod 64" by (simp add: mod_mod_cancel)
  moreover have "v mod 4096 = v div 64 mod 64 * 64 + v mod 64"
    using mod_mult2_eq [of v 64 64] by simp
  ultimately have "v mod 64 = 0" "v div 64 mod 64 = 0" using v by simp_all
  then have "v div 262144 * 262144 + v div 4096 mod 64 * 4096 = v"
    using sextets_sum [of v] by simp
  moreover have "v div 65536 = unat a" by (simp add: v_def)
  ultimately show ?thesis
    by (simp add: quantum_bytes_def Let_def numeral_2_eq_2)
qed

lemma sextet_range:
  "(unat (a :: byte) * 65536 + unat (b :: byte) * 256 + unat (c :: byte)) div 262144 < 64"
  "(unat a * 65536 + unat b * 256) div 262144 < 64" "unat a * 65536 div 262144 < 64"
proof -
  have "unat a * 65536 + unat b * 256 + unat c < 64 * 262144"
    using byte_bound [of a] byte_bound [of b] byte_bound [of c] by linarith
  then show "(unat a * 65536 + unat b * 256 + unat c) div 262144 < 64"
    and "(unat a * 65536 + unat b * 256) div 262144 < 64" and "unat a * 65536 div 262144 < 64"
    by (simp_all only: less_mult_imp_div_less add_lessD1)
qed

text \<open>One step of the decoder on a whole quantum, and on the last one.\<close>

lemma decode_whole:
  assumes "alphabet_ok al" "i < 64" "j < 64" "k < 64" "l < 64"
  shows "b64_decode al pad n ((p, al ! i) # (q, al ! j) # (r, al ! k) # (s, al ! l) # src) =
    (case b64_decode al pad n src of (out, err) \<Rightarrow> (quantum_bytes [i, j, k, l] @ out, err))"
  using assms by (subst b64_decode.simps) (simp add: Let_def)

lemma decode_last3:
  assumes "alphabet_ok al" "i < 64" "j < 64" "k < 64"
    and "map snd src = (if pad then ''='' else [])"
  shows "b64_decode al pad n ((p, al ! i) # (q, al ! j) # (r, al ! k) # src) =
    (quantum_bytes [i, j, k], None)"
  using assms
  by (subst b64_decode.simps) (auto simp: Let_def split: if_splits)

lemma decode_last2:
  assumes "alphabet_ok al" "i < 64" "j < 64"
    and "map snd src = (if pad then ''=='' else [])"
  shows "b64_decode al pad n ((p, al ! i) # (q, al ! j) # src) = (quantum_bytes [i, j], None)"
  using assms
  by (subst b64_decode.simps) (auto simp: Let_def split: if_splits)

lemma map_snd_Cons: "map snd src = x # xs \<longleftrightarrow> (\<exists>p src'. src = (p, x) # src' \<and> map snd src' = xs)"
  by (cases src) auto

lemma b64_decode_encode:
  "alphabet_ok al \<Longrightarrow> map snd src = b64_encode al pad bs \<Longrightarrow> b64_decode al pad n src = (bs, None)"
proof (induction al pad bs arbitrary: src rule: b64_encode.induct)
  case (1 al pad)
  then show ?case by (subst b64_decode.simps) simp
next
  case (2 al pad a)
  let ?v = "unat a * 65536"
  from 2(2) obtain p q src' where src: "src = (p, al ! (?v div 262144)) # (q, al ! (?v div 4096 mod 64)) # src'"
    and "map snd src' = (if pad then ''=='' else [])"
    unfolding b64_encode.simps Let_def append.simps map_snd_Cons by blast
  with 2(1) show ?case
    by (simp only: src decode_last2 sextet_range quantum1 mod_less_divisor zero_less_numeral)
next
  case (3 al pad a b)
  let ?v = "unat a * 65536 + unat b * 256"
  from 3(2) obtain p q r src' where src: "src = (p, al ! (?v div 262144)) # (q, al ! (?v div 4096 mod 64))
      # (r, al ! (?v div 64 mod 64)) # src'"
    and "map snd src' = (if pad then ''='' else [])"
    unfolding b64_encode.simps Let_def append.simps map_snd_Cons by blast
  with 3(1) show ?case
    by (simp only: src decode_last3 sextet_range quantum2 mod_less_divisor zero_less_numeral)
next
  case (4 al pad a b c rest)
  let ?v = "unat a * 65536 + unat b * 256 + unat c"
  from 4(3) obtain p q r s src' where src: "src = (p, al ! (?v div 262144)) # (q, al ! (?v div 4096 mod 64))
      # (r, al ! (?v div 64 mod 64)) # (s, al ! (?v mod 64)) # src'"
    and rest: "map snd src' = b64_encode al pad rest"
    unfolding b64_encode.simps Let_def append.simps map_snd_Cons by blast
  have "b64_decode al pad n src' = (rest, None)"
    using 4(1) [OF refl 4(2) rest] .
  with 4(2) show ?case
    by (simp only: src decode_whole sextet_range quantum3 mod_less_divisor zero_less_numeral
        prod.case append.simps)
qed

lemma length_encode_raw:
  "length (b64_encode al False bs) mod 4 = 0 \<longleftrightarrow> length bs mod 3 = 0"
  by (induction al "False" bs rule: b64_encode.induct) (simp_all add: Let_def)

lemma length_encode_padded: "length (b64_encode al True bs) mod 4 = 0"
  by (induction al True bs rule: b64_encode.induct) (simp_all add: Let_def)

lemma encode_no_padding:
  "length bs mod 3 = 0 \<Longrightarrow> b64_encode al pad bs = b64_encode al False bs"
  by (induction al pad bs rule: b64_encode.induct) (simp_all add: Let_def)

lemma encode_chars:
  "alphabet_ok al \<Longrightarrow> set (b64_encode al pad bs) \<subseteq> set al \<union> {CHR ''=''}"
proof (induction al pad bs rule: b64_encode.induct)
  case (2 al pad a)
  then have "length al = 64" by (simp add: alphabet_ok_def)
  then show ?case using sextet_range(3) [of a] by (simp only: b64_encode.simps Let_def) auto
next
  case (3 al pad a b)
  then have "length al = 64" by (simp add: alphabet_ok_def)
  then show ?case using sextet_range(2) [of a b] by (simp only: b64_encode.simps Let_def) auto
next
  case (4 al pad a b c rest)
  then have "length al = 64" by (simp add: alphabet_ok_def)
  with 4 show ?case using sextet_range(1) [of a b c] by (simp only: b64_encode.simps Let_def) auto
qed simp

lemma positions_id:
  assumes "CHR 0x0A \<notin> set s" "CHR 0x0D \<notin> set s"
  shows "map snd (positions s) = s"
proof -
  have "positions s = zip [0..<length s] s"
    using assms by (auto simp: positions_def filter_id_conv dest: set_zip_rightD)
  then show ?thesis by simp
qed

lemma positions_encode:
  assumes "alphabet_ok al"
  shows "map snd (positions (b64_encode al pad bs)) = b64_encode al pad bs"
proof (rule positions_id)
  show "CHR 0x0A \<notin> set (b64_encode al pad bs)" "CHR 0x0D \<notin> set (b64_encode al pad bs)"
    using encode_chars [OF assms, of pad bs] assms by (auto simp: alphabet_ok_def)
qed

lemma decode_positions_encode:
  "alphabet_ok al \<Longrightarrow> b64_decode al pad n (positions (b64_encode al pad bs)) = (bs, None)"
  by (rule b64_decode_encode) (simp_all add: positions_encode)

lemma DecodeString_encode:
  "alphabet_ok al \<Longrightarrow> DecodeString al pad (b64_encode al pad bs) = Inr bs"
  by (simp add: DecodeString_def decode_positions_encode)

lemma NewDecoder_encode:
  "alphabet_ok al \<Longrightarrow> NewDecoder al pad (b64_encode al pad bs) = clean_reader bs"
  by (simp add: NewDecoder_def decode_positions_encode)

text \<open>The choice by length: text of a length divisible by 4 reads the same with and without
  padding.\<close>

lemma raw_as_padded:
  assumes "length (b64_encode al False bs) mod 4 = 0"
  shows "b64_encode al False bs = b64_encode al True bs"
  using assms encode_no_padding [of bs al True] by (simp add: length_encode_raw)

lemma DecodeBinaryHeader_encode:
  "DecodeBinaryHeader (b64_encode std_alphabet pad bs) = Inr bs"
proof (cases "length (b64_encode std_alphabet pad bs) mod 4 = 0")
  case True
  then have e: "b64_encode std_alphabet pad bs = b64_encode std_alphabet True bs"
    by (metis (full_types) raw_as_padded)
  show ?thesis
    unfolding e by (simp add: length_encode_padded DecodeBinaryHeader_def DecodeString_encode std_alphabet_ok)
next
  case False
  then have "\<not> pad" using length_encode_padded [of std_alphabet bs] by (cases pad) auto
  with False show ?thesis
    by (simp add: DecodeBinaryHeader_def DecodeString_encode std_alphabet_ok)
qed

lemma binaryQueryValueReader_encode:
  "binaryQueryValueReader (b64_encode url_alphabet pad bs) = clean_reader bs"
proof (cases "length (b64_encode url_alphabet pad bs) mod 4 = 0")
  case True
  then have e: "b64_encode url_alphabet pad bs = b64_encode url_alphabet True bs"
    by (metis (full_types) raw_as_padded)
  show ?thesis
    unfolding e by (simp add: length_encode_padded binaryQueryValueReader_def NewDecoder_encode url_alphabet_ok)
next
  case False
  then have "\<not> pad" using length_encode_padded [of url_alphabet bs] by (cases pad) auto
  with False show ?thesis
    by (simp add: binaryQueryValueReader_def NewDecoder_encode url_alphabet_ok)
qed

interpretation binary_header: round_trip "\<lambda>_. True" EncodeBinaryHeader DecodeBinaryHeader
  by unfold_locales (simp add: EncodeBinaryHeader_def DecodeBinaryHeader_encode)

interpretation query_value: round_trip "\<lambda>_. True" encodeBinaryQueryValue
  "\<lambda>s. Inr (rd_data (queryValueReader s True)) :: go_error + bytes"
  by unfold_locales
    (simp add: encodeBinaryQueryValue_def queryValueReader_def binaryQueryValueReader_encode
      clean_reader_def)

text \<open>Binary headers: \<open>DecodeBinaryHeader\<close> inverts \<open>EncodeBinaryHeader\<close> on every
  byte string, accepts the padded standard encoding as well, and two byte strings with the same
  header value are equal; the encoded value has no comma, so a list of values joined with commas
  can be split again.\<close>

lemma binary_header_round_trip:
  "DecodeBinaryHeader (EncodeBinaryHeader data) = Inr data
   \<and> DecodeBinaryHeader (b64_encode std_alphabet True data) = Inr data
   \<and> (EncodeBinaryHeader data = EncodeBinaryHeader data') = (data = data')
   \<and> CHR '','' \<notin> set (EncodeBinaryHeader data)"
proof -
  have "CHR '','' \<notin> set std_alphabet \<union> {CHR ''=''}" by (simp add: std_alphabet_def)
  then have "CHR '','' \<notin> set (EncodeBinaryHeader data)"
    using encode_chars [OF std_alphabet_ok, of False data]
    unfolding EncodeBinaryHeader_def by blast
  then show ?thesis
    by (simp add: binary_header.decode_encode binary_header.encode_eq_iff DecodeBinaryHeader_encode)
qed

text \<open>GET query values: \<open>queryValueReader\<close> with the base64 flag reads back exactly the
  bytes that \<open>encodeBinaryQueryValue\<close> put into the query, padded or not, and then reports a
  clean end; without the flag it reads the text itself.\<close>

lemma query_value_round_trip:
  "queryValueReader (encodeBinaryQueryValue data) True = clean_reader data
   \<and> queryValueReader (b64_encode url_alphabet True data) True = clean_reader data
   \<and> queryValueReader (string_of_bytes data) False = clean_reader data"
  by (simp add: queryValueReader_def encodeBinaryQueryValue_def binaryQueryValueReader_encode)

end
