(* ===== verification/Envelope.thy ===== *)
theory Envelope
  imports Compression
begin

section \<open>Enveloped messages (connecthttp/envelope.go)\<close>

text \<open>
  The length-prefixed framing shared by gRPC, gRPC-Web and streaming Connect: the \<open>envelope\<close>
  value with its \<open>Read\<close>, \<open>WriteTo\<close>, \<open>Seek\<close> and \<open>Len\<close>, the \<open>envelopeWriter\<close> that
  marshals, compresses and sends, and the \<open>envelopeReader\<close> that receives, decompresses and
  unmarshals. A slice expression that Go would panic on is the value \<open>None\<close>.

  \<open>messageSender\<close> has two implementations; the writer's functions take the sender as the
  argument \<open>send\<close>, which returns the error and the sender's new state. \<open>writeSender\<close>
  is here, \<open>duplexHTTPCall\<close> has its own theory.
\<close>

subsection \<open>envelope\<close>

abbreviation flagEnvelopeCompressed :: byte where "flagEnvelopeCompressed \<equiv> 1"

record envelope =
  env_Data :: bytes
  env_Flags :: byte
  env_offset :: int

definition new_envelope :: "byte \<Rightarrow> bytes \<Rightarrow> envelope" where
  "new_envelope flags data = \<lparr>env_Data = data, env_Flags = flags, env_offset = 0\<rparr>"

definition envelope_IsSet :: "envelope \<Rightarrow> byte \<Rightarrow> bool" where
  "envelope_IsSet e flag \<longleftrightarrow> env_Flags e AND flag = flag"

definition makeEnvelopePrefix :: "byte \<Rightarrow> int \<Rightarrow> go_error + bytes" where
  "makeEnvelopePrefix flags sz =
     (if sz < 0 \<or> sz > 2 ^ 32 - 1
      then Inl (Plain (Sprintf ''connect.makeEnvelopePrefix: size %d out of bounds'' [itoa sz]))
      else Inr (flags # PutUint32 (word_of_int sz)))"

definition envelope_read_data ::
  "bytes \<Rightarrow> nat \<Rightarrow> envelope \<Rightarrow> (bytes \<times> go_error option \<times> envelope) option" where
  "envelope_read_data acc n e =
     (if env_offset e - 5 > int (length (env_Data e)) then None
      else let d = take n (drop (nat (env_offset e - 5)) (env_Data e));
               e' = e\<lparr>env_offset := env_offset e + int (length d)\<rparr>;
               out = acc @ d
           in Some (out,
                if out = [] \<and> env_offset e' = int (length (env_Data e)) + 5
                then Some (Sentinel EOF) else None, e'))"

definition envelope_Read ::
  "nat \<Rightarrow> envelope \<Rightarrow> (bytes \<times> go_error option \<times> envelope) option" where
  "envelope_Read n e =
     (if env_offset e < 5
      then case makeEnvelopePrefix (env_Flags e) (int (length (env_Data e))) of
             Inl err \<Rightarrow> Some ([], Some err, e)
           | Inr prefix \<Rightarrow>
               let p = take n (drop (nat (env_offset e)) prefix);
                   e' = e\<lparr>env_offset := env_offset e + int (length p)\<rparr>
               in if env_offset e' < 5 then Some (p, None, e')
                  else envelope_read_data p (n - length p) e'
      else envelope_read_data [] n e)"

definition envelope_write_data ::
  "int \<Rightarrow> envelope \<Rightarrow> writer \<Rightarrow> (int \<times> go_error option \<times> envelope \<times> writer) option" where
  "envelope_write_data wroteN e w =
     (if env_offset e - 5 > int (length (env_Data e)) then None
      else case io_Write (drop (nat (env_offset e - 5)) (env_Data e)) w of
             (n, err, w') \<Rightarrow>
               Some (wroteN + int n, err, e\<lparr>env_offset := env_offset e + int n\<rparr>, w'))"

definition envelope_WriteTo ::
  "envelope \<Rightarrow> writer \<Rightarrow> (int \<times> go_error option \<times> envelope \<times> writer) option" where
  "envelope_WriteTo e w =
     (if env_offset e < 5
      then case makeEnvelopePrefix (env_Flags e) (int (length (env_Data e))) of
             Inl err \<Rightarrow> Some (0, Some err, e, w)
           | Inr prefix \<Rightarrow>
               (case io_Write (drop (nat (env_offset e)) prefix) w of
                  (prefixN, err, w') \<Rightarrow>
                    let e' = e\<lparr>env_offset := env_offset e + int prefixN\<rparr>
                    in if env_offset e' < 5 then Some (int prefixN, err, e', w')
                       else envelope_write_data (int prefixN) e' w')
      else envelope_write_data 0 e w)"

text \<open>\<open>int64\<close> addition wraps around.\<close>

definition wrap64 :: "int \<Rightarrow> int" where
  "wrap64 i = (i + 2 ^ 63) mod 2 ^ 64 - 2 ^ 63"

abbreviation SeekStart :: int where "SeekStart \<equiv> 0"
abbreviation SeekCurrent :: int where "SeekCurrent \<equiv> 1"
abbreviation SeekEnd :: int where "SeekEnd \<equiv> 2"

definition envelope_Seek :: "int \<Rightarrow> int \<Rightarrow> envelope \<Rightarrow> int \<times> go_error option \<times> envelope" where
  "envelope_Seek offset whence e =
     (if whence \<notin> {SeekStart, SeekCurrent, SeekEnd}
      then (0, Some (Plain ''connect.envelope.Seek: invalid whence''), e)
      else let abs = (if whence = SeekStart then offset
                      else if whence = SeekCurrent then wrap64 (env_offset e + offset)
                      else wrap64 (int (length (env_Data e)) + offset))
           in if abs < 0 then (0, Some (Plain ''connect.envelope.Seek: negative position''), e)
              else (abs, None, e\<lparr>env_offset := abs\<rparr>))"

definition envelope_Len :: "envelope \<Rightarrow> int" where
  "envelope_Len e =
     (let len = int (length (env_Data e)) + 5 - env_offset e in if len > 0 then len else 0)"

subsection \<open>Payloads and senders (connecthttp/duplex\_http\_call.go)\<close>

text \<open>A \<open>messagePayload\<close>: nothing, an envelope, or a \<open>*bytes.Reader\<close> with its position.\<close>

datatype payload = NopPayload | EnvPayload envelope | BytesPayload bytes nat

type_synonym 's sender = "payload \<Rightarrow> 's \<Rightarrow> go_error option \<times> 's"

definition payload_Len :: "payload \<Rightarrow> int" where
  "payload_Len p =
     (case p of NopPayload \<Rightarrow> 0 | EnvPayload e \<Rightarrow> envelope_Len e | BytesPayload bs i \<Rightarrow> int (length bs - i))"

text \<open>A panic in \<open>envelope.WriteTo\<close> is the error \<open>panic_error\<close>; \<open>send_envelope_no_panic\<close>
  shows that the envelopes the writers send never cause it.\<close>

definition panic_error :: go_error where
  "panic_error = Plain ''runtime error: slice bounds out of range''"

definition payload_WriteTo :: "payload \<Rightarrow> writer \<Rightarrow> int \<times> go_error option \<times> writer" where
  "payload_WriteTo p w =
     (case p of
        NopPayload \<Rightarrow> (0, None, w)
      | BytesPayload bs i \<Rightarrow>
          if length bs \<le> i then (0, None, w)
          else (case io_Write (drop i bs) w of (n, err, w') \<Rightarrow> (int n, err, w'))
      | EnvPayload e \<Rightarrow>
          (case envelope_WriteTo e w of
             None \<Rightarrow> (0, Some panic_error, w)
           | Some (n, err, _, w') \<Rightarrow> (n, err, w')))"

definition writeSender_Send :: "writer sender" where
  "writeSender_Send p w = (case payload_WriteTo p w of (_, err, w') \<Rightarrow> (err, w'))"

subsection \<open>envelopeWriter\<close>

record envelope_writer =
  ew_ctx :: context_t
  ew_compressMinBytes :: int
  ew_compressionPool :: "compression_pool option"
  ew_sendMaxBytes :: int
  ew_stats :: "message_stats option"

definition ew_recordStats :: "byte \<Rightarrow> int \<Rightarrow> int \<Rightarrow> envelope_writer \<Rightarrow> envelope_writer" where
  "ew_recordStats flags sz compressedSize w =
     (if ew_stats w = None \<or> flags AND NOT flagEnvelopeCompressed \<noteq> 0 then w
      else w\<lparr>ew_stats := Some \<lparr>Size = sz, CompressedSize = compressedSize\<rparr>\<rparr>)"

definition ew_write :: "'s sender \<Rightarrow> envelope_writer \<Rightarrow> envelope \<Rightarrow> 's \<Rightarrow> connect_error option \<times> 's" where
  "ew_write send w env s =
     (case send (EnvPayload env) s of
        (None, s') \<Rightarrow> (None, s')
      | (Some err, s') \<Rightarrow>
          let err = wrapIfContextDone (ew_ctx w) err in
          (case asError err of
             Some connectErr \<Rightarrow> (Some connectErr, s')
           | None \<Rightarrow>
               (Some (WithCause (Errorf CodeUnknown ''write envelope: %s'' [error_text err]) (Some err)),
                s')))"

definition ew_Write ::
  "'s sender \<Rightarrow> envelope_writer \<Rightarrow> envelope \<Rightarrow> 's \<Rightarrow> connect_error option \<times> envelope_writer \<times> 's" where
  "ew_Write send w env s =
     (let len = int (length (env_Data env)) in
      case (if envelope_IsSet env flagEnvelopeCompressed \<or> len < ew_compressMinBytes w
            then None else ew_compressionPool w) of
        None \<Rightarrow>
          if ew_sendMaxBytes w > 0 \<and> len > ew_sendMaxBytes w
          then (Some (Errorf CodeResourceExhausted ''message size %d exceeds sendMaxBytes %d''
                        [itoa len, itoa (ew_sendMaxBytes w)]), w, s)
          else let (sz, compressedSize) =
                     (if envelope_IsSet env flagEnvelopeCompressed then (0, len) else (len, 0))
               in (case ew_write send w env s of
                     (Some err, s') \<Rightarrow> (Some err, w, s')
                   | (None, s') \<Rightarrow> (None, ew_recordStats (env_Flags env) sz compressedSize w, s'))
      | Some pool \<Rightarrow>
          (case compressionPool_Compress pool (env_Data env) of
             Inl err \<Rightarrow> (Some err, w, s)
           | Inr data \<Rightarrow>
               let clen = int (length data) in
               if ew_sendMaxBytes w > 0 \<and> clen > ew_sendMaxBytes w
               then (Some (Errorf CodeResourceExhausted
                       ''compressed message size %d exceeds sendMaxBytes %d''
                       [itoa clen, itoa (ew_sendMaxBytes w)]), w, s)
               else (case ew_write send w
                             (new_envelope (env_Flags env OR flagEnvelopeCompressed) data) s of
                       (Some err, s') \<Rightarrow> (Some err, w, s')
                     | (None, s') \<Rightarrow> (None, ew_recordStats (env_Flags env) len clen w, s'))))"

definition ew_Marshal ::
  "'s sender \<Rightarrow> 'm codec \<Rightarrow> envelope_writer \<Rightarrow> 'm option \<Rightarrow> 's
     \<Rightarrow> connect_error option \<times> envelope_writer \<times> 's" where
  "ew_Marshal send codec w message s =
     (case message of
        None \<Rightarrow>
          (case send NopPayload s of
             (None, s') \<Rightarrow> (None, w, s')
           | (Some err, s') \<Rightarrow>
               (case asError err of
                  Some connectErr \<Rightarrow> (Some connectErr, w, s')
                | None \<Rightarrow>
                    (Some (WithCause (Errorf CodeUnknown ''%s'' [error_text err]) (Some err)), w, s')))
      | Some m \<Rightarrow>
          (case codec_MarshalWrite codec m of
             Inl err \<Rightarrow>
               (Some (WithCause (Errorf CodeInternal ''marshal message: %s'' [error_text err]) (Some err)),
                w, s)
           | Inr buffer \<Rightarrow> ew_Write send w (new_envelope 0 buffer) s))"

subsection \<open>envelopeReader\<close>

record envelope_reader =
  er_ctx :: context_t
  er_reader :: reader
  er_bytesRead :: int
  er_last :: envelope
  er_compressionPool :: "compression_pool option"
  er_readMaxBytes :: int
  er_stats :: "message_stats option"

definition er_advance :: "nat \<Rightarrow> reader \<Rightarrow> envelope_reader \<Rightarrow> envelope_reader" where
  "er_advance n rd r = r\<lparr>er_reader := rd, er_bytesRead := er_bytesRead r + int n\<rparr>"

definition er_read_error :: "envelope_reader \<Rightarrow> string \<Rightarrow> code \<Rightarrow> string \<Rightarrow> go_error \<Rightarrow> connect_error" where
  \<comment> \<open>the translation of a read error, lines 329 to 338 and 364 to 369\<close>
  "er_read_error r what code format err =
     (let err = wrapIfContextDone (er_ctx r) (wrapIfMaxBytesError what err) in
      case asError err of
        Some connectErr \<Rightarrow> connectErr
      | None \<Rightarrow> WithCause (Errorf code format [error_text err]) (Some err))"

definition er_Read :: "envelope_reader \<Rightarrow> (connect_error + envelope) \<times> envelope_reader" where
  "er_Read r =
     (case io_ReadFull 5 (er_reader r) of
        (prefixes, Some err, rd) \<Rightarrow>
          let r' = er_advance (length prefixes) rd r in
          if errors_Is err EOF
          then (Inl (WithCause (Errorf CodeUnknown ''%s'' [error_text err]) (Some err)), r')
          else (Inl (er_read_error r ''read 5 byte message prefix'' CodeInvalidArgument
                       ''protocol error: incomplete envelope: %s'' err), r')
      | (prefixes, None, rd) \<Rightarrow>
          let r = er_advance (length prefixes) rd r;
              sz = uint (Uint32 (drop 1 prefixes))
          in if er_readMaxBytes r > 0 \<and> sz > er_readMaxBytes r
             then (case io_CopyN (nat sz) (er_reader r) of
                     (discarded, err, rd) \<Rightarrow>
                       let r' = er_advance (length discarded) rd r in
                       (case err of
                          Some e \<Rightarrow>
                            if \<not> errors_Is e EOF
                            then (Inl (WithCause (Errorf CodeResourceExhausted
                                   ''message is larger than configured max %d - unable to determine message size: %s''
                                   [itoa (er_readMaxBytes r), error_text e]) (Some e)), r')
                            else (Inl (Errorf CodeResourceExhausted
                                   ''message size %d is larger than configured max %d''
                                   [itoa sz, itoa (er_readMaxBytes r)]), r')
                        | None \<Rightarrow>
                            (Inl (Errorf CodeResourceExhausted
                                   ''message size %d is larger than configured max %d''
                                   [itoa sz, itoa (er_readMaxBytes r)]), r')))
             else (case io_CopyN (nat sz) (er_reader r) of
                     (data, Some err, rd) \<Rightarrow>
                       let r' = er_advance (length data) rd r in
                       if errors_Is err EOF
                       then (Inl (Errorf CodeInvalidArgument
                              ''protocol error: promised %d bytes in enveloped message, got %d bytes''
                              [itoa sz, itoa (int (length data))]), r')
                       else (Inl (er_read_error r (Sprintf ''read %d byte message'' [itoa sz])
                              CodeUnknown ''read enveloped message: %s'' err), r')
                   | (data, None, rd) \<Rightarrow>
                       (Inr (new_envelope (hd prefixes) data), er_advance (length data) rd r)))"

definition er_end_of_stream ::
  "envelope_reader \<Rightarrow> byte \<Rightarrow> bytes \<Rightarrow> connect_error \<times> envelope_reader" where
  \<comment> \<open>lines 282 to 303: an envelope with protocol-specific flags must be the last one\<close>
  "er_end_of_stream r flags data =
     (case discard (er_reader r) of
        (numBytes, err, rd) \<Rightarrow>
          let r' = er_advance (nat numBytes) rd r in
          (case err of
             Some e \<Rightarrow>
               let e = wrapIfContextError e in
               (case asError e of
                  Some connErr \<Rightarrow> (connErr, r')
                | None \<Rightarrow>
                    (WithCause (Errorf CodeInternal
                       ''corrupt response: I/O error after end-stream message: %s'' [error_text e])
                       (Some e), r'))
           | None \<Rightarrow>
               if numBytes > 0
               then (Errorf CodeInternal ''corrupt response: %d extra bytes after end of stream''
                       [itoa numBytes], r')
               else (errSpecialEnvelope, r'\<lparr>er_last := new_envelope flags data\<rparr>)))"

definition er_Unmarshal ::
  "'m codec \<Rightarrow> 'm \<Rightarrow> envelope_reader \<Rightarrow> connect_error option \<times> 'm \<times> envelope_reader" where
  "er_Unmarshal codec message r =
     (case er_Read r of
        (Inl err, r) \<Rightarrow> (Some err, message, r)
      | (Inr env, r) \<Rightarrow>
          if envelope_IsSet env flagEnvelopeCompressed \<and> er_compressionPool r = None
          then (Some (Errorf CodeInternal
                  ''protocol error: sent compressed message without compression support'' []), message, r)
          else if (env_Flags env = 0 \<or> env_Flags env = flagEnvelopeCompressed) \<and> env_Data env = []
          then (None, message,
                r\<lparr>er_stats := map_option (\<lambda>_. \<lparr>Size = 0, CompressedSize = 0\<rparr>) (er_stats r)\<rparr>)
          else
            let compressed = (env_Data env \<noteq> [] \<and> envelope_IsSet env flagEnvelopeCompressed);
                compressedSize = (if compressed then int (length (env_Data env)) else 0);
                decoded =
                  (case (if compressed then er_compressionPool r else None) of
                     None \<Rightarrow> Inr (env_Data env)
                   | Some pool \<Rightarrow> compressionPool_Decompress pool (env_Data env) (er_readMaxBytes r))
            in (case decoded of
                  Inl err \<Rightarrow> (Some err, message, r)
                | Inr data \<Rightarrow>
                    if env_Flags env \<noteq> 0 \<and> env_Flags env \<noteq> flagEnvelopeCompressed
                    then (case er_end_of_stream r (env_Flags env) data of
                            (err, r') \<Rightarrow> (Some err, message, r'))
                    else (case codec_UnmarshalRead codec data message of
                            Inl err \<Rightarrow>
                              (Some (WithCause (Errorf CodeInvalidArgument ''unmarshal message: %s''
                                 [error_text err]) (Some err)), message, r)
                          | Inr message' \<Rightarrow>
                              (None, message',
                               r\<lparr>er_stats := map_option
                                 (\<lambda>_. \<lparr>Size = int (length data), CompressedSize = compressedSize\<rparr>)
                                 (er_stats r)\<rparr>))))"

subsection \<open>Lemmas: a single frame\<close>

text \<open>The bytes of an envelope on the wire.\<close>

definition frame :: "byte \<Rightarrow> bytes \<Rightarrow> bytes" where
  "frame flags data = flags # PutUint32 (word_of_nat (length data)) @ data"

definition fits :: "bytes \<Rightarrow> bool" where
  "fits data \<longleftrightarrow> length data < 2 ^ 32"

abbreviation env_frame :: "envelope \<Rightarrow> bytes" where
  "env_frame e \<equiv> frame (env_Flags e) (env_Data e)"

text \<open>The positions that \<open>Read\<close> and \<open>WriteTo\<close> reach on their own.\<close>

definition env_ok :: "envelope \<Rightarrow> bool" where
  "env_ok e \<longleftrightarrow> fits (env_Data e) \<and> 0 \<le> env_offset e \<and> env_offset e \<le> int (length (env_Data e)) + 5"

lemma length_frame [simp]: "length (frame f d) = length d + 5"
  by (simp add: frame_def)

lemma uint_size: "fits d \<Longrightarrow> uint (word_of_nat (length d) :: 32 word) = int (length d)"
  by (simp add: fits_def uint_word_of_int_eq unsigned_of_nat take_bit_int_eq_self take_bit_nat_eq_self)

lemma makeEnvelopePrefix_ok:
  "fits d \<Longrightarrow> makeEnvelopePrefix f (int (length d)) = Inr (f # PutUint32 (word_of_nat (length d)))"
  by (simp add: makeEnvelopePrefix_def fits_def)

lemma makeEnvelopePrefix_bounds:
  "(\<exists>p. makeEnvelopePrefix f sz = Inr p) \<longleftrightarrow> 0 \<le> sz \<and> sz < 2 ^ 32"
  by (auto simp: makeEnvelopePrefix_def)

lemma frame_split: "frame f d = (f # PutUint32 (word_of_nat (length d))) @ d"
  by (simp add: frame_def)

lemma drop_frame: "k \<le> 5 \<Longrightarrow> drop k (frame f d) = drop k (f # PutUint32 (word_of_nat (length d))) @ d"
  by (simp only: frame_split drop_append) simp

lemma drop_frame_data: "5 \<le> k \<Longrightarrow> drop k (frame f d) = drop (k - 5) d"
  by (simp only: frame_split drop_append) simp

lemma length_drop_prefix: "length (drop k (f # PutUint32 v)) = 5 - k"
  by simp

text \<open>\<open>Read\<close> delivers the frame from the current offset, whatever the buffer sizes.\<close>

lemma envelope_Read_frame:
  assumes "env_ok e"
  shows "envelope_Read n e =
    (let out = take n (drop (nat (env_offset e)) (env_frame e)) in
     Some (out, if out = [] \<and> env_offset e = int (length (env_Data e)) + 5 then Some (Sentinel EOF) else None,
           e\<lparr>env_offset := env_offset e + int (length out)\<rparr>))"
proof (cases "env_offset e < 5")
  case True
  define k where "k = nat (env_offset e)"
  have k: "env_offset e = int k" "k < 5" using True assms by (auto simp: k_def env_ok_def)
  have fit: "fits (env_Data e)" using assms by (simp add: env_ok_def)
  let ?p = "drop k (env_Flags e # PutUint32 (word_of_nat (length (env_Data e))))"
  have lp: "length ?p = 5 - k" by (rule length_drop_prefix)
  have fr: "drop k (env_frame e) = ?p @ env_Data e" using k by (simp add: drop_frame)
  show ?thesis
  proof (cases "n < 5 - k")
    case True
    then have "take n (?p @ env_Data e) = take n ?p" and "int k + int n < 5" using lp by simp_all
    with True show ?thesis
      using k fit lp
      by (simp add: envelope_Read_def makeEnvelopePrefix_ok Let_def fr del: drop_Suc_Cons drop.simps)
  next
    case False
    then have "take n ?p = ?p" "take n (?p @ env_Data e) = ?p @ take (n - (5 - k)) (env_Data e)"
      using lp by auto
    with False show ?thesis
      using k fit lp
      by (simp add: envelope_Read_def envelope_read_data_def makeEnvelopePrefix_ok Let_def fr
          del: drop_Suc_Cons drop.simps)
  qed
next
  case False
  then have "drop (nat (env_offset e)) (env_frame e) = drop (nat (env_offset e - 5)) (env_Data e)"
    by (simp add: drop_frame_data nat_diff_distrib)
  with False assms show ?thesis
    by (auto simp: envelope_Read_def envelope_read_data_def env_ok_def Let_def)
qed

text \<open>\<open>WriteTo\<close> writes the frame from the current offset; where the writer fails it stops and
  the offset records how far it came.\<close>

lemma io_Write_append:
  assumes "io_Write xs w = (length xs, None, w')"
  shows "io_Write (xs @ ys) w =
    (case io_Write ys w' of (n, e, w'') \<Rightarrow> (length xs + n, e, w''))"
  using assms by (auto simp: io_Write_def split: option.splits if_splits)

lemma io_Write_fail:
  assumes "io_Write xs w = (n, e, w')" and "n < length xs"
  shows "io_Write (xs @ ys) w = (n, e, w')"
  using assms by (auto simp: io_Write_def split: option.splits if_splits)

lemma envelope_WriteTo_frame:
  assumes "env_ok e"
  shows "envelope_WriteTo e w =
    (case io_Write (drop (nat (env_offset e)) (env_frame e)) w of
       (n, err, w') \<Rightarrow> Some (int n, err, e\<lparr>env_offset := env_offset e + int n\<rparr>, w'))"
proof (cases "env_offset e < 5")
  case True
  define k where "k = nat (env_offset e)"
  have k: "env_offset e = int k" "k < 5" using True assms by (auto simp: k_def env_ok_def)
  have fit: "fits (env_Data e)" using assms by (simp add: env_ok_def)
  let ?p = "drop k (env_Flags e # PutUint32 (word_of_nat (length (env_Data e))))"
  have lp: "length ?p = 5 - k" by (rule length_drop_prefix)
  have fr: "drop k (env_frame e) = ?p @ env_Data e" using k by (simp add: drop_frame)
  obtain m err w' where wr: "io_Write ?p w = (m, err, w')" by (cases "io_Write ?p w") auto
  have m: "m \<le> 5 - k" using io_Write_out [OF wr] lp by simp
  show ?thesis
  proof (cases "m < 5 - k")
    case True
    then have "io_Write (?p @ env_Data e) w = (m, err, w')"
      using lp by (intro io_Write_fail [OF wr]) simp
    moreover have "int k + int m < 5" using True by simp
    ultimately show ?thesis
      using k fit wr
      by (simp add: envelope_WriteTo_def makeEnvelopePrefix_ok Let_def fr del: drop_Suc_Cons drop.simps)
  next
    case False
    with m lp have "m = length ?p" by simp
    moreover from this io_Write_error_iff [OF wr] have "err = None" by simp
    ultimately have "io_Write (?p @ env_Data e) w =
      (case io_Write (env_Data e) w' of (n, e, w'') \<Rightarrow> (5 - k + n, e, w''))"
      using io_Write_append [of ?p w w' "env_Data e"] wr lp by simp
    with False m show ?thesis
      using k fit wr
      by (simp add: envelope_WriteTo_def envelope_write_data_def makeEnvelopePrefix_ok Let_def fr
          del: drop_Suc_Cons drop.simps split: prod.splits)
  qed
next
  case False
  then have "drop (nat (env_offset e)) (env_frame e) = drop (nat (env_offset e - 5)) (env_Data e)"
    by (simp add: drop_frame_data nat_diff_distrib)
  with False assms show ?thesis
    by (auto simp: envelope_WriteTo_def envelope_write_data_def env_ok_def Let_def split: prod.splits)
qed

lemma writeSender_Send_envelope:
  assumes "fits d"
  shows "writeSender_Send (EnvPayload (new_envelope f d)) s =
    (case io_Write (frame f d) s of (_, err, s') \<Rightarrow> (err, s'))"
proof -
  have "env_ok (new_envelope f d)" using assms by (simp add: env_ok_def new_envelope_def)
  then show ?thesis
    by (simp add: writeSender_Send_def payload_WriteTo_def envelope_WriteTo_frame new_envelope_def
        split: prod.splits)
qed

text \<open>An envelope of any size never makes the sender panic.\<close>

lemma send_envelope_no_panic: "envelope_WriteTo (new_envelope f d) s \<noteq> None"
proof (cases "fits d")
  case True
  then have "env_ok (new_envelope f d)" by (simp add: env_ok_def new_envelope_def)
  then show ?thesis by (simp add: envelope_WriteTo_frame split: prod.splits)
next
  case False
  then show ?thesis by (simp add: envelope_WriteTo_def makeEnvelopePrefix_def new_envelope_def fits_def)
qed

subsection \<open>Lemmas: reading frames\<close>

lemma take5_frame [simp]: "take 5 (frame f d) = f # PutUint32 (word_of_nat (length d))"
  by (simp add: frame_split del: append_Cons)

lemma drop5_frame [simp]: "drop 5 (frame f d) = d"
  by (simp add: frame_split del: append_Cons)

lemma Uint32_PutUint32_only [simp]: "Uint32 (PutUint32 v) = v"
  using Uint32_PutUint32 [of v "[]"] by simp

lemma io_ReadFull_frame:
  "rd_data rd = frame f d @ rest \<Longrightarrow>
     io_ReadFull 5 rd = (f # PutUint32 (word_of_nat (length d)), None, rd\<lparr>rd_data := d @ rest\<rparr>)"
  using io_ReadFull_ok [of 5 rd] by simp

lemma er_Read_frame:
  assumes data: "rd_data (er_reader r) = frame f d @ rest" and fit: "fits d"
    and limit: "er_readMaxBytes r \<le> 0 \<or> int (length d) \<le> er_readMaxBytes r"
  shows "er_Read r =
    (Inr (new_envelope f d),
     r\<lparr>er_reader := (er_reader r)\<lparr>rd_data := rest\<rparr>,
       er_bytesRead := er_bytesRead r + (5 + int (length d))\<rparr>)"
  using limit
  by (auto simp: er_Read_def er_advance_def io_ReadFull_frame [OF data] io_CopyN_ok uint_size [OF fit]
      Let_def)

lemma er_Read_end:
  assumes "rd_data (er_reader r) = []" and "errors_Is (rd_err (er_reader r)) EOF"
  shows "er_Read r =
    (Inl (WithCause (Errorf CodeUnknown ''%s'' [error_text (rd_err (er_reader r))])
       (Some (rd_err (er_reader r)))), r)"
  using assms by (simp add: er_Read_def io_ReadFull_empty er_advance_def Let_def)

lemma er_Read_too_large:
  assumes data: "rd_data (er_reader r) = frame f d @ rest" and fit: "fits d"
    and limit: "0 < er_readMaxBytes r" "er_readMaxBytes r < int (length d)"
  shows "er_Read r =
    (Inl (Errorf CodeResourceExhausted ''message size %d is larger than configured max %d''
       [itoa (int (length d)), itoa (er_readMaxBytes r)]),
     r\<lparr>er_reader := (er_reader r)\<lparr>rd_data := rest\<rparr>,
       er_bytesRead := er_bytesRead r + (5 + int (length d))\<rparr>)"
  using limit
  by (auto simp: er_Read_def er_advance_def io_ReadFull_frame [OF data] io_CopyN_ok uint_size [OF fit]
      Let_def)

lemma first_max_bytes_Sentinel [simp]: "first_max_bytes (chain (Sentinel s)) = None"
  by (cases s) simp_all

lemma wrapIfMaxBytesError_Sentinel [simp]: "wrapIfMaxBytesError what (Sentinel s) = Sentinel s"
  by (simp add: wrapIfMaxBytesError_def del: chain.simps)

lemma wrapIfContextDone_eof [simp]:
  "cx_err ctx = None \<Longrightarrow> wrapIfContextDone ctx (Sentinel ErrUnexpectedEOF) = Sentinel ErrUnexpectedEOF"
  by (simp add: wrapIfContextDone_def wrapIfContextError_def errors_Is_Sentinel Let_def)

text \<open>A stream that ends inside a frame is reported as an invalid argument, never as a clean end
  and never as a shorter message.\<close>

lemma er_Read_truncated:
  assumes data: "rd_data (er_reader r) = take k (frame f d)" and k: "0 < k" "k < length (frame f d)"
    and eof: "rd_err (er_reader r) = Sentinel EOF" and ctx: "cx_err (er_ctx r) = None"
    and fit: "fits d" and limit: "er_readMaxBytes r \<le> 0 \<or> int (length d) \<le> er_readMaxBytes r"
  shows "\<exists>ce. fst (er_Read r) = Inl ce \<and> Error_Code ce = CodeInvalidArgument
    \<and> \<not> errors_Is (Coded ce) EOF"
proof (cases "k < 5")
  case True
  then have "io_ReadFull 5 (er_reader r) =
    (take k (frame f d), Some (Sentinel ErrUnexpectedEOF), (er_reader r)\<lparr>rd_data := []\<rparr>)"
    using k by (simp add: io_ReadFull_def Let_def data eof frame_def)
  then show ?thesis
    by (simp add: er_Read_def er_read_error_def er_advance_def Let_def errors_Is_Sentinel ctx
        errors_Is_Coded WithCause_def Error_Code_def)
next
  case False
  have "io_ReadFull 5 (er_reader r) =
    (f # PutUint32 (word_of_nat (length d)), None, (er_reader r)\<lparr>rd_data := take (k - 5) d\<rparr>)"
    using io_ReadFull_ok [of 5 "er_reader r"] False k by (simp add: data drop_take min_absorb1)
  moreover have "io_CopyN (length d) ((er_reader r)\<lparr>rd_data := take (k - 5) d\<rparr>) =
    (take (k - 5) d, Some (Sentinel EOF), (er_reader r)\<lparr>rd_data := []\<rparr>)"
    using k False by (simp add: io_CopyN_short eof)
  ultimately show ?thesis
    using limit by (auto simp: er_Read_def er_advance_def uint_size [OF fit] Let_def
        errors_Is_Sentinel errors_Is_Coded Error_Code_def)
qed

end
