(* ===== verification/Message_Stream.thy ===== *)
theory Message_Stream
  imports Envelope
begin

section \<open>Streams of enveloped messages\<close>

text \<open>
  What the envelope writer and reader guarantee together: messages sent one after the other by
  \<open>ew_Marshal\<close> are received by \<open>er_Unmarshal\<close> in the same order, compressed or not, and the
  end of the stream is reported once all of them are read. Codec and compressor are parameters;
  their contracts are the documented ones of \<open>connect.Codec\<close> and \<open>connect.Compressor\<close>.
\<close>

subsection \<open>Contracts of codec and compressor\<close>

text \<open>Decoding what was encoded into a fresh message gives the message back, and only the
  zero message encodes to nothing.\<close>

definition codec_ok :: "'m codec \<Rightarrow> 'm \<Rightarrow> bool" where
  "codec_ok codec zero \<longleftrightarrow>
     (\<forall>m bs. codec_MarshalWrite codec m = Inr bs \<longrightarrow>
        codec_UnmarshalRead codec bs zero = Inr m \<and> (bs = [] \<longrightarrow> m = zero))"

text \<open>Decompressing what was compressed yields the payload and ends cleanly, and only the empty
  payload may compress to nothing.\<close>

definition compressor_ok :: "compressor \<Rightarrow> bool" where
  "compressor_ok c \<longleftrightarrow>
     (\<forall>bs cs. c_Compress c bs = Inr (None, cs) \<longrightarrow>
        c_Decompress c cs = Inr (clean_reader bs) \<and> (cs = [] \<longrightarrow> bs = []))"

definition pool_ok :: "compression_pool option \<Rightarrow> bool" where
  "pool_ok p = (case p of None \<Rightarrow> True | Some c \<Rightarrow> compressor_ok c)"

subsection \<open>One message\<close>

text \<open>The flags and payload that \<open>ew_Write\<close> puts on the wire for an encoded message.\<close>

definition wire_message :: "envelope_writer \<Rightarrow> bytes \<Rightarrow> connect_error + (byte \<times> bytes)" where
  "wire_message w buf =
     (case (if int (length buf) < ew_compressMinBytes w then None else ew_compressionPool w) of
        None \<Rightarrow>
          if ew_sendMaxBytes w > 0 \<and> int (length buf) > ew_sendMaxBytes w
          then Inl (Errorf CodeResourceExhausted ''message size %d exceeds sendMaxBytes %d''
                 [itoa (int (length buf)), itoa (ew_sendMaxBytes w)])
          else Inr (0, buf)
      | Some pool \<Rightarrow>
          (case compressionPool_Compress pool buf of
             Inl err \<Rightarrow> Inl err
           | Inr data \<Rightarrow>
               if ew_sendMaxBytes w > 0 \<and> int (length data) > ew_sendMaxBytes w
               then Inl (Errorf CodeResourceExhausted
                      ''compressed message size %d exceeds sendMaxBytes %d''
                      [itoa (int (length data)), itoa (ew_sendMaxBytes w)])
               else Inr (flagEnvelopeCompressed, data)))"

definition same_config :: "envelope_writer \<Rightarrow> envelope_writer \<Rightarrow> bool" where
  "same_config w w' \<longleftrightarrow> ew_ctx w' = ew_ctx w \<and> ew_compressMinBytes w' = ew_compressMinBytes w
     \<and> ew_compressionPool w' = ew_compressionPool w \<and> ew_sendMaxBytes w' = ew_sendMaxBytes w"

lemma ew_recordStats_config: "same_config w (ew_recordStats f a b w)"
  by (simp add: same_config_def ew_recordStats_def)

lemma same_config_refl [simp]: "same_config w w"
  by (simp add: same_config_def)

lemma same_config_wire:
  assumes "same_config w w'"
  shows "wire_message w' = wire_message w"
proof
  from assms have eqs: "ew_compressMinBytes w' = ew_compressMinBytes w"
    "ew_compressionPool w' = ew_compressionPool w" "ew_sendMaxBytes w' = ew_sendMaxBytes w"
    by (simp_all add: same_config_def)
  show "wire_message w' buf = wire_message w buf" for buf
    unfolding wire_message_def eqs ..
qed

lemma IsSet_new [simp]:
  "envelope_IsSet (new_envelope 0 d) flagEnvelopeCompressed = False"
  "envelope_IsSet (new_envelope 1 d) flagEnvelopeCompressed = True"
  by (simp_all add: envelope_IsSet_def new_envelope_def)

lemma env_new [simp]:
  "env_Data (new_envelope f d) = d" "env_Flags (new_envelope f d) = f" "env_offset (new_envelope f d) = 0"
  by (simp_all add: new_envelope_def)

text \<open>Whatever the sender, \<open>ew_Write\<close> sends exactly the frame of \<open>wire_message\<close>, or nothing.\<close>

lemma ew_Write_refused:
  "wire_message w buf = Inl err \<Longrightarrow> ew_Write send w (new_envelope 0 buf) s = (Some err, w, s)"
  by (auto simp: wire_message_def ew_Write_def Let_def split: option.splits sum.splits if_splits)

lemma ew_Write_sent:
  assumes "wire_message w buf = Inr (f, d)" and "send (EnvPayload (new_envelope f d)) s = (None, s')"
  shows "\<exists>w'. ew_Write send w (new_envelope 0 buf) s = (None, w', s') \<and> same_config w w'"
  using assms
  by (auto simp: wire_message_def ew_Write_def ew_write_def Let_def ew_recordStats_config
      split: option.splits sum.splits if_splits)

lemma ew_Marshal_sent:
  assumes "codec_MarshalWrite codec m = Inr buf" and "wire_message w buf = Inr (f, d)" and "fits d"
    and "w_room s = None"
  shows "\<exists>w'. ew_Marshal writeSender_Send codec w (Some m) s =
    (None, w', s\<lparr>w_out := w_out s @ frame f d\<rparr>) \<and> same_config w w'"
proof -
  have "writeSender_Send (EnvPayload (new_envelope f d)) s = (None, s\<lparr>w_out := w_out s @ frame f d\<rparr>)"
    using assms by (simp add: writeSender_Send_envelope)
  with ew_Write_sent [OF assms(2), of writeSender_Send] assms(1) show ?thesis
    by (simp add: ew_Marshal_def)
qed

lemma wire_message_flags: "wire_message w buf = Inr (f, d) \<Longrightarrow> f = 0 \<or> f = flagEnvelopeCompressed"
  by (auto simp: wire_message_def split: option.splits sum.splits if_splits)

lemma wire_message_plain: "wire_message w buf = Inr (0, d) \<Longrightarrow> d = buf"
  by (auto simp: wire_message_def split: option.splits sum.splits if_splits)

lemma wire_message_compressed:
  assumes "wire_message w buf = Inr (1, d)"
  shows "\<exists>pool. ew_compressionPool w = Some pool \<and> c_Compress pool buf = Inr (None, d)"
  using assms
  by (auto simp: wire_message_def compressionPool_Compress_def Let_def
      split: option.splits sum.splits if_splits)

text \<open>Receiving the frame of one message.\<close>

definition read_limit_ok :: "int \<Rightarrow> bytes \<Rightarrow> bool" where
  "read_limit_ok limit bs \<longleftrightarrow> limit \<le> 0 \<or> int (length bs) \<le> limit"

definition same_reader_config :: "envelope_reader \<Rightarrow> envelope_reader \<Rightarrow> bool" where
  "same_reader_config r r' \<longleftrightarrow> er_ctx r' = er_ctx r \<and> er_compressionPool r' = er_compressionPool r
     \<and> er_readMaxBytes r' = er_readMaxBytes r"

lemma er_Unmarshal_sent:
  assumes codec: "codec_ok codec zero" and pool: "pool_ok (ew_compressionPool w)"
    and enc: "codec_MarshalWrite codec m = Inr buf" and wire: "wire_message w buf = Inr (f, d)"
    and fit: "fits d"
    and data: "rd_data (er_reader r) = frame f d @ rest"
    and cfg: "er_compressionPool r = ew_compressionPool w"
    and lim: "read_limit_ok (er_readMaxBytes r) d" "read_limit_ok (er_readMaxBytes r) buf"
  shows "\<exists>r'. er_Unmarshal codec zero r = (None, m, r') \<and> same_reader_config r r'
    \<and> er_reader r' = (er_reader r)\<lparr>rd_data := rest\<rparr>"
proof -
  have rd: "er_Read r = (Inr (new_envelope f d),
     r\<lparr>er_reader := (er_reader r)\<lparr>rd_data := rest\<rparr>,
       er_bytesRead := er_bytesRead r + (5 + int (length d))\<rparr>)"
    using data fit lim(1) unfolding read_limit_ok_def by (rule er_Read_frame)
  have dec: "codec_UnmarshalRead codec buf zero = Inr m" and zero: "buf = [] \<Longrightarrow> m = zero"
    using codec enc by (auto simp: codec_ok_def)
  from wire_message_flags [OF wire] show ?thesis
  proof
    assume f: "f = 0"
    with wire have "d = buf" by (blast dest: wire_message_plain)
    with f rd dec zero show ?thesis
      by (simp add: er_Unmarshal_def same_reader_config_def Let_def)
  next
    assume f: "f = flagEnvelopeCompressed"
    with wire obtain p where p: "ew_compressionPool w = Some p" "c_Compress p buf = Inr (None, d)"
      by (blast dest: wire_message_compressed)
    with pool have "c_Decompress p d = Inr (clean_reader buf)" and "d = [] \<Longrightarrow> buf = []"
      by (auto simp: pool_ok_def compressor_ok_def)
    moreover from this(1) lim(2)
    have "compressionPool_Decompress p d (er_readMaxBytes r) = Inr buf"
      by (subst Decompress_exact) (auto simp: clean_reader_def read_limit_ok_def)
    ultimately show ?thesis
      using f rd dec zero p(1) cfg by (simp add: er_Unmarshal_def same_reader_config_def Let_def)
  qed
qed

subsection \<open>The last envelope\<close>

text \<open>An envelope with a protocol-specific flag (2 for the Connect protocol's end-stream message,
  128 for gRPC-Web trailers) is compressed under the same rules and must be the last one.\<close>

lemma special_sent:
  assumes "flags \<in> {2, 128}" and "wire_message w buf = Inr (f, d)"
    and "send (EnvPayload (new_envelope (flags OR f) d)) s = (None, s')"
  shows "\<exists>w'. ew_Write send w (new_envelope flags buf) s = (None, w', s') \<and> same_config w w'"
proof -
  have "\<not> envelope_IsSet (new_envelope flags buf) flagEnvelopeCompressed"
    using assms(1) by (auto simp: envelope_IsSet_def new_envelope_def)
  with assms(2,3) show ?thesis
    by (auto simp: wire_message_def ew_Write_def ew_write_def new_envelope_def Let_def
        ew_recordStats_config split: option.splits sum.splits if_splits)
qed

lemma er_end_of_stream_clean:
  assumes "er_reader r = clean_reader []"
  shows "\<exists>r'. er_end_of_stream r fl data = (errSpecialEnvelope, r') \<and> er_last r' = new_envelope fl data
    \<and> er_reader r' = clean_reader [] \<and> same_reader_config r r'"
  using assms
  by (simp add: er_end_of_stream_def discard_def io_ReadAll_def clean_reader_def er_advance_def
      same_reader_config_def Let_def)

lemma special_flag_bits:
  assumes "flags \<in> {2, 128 :: byte}" "f = 0 \<or> f = flagEnvelopeCompressed"
  shows "flags OR f \<noteq> 0" "flags OR f \<noteq> flagEnvelopeCompressed"
    "(flags OR f) AND flagEnvelopeCompressed = f" "(flags OR f) AND flags = flags"
  using assms by auto

lemma special_received:
  assumes fl: "flags \<in> {2, 128}" and pool: "pool_ok (ew_compressionPool w)"
    and wire: "wire_message w buf = Inr (f, d)" and fit: "fits d"
    and data: "er_reader r = clean_reader (frame (flags OR f) d)"
    and cfg: "er_compressionPool r = ew_compressionPool w"
    and lim: "read_limit_ok (er_readMaxBytes r) d" "read_limit_ok (er_readMaxBytes r) buf"
  shows "\<exists>r'. er_Unmarshal codec message r = (Some errSpecialEnvelope, message, r')
    \<and> er_last r' = new_envelope (flags OR f) buf \<and> er_reader r' = clean_reader []"
proof -
  let ?r = "r\<lparr>er_reader := (er_reader r)\<lparr>rd_data := []\<rparr>, er_bytesRead := er_bytesRead r + (5 + int (length d))\<rparr>"
  have rd: "er_Read r = (Inr (new_envelope (flags OR f) d), ?r)"
    using er_Read_frame [of r "flags OR f" d "[]"] data fit lim(1)
    by (simp add: clean_reader_def read_limit_ok_def)
  note bits = special_flag_bits [OF fl wire_message_flags [OF wire]]
  obtain r' where r': "er_end_of_stream ?r (flags OR f) buf = (errSpecialEnvelope, r')"
    "er_last r' = new_envelope (flags OR f) buf" "er_reader r' = clean_reader []"
    using er_end_of_stream_clean [of ?r "flags OR f" buf] data by (auto simp: clean_reader_def)
  from wire_message_flags [OF wire] show ?thesis
  proof
    assume f: "f = 0"
    with wire have "d = buf" by (blast dest: wire_message_plain)
    with f rd r' bits show ?thesis
      by (simp add: er_Unmarshal_def envelope_IsSet_def new_envelope_def Let_def)
  next
    assume f: "f = flagEnvelopeCompressed"
    with wire obtain p where p: "ew_compressionPool w = Some p" "c_Compress p buf = Inr (None, d)"
      by (blast dest: wire_message_compressed)
    with pool have "c_Decompress p d = Inr (clean_reader buf)" and "d = [] \<Longrightarrow> buf = []"
      by (auto simp: pool_ok_def compressor_ok_def)
    moreover from this(1) lim(2)
    have "compressionPool_Decompress p d (er_readMaxBytes r) = Inr buf"
      by (subst Decompress_exact) (auto simp: clean_reader_def read_limit_ok_def)
    ultimately show ?thesis
      using f rd r' bits p(1) cfg
      by (auto simp: er_Unmarshal_def envelope_IsSet_def new_envelope_def Let_def)
  qed
qed

subsection \<open>Whole streams\<close>

fun send_all ::
  "'s sender \<Rightarrow> 'm codec \<Rightarrow> envelope_writer \<Rightarrow> 'm list \<Rightarrow> 's
     \<Rightarrow> connect_error option \<times> envelope_writer \<times> 's" where
  "send_all send codec w [] s = (None, w, s)"
| "send_all send codec w (m # ms) s =
     (case ew_Marshal send codec w (Some m) s of
        (Some err, w', s') \<Rightarrow> (Some err, w', s')
      | (None, w', s') \<Rightarrow> send_all send codec w' ms s')"

text \<open>At most \<open>n\<close> receives, each into a fresh message; stops at the first error.\<close>

fun recv_all ::
  "'m codec \<Rightarrow> 'm \<Rightarrow> nat \<Rightarrow> envelope_reader \<Rightarrow> 'm list \<times> connect_error option \<times> envelope_reader" where
  "recv_all codec zero 0 r = ([], None, r)"
| "recv_all codec zero (Suc n) r =
     (case er_Unmarshal codec zero r of
        (Some err, _, r') \<Rightarrow> ([], Some err, r')
      | (None, m, r') \<Rightarrow>
          (case recv_all codec zero n r' of (ms, err, r'') \<Rightarrow> (m # ms, err, r'')))"

text \<open>A message that the writer can send within its limits and the reader accepts within its own.\<close>

definition sendable :: "'m codec \<Rightarrow> envelope_writer \<Rightarrow> int \<Rightarrow> 'm \<Rightarrow> bool" where
  "sendable codec w limit m =
     (case codec_MarshalWrite codec m of
        Inl _ \<Rightarrow> False
      | Inr buf \<Rightarrow>
          (case wire_message w buf of
             Inl _ \<Rightarrow> False
           | Inr (f, d) \<Rightarrow> fits d \<and> read_limit_ok limit d \<and> read_limit_ok limit buf))"

definition message_frame :: "'m codec \<Rightarrow> envelope_writer \<Rightarrow> 'm \<Rightarrow> bytes" where
  "message_frame codec w m =
     (case codec_MarshalWrite codec m of
        Inl _ \<Rightarrow> []
      | Inr buf \<Rightarrow> (case wire_message w buf of Inl _ \<Rightarrow> [] | Inr (f, d) \<Rightarrow> frame f d))"

lemma same_config_message_frame:
  "same_config w w' \<Longrightarrow> message_frame codec w' = message_frame codec w"
  by (rule ext) (simp add: message_frame_def same_config_wire cong: sum.case_cong)

lemma same_config_sendable: "same_config w w' \<Longrightarrow> sendable codec w' limit = sendable codec w limit"
  by (rule ext) (simp add: sendable_def same_config_wire cong: sum.case_cong)

lemma message_frame_sent:
  "codec_MarshalWrite codec m = Inr buf \<Longrightarrow> wire_message w buf = Inr (f, d) \<Longrightarrow>
     message_frame codec w m = frame f d"
  by (simp add: message_frame_def)

lemma send_all_frames:
  assumes "list_all (sendable codec w limit) ms" and "w_room s = None"
  shows "\<exists>w'. send_all writeSender_Send codec w ms s =
    (None, w', s\<lparr>w_out := w_out s @ concat (map (message_frame codec w) ms)\<rparr>)"
  using assms
proof (induction ms arbitrary: w s)
  case Nil
  then show ?case by simp
next
  case (Cons m ms)
  then obtain buf f d where m: "codec_MarshalWrite codec m = Inr buf"
    "wire_message w buf = Inr (f, d)" "fits d"
    by (auto simp: sendable_def split: sum.splits)
  from ew_Marshal_sent [OF m] Cons.prems(2) obtain w' where
    w': "ew_Marshal writeSender_Send codec w (Some m) s =
      (None, w', s\<lparr>w_out := w_out s @ frame f d\<rparr>)" and cfg: "same_config w w'"
    by blast
  have "list_all (sendable codec w' limit) ms"
    using Cons.prems(1) by (simp add: same_config_sendable [OF cfg])
  from Cons.IH [OF this, of "s\<lparr>w_out := w_out s @ frame f d\<rparr>"] Cons.prems(2) w' m
  show ?case by (simp add: same_config_message_frame [OF cfg] message_frame_sent)
qed

lemma recv_all_frames:
  assumes "codec_ok codec zero" and "pool_ok (ew_compressionPool w)"
    and "list_all (sendable codec w (er_readMaxBytes r)) ms"
    and "rd_data (er_reader r) = concat (map (message_frame codec w) ms) @ rest"
    and "er_compressionPool r = ew_compressionPool w"
  shows "\<exists>r'. recv_all codec zero (length ms + n) r =
      (case recv_all codec zero n r' of (ms', err, r'') \<Rightarrow> (ms @ ms', err, r''))
    \<and> same_reader_config r r' \<and> er_reader r' = (er_reader r)\<lparr>rd_data := rest\<rparr>"
  using assms
proof (induction ms arbitrary: r)
  case Nil
  then show ?case
    by (intro exI [of _ r]) (simp add: same_reader_config_def split: prod.splits)
next
  case (Cons m ms)
  then obtain buf f d where m: "codec_MarshalWrite codec m = Inr buf"
    "wire_message w buf = Inr (f, d)" "fits d"
    and lim: "read_limit_ok (er_readMaxBytes r) d" "read_limit_ok (er_readMaxBytes r) buf"
    by (auto simp: sendable_def split: sum.splits)
  have "rd_data (er_reader r) = frame f d @ (concat (map (message_frame codec w) ms) @ rest)"
    using Cons.prems(4) message_frame_sent [OF m(1,2)] by simp
  from er_Unmarshal_sent [OF Cons.prems(1,2) m this Cons.prems(5) lim] obtain r1 where
    r1: "er_Unmarshal codec zero r = (None, m, r1)" "same_reader_config r r1"
      "er_reader r1 = (er_reader r)\<lparr>rd_data := concat (map (message_frame codec w) ms) @ rest\<rparr>"
    by blast
  from r1(2) Cons.prems have "list_all (sendable codec w (er_readMaxBytes r1)) ms"
    "er_compressionPool r1 = ew_compressionPool w"
    by (simp_all add: same_reader_config_def)
  from Cons.IH [OF Cons.prems(1,2) this(1) _ this(2)] r1(3) obtain r' where
    "recv_all codec zero (length ms + n) r1 =
      (case recv_all codec zero n r' of (ms', err, r'') \<Rightarrow> (ms @ ms', err, r''))"
    "same_reader_config r1 r'" "er_reader r' = (er_reader r1)\<lparr>rd_data := rest\<rparr>"
    by auto
  with r1 show ?case
    by (intro exI [of _ r']) (simp add: same_reader_config_def split: prod.splits)
qed

subsection \<open>Properties\<close>

text \<open>C3. Framing round trip. Messages sent one after the other with \<open>envelopeWriter.Marshal\<close>
  over a working writer are received by \<open>envelopeReader.Unmarshal\<close>, into fresh messages, in the
  same order and unchanged, whether the writer compressed them or not; the receive after the last
  one reports the end of the stream. The hypotheses are the contracts of codec and compressor and
  that every message fits the limits of both sides.\<close>

theorem message_stream_round_trip:
  assumes "codec_ok codec zero" and "pool_ok (ew_compressionPool w)"
    and "list_all (sendable codec w (er_readMaxBytes r)) ms"
    and "er_compressionPool r = ew_compressionPool w"
    and "send_all writeSender_Send codec w ms good_writer = (err, w', s)"
    and "er_reader r = clean_reader (w_out s)"
  shows "err = None \<and>
    (\<exists>ce r'. recv_all codec zero (length ms + 1) r = (ms, Some ce, r') \<and> errors_Is (Coded ce) EOF
       \<and> \<not> is_errSpecialEnvelope (Coded ce))"
proof -
  from send_all_frames [OF assms(3), of good_writer] assms(5)
  have err: "err = None" and out: "w_out s = concat (map (message_frame codec w) ms)"
    by (auto simp: good_writer_def)
  from out assms(6) have "rd_data (er_reader r) = concat (map (message_frame codec w) ms) @ []"
    by (simp add: clean_reader_def)
  from recv_all_frames [OF assms(1,2,3) this assms(4), of 1] obtain r' where
    recv: "recv_all codec zero (length ms + 1) r =
      (case recv_all codec zero 1 r' of (ms', err, r'') \<Rightarrow> (ms @ ms', err, r''))"
    and r': "er_reader r' = (er_reader r)\<lparr>rd_data := []\<rparr>"
    by blast
  have "er_Read r' = (Inl (WithCause (Errorf CodeUnknown ''%s'' [''EOF'']) (Some (Sentinel EOF))), r')"
    using er_Read_end [of r'] r' assms(6) by (simp add: clean_reader_def errors_Is_Sentinel)
  then have "recv_all codec zero 1 r' =
      ([], Some (WithCause (Errorf CodeUnknown ''%s'' [''EOF'']) (Some (Sentinel EOF))), r')"
    by (simp add: er_Unmarshal_def)
  with recv err show ?thesis
    by (simp add: errors_Is_Coded errors_Is_Sentinel is_errSpecialEnvelope_def chain_cause_conv
        errSpecialEnvelope_def WithCause_def Errorf_def NewError_def)
qed

text \<open>A codec for byte strings that writes the message as it is, and a compressor that reverses
  its payload and adds a marker byte: concrete instances of the two contracts.\<close>

definition raw_codec :: "bytes codec" where
  "raw_codec = \<lparr>codec_Name = ''proto'', codec_MarshalWrite = Inr,
     codec_UnmarshalRead = (\<lambda>bs _. Inr bs), codec_stable = None\<rparr>"

definition rev_compressor :: compressor where
  "rev_compressor = \<lparr>c_Name = ''gzip'', c_Compress = (\<lambda>bs. Inr (None, 31 # rev bs)),
     c_Decompress = (\<lambda>cs. case cs of [] \<Rightarrow> Inl (Sentinel EOF) | _ # bs \<Rightarrow> Inr (clean_reader (rev bs)))\<rparr>"

lemma raw_codec_ok: "codec_ok raw_codec []"
  by (simp add: codec_ok_def raw_codec_def)

lemma rev_compressor_ok: "compressor_ok rev_compressor"
  by (simp add: compressor_ok_def rev_compressor_def)

definition witness_writer :: envelope_writer where
  "witness_writer = \<lparr>ew_ctx = \<lparr>cx_err = None, cx_deadline = None\<rparr>, ew_compressMinBytes = 2,
     ew_compressionPool = Some rev_compressor, ew_sendMaxBytes = 100, ew_stats = None\<rparr>"

definition witness_reader :: "bytes \<Rightarrow> envelope_reader" where
  "witness_reader bs = \<lparr>er_ctx = \<lparr>cx_err = None, cx_deadline = None\<rparr>, er_reader = clean_reader bs,
     er_bytesRead = 0, er_last = new_envelope 0 [], er_compressionPool = Some rev_compressor,
     er_readMaxBytes = 100, er_stats = None\<rparr>"

theorem message_stream_round_trip_witness:
  "fst (recv_all raw_codec [] 3
     (witness_reader (w_out (snd (snd (send_all writeSender_Send raw_codec witness_writer
        [[7], [1, 2, 3]] good_writer)))))) = [[7], [1, 2, 3]]"
proof -
  define ms :: "bytes list" where "ms = [[7], [1, 2, 3]]"
  obtain err w' s where sent: "send_all writeSender_Send raw_codec witness_writer ms good_writer = (err, w', s)"
    by (cases "send_all writeSender_Send raw_codec witness_writer ms good_writer") auto
  let ?r = "witness_reader (w_out s)"
  have "list_all (sendable raw_codec witness_writer (er_readMaxBytes ?r)) ms"
    by (simp add: sendable_def raw_codec_def witness_writer_def witness_reader_def wire_message_def
        compressionPool_Compress_def rev_compressor_def fits_def read_limit_ok_def ms_def)
  moreover have "pool_ok (ew_compressionPool witness_writer)"
    "er_compressionPool ?r = ew_compressionPool witness_writer" "er_reader ?r = clean_reader (w_out s)"
    by (simp_all add: witness_writer_def witness_reader_def pool_ok_def rev_compressor_ok)
  ultimately have "fst (recv_all raw_codec [] (length ms + 1) ?r) = ms"
    using message_stream_round_trip [OF raw_codec_ok _ _ _ sent] by fastforce
  then show ?thesis
    by (simp only: ms_def [symmetric] sent snd_conv) (simp add: ms_def numeral_3_eq_3 del: recv_all.simps)
qed

end
