(* ===== verification/Grpc_Text.thy ===== *)
theory Grpc_Text
  imports Base64 Message_Stream
begin

section \<open>Text formats of the gRPC protocol (connecthttp/protocol_grpc.go)\<close>

text \<open>
  The \<open>grpc-timeout\<close> header, the percent-encoding of \<open>grpc-message\<close> and the content types.
  A \<open>time.Duration\<close> is an \<open>int\<close> number of nanoseconds within \<open>int64\<close>; its product with a
  unit is wrapped as Go does. The lemmas bound the error of a timeout that is sent and parsed
  back, show that percent-encoding is inverted by decoding and yields printable ASCII, and that a
  content type and a codec name determine each other.
\<close>

subsection \<open>Timeouts\<close>

abbreviation Nanosecond :: int where "Nanosecond \<equiv> 1"
abbreviation Microsecond :: int where "Microsecond \<equiv> 1000"
abbreviation Millisecond :: int where "Millisecond \<equiv> 1000000"
abbreviation Second :: int where "Second \<equiv> 1000000000"
abbreviation Minute :: int where "Minute \<equiv> 60000000000"
abbreviation Hour :: int where "Hour \<equiv> 3600000000000"

text \<open>\<open>strconv.QuoteRune\<close> of a byte (verb \<open>%q\<close> on a byte).\<close>

definition quote_rune :: "char \<Rightarrow> string" where
  "quote_rune c =
     [CHR 0x27]
     @ (let n = of_char c :: nat in
        if c = CHR 0x27 then [CHR 0x5C, CHR 0x27]
        else if c = CHR 0x22 then [c]
        else if n < 128 then quote_char c
        else if n < 160 \<or> n = 173 then [CHR 0x5C] @ ''u00'' @ [lower_hex (n div 16), lower_hex (n mod 16)]
        else [char_of (192 + n div 64), char_of (128 + n mod 64)])
     @ [CHR 0x27]"

definition grpcTimeoutUnitLookup :: "char \<Rightarrow> go_error + int" where
  "grpcTimeoutUnitLookup unit =
     (if unit = CHR ''n'' then Inr Nanosecond
      else if unit = CHR ''u'' then Inr Microsecond
      else if unit = CHR ''m'' then Inr Millisecond
      else if unit = CHR ''S'' then Inr Second
      else if unit = CHR ''M'' then Inr Minute
      else if unit = CHR ''H'' then Inr Hour
      else Inl (Plain (Sprintf ''protocol error: timeout has invalid unit %q'' [quote_rune unit])))"

definition grpcTimeoutMaxHours :: int where
  "grpcTimeoutMaxHours = max_int64 div Hour"

definition grpcParseTimeout :: "string \<Rightarrow> go_error + int" where
  "grpcParseTimeout timeout =
     (if timeout = [] then Inl (Sentinel ErrNoTimeout)
      else case grpcTimeoutUnitLookup (last timeout) of
        Inl err \<Rightarrow> Inl err
      | Inr unit \<Rightarrow>
          (case ParseInt64 (butlast timeout) of
             None \<Rightarrow> Inl (Plain (Sprintf ''protocol error: invalid timeout %q'' [Quote timeout]))
           | Some num \<Rightarrow>
               if num < 0 then
                 Inl (Plain (Sprintf ''protocol error: invalid timeout %q'' [Quote timeout]))
               else if num > 99999999 then
                 Inl (Plain (Sprintf ''protocol error: timeout %q is too long'' [Quote timeout]))
               else if unit = Hour \<and> num > grpcTimeoutMaxHours then Inl (Sentinel ErrNoTimeout)
               else Inr (wrap64 (num * unit))))"

definition grpcEncodeTimeout :: "int \<Rightarrow> string" where
  "grpcEncodeTimeout timeout =
     (if timeout \<le> 0 then ''0n''
      else
        let (sz, unit) =
              (if timeout < Nanosecond * 100000000 then (Nanosecond, CHR ''n'')
               else if timeout < Microsecond * 100000000 then (Microsecond, CHR ''u'')
               else if timeout < Millisecond * 100000000 then (Millisecond, CHR ''m'')
               else if timeout < Second * 100000000 then (Second, CHR ''S'')
               else if timeout < Minute * 100000000 then (Minute, CHR ''M'')
               else (Hour, CHR ''H''))
        in itoa (timeout div sz) @ [unit])"

subsection \<open>Percent encoding\<close>

definition upperhex :: string where "upperhex = ''0123456789ABCDEF''"

definition grpcShouldEscape :: "char \<Rightarrow> bool" where
  "grpcShouldEscape c \<longleftrightarrow>
     (of_char c :: nat) < 32 \<or> (of_char c :: nat) > 126 \<or> c = CHR ''%''"

fun percent_encode_loop :: "string \<Rightarrow> string" where
  "percent_encode_loop [] = []"
| "percent_encode_loop (c # cs) =
     (if grpcShouldEscape c
      then [CHR ''%'', upperhex ! unat (drop_bit 4 (byte_of_char c)),
            upperhex ! unat (byte_of_char c AND 15)] @ percent_encode_loop cs
      else c # percent_encode_loop cs)"

definition grpcPercentEncode :: "string \<Rightarrow> string" where
  "grpcPercentEncode msg =
     (let hexCount = length (filter grpcShouldEscape msg) in
      if hexCount = 0 then msg else percent_encode_loop msg)"

definition unhex :: "char \<Rightarrow> byte" where
  "unhex c =
     (if in_range CHR ''0'' CHR ''9'' c then byte_of_char c - byte_of_char CHR ''0''
      else if in_range CHR ''a'' CHR ''f'' c then byte_of_char c - byte_of_char CHR ''a'' + 10
      else if in_range CHR ''A'' CHR ''F'' c then byte_of_char c - byte_of_char CHR ''A'' + 10
      else 0)"

definition isHex :: "char \<Rightarrow> bool" where
  "isHex c \<longleftrightarrow> in_range CHR ''0'' CHR ''9'' c \<or> in_range CHR ''a'' CHR ''f'' c
     \<or> in_range CHR ''A'' CHR ''F'' c"

definition validateHex :: "string \<Rightarrow> go_error option" where
  "validateHex input =
     (if length input < 3 \<or> input ! 0 \<noteq> CHR ''%'' \<or> \<not> isHex (input ! 1) \<or> \<not> isHex (input ! 2)
      then let input = (if length input > 3 then take 3 input else input)
           in Some (Plain (Sprintf ''invalid percent-encoded string %q'' [Quote input]))
      else None)"

text \<open>The first loop of \<open>grpcPercentDecode\<close>: the number of escapes, or the first bad one.\<close>

fun percent_scan :: "nat \<Rightarrow> string \<Rightarrow> go_error + nat" where
  "percent_scan percentCount [] = Inr percentCount"
| "percent_scan percentCount (c # cs) =
     (if c = CHR ''%'' then
        (case validateHex (c # cs) of
           Some err \<Rightarrow> Inl err
         | None \<Rightarrow> percent_scan (Suc percentCount) (drop 2 cs))
      else percent_scan percentCount cs)"

text \<open>The second loop; the scan has checked that two digits follow every \<open>%\<close>.\<close>

fun percent_decode_loop :: "string \<Rightarrow> string" where
  "percent_decode_loop [] = []"
| "percent_decode_loop (c # cs) =
     (if c = CHR ''%''
      then char_of_byte (push_bit 4 (unhex (cs ! 0)) OR unhex (cs ! 1)) # percent_decode_loop (drop 2 cs)
      else c # percent_decode_loop cs)"

definition grpcPercentDecode :: "string \<Rightarrow> go_error + string" where
  "grpcPercentDecode input =
     (case percent_scan 0 input of
        Inl err \<Rightarrow> Inl err
      | Inr percentCount \<Rightarrow>
          if percentCount = 0 then Inr input else Inr (percent_decode_loop input))"

subsection \<open>Content types\<close>

abbreviation CodecNameProto :: string where "CodecNameProto \<equiv> ''proto''"
abbreviation CodecNameJSON :: string where "CodecNameJSON \<equiv> ''json''"

abbreviation grpcContentTypeDefault :: string where "grpcContentTypeDefault \<equiv> ''application/grpc''"
abbreviation grpcWebContentTypeDefault :: string where
  "grpcWebContentTypeDefault \<equiv> ''application/grpc-web''"
abbreviation grpcContentTypePrefix :: string where "grpcContentTypePrefix \<equiv> ''application/grpc+''"
abbreviation grpcWebContentTypePrefix :: string where
  "grpcWebContentTypePrefix \<equiv> ''application/grpc-web+''"

definition grpcCodecForContentType :: "bool \<Rightarrow> string \<Rightarrow> string" where
  "grpcCodecForContentType web contentType =
     (if \<not> web \<and> contentType = grpcContentTypeDefault \<or> web \<and> contentType = grpcWebContentTypeDefault
      then CodecNameProto
      else let prefix = (if web then grpcWebContentTypePrefix else grpcContentTypePrefix)
           in TrimPrefix contentType prefix)"

definition grpcContentTypeForCodecName :: "bool \<Rightarrow> string \<Rightarrow> string" where
  "grpcContentTypeForCodecName web name =
     (if web then grpcWebContentTypePrefix @ name
      else if name = CodecNameProto then grpcContentTypeDefault
      else grpcContentTypePrefix @ name)"

definition grpcValidateResponseContentType :: "bool \<Rightarrow> string \<Rightarrow> string \<Rightarrow> connect_error option" where
  "grpcValidateResponseContentType web requestCodecName responseContentType =
     (let (bare, prefix) =
            (if web then (grpcWebContentTypeDefault, grpcWebContentTypePrefix)
             else (grpcContentTypeDefault, grpcContentTypePrefix))
      in if responseContentType = prefix @ requestCodecName
            \<or> requestCodecName = CodecNameProto \<and> responseContentType = bare
         then None
         else
           let expectedContentType =
                 (if requestCodecName \<noteq> CodecNameProto then prefix @ requestCodecName else bare);
               code = (if responseContentType \<noteq> bare \<and> \<not> HasPrefix responseContentType prefix
                       then CodeUnknown else CodeInternal)
           in Some (Errorf code ''invalid content-type: %q; expecting %q''
                      [Quote responseContentType, Quote expectedContentType]))"

subsection \<open>Lemmas: timeouts\<close>

lemma wrap64_id: "- (2 ^ 63) \<le> i \<Longrightarrow> i < 2 ^ 63 \<Longrightarrow> wrap64 i = i"
  by (simp add: wrap64_def)

lemma div_less_of_mult: "(0 :: int) < s \<Longrightarrow> d < k * s \<Longrightarrow> d div s < k"
proof -
  assume "0 < s" "d < k * s"
  moreover have "d div s * s + d mod s = d" "0 \<le> d mod s"
    using \<open>0 < s\<close> by simp_all
  ultimately have "d div s * s < k * s" by linarith
  then show "d div s < k" using \<open>0 < s\<close> by simp
qed

text \<open>The unit chosen for a positive duration, why at most eight digits are needed, and how fine
  the unit is.\<close>

lemma grpcEncodeTimeout_unit:
  assumes "0 < d" "d \<le> max_int64"
  obtains sz unit where "grpcEncodeTimeout d = itoa (d div sz) @ [unit]"
    and "grpcTimeoutUnitLookup unit = Inr sz" and "0 < sz" and "d div sz < 100000000"
    and "sz = Hour \<longrightarrow> d div sz \<le> grpcTimeoutMaxHours"
    and "sz = 1 \<or> 100000 * sz \<le> d"
proof -
  note enc = grpcEncodeTimeout_def grpcTimeoutUnitLookup_def
  consider "d < 100000000" | "\<not> d < 100000000" "d < 100000000000"
    | "\<not> d < 100000000000" "d < 100000000000000" | "\<not> d < 100000000000000" "d < 100000000000000000"
    | "\<not> d < 100000000000000000" "d < 6000000000000000000" | "\<not> d < 6000000000000000000"
    by linarith
  then show thesis
  proof cases
    case 1
    then show thesis using assms
      by (intro that [of 1 "CHR ''n''"]) (simp_all add: enc)
  next
    case 2
    then show thesis using assms
      by (intro that [of 1000 "CHR ''u''"]) (simp_all add: enc div_less_of_mult)
  next
    case 3
    then show thesis using assms
      by (intro that [of 1000000 "CHR ''m''"]) (simp_all add: enc div_less_of_mult)
  next
    case 4
    then show thesis using assms
      by (intro that [of 1000000000 "CHR ''S''"]) (simp_all add: enc div_less_of_mult)
  next
    case 5
    then show thesis using assms
      by (intro that [of 60000000000 "CHR ''M''"]) (simp_all add: enc div_less_of_mult)
  next
    case 6
    have "d div Hour \<le> grpcTimeoutMaxHours"
      unfolding grpcTimeoutMaxHours_def using assms(2) by (rule zdiv_mono1) simp
    with 6 show thesis using assms
      by (intro that [of 3600000000000 "CHR ''H''"]) (simp_all add: enc div_less_of_mult)
  qed
qed

lemma ParseInt64_itoa: "0 \<le> i \<Longrightarrow> i < 2 ^ 63 \<Longrightarrow> ParseInt64 (itoa i) = Some i"
  using ParseInt64_utoa [of "nat i"] by (simp add: itoa_def nat_less_iff)

lemma parse_encoded_timeout:
  assumes "grpcTimeoutUnitLookup unit = Inr sz" and "0 < sz" and "0 \<le> k" and "k < 100000000"
    and "sz = Hour \<longrightarrow> k \<le> grpcTimeoutMaxHours" and "k * sz < 2 ^ 63"
  shows "grpcParseTimeout (itoa k @ [unit]) = Inr (k * sz)"
proof -
  have "ParseInt64 (itoa k) = Some k" using assms by (intro ParseInt64_itoa) simp_all
  moreover have "wrap64 (k * sz) = k * sz"
  proof (rule wrap64_id)
    have "0 \<le> k * sz" using assms by simp
    then show "- (2 ^ 63) \<le> k * sz" by simp
  qed (use assms in simp)
  ultimately show ?thesis using assms by (auto simp: grpcParseTimeout_def)
qed

text \<open>Whatever a peer sends, a parsed timeout is a non-negative \<open>time.Duration\<close>: the product
  never wraps.\<close>

lemma unit_range:
  assumes "grpcTimeoutUnitLookup u = Inr sz"
  shows "0 < sz" and "sz = Hour \<or> sz \<le> Minute"
  using assms by (auto simp: grpcTimeoutUnitLookup_def split: if_splits)

lemma grpcParseTimeout_range:
  assumes "grpcParseTimeout s = Inr d"
  shows "0 \<le> d \<and> d \<le> max_int64"
proof -
  from assms have s: "s \<noteq> []" by (auto simp: grpcParseTimeout_def)
  with assms obtain sz where u: "grpcTimeoutUnitLookup (last s) = Inr sz"
    by (cases "grpcTimeoutUnitLookup (last s)") (auto simp: grpcParseTimeout_def)
  with assms s obtain num where p: "ParseInt64 (butlast s) = Some num"
    by (cases "ParseInt64 (butlast s)") (auto simp: grpcParseTimeout_def)
  from assms s u p have n: "\<not> num < 0" "\<not> num > 99999999" "sz = Hour \<longrightarrow> \<not> num > grpcTimeoutMaxHours"
    and d: "d = wrap64 (num * sz)"
    by (auto simp: grpcParseTimeout_def split: if_splits)
  have "num * sz \<le> max_int64"
  proof (cases "sz = Hour")
    case True
    with n show ?thesis by (simp add: grpcTimeoutMaxHours_def)
  next
    case False
    with u have "sz \<le> Minute" "0 < sz" using unit_range by blast+
    then have "num * sz \<le> 99999999 * Minute" using n by (intro mult_mono) simp_all
    then show ?thesis by simp
  qed
  moreover have "0 \<le> num * sz" using n unit_range(1) [OF u] by simp
  ultimately show ?thesis unfolding d by (subst wrap64_id; simp)+
qed

text \<open>C27. The gRPC timeout header: for every \<open>time.Duration\<close>, what \<open>grpcEncodeTimeout\<close>
  writes parses back to a duration that is never longer than the original, is 0 when the original
  is not positive, and is short by less than a hundred-thousandth of it; the text is at most
  eight digits and a unit, as the protocol requires.\<close>

theorem grpc_timeout_round_trip:
  assumes "d \<le> max_int64"
  shows "\<exists>d'. grpcParseTimeout (grpcEncodeTimeout d) = Inr d' \<and> d' \<le> max 0 d
    \<and> (d \<le> 0 \<longrightarrow> d' = 0) \<and> (0 < d \<longrightarrow> (d - d') * 100000 < d)
    \<and> length (grpcEncodeTimeout d) \<le> 9"
proof (cases "d \<le> 0")
  case True
  have "itoa 0 = ''0''" by (simp add: itoa_def utoa.simps digit_chars)
  then have "grpcParseTimeout ''0n'' = Inr 0"
    using parse_encoded_timeout [of "CHR ''n''" 1 0] by (simp add: grpcTimeoutUnitLookup_def)
  with True show ?thesis by (simp add: grpcEncodeTimeout_def)
next
  case False
  then have d: "0 < d" by simp
  obtain sz unit where e: "grpcEncodeTimeout d = itoa (d div sz) @ [unit]"
    and sz: "grpcTimeoutUnitLookup unit = Inr sz" "0 < sz" "d div sz < 100000000"
      "sz = Hour \<longrightarrow> d div sz \<le> grpcTimeoutMaxHours"
    and fine: "sz = 1 \<or> 100000 * sz \<le> d"
    using grpcEncodeTimeout_unit [OF d assms] .
  have m: "d div sz * sz = d - d mod sz" "0 \<le> d mod sz" "d mod sz < sz" "0 \<le> d div sz"
    using sz d by (simp_all add: minus_mod_eq_div_mult pos_imp_zdiv_nonneg_iff)
  have "grpcParseTimeout (grpcEncodeTimeout d) = Inr (d div sz * sz)"
    unfolding e using sz m assms by (intro parse_encoded_timeout) simp_all
  moreover have "(d - d div sz * sz) * 100000 < d"
    using fine m d by auto
  moreover have "length (utoa (nat (d div sz))) \<le> 8"
    using sz by (intro length_utoa) (simp_all add: nat_less_iff)
  ultimately show ?thesis using m d
    by (auto simp: e itoa_def)
qed

theorem grpc_timeout_round_trip_witness:
  "(1500000000 :: int) \<le> max_int64 \<and> grpcEncodeTimeout 1500000000 = ''1500000u''
   \<and> (\<exists>d'. grpcParseTimeout (grpcEncodeTimeout 1500000000) = Inr d' \<and> d' \<le> 1500000000)"
proof -
  have "grpcEncodeTimeout 1500000000 = ''1500000u''"
    by (simp add: grpcEncodeTimeout_def itoa_def utoa.simps digit_chars)
  then show ?thesis using grpc_timeout_round_trip [of 1500000000] by auto
qed

subsection \<open>Lemmas: percent encoding\<close>

lemma less_16_cases: "n < (16 :: nat) \<Longrightarrow> n \<in> {0,1,2,3,4,5,6,7,8,9,10,11,12,13,14,15}"
  by (simp only: insert_iff empty_iff) presburger

lemma upperhex_nth:
  assumes "n < 16"
  shows "isHex (upperhex ! n)" and "unhex (upperhex ! n) = word_of_nat n"
    and "\<not> grpcShouldEscape (upperhex ! n)" and "upperhex ! n \<noteq> CHR ''%''"
  using less_16_cases [OF assms]
  by (auto simp: upperhex_def isHex_def unhex_def in_range_def grpcShouldEscape_def byte_of_char_def)

lemma nibble_hi: "unat (drop_bit 4 (b :: byte)) < 16"
proof -
  have "unat (drop_bit 4 b) = unat b div 16"
    by (simp add: drop_bit_eq_div unat_div_distrib)
  then show ?thesis using byte_bound [of b] by simp
qed

lemma nibble_lo: "unat ((b :: byte) AND 15) < 16"
proof -
  have "b AND 15 = take_bit 4 b" by (simp add: take_bit_eq_mask mask_eq_exp_minus_1)
  then have "unat (b AND 15) = unat b mod 16" by (simp add: take_bit_eq_mod unat_mod_distrib)
  then show ?thesis by simp
qed

lemma nibbles_join: "push_bit 4 (drop_bit 4 b) OR (b AND 15) = (b :: byte)"
proof -
  have "b AND 15 = take_bit 4 b" by (simp add: take_bit_eq_mask mask_eq_exp_minus_1)
  then show ?thesis by (simp only:) (rule bit_word_eqI, auto simp: bit_simps)
qed

lemma decode_escape:
  "char_of_byte (push_bit 4 (unhex (upperhex ! unat (drop_bit 4 b)))
     OR unhex (upperhex ! unat (b AND 15))) = char_of_byte b"
  by (simp add: upperhex_nth nibble_hi nibble_lo nibbles_join)

lemma validateHex_escape:
  "validateHex (CHR ''%'' # upperhex ! unat (drop_bit 4 (b :: byte)) # upperhex ! unat (b AND 15) # cs) = None"
  using upperhex_nth(1) [OF nibble_hi [of b]] upperhex_nth(1) [OF nibble_lo [of b]]
  by (simp add: validateHex_def)

lemma percent_decode_encode: "percent_decode_loop (percent_encode_loop s) = s"
  by (induction s) (auto simp: decode_escape grpcShouldEscape_def)

lemma percent_scan_encode:
  "percent_scan k (percent_encode_loop s) = Inr (k + length (filter grpcShouldEscape s))"
  by (induction s arbitrary: k) (auto simp: validateHex_escape grpcShouldEscape_def)

lemma percent_encode_id: "filter grpcShouldEscape s = [] \<Longrightarrow> percent_encode_loop s = s"
  by (induction s) (auto split: if_splits)

lemma grpcPercentEncode_loop: "grpcPercentEncode s = percent_encode_loop s"
  using percent_encode_id [of s] by (simp add: grpcPercentEncode_def)

interpretation percent: round_trip "\<lambda>_. True" grpcPercentEncode grpcPercentDecode
proof (unfold_locales)
  fix s
  show "grpcPercentDecode (grpcPercentEncode s) = Inr s"
    using percent_encode_id [of s]
    by (simp add: grpcPercentEncode_loop grpcPercentDecode_def percent_scan_encode
        percent_decode_encode)
qed

lemma percent_encode_printable: "c \<in> set (percent_encode_loop s) \<Longrightarrow> in_range CHR '' '' CHR ''~'' c"
proof (induction s)
  case (Cons x s)
  have h: "in_range CHR '' '' CHR ''~'' (upperhex ! n)" if "n < 16" for n
    using upperhex_nth(3) [OF that] by (auto simp: grpcShouldEscape_def in_range_def)
  show ?case
  proof (cases "grpcShouldEscape x")
    case True
    have "in_range CHR '' '' CHR ''~'' CHR ''%''" by (simp add: in_range_def)
    with True Cons h [OF nibble_hi] h [OF nibble_lo] show ?thesis by auto
  next
    case False
    then have "in_range CHR '' '' CHR ''~'' x" by (auto simp: grpcShouldEscape_def in_range_def)
    with False Cons show ?thesis by auto
  qed
qed simp

text \<open>The decoder never reads past the end of its input: every escape that the second loop
  expands was checked by the first.\<close>

lemma percent_scan_hex:
  assumes "percent_scan k (CHR ''%'' # cs) = Inr n"
  shows "2 \<le> length cs \<and> isHex (cs ! 0) \<and> isHex (cs ! 1)"
  using assms by (auto simp: validateHex_def split: if_splits option.splits)

lemma percent_scan_mono: "percent_scan k s = Inr n \<Longrightarrow> k \<le> n \<and> 3 * (n - k) \<le> length s"
proof (induction k s rule: percent_scan.induct)
  case (2 k c cs)
  show ?case
  proof (cases "c = CHR ''%''")
    case True
    with "2.prems" have v: "validateHex (c # cs) = None" and len: "2 \<le> length cs"
      and s: "percent_scan (Suc k) (drop 2 cs) = Inr n"
      by (auto simp: validateHex_def Let_def split: option.splits if_splits)
    from "2.IH"(1) [OF True v s] len show ?thesis by auto
  next
    case False
    with 2 show ?thesis by auto
  qed
qed simp

lemma length_percent_decode_loop:
  "percent_scan k s = Inr n \<Longrightarrow> length (percent_decode_loop s) + 2 * (n - k) = length s"
proof (induction k s rule: percent_scan.induct)
  case (2 k c cs)
  show ?case
  proof (cases "c = CHR ''%''")
    case True
    with "2.prems" have v: "validateHex (c # cs) = None" and len: "2 \<le> length cs"
      and s: "percent_scan (Suc k) (drop 2 cs) = Inr n"
      by (auto simp: validateHex_def Let_def split: option.splits if_splits)
    from percent_scan_mono [OF s] "2.IH"(1) [OF True v s] len True show ?thesis by auto
  next
    case False
    with 2 show ?thesis by auto
  qed
qed simp

text \<open>Percent encoding of \<open>grpc-message\<close>: decoding inverts encoding on every byte string,
  the encoded text is printable ASCII (so it is a legal header value), text with nothing to escape
  is sent as it is, and decoding any input that it accepts never yields more than the input.\<close>

lemma percent_round_trip:
  "grpcPercentDecode (grpcPercentEncode s) = Inr s
   \<and> list_all (in_range CHR '' '' CHR ''~'') (grpcPercentEncode s)
   \<and> (filter grpcShouldEscape s = [] \<longrightarrow> grpcPercentEncode s = s)
   \<and> (\<forall>out. grpcPercentDecode s = Inr out \<longrightarrow> length out \<le> length s)"
proof -
  have "length out \<le> length s" if "grpcPercentDecode s = Inr out" for out
    using that length_percent_decode_loop [of 0 s]
    by (force simp: grpcPercentDecode_def split: sum.splits if_splits)
  moreover have "list_all (in_range CHR '' '' CHR ''~'') (grpcPercentEncode s)"
    by (auto simp: list_all_iff grpcPercentEncode_loop intro: percent_encode_printable)
  moreover have "filter grpcShouldEscape s = [] \<longrightarrow> grpcPercentEncode s = s"
    by (simp add: grpcPercentEncode_def)
  ultimately show ?thesis
    by (simp add: percent.decode_encode)
qed

lemma percent_round_trip_witness:
  "grpcPercentEncode ''caf%'' = ''caf%25'' \<and> grpcPercentDecode ''caf%25'' = Inr ''caf%''
   \<and> filter grpcShouldEscape ''ok'' = [] \<and> grpcPercentEncode ''ok'' = ''ok''"
proof -
  have "grpcPercentEncode ''caf%'' = ''caf%25''" by code_simp
  moreover have "filter grpcShouldEscape ''ok'' = []" by code_simp
  ultimately show ?thesis
    using percent_round_trip [of "''caf%''"] percent_round_trip [of "''ok''"] by metis
qed

subsection \<open>Lemmas: content types\<close>

lemma grpcCodec_of_content_type:
  "grpcCodecForContentType web (grpcContentTypeForCodecName web name) = name"
  by (auto simp: grpcCodecForContentType_def grpcContentTypeForCodecName_def TrimPrefix_def
      HasPrefix_def Let_def)

text \<open>gRPC content types: the codec that a handler reads from the content type written for a
  codec name is that codec, the client accepts a response with that content type, and it accepts
  exactly the content types of its own codec; anything else is an error, with code \<open>unknown\<close>
  when the response does not look like gRPC at all and \<open>internal\<close> otherwise.\<close>

lemma grpc_content_type_agreement:
  "grpcCodecForContentType web (grpcContentTypeForCodecName web name) = name
   \<and> grpcValidateResponseContentType web name (grpcContentTypeForCodecName web name) = None
   \<and> (grpcValidateResponseContentType web name ct = None)
       = (ct = (if web then grpcWebContentTypePrefix else grpcContentTypePrefix) @ name
          \<or> name = CodecNameProto
            \<and> ct = (if web then grpcWebContentTypeDefault else grpcContentTypeDefault))
   \<and> map_option Error_Code (grpcValidateResponseContentType web name ct)
       \<in> {None, Some CodeInternal, Some CodeUnknown}"
proof -
  have v: "grpcValidateResponseContentType web name ct = None \<longleftrightarrow>
      ct = (if web then grpcWebContentTypePrefix else grpcContentTypePrefix) @ name
      \<or> name = CodecNameProto \<and> ct = (if web then grpcWebContentTypeDefault else grpcContentTypeDefault)"
    for ct
    unfolding grpcValidateResponseContentType_def by (cases web) (simp_all add: Let_def)
  have "grpcValidateResponseContentType web name (grpcContentTypeForCodecName web name) = None"
    unfolding v by (simp add: grpcContentTypeForCodecName_def)
  moreover have "map_option Error_Code (grpcValidateResponseContentType web name ct)
      \<in> {None, Some CodeInternal, Some CodeUnknown}"
    unfolding grpcValidateResponseContentType_def
    by (cases web) (simp_all add: Let_def Error_Code_def)
  ultimately show ?thesis by (simp add: grpcCodec_of_content_type v)
qed

end
