(* ===== verification/Grpc_Status.thy ===== *)
theory Grpc_Status
  imports Grpc_Text
begin

section \<open>gRPC status and error trailers (connecthttp/protocol_grpc.go, connectproto/errordetail.go)\<close>

text \<open>
  How an error travels in gRPC trailers: \<open>grpcErrorToTrailer\<close> writes code, percent-encoded
  message and, when there are details, a \<open>google.rpc.Status\<close> in binary; \<open>grpcErrorForTrailer\<close>
  reads them. The status is encoded with package \<open>protowire\<close>, which is not part of the
  repository: it is the record \<open>protowire\<close>, whose documented laws are the predicate
  \<open>protowire_ok\<close>. The Protobuf codec that encodes the details is a parameter too. The main
  lemma says that the error read back has the code, message and details of the error sent.
\<close>

subsection \<open>Error details as Any messages\<close>

record any_msg =
  TypeUrl :: string
  AnyValue :: bytes

definition anyResolverPrefix :: string where "anyResolverPrefix = ''type.googleapis.com/''"

definition typeNameForURL :: "string \<Rightarrow> string" where
  "typeNameForURL url = drop (after_last url CHR ''/'') url"

definition ErrorDetailToAny :: "error_detail \<Rightarrow> any_msg" where
  "ErrorDetailToAny detail =
     (let typeURL = (if \<not> Contains (Type detail) ''/'' then anyResolverPrefix @ Type detail
                     else Type detail)
      in \<lparr>TypeUrl = typeURL, AnyValue = Value detail\<rparr>)"

text \<open>A message given to \<open>NewErrorDetail\<close>: an \<open>*anypb.Any\<close>, or another message with its full
  name and what \<open>proto.Marshal\<close> gives for it.\<close>

datatype proto_message = AnyMessage any_msg | OtherMessage string "go_error + bytes"

definition NewErrorDetail :: "proto_message \<Rightarrow> go_error + error_detail" where
  "NewErrorDetail msg =
     (case msg of
        AnyMessage anyMsg \<Rightarrow>
          Inr \<lparr>Type = typeNameForURL (TypeUrl anyMsg), Value = AnyValue anyMsg, Debug = []\<rparr>
      | OtherMessage fullName marshalled \<Rightarrow>
          (case marshalled of
             Inl err \<Rightarrow> Inl err
           | Inr val \<Rightarrow> Inr \<lparr>Type = fullName, Value = val, Debug = []\<rparr>))"

subsection \<open>Package protowire\<close>

text \<open>The functions of \<open>protowire\<close> that the code calls. A \<open>Consume\<close> function returns the
  number of bytes it used or a negative error code, here \<open>Inl\<close> the code. A tag is never empty:
  \<open>ConsumeTag\<close> yields one less than the number of bytes.\<close>

record protowire =
  AppendTag :: "bytes \<Rightarrow> int \<Rightarrow> int \<Rightarrow> bytes"
  AppendVarint :: "bytes \<Rightarrow> 64 word \<Rightarrow> bytes"
  AppendBytes :: "bytes \<Rightarrow> bytes \<Rightarrow> bytes"
  AppendString :: "bytes \<Rightarrow> string \<Rightarrow> bytes"
  ConsumeTag :: "bytes \<Rightarrow> int + (int \<times> int \<times> nat)"
  ConsumeVarint :: "bytes \<Rightarrow> int + (64 word \<times> nat)"
  ConsumeBytes :: "bytes \<Rightarrow> int + (bytes \<times> nat)"
  ConsumeString :: "bytes \<Rightarrow> int + (string \<times> nat)"
  ConsumeFieldValue :: "int \<Rightarrow> int \<Rightarrow> bytes \<Rightarrow> int + nat"
  ParseError :: "int \<Rightarrow> go_error"

abbreviation VarintType :: int where "VarintType \<equiv> 0"
abbreviation BytesType :: int where "BytesType \<equiv> 2"

abbreviation grpcStatusFieldCode :: int where "grpcStatusFieldCode \<equiv> 1"
abbreviation grpcStatusFieldMessage :: int where "grpcStatusFieldMessage \<equiv> 2"
abbreviation grpcStatusFieldDetails :: int where "grpcStatusFieldDetails \<equiv> 3"

subsection \<open>google.rpc.Status\<close>

fun marshal_details ::
  "protowire \<Rightarrow> any_msg codec \<Rightarrow> bytes \<Rightarrow> any_msg list \<Rightarrow> go_error + bytes" where
  "marshal_details pw protobuf buf [] = Inr buf"
| "marshal_details pw protobuf buf (detail # details) =
     (case codec_MarshalWrite protobuf detail of
        Inl err \<Rightarrow> Inl err
      | Inr buffer \<Rightarrow>
          let buf = AppendTag pw buf grpcStatusFieldDetails BytesType;
              buf = AppendBytes pw buf buffer
          in marshal_details pw protobuf buf details)"

definition grpcMarshalStatus ::
  "protowire \<Rightarrow> any_msg codec \<Rightarrow> 32 word \<Rightarrow> string \<Rightarrow> any_msg list \<Rightarrow> go_error + bytes" where
  "grpcMarshalStatus pw protobuf code message details =
     (let buf = [];
          buf = (if code \<noteq> 0
                 then AppendVarint pw (AppendTag pw buf grpcStatusFieldCode VarintType) (ucast code)
                 else buf);
          buf = (if message \<noteq> []
                 then AppendString pw (AppendTag pw buf grpcStatusFieldMessage BytesType) message
                 else buf)
      in marshal_details pw protobuf buf details)"

definition new_any :: any_msg where "new_any = \<lparr>TypeUrl = [], AnyValue = []\<rparr>"

function unmarshal_status_loop ::
  "protowire \<Rightarrow> any_msg codec \<Rightarrow> 32 word \<Rightarrow> string \<Rightarrow> any_msg list \<Rightarrow> bytes
     \<Rightarrow> go_error + (32 word \<times> string \<times> any_msg list)" where
  "unmarshal_status_loop pw protobuf code message details data =
     (if data = [] then Inr (code, message, details)
      else case ConsumeTag pw data of
        Inl sz \<Rightarrow> Inl (ParseError pw sz)
      | Inr (num, typ, k) \<Rightarrow>
          let data = drop (Suc k) data in
          if num = grpcStatusFieldCode \<and> typ = VarintType then
            (case ConsumeVarint pw data of
               Inl sz \<Rightarrow> Inl (ParseError pw sz)
             | Inr (val, sz) \<Rightarrow>
                 unmarshal_status_loop pw protobuf (ucast val) message details (drop sz data))
          else if num = grpcStatusFieldMessage \<and> typ = BytesType then
            (case ConsumeString pw data of
               Inl sz \<Rightarrow> Inl (ParseError pw sz)
             | Inr (val, sz) \<Rightarrow>
                 unmarshal_status_loop pw protobuf code val details (drop sz data))
          else if num = grpcStatusFieldDetails \<and> typ = BytesType then
            (case ConsumeBytes pw data of
               Inl sz \<Rightarrow> Inl (ParseError pw sz)
             | Inr (val, sz) \<Rightarrow>
                 (case codec_UnmarshalRead protobuf val new_any of
                    Inl err \<Rightarrow> Inl err
                  | Inr detail \<Rightarrow>
                      unmarshal_status_loop pw protobuf code message (details @ [detail]) (drop sz data)))
          else
            (case ConsumeFieldValue pw num typ data of
               Inl sz \<Rightarrow> Inl (ParseError pw sz)
             | Inr sz \<Rightarrow> unmarshal_status_loop pw protobuf code message details (drop sz data)))"
  by pat_completeness auto

termination unmarshal_status_loop
  by (relation "measure (\<lambda>(pw, protobuf, code, message, details, data). length data)") auto

declare unmarshal_status_loop.simps [simp del]

definition grpcUnmarshalStatus ::
  "protowire \<Rightarrow> any_msg codec \<Rightarrow> bytes \<Rightarrow> go_error + (32 word \<times> string \<times> any_msg list)" where
  "grpcUnmarshalStatus pw protobuf data = unmarshal_status_loop pw protobuf 0 [] [] data"

subsection \<open>Trailers\<close>

definition grpcErrorToTrailer ::
  "protowire \<Rightarrow> any_msg codec \<Rightarrow> http_header \<Rightarrow> go_error option \<Rightarrow> http_header" where
  "grpcErrorToTrailer pw protobuf trailer err =
     (case err of
        None \<Rightarrow> setHeaderCanonical trailer grpcHeaderStatus ''0''
      | Some e \<Rightarrow>
          let (code, message, bin) =
            (case asError e of
               None \<Rightarrow> (CodeUnknown, error_text e, [])
             | Some connectErr \<Rightarrow>
                 let code = Error_Code connectErr;
                     message = Error_Message connectErr;
                     rawDetails = Error_Details connectErr
                 in if rawDetails \<noteq> [] then
                      (case grpcMarshalStatus pw protobuf code message (map ErrorDetailToAny rawDetails) of
                         Inl binErr \<Rightarrow>
                           (CodeInternal, Sprintf ''marshal protobuf status: %v'' [error_text binErr], [])
                       | Inr bin \<Rightarrow> (code, message, bin))
                    else (code, message, []));
              trailer = setHeaderCanonical trailer grpcHeaderStatus (itoa (uint code));
              trailer = setHeaderCanonical trailer grpcHeaderMessage (grpcPercentEncode message)
          in if bin \<noteq> [] then setHeaderCanonical trailer grpcHeaderDetails (EncodeBinaryHeader bin)
             else trailer)"

fun add_any_details :: "connect_error \<Rightarrow> any_msg list \<Rightarrow> connect_error" where
  "add_any_details retErr [] = retErr"
| "add_any_details retErr (d # ds) =
     (let detail = (case NewErrorDetail (AnyMessage d) of Inl _ \<Rightarrow> None | Inr x \<Rightarrow> Some x)
      in add_any_details (WithDetail retErr detail) ds)"

definition grpcErrorForTrailer ::
  "protowire \<Rightarrow> any_msg codec \<Rightarrow> http_header \<Rightarrow> connect_error option" where
  "grpcErrorForTrailer pw protobuf trailer =
     (let codeHeader = getHeaderCanonical trailer grpcHeaderStatus in
      if codeHeader = [] then
        (let code = (if length trailer = 0 then CodeInternal else CodeUnknown)
         in Some (WithCause (Errorf code ''%s'' [sentinel_text ErrTrailersWithoutGRPCStatus])
                    (Some (Sentinel ErrTrailersWithoutGRPCStatus))))
      else if codeHeader = ''0'' then None
      else case ParseUint codeHeader 32 of
        None \<Rightarrow>
          Some (Errorf CodeUnknown ''protocol error: invalid error code %q'' [Quote codeHeader])
      | Some code \<Rightarrow>
          (case grpcPercentDecode (getHeaderCanonical trailer grpcHeaderMessage) of
             Inl err \<Rightarrow>
               Some (Errorf CodeInternal ''protocol error: invalid error message %q'' [Quote []])
           | Inr message \<Rightarrow>
               let retErr = WithRemote (NewError (word_of_nat code) message);
                   detailsBinaryEncoded = getHeaderCanonical trailer grpcHeaderDetails
               in if detailsBinaryEncoded = [] then Some retErr
                  else case DecodeBinaryHeader detailsBinaryEncoded of
                    Inl err \<Rightarrow>
                      Some (WithCause (Errorf CodeInternal
                        ''server returned invalid grpc-status-details-bin trailer: %s'' [error_text err])
                        (Some err))
                  | Inr detailsBinary \<Rightarrow>
                      (case grpcUnmarshalStatus pw protobuf detailsBinary of
                         Inl err \<Rightarrow>
                           Some (WithCause (Errorf CodeInternal
                             ''server returned invalid protobuf for error details: %s'' [error_text err])
                             (Some err))
                       | Inr (statusCode, statusMessage, details) \<Rightarrow>
                           Some (add_any_details
                             (WithRemote (NewError statusCode statusMessage)) details))))"

subsection \<open>What the code relies on of protowire\<close>

text \<open>Each \<open>Append\<close> function appends, and the matching \<open>Consume\<close> function reads back what was
  appended, whatever follows it. Lengths are those of Go slices.\<close>

definition go_len :: "'a list \<Rightarrow> bool" where
  "go_len xs \<longleftrightarrow> length xs < 2 ^ 63"

definition protowire_ok :: "protowire \<Rightarrow> bool" where
  "protowire_ok pw \<longleftrightarrow>
     (\<forall>buf num typ rest. 1 \<le> num \<and> num < 16 \<and> 0 \<le> typ \<and> typ < 6 \<longrightarrow>
        AppendTag pw buf num typ = buf @ AppendTag pw [] num typ
        \<and> AppendTag pw [] num typ \<noteq> []
        \<and> ConsumeTag pw (AppendTag pw [] num typ @ rest)
            = Inr (num, typ, length (AppendTag pw [] num typ) - 1))
   \<and> (\<forall>buf v rest. AppendVarint pw buf v = buf @ AppendVarint pw [] v
        \<and> ConsumeVarint pw (AppendVarint pw [] v @ rest) = Inr (v, length (AppendVarint pw [] v)))
   \<and> (\<forall>buf s rest. go_len s \<longrightarrow> AppendString pw buf s = buf @ AppendString pw [] s
        \<and> ConsumeString pw (AppendString pw [] s @ rest) = Inr (s, length (AppendString pw [] s)))
   \<and> (\<forall>buf b rest. go_len b \<longrightarrow> AppendBytes pw buf b = buf @ AppendBytes pw [] b
        \<and> ConsumeBytes pw (AppendBytes pw [] b @ rest) = Inr (b, length (AppendBytes pw [] b)))"

lemma tag_laws:
  assumes "protowire_ok pw" "1 \<le> num" "num < 16" "0 \<le> typ" "typ < 6"
  shows "AppendTag pw buf num typ = buf @ AppendTag pw [] num typ"
    and "AppendTag pw [] num typ \<noteq> []"
    and "ConsumeTag pw (AppendTag pw [] num typ @ rest)
           = Inr (num, typ, length (AppendTag pw [] num typ) - 1)"
    and "drop (Suc (length (AppendTag pw [] num typ) - 1)) (AppendTag pw [] num typ @ rest) = rest"
proof -
  from assms show "AppendTag pw buf num typ = buf @ AppendTag pw [] num typ"
    and ne: "AppendTag pw [] num typ \<noteq> []"
    and "ConsumeTag pw (AppendTag pw [] num typ @ rest)
           = Inr (num, typ, length (AppendTag pw [] num typ) - 1)"
    unfolding protowire_ok_def by blast+
  from ne have "Suc (length (AppendTag pw [] num typ) - 1) = length (AppendTag pw [] num typ)"
    by (cases "AppendTag pw [] num typ") simp_all
  then show "drop (Suc (length (AppendTag pw [] num typ) - 1)) (AppendTag pw [] num typ @ rest) = rest"
    by simp
qed

lemma value_laws:
  assumes "protowire_ok pw"
  shows "AppendVarint pw buf v = buf @ AppendVarint pw [] v"
    and "ConsumeVarint pw (AppendVarint pw [] v @ rest) = Inr (v, length (AppendVarint pw [] v))"
    and "go_len s \<Longrightarrow> AppendString pw buf s = buf @ AppendString pw [] s"
    and "go_len s \<Longrightarrow>
      ConsumeString pw (AppendString pw [] s @ rest) = Inr (s, length (AppendString pw [] s))"
    and "go_len b \<Longrightarrow> AppendBytes pw buf b = buf @ AppendBytes pw [] b"
    and "go_len b \<Longrightarrow>
      ConsumeBytes pw (AppendBytes pw [] b @ rest) = Inr (b, length (AppendBytes pw [] b))"
  using assms unfolding protowire_ok_def by blast+

subsection \<open>Reading a status that was written\<close>

lemma status_nil: "unmarshal_status_loop pw pb code message details [] = Inr (code, message, details)"
  by (simp add: unmarshal_status_loop.simps)

lemma status_code_field:
  assumes "protowire_ok pw"
  shows "unmarshal_status_loop pw pb code message details
      (AppendTag pw [] 1 0 @ AppendVarint pw [] v @ rest) =
    unmarshal_status_loop pw pb (ucast v) message details rest"
  using tag_laws(2-4) [OF assms, of 1 0] value_laws(2) [OF assms]
  by (subst unmarshal_status_loop.simps) (simp add: Let_def)

lemma status_message_field:
  assumes "protowire_ok pw" "go_len s"
  shows "unmarshal_status_loop pw pb code message details
      (AppendTag pw [] 2 2 @ AppendString pw [] s @ rest) =
    unmarshal_status_loop pw pb code s details rest"
  using tag_laws(2-4) [OF assms(1), of 2 2] value_laws(4) [OF assms(1,2)]
  by (subst unmarshal_status_loop.simps) (simp add: Let_def)

lemma status_detail_field:
  assumes "protowire_ok pw" "go_len b" "codec_UnmarshalRead pb b new_any = Inr d"
  shows "unmarshal_status_loop pw pb code message details
      (AppendTag pw [] 3 2 @ AppendBytes pw [] b @ rest) =
    unmarshal_status_loop pw pb code message (details @ [d]) rest"
  using tag_laws(2-4) [OF assms(1), of 3 2] value_laws(6) [OF assms(1,2)] assms(3)
  by (subst unmarshal_status_loop.simps) (simp add: Let_def)

text \<open>The codec can encode every detail.\<close>

definition details_fit :: "any_msg codec \<Rightarrow> any_msg list \<Rightarrow> bool" where
  "details_fit pb ds \<longleftrightarrow>
     list_all (\<lambda>d. case codec_MarshalWrite pb d of Inl _ \<Rightarrow> False | Inr b \<Rightarrow> go_len b) ds"

lemma marshal_details_shape:
  assumes "protowire_ok pw" "details_fit pb ds" "marshal_details pw pb buf ds = Inr out"
  shows "\<exists>bs. map (codec_MarshalWrite pb) ds = map Inr bs \<and> list_all go_len bs
    \<and> out = buf @ concat (map (\<lambda>b. AppendTag pw [] 3 2 @ AppendBytes pw [] b) bs)"
  using assms(2,3)
proof (induction ds arbitrary: buf)
  case Nil
  then show ?case by auto
next
  case (Cons d ds)
  from Cons.prems obtain b where b: "codec_MarshalWrite pb d = Inr b" "go_len b"
    by (auto simp: details_fit_def split: sum.splits)
  with Cons.prems have "marshal_details pw pb (buf @ AppendTag pw [] 3 2 @ AppendBytes pw [] b) ds = Inr out"
    using tag_laws(1) [OF assms(1), of 3 2 buf]
      value_laws(5) [OF assms(1), of b "buf @ AppendTag pw [] 3 2"]
    by (simp add: Let_def)
  moreover have "details_fit pb ds" using Cons.prems by (simp add: details_fit_def)
  ultimately obtain bs where "map (codec_MarshalWrite pb) ds = map Inr bs \<and> list_all go_len bs
    \<and> out = (buf @ AppendTag pw [] 3 2 @ AppendBytes pw [] b)
        @ concat (map (\<lambda>b. AppendTag pw [] 3 2 @ AppendBytes pw [] b) bs)"
    using Cons.IH by blast
  with b show ?case by (intro exI [of _ "b # bs"]) simp
qed

lemma unmarshal_details:
  assumes "protowire_ok pw" "codec_ok pb new_any"
    and "map (codec_MarshalWrite pb) ds = map Inr bs" "list_all go_len bs"
  shows "unmarshal_status_loop pw pb code message acc
      (concat (map (\<lambda>b. AppendTag pw [] 3 2 @ AppendBytes pw [] b) bs)) =
    Inr (code, message, acc @ ds)"
  using assms(3,4)
proof (induction ds arbitrary: bs acc)
  case Nil
  then show ?case by (simp add: status_nil)
next
  case (Cons d ds)
  then obtain b bs' where bs: "bs = b # bs'" "codec_MarshalWrite pb d = Inr b" "go_len b"
    "map (codec_MarshalWrite pb) ds = map Inr bs'" "list_all go_len bs'"
    by (cases bs) auto
  moreover have "codec_UnmarshalRead pb b new_any = Inr d"
    using assms(2) bs(2) by (simp add: codec_ok_def)
  ultimately show ?case
    using Cons.IH [of bs' "acc @ [d]"] by (simp add: status_detail_field [OF assms(1)])
qed

definition status_head :: "protowire \<Rightarrow> 32 word \<Rightarrow> string \<Rightarrow> bytes" where
  "status_head pw code message =
     (if code \<noteq> 0 then AppendTag pw [] 1 0 @ AppendVarint pw [] (ucast code) else [])
     @ (if message \<noteq> [] then AppendTag pw [] 2 2 @ AppendString pw [] message else [])"

lemma grpcMarshalStatus_shape:
  assumes pw: "protowire_ok pw" and "go_len message"
    and "details_fit pb ds" and "grpcMarshalStatus pw pb code message ds = Inr bin"
  obtains bs where "map (codec_MarshalWrite pb) ds = map Inr bs" "list_all go_len bs"
    and "bin = status_head pw code message
           @ concat (map (\<lambda>b. AppendTag pw [] 3 2 @ AppendBytes pw [] b) bs)"
proof -
  have "marshal_details pw pb (status_head pw code message) ds = Inr bin"
    using assms(4) value_laws(1) [OF pw, of "AppendTag pw [] 1 0"]
      tag_laws(1) [OF pw, of 2 2 "AppendTag pw [] 1 0 @ AppendVarint pw [] (ucast code)"]
      value_laws(3) [OF pw \<open>go_len message\<close>, of "AppendTag pw [] 2 2"]
      value_laws(3) [OF pw \<open>go_len message\<close>,
        of "AppendTag pw [] 1 0 @ AppendVarint pw [] (ucast code) @ AppendTag pw [] 2 2"]
    by (simp add: grpcMarshalStatus_def status_head_def Let_def split: if_splits)
  from marshal_details_shape [OF pw assms(3) this] that show thesis by blast
qed

lemma grpcUnmarshalStatus_Marshal:
  assumes pw: "protowire_ok pw" and pb: "codec_ok pb new_any" and "go_len message"
    and "details_fit pb ds" and "grpcMarshalStatus pw pb code message ds = Inr bin"
  shows "grpcUnmarshalStatus pw pb bin = Inr (code, message, ds)"
proof -
  obtain bs where bs: "map (codec_MarshalWrite pb) ds = map Inr bs" "list_all go_len bs"
    and bin: "bin = status_head pw code message
      @ concat (map (\<lambda>b. AppendTag pw [] 3 2 @ AppendBytes pw [] b) bs)"
    using grpcMarshalStatus_shape [OF pw assms(3-5)] .
  have "ucast (ucast code :: 64 word) = code"
    by (rule bit_word_eqI) (simp add: bit_ucast_iff)
  then show ?thesis
    using unmarshal_details [OF pw pb bs, of _ _ "[]"]
    by (simp add: grpcUnmarshalStatus_def bin status_head_def status_code_field [OF pw]
        status_message_field [OF pw \<open>go_len message\<close>])
qed

lemma marshal_details_total: "details_fit pb ds \<Longrightarrow> \<exists>out. marshal_details pw pb buf ds = Inr out"
  by (induction ds arbitrary: buf) (auto simp: details_fit_def Let_def split: sum.splits)

lemma grpcMarshalStatus_total:
  "details_fit pb ds \<Longrightarrow> \<exists>bin. grpcMarshalStatus pw pb code message ds = Inr bin"
  by (simp add: grpcMarshalStatus_def Let_def marshal_details_total)

lemma grpcMarshalStatus_not_Nil:
  assumes "protowire_ok pw" "go_len message" "details_fit pb ds" "code \<noteq> 0"
    and "grpcMarshalStatus pw pb code message ds = Inr bin"
  shows "bin \<noteq> []"
proof -
  have "status_head pw code message \<noteq> []"
    using tag_laws(2) [OF assms(1), of 1 0] assms(4) by (simp add: status_head_def)
  then show ?thesis using grpcMarshalStatus_shape [OF assms(1-3,5)] by blast
qed

subsection \<open>Details\<close>

lemma Contains_slash: "Contains s ''/'' \<longleftrightarrow> CHR ''/'' \<in> set s"
  by (induction s) (auto simp: HasPrefix_def)

text \<open>The detail that arrives: the type without its URL prefix, no debug text.\<close>

definition received_detail :: "error_detail \<Rightarrow> error_detail" where
  "received_detail d =
     \<lparr>Type = typeNameForURL (TypeUrl (ErrorDetailToAny d)), Value = Value d, Debug = []\<rparr>"

lemma typeNameForURL_plain: "CHR ''/'' \<notin> set s \<Longrightarrow> typeNameForURL s = s"
  by (simp add: typeNameForURL_def after_last_0_iff [THEN iffD2])

lemma received_detail_type:
  assumes "CHR ''/'' \<notin> set (Type d)"
  shows "Type (received_detail d) = Type d"
proof -
  have "after_last (anyResolverPrefix @ Type d) CHR ''/'' = length anyResolverPrefix"
  proof -
    obtain pre where pre: "anyResolverPrefix = pre @ [CHR ''/'']"
      by (rule that [of "''type.googleapis.com''"]) (simp add: anyResolverPrefix_def)
    show ?thesis using after_last_append_sep [OF assms, of pre] by (simp add: pre)
  qed
  with assms show ?thesis
    by (simp add: received_detail_def ErrorDetailToAny_def Contains_slash typeNameForURL_def)
qed

lemma add_any_details_fields:
  "ce_code (add_any_details e ds) = ce_code e \<and> ce_message (add_any_details e ds) = ce_message e
   \<and> ce_remote (add_any_details e ds) = ce_remote e
   \<and> ce_details (add_any_details e ds) =
       ce_details e @ map (\<lambda>a. \<lparr>Type = typeNameForURL (TypeUrl a), Value = AnyValue a, Debug = []\<rparr>) ds"
  by (induction e ds rule: add_any_details.induct)
    (simp_all add: NewErrorDetail_def WithDetail_def)

lemma received_details:
  "map (\<lambda>a. \<lparr>Type = typeNameForURL (TypeUrl a), Value = AnyValue a, Debug = []\<rparr>)
     (map ErrorDetailToAny ds) = map received_detail ds"
  by (simp add: received_detail_def ErrorDetailToAny_def Let_def)

text \<open>Status and message as they are read from the trailers that were written.\<close>

lemma itoa_code:
  "c \<noteq> 0 \<Longrightarrow> itoa (uint (c :: 32 word)) \<noteq> ''0'' \<and> itoa (uint c) \<noteq> []
     \<and> ParseUint (itoa (uint c)) 32 = Some (unat c)"
proof -
  assume c: "c \<noteq> 0"
  have i: "itoa (uint c) = utoa (unat c)" by (simp add: itoa_def)
  have z: "utoa 0 = ''0''" by (simp add: utoa.simps digit_chars)
  have "utoa (unat c) \<noteq> utoa 0" using c utoa_inj unat_eq_0 by blast
  moreover have "unat c < 2 ^ 32" using unsigned_less [of c] by simp
  ultimately show ?thesis by (simp add: i z ParseUint_utoa)
qed

lemma grpcErrorForTrailer_plain:
  fixes c :: code
  assumes "getHeaderCanonical t grpcHeaderStatus = itoa (uint c)" "c \<noteq> 0"
    and "getHeaderCanonical t grpcHeaderMessage = grpcPercentEncode m"
    and "getHeaderCanonical t grpcHeaderDetails = []"
  shows "grpcErrorForTrailer pw pb t = Some (WithRemote (NewError c m))"
  using itoa_code [OF assms(2)] assms
  by (simp add: grpcErrorForTrailer_def Let_def percent.decode_encode)

lemma grpcErrorForTrailer_details:
  fixes c :: code
  assumes "getHeaderCanonical t grpcHeaderStatus = itoa (uint c)" "c \<noteq> 0"
    and "getHeaderCanonical t grpcHeaderMessage = grpcPercentEncode m"
    and "getHeaderCanonical t grpcHeaderDetails = EncodeBinaryHeader bin"
    and "EncodeBinaryHeader bin \<noteq> []"
    and "grpcUnmarshalStatus pw pb bin = Inr (c', m', ds)"
  shows "grpcErrorForTrailer pw pb t = Some (add_any_details (WithRemote (NewError c' m')) ds)"
  using itoa_code [OF assms(2)] assms
  by (simp add: grpcErrorForTrailer_def Let_def percent.decode_encode binary_header.decode_encode)

lemma EncodeBinaryHeader_Nil: "EncodeBinaryHeader b = [] \<longleftrightarrow> b = []"
proof -
  have "EncodeBinaryHeader [] = []" by (simp add: EncodeBinaryHeader_def)
  then show ?thesis using binary_header.encode_eq_iff [of b "[]"] by simp
qed

lemma grpcErrorToTrailer_read:
  assumes "protowire_ok pw" and "codec_ok pb new_any"
    and e: "asError e = Some ce" and "go_len (Error_Message ce)"
    and "details_fit pb (map ErrorDetailToAny (Error_Details ce))"
    and "values_of trailer grpcHeaderDetails = []"
  shows "\<exists>r. grpcErrorForTrailer pw pb (grpcErrorToTrailer pw pb trailer (Some e)) = Some r
    \<and> Error_Code r = Error_Code ce \<and> Error_Message r = Error_Message ce
    \<and> Error_Details r = map received_detail (Error_Details ce) \<and> IsRemote r"
proof -
  let ?t = "grpcErrorToTrailer pw pb trailer (Some e)"
  let ?c = "Error_Code ce" and ?m = "Error_Message ce" and ?ds = "Error_Details ce"
  have none: "getHeaderCanonical trailer grpcHeaderDetails = []"
    using assms(6) by (simp add: getHeaderCanonical_def)
  have "\<exists>r. grpcErrorForTrailer pw pb ?t = Some r \<and> ce_code r = ?c \<and> ce_message r = ?m
    \<and> ce_details r = map received_detail ?ds \<and> ce_remote r"
  proof (cases "?ds = []")
    case True
    with e none have "grpcErrorForTrailer pw pb ?t = Some (WithRemote (NewError ?c ?m))"
      by (intro grpcErrorForTrailer_plain) (simp_all add: grpcErrorToTrailer_def Let_def)
    with True show ?thesis by simp
  next
    case False
    obtain bin where bin: "grpcMarshalStatus pw pb ?c ?m (map ErrorDetailToAny ?ds) = Inr bin"
      using grpcMarshalStatus_total [OF assms(5)] by blast
    have "bin \<noteq> []"
      using grpcMarshalStatus_not_Nil [OF assms(1,4,5) _ bin] by simp
    with False e bin have "grpcErrorForTrailer pw pb ?t =
        Some (add_any_details (WithRemote (NewError ?c ?m)) (map ErrorDetailToAny ?ds))"
      by (intro grpcErrorForTrailer_details [where bin = bin and c = ?c and m = ?m])
        (simp_all add: grpcErrorToTrailer_def Let_def EncodeBinaryHeader_Nil
          grpcUnmarshalStatus_Marshal [OF assms(1,2,4,5)])
    then show ?thesis
      by (simp add: add_any_details_fields received_details [simplified])
  qed
  then obtain r where r: "grpcErrorForTrailer pw pb ?t = Some r" "ce_code r = ?c" "ce_message r = ?m"
    "ce_details r = map received_detail ?ds" "ce_remote r" by blast
  then have "Error_Code r = ?c" "Error_Message r = ?m" "Error_Details r = map received_detail ?ds"
    "IsRemote r"
    by (simp_all add: Error_Code_def [of r] Error_Message_def [of r] Error_Details_def [of r] IsRemote_def)
  with r(1) show ?thesis by blast
qed

text \<open>C7. gRPC error trailers: an error written by \<open>grpcErrorToTrailer\<close> into trailers that
  hold no status details yet is read by \<open>grpcErrorForTrailer\<close> as a remote error with the same
  code, message and details (the types lose a URL prefix and the debug text is not sent).\<close>

theorem grpc_error_round_trip:
  assumes "protowire_ok pw" and "codec_ok pb new_any"
    and e: "asError e = Some ce" and "go_len (Error_Message ce)"
    and "details_fit pb (map ErrorDetailToAny (Error_Details ce))"
    and "values_of trailer grpcHeaderDetails = []"
  shows "\<exists>r. grpcErrorForTrailer pw pb (grpcErrorToTrailer pw pb trailer (Some e)) = Some r
    \<and> Error_Code r = Error_Code ce \<and> Error_Message r = Error_Message ce
    \<and> Error_Details r = map received_detail (Error_Details ce) \<and> IsRemote r
    \<and> (list_all (\<lambda>d. CHR ''/'' \<notin> set (Type d)) (Error_Details ce)
        \<longrightarrow> map Type (Error_Details r) = map Type (Error_Details ce))"
proof -
  have "list_all (\<lambda>d. CHR ''/'' \<notin> set (Type d)) (Error_Details ce)
    \<longrightarrow> map Type (map received_detail (Error_Details ce)) = map Type (Error_Details ce)"
    by (simp add: list_all_iff received_detail_type)
  then show ?thesis using grpcErrorToTrailer_read [OF assms] by metis
qed

subsection \<open>A concrete protowire\<close>

text \<open>Base-128 varints, least significant group first, and the wire types built on them; they
  show that the laws of \<open>protowire_ok\<close> can hold.\<close>

fun varint_put :: "nat \<Rightarrow> bytes" where
  "varint_put n = (if n < 128 then [word_of_nat n] else word_of_nat (128 + n mod 128) # varint_put (n div 128))"

declare varint_put.simps [simp del]

fun varint_get :: "bytes \<Rightarrow> (nat \<times> nat) option" where
  "varint_get [] = None"
| "varint_get (b # bs) =
     (if unat b < 128 then Some (unat b, 1)
      else case varint_get bs of
             None \<Rightarrow> None
           | Some (v, k) \<Rightarrow> Some (unat b - 128 + 128 * v, Suc k))"

definition varint_bytes :: "bytes \<Rightarrow> int + (bytes \<times> nat)" where
  "varint_bytes data =
     (case varint_get data of
        None \<Rightarrow> Inl (- 1)
      | Some (n, k) \<Rightarrow> if k + n \<le> length data then Inr (take n (drop k data), k + n) else Inl (- 1))"

definition base128 :: protowire where
  "base128 = \<lparr>
     AppendTag = (\<lambda>buf num typ. buf @ varint_put (nat (num * 8 + typ))),
     AppendVarint = (\<lambda>buf v. buf @ varint_put (unat v)),
     AppendBytes = (\<lambda>buf b. buf @ varint_put (length b) @ b),
     AppendString = (\<lambda>buf s. buf @ varint_put (length s) @ bytes_of_string s),
     ConsumeTag = (\<lambda>data. case varint_get data of
         None \<Rightarrow> Inl (- 1)
       | Some (v, k) \<Rightarrow> if v div 8 = 0 then Inl (- 2) else Inr (int (v div 8), int (v mod 8), k - 1)),
     ConsumeVarint = (\<lambda>data. case varint_get data of
         None \<Rightarrow> Inl (- 1)
       | Some (v, k) \<Rightarrow> if v < 2 ^ 64 then Inr (word_of_nat v, k) else Inl (- 3)),
     ConsumeBytes = varint_bytes,
     ConsumeString = (\<lambda>data. case varint_bytes data of
         Inl e \<Rightarrow> Inl e | Inr (b, k) \<Rightarrow> Inr (string_of_bytes b, k)),
     ConsumeFieldValue = (\<lambda>num typ data.
         if typ = 0 then (case varint_get data of None \<Rightarrow> Inl (- 1) | Some (v, k) \<Rightarrow> Inr k)
         else if typ = 2 then (case varint_bytes data of Inl e \<Rightarrow> Inl e | Inr (b, k) \<Rightarrow> Inr k)
         else Inl (- 4)),
     ParseError = (\<lambda>e. Plain ''invalid wire-format data'')\<rparr>"

lemma varint_get_put: "varint_get (varint_put n @ rest) = Some (n, length (varint_put n))"
proof (induction n rule: varint_put.induct)
  case (1 n)
  show ?case
  proof (cases "n < 128")
    case True
    then have "unat (word_of_nat n :: byte) = n" by (simp add: unat_of_nat)
    with True show ?thesis by (simp add: varint_put.simps [of n])
  next
    case False
    have "unat (word_of_nat (128 + n mod 128) :: byte) = 128 + n mod 128"
      by (simp only: unat_of_nat) simp
    with False 1 show ?thesis by (simp add: varint_put.simps [of n])
  qed
qed

lemma varint_put_not_Nil [simp]: "varint_put n \<noteq> []"
  by (subst varint_put.simps) simp

lemma varint_bytes_put: "varint_bytes (varint_put (length b) @ b @ rest) = Inr (b, length (varint_put (length b)) + length b)"
  by (simp add: varint_bytes_def varint_get_put)

lemma base128_ok: "protowire_ok base128"
proof -
  have tag: "varint_get (varint_put (nat (num * 8 + ty)) @ rest) =
      Some (nat (num * 8 + ty), length (varint_put (nat (num * 8 + ty))))" for num ty rest
    by (rule varint_get_put)
  have num: "nat (num * 8 + ty) div 8 = nat num" "nat (num * 8 + ty) mod 8 = nat ty"
    if "1 \<le> num" "num < 16" "0 \<le> ty" "ty < 6" for num ty
  proof -
    have e: "nat (num * 8 + ty) = nat num * 8 + nat ty" using that by (simp add: nat_add_distrib nat_mult_distrib)
    have "nat ty < 8" using that by simp
    then show "nat (num * 8 + ty) div 8 = nat num" "nat (num * 8 + ty) mod 8 = nat ty"
      unfolding e by simp_all
  qed
  have v: "unat (v :: 64 word) < 2 ^ 64" for v using unsigned_less [of v] by simp
  show ?thesis
    unfolding protowire_ok_def
    using v by (auto simp: base128_def tag num varint_get_put varint_bytes_put
        varint_bytes_put [of "bytes_of_string _", simplified])
qed

text \<open>A codec for Any messages that puts the length of the type URL first.\<close>

definition any_codec :: "any_msg codec" where
  "any_codec = \<lparr>codec_Name = ''proto'',
     codec_MarshalWrite = (\<lambda>a. Inr (varint_put (length (TypeUrl a)) @ bytes_of_string (TypeUrl a) @ AnyValue a)),
     codec_UnmarshalRead = (\<lambda>bs _. case varint_bytes bs of
         Inl e \<Rightarrow> Inl (Plain ''invalid'')
       | Inr (u, k) \<Rightarrow> Inr \<lparr>TypeUrl = string_of_bytes u, AnyValue = drop k bs\<rparr>),
     codec_stable = None\<rparr>"

lemma any_codec_ok: "codec_ok any_codec new_any"
proof -
  have "varint_bytes (varint_put (length u) @ bytes_of_string u @ v) =
      Inr (bytes_of_string u, length (varint_put (length u)) + length u)" for u v
    using varint_bytes_put [of "bytes_of_string u" v] by simp
  then show ?thesis by (auto simp: codec_ok_def any_codec_def)
qed

definition witness_error :: connect_error where
  "witness_error =
     WithDetail (NewError CodeNotFound ''no such user'')
       (Some \<lparr>Type = ''google.rpc.ErrorInfo'', Value = [1, 2, 3], Debug = [9]\<rparr>)"

lemma witness_error_fields:
  "Error_Code witness_error = CodeNotFound" "Error_Message witness_error = ''no such user''"
  "Error_Details witness_error = [\<lparr>Type = ''google.rpc.ErrorInfo'', Value = [1, 2, 3], Debug = [9]\<rparr>]"
  by (simp_all add: witness_error_def connect_error_defs)

lemma witness_error_fits:
  "details_fit any_codec (map ErrorDetailToAny (Error_Details witness_error))"
  "go_len (Error_Message witness_error)"
  by (simp_all add: witness_error_fields details_fit_def any_codec_def ErrorDetailToAny_def Contains_slash
      go_len_def anyResolverPrefix_def varint_put.simps)

theorem grpc_error_round_trip_witness:
  "protowire_ok base128 \<and> codec_ok any_codec new_any
   \<and> (\<exists>r. grpcErrorForTrailer base128 any_codec
           (grpcErrorToTrailer base128 any_codec [] (Some (Coded witness_error))) = Some r
        \<and> Error_Code r = CodeNotFound \<and> Error_Message r = ''no such user''
        \<and> map Type (Error_Details r) = [''google.rpc.ErrorInfo''] \<and> IsRemote r)"
  using grpc_error_round_trip [OF base128_ok any_codec_ok, of "Coded witness_error" witness_error "[]"]
    base128_ok any_codec_ok witness_error_fits by (auto simp: witness_error_fields)

end
