(* ===== verification/Http.thy ===== *)
theory Http
  imports Grpc_Status
begin

section \<open>HTTP requests and responses, protocol handlers (connecthttp/protocol.go)\<close>

text \<open>
  The parts of \<open>net/http\<close> that the protocols work on, and the protocol-agnostic functions of
  \<open>protocol.go\<close>: the error-translating connections, the tables by method, the sorted header
  values and the canonical form of a content type.

  A request is what a handler reads of it; its query is the parsed one. A response writer is the
  header map the handler edits, the status and header block once they are on the wire, and the
  body. Writing or flushing sends the header block; edits after that only reach the client as
  trailers, under the prefix \<open>Trailer:\<close>.
\<close>

record rpc_spec =
  spec_StreamType :: stream_type
  spec_IdempotencyLevel :: idempotency_level
  spec_Procedure :: string

record http_request =
  rq_Method :: string
  rq_URL :: string
  rq_Scheme :: string
  rq_Host :: string
  rq_Path :: string
  rq_Query :: "(string \<times> string list) list"
  rq_Header :: http_header
  rq_Body :: reader
  rq_ContentLength :: int
  rq_ProtoMajor :: int
  rq_RemoteAddr :: string
  rq_ctx :: context_t

record http_response =
  rs_StatusCode :: int
  rs_Status :: string
  rs_Header :: http_header
  rs_Body :: reader
  rs_Trailer :: http_header
  rs_ProtoMajor :: int
  rs_ProtoMinor :: int

text \<open>\<open>url.Values.Get\<close>.\<close>

definition query_Get :: "(string \<times> string list) list \<Rightarrow> string \<Rightarrow> string" where
  "query_Get q key = (case map_of q key of None \<Rightarrow> [] | Some [] \<Rightarrow> [] | Some (v # _) \<Rightarrow> v)"

definition query_Has :: "(string \<times> string list) list \<Rightarrow> string \<Rightarrow> bool" where
  "query_Has q key = has_key q key"

text \<open>\<open>context.WithTimeout\<close>: the earlier of the two deadlines; a deadline that has passed ends
  the context at once.\<close>

definition WithTimeout :: "int \<Rightarrow> context_t \<Rightarrow> int \<Rightarrow> context_t" where
  "WithTimeout now ctx timeout =
     (let d = now + timeout;
          d = (case cx_deadline ctx of None \<Rightarrow> d | Some d' \<Rightarrow> min d d')
      in \<lparr>cx_err = (case cx_err ctx of
                      Some e \<Rightarrow> Some e
                    | None \<Rightarrow> if d \<le> now then Some (Sentinel DeadlineExceeded) else None),
          cx_deadline = Some d\<rparr>)"

subsection \<open>http.ResponseWriter\<close>

record response_writer =
  rw_Header :: http_header
  rw_wrote :: "(int \<times> http_header) option"
  rw_body :: writer
  rw_flusher :: bool
  rw_flushes :: nat

definition rw_WriteHeader :: "int \<Rightarrow> response_writer \<Rightarrow> response_writer" where
  "rw_WriteHeader status rw =
     (if rw_wrote rw = None then rw\<lparr>rw_wrote := Some (status, rw_Header rw)\<rparr> else rw)"

definition rw_Write :: "bytes \<Rightarrow> response_writer \<Rightarrow> nat \<times> go_error option \<times> response_writer" where
  "rw_Write bs rw =
     (let rw = rw_WriteHeader 200 rw in
      case io_Write bs (rw_body rw) of (n, err, w) \<Rightarrow> (n, err, rw\<lparr>rw_body := w\<rparr>))"

definition flushResponseWriter :: "response_writer \<Rightarrow> response_writer" where
  "flushResponseWriter rw =
     (if rw_flusher rw
      then let rw = rw_WriteHeader 200 rw in rw\<lparr>rw_flushes := Suc (rw_flushes rw)\<rparr>
      else rw)"

text \<open>\<open>writeSender\<close> around a response writer: a payload that writes nothing does not send the
  header block.\<close>

definition payload_writes :: "payload \<Rightarrow> bool" where
  "payload_writes p =
     (case p of
        NopPayload \<Rightarrow> False
      | BytesPayload bs i \<Rightarrow> i < length bs
      | EnvPayload e \<Rightarrow> (case makeEnvelopePrefix (env_Flags e) (int (length (env_Data e))) of
                          Inl _ \<Rightarrow> False | Inr _ \<Rightarrow> True))"

definition rw_Send :: "response_writer sender" where
  "rw_Send p rw =
     (let rw = (if payload_writes p then rw_WriteHeader 200 rw else rw) in
      case writeSender_Send p (rw_body rw) of (err, w) \<Rightarrow> (err, rw\<lparr>rw_body := w\<rparr>))"

text \<open>What the client sees once the handler has returned: header block, body, and the trailers
  that were set with \<open>http.TrailerPrefix\<close>.\<close>

definition TrailerPrefix :: string where
  "TrailerPrefix = ''Trailer:''"

fun final_trailers :: "http_header \<Rightarrow> http_header" where
  "final_trailers [] = []"
| "final_trailers ((k, vs) # h) =
     (case CutPrefix k TrailerPrefix of
        None \<Rightarrow> final_trailers h
      | Some kk \<Rightarrow> (kk, vs) # final_trailers h)"

fun without_trailers :: "http_header \<Rightarrow> http_header" where
  "without_trailers [] = []"
| "without_trailers ((k, vs) # h) =
     (case CutPrefix k TrailerPrefix of
        None \<Rightarrow> (k, vs) # without_trailers h
      | Some _ \<Rightarrow> without_trailers h)"

definition rw_finish :: "response_writer \<Rightarrow> http_response" where
  "rw_finish rw =
     (let sent = (case rw_wrote rw of None \<Rightarrow> (200, rw_Header rw) | Some s \<Rightarrow> s)
      in \<lparr>rs_StatusCode = fst sent, rs_Status = itoa (fst sent),
          rs_Header = without_trailers (snd sent), rs_Body = clean_reader (w_out (rw_body rw)),
          rs_Trailer = final_trailers (rw_Header rw), rs_ProtoMajor = 2, rs_ProtoMinor = 0\<rparr>)"

subsection \<open>Error-translating connections\<close>

text \<open>A connection's operation is a function on its state that returns an error; the wrappers
  translate the errors of the operations and nothing else.\<close>

definition translated :: "('s \<Rightarrow> go_error option \<times> 's) \<Rightarrow> 's \<Rightarrow> go_error option \<times> 's" where
  \<comment> \<open>\<open>fromWire\<close> around \<open>Send\<close>, \<open>Receive\<close>, \<open>CloseRequest\<close> and \<open>CloseResponse\<close>\<close>
  "translated op s = (case op s of (err, s') \<Rightarrow> (wrapIfUncoded err, s'))"

definition translated_close ::
  "(go_error option \<Rightarrow> 's \<Rightarrow> go_error option \<times> 's) \<Rightarrow> go_error option \<Rightarrow> 's \<Rightarrow> go_error option \<times> 's" where
  \<comment> \<open>\<open>errorTranslatingHandlerConnCloser.Close\<close> with \<open>toWire = scrubHandlerError\<close>\<close>
  "translated_close op err s =
     (case op (scrubHandlerError err) s of (closeErr, s') \<Rightarrow> (wrapIfUncoded closeErr, s'))"

subsection \<open>Protocol handlers\<close>

datatype protocol_kind = ProtocolConnect | ProtocolGRPC | ProtocolGRPCWeb

record 'm handler_params =
  hp_spec :: rpc_spec
  hp_Codecs :: "(string \<times> 'm codec) list"
  hp_CompressionPools :: compression_pools
  hp_CompressMinBytes :: int
  hp_ReadMaxBytes :: int
  hp_SendMaxBytes :: int
  hp_RequireConnectProtocolHeader :: bool
  hp_IdempotencyLevel :: idempotency_level

record 'm protocol_handler =
  ph_kind :: protocol_kind
  ph_params :: "'m handler_params"
  ph_methods :: "string list"
  ph_accept :: "string list"

definition ph_Methods :: "'m protocol_handler \<Rightarrow> string list" where
  "ph_Methods h = ph_methods h"

definition ph_ContentTypes :: "'m protocol_handler \<Rightarrow> string list" where
  "ph_ContentTypes h = ph_accept h"

fun add_methods ::
  "(string \<times> 'm protocol_handler list) list \<Rightarrow> 'm protocol_handler \<Rightarrow> string list
     \<Rightarrow> (string \<times> 'm protocol_handler list) list" where
  "add_methods methodHandlers handler [] = methodHandlers"
| "add_methods methodHandlers handler (method # methods) =
     add_methods
       (AList.update method
         ((case map_of methodHandlers method of None \<Rightarrow> [] | Some hs \<Rightarrow> hs) @ [handler])
         methodHandlers)
       handler methods"

definition mappedMethodHandlers ::
  "'m protocol_handler list \<Rightarrow> (string \<times> 'm protocol_handler list) list" where
  "mappedMethodHandlers handlers =
     foldl (\<lambda>methodHandlers handler. add_methods methodHandlers handler (ph_Methods handler)) [] handlers"

definition sortedAcceptPostValue :: "'m protocol_handler list \<Rightarrow> string" where
  "sortedAcceptPostValue handlers =
     (let contentTypes = remdups (concat (map ph_ContentTypes handlers))
      in Join (sort contentTypes) '', '')"

definition sortedAllowMethodValue :: "'m protocol_handler list \<Rightarrow> string" where
  "sortedAllowMethodValue handlers =
     (let methods = remdups (concat (map ph_Methods handlers))
      in Join (sort methods) '', '')"

definition checkServerStreamsCanFlush ::
  "string \<Rightarrow> rpc_spec \<Rightarrow> response_writer \<Rightarrow> connect_error option" where
  \<comment> \<open>the first argument is the name of the writer's type, verb \<open>%T\<close>\<close>
  "checkServerStreamsCanFlush typeName spec rw =
     (let requiresFlusher = (spec_StreamType spec AND StreamTypeServer = StreamTypeServer) in
      if requiresFlusher \<and> \<not> rw_flusher rw
      then Some (Errorf CodeInternal ''%T does not implement http.Flusher'' [typeName])
      else None)"

subsection \<open>Content types\<close>

text \<open>\<open>mime.ParseMediaType\<close> and \<open>mime.FormatMediaType\<close> are the two arguments of the slow path.\<close>

record mime_package =
  ParseMediaType :: "string \<Rightarrow> go_error + (string \<times> (string \<times> string) list)"
  FormatMediaType :: "string \<Rightarrow> (string \<times> string) list \<Rightarrow> string"

definition canonicalizeContentTypeSlow :: "mime_package \<Rightarrow> string \<Rightarrow> string" where
  "canonicalizeContentTypeSlow mime contentType =
     (case ParseMediaType mime contentType of
        Inl err \<Rightarrow> contentType
      | Inr (base, params) \<Rightarrow>
          let params =
            (case map_of params ''charset'' of
               None \<Rightarrow> params
             | Some charset \<Rightarrow>
                 if ToLower charset = ''utf-8'' then AList.delete ''charset'' params
                 else AList.update ''charset'' (ToLower charset) params)
          in FormatMediaType mime base params)"

fun content_type_scan :: "nat \<Rightarrow> string \<Rightarrow> nat option" where
  "content_type_scan slashes [] = Some slashes"
| "content_type_scan slashes (r # rs) =
     (if in_range CHR ''a'' CHR ''z'' r then content_type_scan slashes rs
      else if r = CHR ''.'' \<or> r = CHR ''+'' \<or> r = CHR ''-'' then content_type_scan slashes rs
      else if r = CHR ''/'' then content_type_scan (Suc slashes) rs
      else None)"

definition canonicalizeContentType :: "mime_package \<Rightarrow> string \<Rightarrow> string" where
  "canonicalizeContentType mime contentType =
     (case content_type_scan 0 contentType of
        None \<Rightarrow> canonicalizeContentTypeSlow mime contentType
      | Some slashes \<Rightarrow>
          if slashes = 1 then contentType else canonicalizeContentTypeSlow mime contentType)"

subsection \<open>Lemmas\<close>

lemma rw_WriteHeader_once: "rw_WriteHeader s (rw_WriteHeader t rw) = rw_WriteHeader t rw"
  by (simp add: rw_WriteHeader_def)

lemma rw_WriteHeader_simps [simp]:
  "rw_Header (rw_WriteHeader s rw) = rw_Header rw"
  "rw_body (rw_WriteHeader s rw) = rw_body rw"
  "rw_flusher (rw_WriteHeader s rw) = rw_flusher rw"
  by (simp_all add: rw_WriteHeader_def)

lemma flush_simps [simp]:
  "rw_Header (flushResponseWriter rw) = rw_Header rw"
  "rw_body (flushResponseWriter rw) = rw_body rw"
  "rw_flusher (flushResponseWriter rw) = rw_flusher rw"
  by (simp_all add: flushResponseWriter_def Let_def)

lemma rw_Send_simps [simp]:
  "rw_Header (snd (rw_Send p rw)) = rw_Header rw"
  "rw_flusher (snd (rw_Send p rw)) = rw_flusher rw"
  by (simp_all add: rw_Send_def Let_def split: prod.splits)

lemma sent_header_stays: "rw_wrote rw = Some s \<Longrightarrow> rw_WriteHeader t rw = rw"
  by (simp add: rw_WriteHeader_def)

lemma translated_coded: "translated op s = (Some e, s') \<Longrightarrow> asError e \<noteq> None"
  using wrapIfUncoded_coded [of _ e] by (cases "fst (op s)") (auto simp: translated_def split: prod.splits)

lemma translated_nil_iff: "fst (translated op s) = None \<longleftrightarrow> fst (op s) = None"
  by (simp add: translated_def split: prod.splits)

lemma add_methods_lookup:
  "distinct ms \<Longrightarrow> map_of (add_methods acc h ms) m =
     (if m \<in> set ms then Some ((case map_of acc m of None \<Rightarrow> [] | Some hs \<Rightarrow> hs) @ [h]) else map_of acc m)"
  by (induction acc h ms rule: add_methods.induct) auto

lemma mappedMethodHandlers_lookup:
  assumes "\<forall>h \<in> set hs. distinct (ph_Methods h)"
  shows "map_of (mappedMethodHandlers hs) m =
    (let sel = filter (\<lambda>h. m \<in> set (ph_Methods h)) hs in if sel = [] then None else Some sel)"
  using assms
proof (induction hs rule: rev_induct)
  case Nil
  then show ?case by (simp add: mappedMethodHandlers_def)
next
  case (snoc h hs)
  have step: "mappedMethodHandlers (hs @ [h]) = add_methods (mappedMethodHandlers hs) h (ph_Methods h)"
    by (simp add: mappedMethodHandlers_def)
  from snoc show ?case by (auto simp: step add_methods_lookup Let_def)
qed

lemma canonicalizeContentType_fast:
  assumes "content_type_scan 0 ct = Some 1"
  shows "canonicalizeContentType mime ct = ct"
  using assms by (simp add: canonicalizeContentType_def)

end
