(* ===== verification/Web_Trailers.thy ===== *)
theory Web_Trailers
  imports Http
begin

section \<open>gRPC-Web trailers as text (connecthttp/protocol_grpc.go)\<close>

text \<open>
  gRPC-Web sends its trailers in the body, as an envelope that holds an HTTP/1 header block.
  \<open>MarshalWebTrailers\<close> writes it with \<open>http.Header.Write\<close> after it has put the keys into
  lower case, \<open>grpcUnmarshaler.Unmarshal\<close> reads it with \<open>textproto.Reader.ReadMIMEHeader\<close>.
  The two functions of the standard library are modelled first. The theorem says that trailers
  with ordinary keys and values arrive unchanged.
\<close>

subsection \<open>http.Header.Write\<close>

definition is_blank :: "char \<Rightarrow> bool" where
  "is_blank c \<longleftrightarrow> c = CHR '' '' \<or> c = CHR 0x09"

text \<open>\<open>textproto.TrimString\<close> and the replacement of line breaks by spaces.\<close>

definition TrimString :: "string \<Rightarrow> string" where
  "TrimString s =
     (let ws = (\<lambda>c. c = CHR '' '' \<or> c = CHR 0x09 \<or> c = CHR 0x0A \<or> c = CHR 0x0D)
      in rev (dropWhile ws (rev (dropWhile ws s))))"

definition newline_to_space :: "string \<Rightarrow> string" where
  "newline_to_space s = map (\<lambda>c. if c = CHR 0x0A \<or> c = CHR 0x0D then CHR '' '' else c) s"

abbreviation CRLF :: string where "CRLF \<equiv> [CHR 0x0D, CHR 0x0A]"

definition header_line :: "string \<Rightarrow> string \<Rightarrow> string" where
  "header_line key v = key @ '': '' @ TrimString (newline_to_space v) @ CRLF"

text \<open>Keys are written in sorted order; keys that are not tokens are dropped.\<close>

definition valid_field_name :: "string \<Rightarrow> bool" where
  "valid_field_name k \<longleftrightarrow> k \<noteq> [] \<and> list_all validHeaderFieldByte k"

definition http_header_Write :: "http_header \<Rightarrow> string" where
  "http_header_Write h =
     concat (map (\<lambda>(k, vs). if valid_field_name k then concat (map (header_line k) vs) else [])
       (sort_key fst h))"

subsection \<open>textproto.Reader.ReadMIMEHeader\<close>

text \<open>The text up to the next line feed, without a carriage return before it, and the rest;
  \<open>None\<close> when the input ends first.\<close>

fun read_line :: "string \<Rightarrow> string \<Rightarrow> (string \<times> string) option" where
  "read_line acc [] = None"
| "read_line acc (c # cs) =
     (if c = CHR 0x0A
      then Some ((case acc of x # xs \<Rightarrow> if x = CHR 0x0D then rev xs else rev acc | [] \<Rightarrow> []), cs)
      else read_line (c # acc) cs)"

definition trim_blanks :: "string \<Rightarrow> string" where
  "trim_blanks s = rev (dropWhile is_blank (rev (dropWhile is_blank s)))"

lemma read_line_shorter: "read_line acc s = Some (l, rest) \<Longrightarrow> length rest < length s"
  by (induction acc s rule: read_line.induct) (auto split: if_splits)

text \<open>The continuation lines of a header: lines that start with a blank are joined with a space.
  Reaching the end of the input inside them ends the header.\<close>

function read_continuation :: "string \<Rightarrow> string \<Rightarrow> string \<times> string" where
  "read_continuation line s =
     (case s of
        [] \<Rightarrow> (line, [])
      | c # _ \<Rightarrow>
          if is_blank c then
            (case read_line [] s of
               None \<Rightarrow> (line, [])
             | Some (l, rest) \<Rightarrow> read_continuation (line @ '' '' @ trim_blanks l) rest)
          else (line, s))"
  by pat_completeness auto

termination read_continuation
  by (relation "measure (\<lambda>(line, s). length s)") (auto simp del: read_line.simps dest: read_line_shorter)

declare read_continuation.simps [simp del]

lemma read_continuation_shorter: "length (snd (read_continuation line s)) \<le> length s"
proof (induction line s rule: read_continuation.induct)
  case (1 line s)
  show ?case
  proof (cases "\<exists>c t l rest. s = c # t \<and> is_blank c \<and> read_line [] s = Some (l, rest)")
    case True
    then obtain c t l rest where s: "s = c # t" "is_blank c" "read_line [] s = Some (l, rest)" by blast
    then have "read_continuation line s = read_continuation (line @ '' '' @ trim_blanks l) rest"
      by (subst read_continuation.simps) (simp del: read_line.simps)
    with 1 [OF s(1,2,3) refl] read_line_shorter [OF s(3)] show ?thesis by simp
  next
    case False
    then show ?thesis
      by (subst read_continuation.simps) (auto simp del: read_line.simps split: list.splits option.splits)
  qed
qed

definition validHeaderValueByte :: "char \<Rightarrow> bool" where
  "validHeaderValueByte c \<longleftrightarrow> c = CHR 0x09 \<or> ((of_char c :: nat) \<ge> 32 \<and> c \<noteq> CHR 0x7F)"

text \<open>\<open>bytes.Cut\<close> at the first colon.\<close>

definition cut_colon :: "string \<Rightarrow> (string \<times> string) option" where
  "cut_colon s =
     (case dropWhile (\<lambda>c. c \<noteq> CHR '':'') s of
        [] \<Rightarrow> None
      | _ # v \<Rightarrow> Some (takeWhile (\<lambda>c. c \<noteq> CHR '':'') s, v))"

definition mime_error :: "string \<Rightarrow> go_error" where
  "mime_error line = Plain (''malformed MIME header line: '' @ line)"

function mime_loop :: "http_header \<Rightarrow> string \<Rightarrow> go_error + http_header" where
  "mime_loop m s =
     (case read_line [] s of
        None \<Rightarrow> Inl (Sentinel EOF)
      | Some (l, rest) \<Rightarrow>
          if l = [] then Inr m
          else if cut_colon l = None then Inl (mime_error l)
          else
            (case read_continuation (trim_blanks l) rest of
               (kv, rest) \<Rightarrow>
                 if kv = [] then Inr m
                 else (case cut_colon kv of
                         None \<Rightarrow> Inl (mime_error kv)
                       | Some (k, v) \<Rightarrow>
                           if k = [] \<or> \<not> list_all (\<lambda>c. validHeaderFieldByte c \<or> c = CHR '' '') k
                              \<or> \<not> list_all validHeaderValueByte v
                           then Inl (mime_error kv)
                           else mime_loop
                                  (append_values m (CanonicalMIMEHeaderKey k) [dropWhile is_blank v])
                                  rest)))"
  by pat_completeness auto

lemma mime_loop_progress:
  assumes "read_line [] s = Some (l, rest)" "(kv, rest') = read_continuation l' rest"
  shows "length rest' < length s"
  using read_line_shorter [OF assms(1)] read_continuation_shorter [of l' rest] assms(2) [symmetric] by simp

termination mime_loop
  by (relation "measure (\<lambda>(m, s). length s)") (auto dest: mime_loop_progress)

declare mime_loop.simps [simp del]

definition ReadMIMEHeader :: "string \<Rightarrow> go_error + http_header" where
  "ReadMIMEHeader s =
     (case s of
        c # _ \<Rightarrow> if is_blank c then Inl (Plain ''malformed MIME header initial line'') else mime_loop [] s
      | [] \<Rightarrow> mime_loop [] s)"

subsection \<open>The repository's functions\<close>

text \<open>The loop of \<open>MarshalWebTrailers\<close> over the keys the map had when it started.\<close>

fun lower_keys :: "(string \<times> string list) list \<Rightarrow> http_header \<Rightarrow> http_header" where
  "lower_keys [] trailer = trailer"
| "lower_keys ((key, vals) # rest) trailer =
     (let lower = ToLower key in
      if key = lower then lower_keys rest trailer
      else lower_keys rest (AList.update lower vals (AList.delete key trailer)))"

definition grpcFlagEnvelopeTrailer :: byte where "grpcFlagEnvelopeTrailer = 128"

definition web_trailer_block :: "http_header \<Rightarrow> bytes" where
  "web_trailer_block trailer = bytes_of_string (http_header_Write (lower_keys trailer trailer))"

definition MarshalWebTrailers ::
  "'s sender \<Rightarrow> envelope_writer \<Rightarrow> http_header \<Rightarrow> 's \<Rightarrow> connect_error option \<times> envelope_writer \<times> 's" where
  \<comment> \<open>\<open>trailer.Write\<close> into a buffer does not fail\<close>
  "MarshalWebTrailers send w trailer s =
     ew_Write send w (new_envelope grpcFlagEnvelopeTrailer (web_trailer_block trailer)) s"

record grpc_unmarshaler =
  gu_reader :: envelope_reader
  gu_web :: bool
  gu_webTrailer :: http_header

definition grpcUnmarshaler_Unmarshal ::
  "'m codec \<Rightarrow> 'm \<Rightarrow> grpc_unmarshaler \<Rightarrow> connect_error option \<times> 'm \<times> grpc_unmarshaler" where
  "grpcUnmarshaler_Unmarshal codec message u =
     (case er_Unmarshal codec message (gu_reader u) of
        (None, message, r) \<Rightarrow> (None, message, u\<lparr>gu_reader := r\<rparr>)
      | (Some err, message, r) \<Rightarrow>
          if \<not> is_errSpecialEnvelope (Coded err) then (Some err, message, u\<lparr>gu_reader := r\<rparr>)
          else
            let env = er_last r;
                u = u\<lparr>gu_reader := r\<lparr>er_last := env\<lparr>env_Data := []\<rparr>\<rparr>\<rparr>
            in if \<not> gu_web u \<or> \<not> envelope_IsSet env grpcFlagEnvelopeTrailer
               then (Some (Errorf CodeInternal ''protocol error: invalid envelope flags %d''
                             [utoa (unat (env_Flags env))]), message, u)
               else
                 (case ReadMIMEHeader (string_of_bytes (env_Data env) @ [CHR 0x0A]) of
                    Inl mimeErr \<Rightarrow>
                      (Some (WithCause (Errorf CodeInternal
                         ''gRPC-Web protocol error: trailers invalid: %s'' [error_text mimeErr])
                         (Some mimeErr)), message, u)
                  | Inr mimeHeader \<Rightarrow>
                      (Some errSpecialEnvelope, message, u\<lparr>gu_webTrailer := mimeHeader\<rparr>)))"

subsection \<open>Reading one line\<close>

lemma read_line_acc:
  "CHR 0x0A \<notin> set l \<Longrightarrow>
     read_line acc (l @ CHR 0x0A # rest) = read_line (rev l @ acc) (CHR 0x0A # rest)"
  by (induction l arbitrary: acc) auto

lemma read_line_crlf: "CHR 0x0A \<notin> set l \<Longrightarrow> read_line [] (l @ CRLF @ rest) = Some (l, rest)"
  using read_line_acc [of "l @ [CHR 0x0D]" "[]" rest] by simp

definition clean_value :: "string \<Rightarrow> bool" where
  "clean_value v \<longleftrightarrow> list_all validHeaderValueByte v
     \<and> (v \<noteq> [] \<longrightarrow> \<not> is_blank (hd v) \<and> \<not> is_blank (last v))"

lemma clean_value_chars:
  assumes "clean_value v" "c \<in> set v"
  shows "c \<noteq> CHR 0x0A" and "c \<noteq> CHR 0x0D"
proof -
  have "validHeaderValueByte c" using assms by (simp add: clean_value_def list_all_iff)
  then show "c \<noteq> CHR 0x0A" "c \<noteq> CHR 0x0D" by (auto simp: validHeaderValueByte_def)
qed

lemma dropWhile_hd: "xs = [] \<or> \<not> P (hd xs) \<Longrightarrow> dropWhile P xs = xs"
  by (cases xs) auto

lemma trim_id:
  assumes "s = [] \<or> \<not> P (hd s) \<and> \<not> P (last s)"
  shows "rev (dropWhile P (rev (dropWhile P s))) = s"
proof -
  have "dropWhile P s = s" using assms by (intro dropWhile_hd) auto
  moreover have "dropWhile P (rev s) = rev s"
    using assms by (intro dropWhile_hd) (auto simp: hd_rev)
  ultimately show ?thesis by simp
qed

lemma header_line_clean:
  assumes "clean_value v"
  shows "header_line k v = k @ '': '' @ v @ CRLF"
proof -
  have "newline_to_space v = v"
    unfolding newline_to_space_def using clean_value_chars [OF assms] by (auto intro: map_idI)
  moreover have "TrimString v = v"
    unfolding TrimString_def Let_def
  proof (rule trim_id)
    show "v = [] \<or> \<not> (hd v = CHR '' '' \<or> hd v = CHR 0x09 \<or> hd v = CHR 0x0A \<or> hd v = CHR 0x0D)
      \<and> \<not> (last v = CHR '' '' \<or> last v = CHR 0x09 \<or> last v = CHR 0x0A \<or> last v = CHR 0x0D)"
      using assms clean_value_chars [OF assms, OF hd_in_set] clean_value_chars [OF assms, OF last_in_set]
      unfolding clean_value_def is_blank_def by metis
  qed
  ultimately show ?thesis by (simp add: header_line_def)
qed

lemma valid_byte_plain:
  assumes "validHeaderFieldByte c"
  shows "c \<noteq> CHR 0x0A" "c \<noteq> CHR 0x0D" "c \<noteq> CHR '':''" "\<not> is_blank c"
  using assms by (auto simp: validHeaderFieldByte_def is_blank_def in_range_def is_digit_def)

lemma name_plain:
  assumes "valid_field_name k"
  shows "k \<noteq> []" "CHR 0x0A \<notin> set k" "CHR '':'' \<notin> set k" "\<not> is_blank (hd k)"
proof -
  have k: "c \<in> set k \<Longrightarrow> validHeaderFieldByte c" for c
    using assms by (simp add: valid_field_name_def list_all_iff)
  show ne: "k \<noteq> []" using assms by (simp add: valid_field_name_def)
  show "CHR 0x0A \<notin> set k" using k [THEN valid_byte_plain(1)] by blast
  show "CHR '':'' \<notin> set k" using k [THEN valid_byte_plain(3)] by blast
  show "\<not> is_blank (hd k)" using k [THEN valid_byte_plain(4)] ne by simp
qed

lemma cut_colon_line: "CHR '':'' \<notin> set k \<Longrightarrow> cut_colon (k @ CHR '':'' # v) = Some (k, v)"
proof -
  assume "CHR '':'' \<notin> set k"
  then have "dropWhile (\<lambda>c. c \<noteq> CHR '':'') (k @ CHR '':'' # v) = CHR '':'' # v"
    and "takeWhile (\<lambda>c. c \<noteq> CHR '':'') (k @ CHR '':'' # v) = k"
    by (induction k) auto
  then show ?thesis by (simp add: cut_colon_def)
qed

lemma trim_blanks_line:
  assumes "valid_field_name k" "clean_value v"
  shows "trim_blanks (k @ '': '' @ v) = (if v = [] then k @ '':'' else k @ '': '' @ v)"
proof (cases "v = []")
  case True
  have "dropWhile is_blank (k @ '': '') = k @ '': ''"
    using name_plain [OF assms(1)] by (intro dropWhile_hd) (simp add: hd_append)
  moreover have "dropWhile is_blank (CHR '' '' # CHR '':'' # rev k) = CHR '':'' # rev k"
    by (simp add: is_blank_def)
  ultimately show ?thesis using True by (simp add: trim_blanks_def)
next
  case False
  then show ?thesis
    unfolding trim_blanks_def using name_plain [OF assms(1)] assms(2)
    by (subst trim_id) (auto simp: clean_value_def hd_append)
qed

lemma read_continuation_stop: "rest \<noteq> [] \<Longrightarrow> \<not> is_blank (hd rest) \<Longrightarrow> read_continuation l rest = (l, rest)"
  by (subst read_continuation.simps) (auto split: list.splits)

lemma mime_line:
  assumes k: "valid_field_name k" and v: "clean_value v" and "rest \<noteq> []" "\<not> is_blank (hd rest)"
  shows "mime_loop m (header_line k v @ rest) =
    mime_loop (append_values m (CanonicalMIMEHeaderKey k) [v]) rest"
proof -
  let ?l = "k @ '': '' @ v" and ?t = "trim_blanks (k @ '': '' @ v)"
  have nl: "CHR 0x0A \<notin> set ?l"
    using name_plain [OF k] clean_value_chars [OF v] by auto
  have rl: "read_line [] (header_line k v @ rest) = Some (?l, rest)"
    using read_line_crlf [OF nl, of rest] by (simp add: header_line_clean [OF v])
  have "\<not> is_blank CHR '':''" by (simp add: is_blank_def)
  obtain v' where t: "?t = k @ CHR '':'' # v'" and v': "dropWhile is_blank v' = v"
    and ok: "list_all validHeaderValueByte v'"
  proof (cases "v = []")
    case True
    then show thesis using trim_blanks_line [OF k v] by (intro that [of "[]"]) simp_all
  next
    case False
    have "dropWhile is_blank (CHR '' '' # v) = v"
      using False v dropWhile_hd [of v is_blank] by (simp add: clean_value_def is_blank_def)
    with False show thesis using trim_blanks_line [OF k v] v
      by (intro that [of "CHR '' '' # v"]) (simp_all add: clean_value_def validHeaderValueByte_def)
  qed
  have cut: "cut_colon ?l = Some (k, CHR '' '' # v)" "cut_colon ?t = Some (k, v')"
    unfolding t using cut_colon_line [OF name_plain(3) [OF k]] by simp_all
  have keyok: "list_all (\<lambda>c. validHeaderFieldByte c \<or> c = CHR '' '') k" "k \<noteq> []"
    using k by (auto simp: valid_field_name_def list_all_iff)
  show ?thesis
    by (subst mime_loop.simps) (simp add: rl read_continuation_stop assms cut [simplified] keyok ok v' t [simplified]
        cut_colon_line [OF name_plain(3) [OF k]])
qed

subsection \<open>Whole blocks\<close>

definition clean_entry :: "string \<times> string list \<Rightarrow> bool" where
  "clean_entry e \<longleftrightarrow> valid_field_name (fst e) \<and> list_all clean_value (snd e)"

text \<open>The text that may follow an entry: another entry or the empty line.\<close>

abbreviation block_rest :: "string \<Rightarrow> bool" where
  "block_rest rest \<equiv> rest \<noteq> [] \<and> \<not> is_blank (hd rest)"

lemma block_rest_line: "valid_field_name k \<Longrightarrow> block_rest (header_line k v @ rest)"
  using name_plain [of k] by (simp add: header_line_def hd_append)

lemma mime_values:
  assumes "valid_field_name k" "list_all clean_value vs" "block_rest rest"
  shows "mime_loop m (concat (map (header_line k) vs) @ rest) =
      mime_loop (foldl (\<lambda>m v. append_values m (CanonicalMIMEHeaderKey k) [v]) m vs) rest
    \<and> block_rest (concat (map (header_line k) vs) @ rest)"
  using assms(2)
proof (induction vs arbitrary: m)
  case (Cons v vs)
  then show ?case
    using assms block_rest_line [OF assms(1)] by (simp add: mime_line)
qed (use assms in simp)

definition parse_entry :: "http_header \<Rightarrow> string \<times> string list \<Rightarrow> http_header" where
  "parse_entry m e = foldl (\<lambda>m v. append_values m (CanonicalMIMEHeaderKey (fst e)) [v]) m (snd e)"

definition entry_text :: "string \<times> string list \<Rightarrow> string" where
  "entry_text = (\<lambda>(k, vs). if valid_field_name k then concat (map (header_line k) vs) else [])"

lemma mime_entries:
  assumes "list_all clean_entry es" "block_rest rest"
  shows "mime_loop m (concat (map entry_text es) @ rest) = mime_loop (foldl parse_entry m es) rest
    \<and> block_rest (concat (map entry_text es) @ rest)"
  using assms(1)
proof (induction es arbitrary: m)
  case (Cons e es)
  obtain k vs where e: "e = (k, vs)" by (cases e)
  with Cons.prems have "valid_field_name k" "list_all clean_value vs"
    by (simp_all add: clean_entry_def)
  with Cons mime_values [of k vs "concat (map entry_text es) @ rest" m]
  show ?case by (simp add: e entry_text_def parse_entry_def)
qed (use assms in simp)

lemma mime_end: "mime_loop m [CHR 0x0A] = Inr m"
  by (subst mime_loop.simps) simp

lemma ReadMIMEHeader_Write:
  assumes "list_all clean_entry h"
  shows "ReadMIMEHeader (http_header_Write h @ [CHR 0x0A]) = Inr (foldl parse_entry [] (sort_key fst h))"
proof -
  have "list_all clean_entry (sort_key fst h)" using assms by (simp add: list_all_iff)
  moreover have "block_rest [CHR 0x0A]" by (simp add: is_blank_def)
  ultimately have m: "mime_loop [] (concat (map entry_text (sort_key fst h)) @ [CHR 0x0A]) =
      mime_loop (foldl parse_entry [] (sort_key fst h)) [CHR 0x0A]"
    and b: "block_rest (concat (map entry_text (sort_key fst h)) @ [CHR 0x0A])"
    using mime_entries by blast+
  have w: "http_header_Write h @ [CHR 0x0A] = concat (map entry_text (sort_key fst h)) @ [CHR 0x0A]"
    by (simp add: http_header_Write_def entry_text_def)
  obtain c cs where c: "concat (map entry_text (sort_key fst h)) @ [CHR 0x0A] = c # cs"
    by (cases "concat (map entry_text (sort_key fst h)) @ [CHR 0x0A]") auto
  with b have "\<not> is_blank c" by (simp only: c) simp
  then show ?thesis
    using m unfolding w c by (simp add: ReadMIMEHeader_def mime_end)
qed

lemma parse_entry_values:
  "values_of (parse_entry m e) K =
     values_of m K @ (if CanonicalMIMEHeaderKey (fst e) = K then snd e else [])"
proof -
  have "values_of (foldl (\<lambda>m v. append_values m j [v]) m vs) K =
      values_of m K @ (if j = K then vs else [])" for j vs
    by (induction vs arbitrary: m) auto
  then show ?thesis by (simp add: parse_entry_def)
qed

lemma parsed_values:
  "values_of (foldl parse_entry m es) K =
     values_of m K @ concat (map snd (filter (\<lambda>e. CanonicalMIMEHeaderKey (fst e) = K) es))"
  by (induction es arbitrary: m) (simp_all add: parse_entry_values)

lemma single_match:
  "distinct (map f es) \<Longrightarrow> e \<in> set es \<Longrightarrow> filter (\<lambda>x. f x = f e) es = [e]"
proof (induction es)
  case (Cons a es)
  then show ?case
    by (cases "a = e") (auto simp: filter_empty_conv image_iff)
qed simp

subsection \<open>Lower-case keys\<close>

lemma wf_lower_keys: "wf_map h \<Longrightarrow> wf_map (lower_keys es h)"
  by (induction es h rule: lower_keys.induct) (simp_all add: Let_def)

lemma ToLower_idem [simp]: "ToLower (ToLower s) = ToLower s"
  by (simp add: ToLower_def)

lemma lower_keys_lookup:
  "distinct (map (ToLower \<circ> fst) es) \<Longrightarrow>
   map_of (lower_keys es h) j =
     (case find (\<lambda>e. fst e \<noteq> ToLower (fst e) \<and> ToLower (fst e) = j) es of
        Some e \<Rightarrow> Some (snd e)
      | None \<Rightarrow> if j \<noteq> ToLower j \<and> j \<in> fst ` set es then None else map_of h j)"
proof (induction es h rule: lower_keys.induct)
  case (2 key vals rest trailer)
  show ?case
  proof (cases "key = ToLower key")
    case True
    with 2 show ?thesis by (auto split: option.splits)
  next
    case False
    let ?h = "AList.update (ToLower key) vals (AList.delete key trailer)"
    have IH: "map_of (lower_keys rest ?h) j =
      (case find (\<lambda>e. fst e \<noteq> ToLower (fst e) \<and> ToLower (fst e) = j) rest of
        Some e \<Rightarrow> Some (snd e)
      | None \<Rightarrow> if j \<noteq> ToLower j \<and> j \<in> fst ` set rest then None else map_of ?h j)"
      using 2 False by simp
    have "find (\<lambda>e. fst e \<noteq> ToLower (fst e) \<and> ToLower (fst e) = ToLower key) rest = None"
      using "2.prems" by (auto simp: find_None_iff image_iff)
    with False IH show ?thesis
      by (cases "j = ToLower key") (auto split: option.splits)
  qed
qed simp

text \<open>Trailers as the code builds them: distinct canonical keys that are tokens, and values that
  are legal header values without blanks at either end.\<close>

definition web_clean :: "http_header \<Rightarrow> bool" where
  "web_clean t \<longleftrightarrow> wf_map t \<and> canonical_keys t \<and> list_all clean_entry t"

lemma web_clean_key:
  assumes "web_clean t" "(k, vs) \<in> set t"
  shows "CanonicalMIMEHeaderKey (ToLower k) = k" and "valid_field_name k" and "list_all clean_value vs"
    and "valid_field_name (ToLower k)"
proof -
  from assms have k: "CanonicalMIMEHeaderKey k = k" "valid_field_name k" "list_all clean_value vs"
    by (auto simp: web_clean_def canonical_keys_def clean_entry_def list_all_iff)
  then have "list_all validHeaderFieldByte k" by (simp add: valid_field_name_def)
  with k(1) show "CanonicalMIMEHeaderKey (ToLower k) = k"
    using CanonicalMIMEHeaderKey_case by simp
  show "valid_field_name k" "list_all clean_value vs" by (fact k)+
  show "valid_field_name (ToLower k)"
    using k(2) by (auto simp: valid_field_name_def ToLower_def list_all_iff)
qed

lemma web_clean_inj: "web_clean t \<Longrightarrow> inj_on ToLower (fst ` set t)"
proof (rule inj_onI)
  fix x y
  assume t: "web_clean t" and "x \<in> fst ` set t" "y \<in> fst ` set t" "ToLower x = ToLower y"
  then obtain a b where "(x, a) \<in> set t" "(y, b) \<in> set t" by auto
  with web_clean_key(1) [OF t] \<open>ToLower x = ToLower y\<close> show "x = y" by metis
qed

lemma lower_keys_set:
  assumes "web_clean t"
  shows "set (lower_keys t t) = (\<lambda>(k, vs). (ToLower k, vs)) ` set t"
proof -
  have wf: "wf_map t" using assms by (simp add: web_clean_def)
  have dist: "distinct (map (ToLower \<circ> fst) t)"
    using wf web_clean_inj [OF assms] by (simp add: wf_map_def distinct_map comp_inj_on_iff o_def inj_on_def)
  have mem: "(j, vs) \<in> set (lower_keys t t) \<longleftrightarrow> map_of (lower_keys t t) j = Some vs" for j vs
    using wf_lower_keys [OF wf, of t] by (simp add: wf_map_def)
  have memt: "(k, vs) \<in> set t \<longleftrightarrow> map_of t k = Some vs" for k vs
    using wf by (simp add: wf_map_def)
  have "map_of (lower_keys t t) j = Some vs \<longleftrightarrow> (\<exists>k. (k, vs) \<in> set t \<and> ToLower k = j)" for j vs
  proof
    assume "map_of (lower_keys t t) j = Some vs"
    then show "\<exists>k. (k, vs) \<in> set t \<and> ToLower k = j"
      by (auto simp: lower_keys_lookup [OF dist] memt find_Some_iff2 split: option.splits if_splits
          dest!: find_SomeD) (metis map_of_SomeD image_iff fst_conv)+
  next
    assume "\<exists>k. (k, vs) \<in> set t \<and> ToLower k = j"
    then obtain k where k: "(k, vs) \<in> set t" "ToLower k = j" by blast
    show "map_of (lower_keys t t) j = Some vs"
    proof (cases "find (\<lambda>e. fst e \<noteq> ToLower (fst e) \<and> ToLower (fst e) = j) t")
      case None
      with k have "k = j" by (auto simp: find_None_iff)
      with None k show ?thesis by (simp add: lower_keys_lookup [OF dist] memt)
    next
      case (Some e)
      then have e: "e \<in> set t" "ToLower (fst e) = j" by (auto dest: find_SomeD)
      with k have "fst e = k"
        using web_clean_inj [OF assms] by (force dest: inj_onD)
      with e k have "snd e = vs" using memt by (metis option.inject prod.collapse)
      with Some show ?thesis by (simp add: lower_keys_lookup [OF dist])
    qed
  qed
  then show ?thesis by (auto simp: mem image_iff) (metis case_prod_conv)+
qed

lemma lower_keys_clean:
  assumes "web_clean t"
  shows "list_all clean_entry (lower_keys t t)"
    and "distinct (map (CanonicalMIMEHeaderKey \<circ> fst) (sort_key fst (lower_keys t t)))"
proof -
  show "list_all clean_entry (lower_keys t t)"
    using web_clean_key [OF assms] by (auto simp: lower_keys_set [OF assms] list_all_iff clean_entry_def)
  have wf: "wf_map (lower_keys t t)"
    using assms by (intro wf_lower_keys) (simp add: web_clean_def)
  have "inj_on CanonicalMIMEHeaderKey (fst ` set (lower_keys t t))"
  proof (rule inj_onI)
    fix x y
    assume "x \<in> fst ` set (lower_keys t t)" "y \<in> fst ` set (lower_keys t t)"
      "CanonicalMIMEHeaderKey x = CanonicalMIMEHeaderKey y"
    then obtain k a l b where "(k, a) \<in> set t" "x = ToLower k" "(l, b) \<in> set t" "y = ToLower l"
      by (auto simp: lower_keys_set [OF assms])
    with web_clean_key(1) [OF assms] \<open>CanonicalMIMEHeaderKey x = CanonicalMIMEHeaderKey y\<close>
    show "x = y" by metis
  qed
  with wf have "distinct (map (CanonicalMIMEHeaderKey \<circ> fst) (lower_keys t t))"
    by (simp add: wf_map_def distinct_map comp_inj_on_iff o_def inj_on_def)
  then show "distinct (map (CanonicalMIMEHeaderKey \<circ> fst) (sort_key fst (lower_keys t t)))"
    by (simp add: distinct_map)
qed

lemma web_block_values:
  assumes "web_clean t"
  shows "\<exists>h. ReadMIMEHeader (string_of_bytes (web_trailer_block t) @ [CHR 0x0A]) = Inr h
    \<and> (\<forall>K. values_of h K = values_of t K)"
proof -
  let ?u = "lower_keys t t" and ?es = "sort_key fst (lower_keys t t)"
  let ?h = "foldl parse_entry [] ?es"
  have "values_of ?h K = values_of t K" for K
  proof (cases "map_of t K")
    case None
    have "filter (\<lambda>e. CanonicalMIMEHeaderKey (fst e) = K) ?es = []"
    proof -
      have "CanonicalMIMEHeaderKey (fst e) \<noteq> K" if "e \<in> set ?u" for e
        using that None web_clean_key(1) [OF assms]
        by (auto simp: lower_keys_set [OF assms] map_of_eq_None_iff image_iff)
      then show ?thesis by (auto simp: filter_empty_conv)
    qed
    with None show ?thesis by (simp add: parsed_values values_of_absent)
  next
    case (Some vs)
    then have "(K, vs) \<in> set t" by (rule map_of_SomeD)
    then have "(ToLower K, vs) \<in> set ?es" and K: "CanonicalMIMEHeaderKey (ToLower K) = K"
      using web_clean_key(1) [OF assms] by (force simp: lower_keys_set [OF assms])+
    then have "filter (\<lambda>e. CanonicalMIMEHeaderKey (fst e) = K) ?es = [(ToLower K, vs)]"
      using single_match [OF lower_keys_clean(2) [OF assms], of "(ToLower K, vs)"] by simp
    with Some show ?thesis by (simp add: parsed_values) (simp add: values_of_def)
  qed
  then show ?thesis
    using ReadMIMEHeader_Write [OF lower_keys_clean(1) [OF assms]]
    by (simp add: web_trailer_block_def)
qed

lemma grpcUnmarshaler_special:
  assumes "er_Unmarshal codec m (gu_reader u) = (Some errSpecialEnvelope, m, r)"
    and "gu_web u" and "envelope_IsSet (er_last r) grpcFlagEnvelopeTrailer"
    and "ReadMIMEHeader (string_of_bytes (env_Data (er_last r)) @ [CHR 0x0A]) = Inr h"
  shows "\<exists>u'. grpcUnmarshaler_Unmarshal codec m u = (Some errSpecialEnvelope, m, u') \<and> gu_webTrailer u' = h"
  using assms by (simp add: grpcUnmarshaler_Unmarshal_def is_errSpecialEnvelope_def Let_def)

text \<open>C18. gRPC-Web trailers: what \<open>MarshalWebTrailers\<close> writes, compressed or not, is read by
  \<open>grpcUnmarshaler.Unmarshal\<close> as the end of the stream, and every key then has exactly the
  values it was sent with, although the keys travel in lower case and in sorted order.\<close>

theorem web_trailers_delivered:
  assumes t: "web_clean t" and pool: "pool_ok (ew_compressionPool w)"
    and wire: "wire_message w (web_trailer_block t) = Inr (f, d)" and fit: "fits d"
    and s: "w_room s = None" "w_out s = []" and u: "gu_web u"
    and cfg: "er_compressionPool (gu_reader u) = ew_compressionPool w"
    and lim: "read_limit_ok (er_readMaxBytes (gu_reader u)) d"
      "read_limit_ok (er_readMaxBytes (gu_reader u)) (web_trailer_block t)"
  shows "\<exists>w' s' u'. MarshalWebTrailers writeSender_Send w t s = (None, w', s')
    \<and> grpcUnmarshaler_Unmarshal codec m
        (u\<lparr>gu_reader := (gu_reader u)\<lparr>er_reader := clean_reader (w_out s')\<rparr>\<rparr>)
      = (Some errSpecialEnvelope, m, u')
    \<and> (\<forall>K. values_of (gu_webTrailer u') K = values_of t K)"
proof -
  let ?fl = "grpcFlagEnvelopeTrailer"
  let ?s = "s\<lparr>w_out := w_out s @ frame (?fl OR f) d\<rparr>"
  have fl: "?fl \<in> {2, 128}" by (simp add: grpcFlagEnvelopeTrailer_def)
  have "writeSender_Send (EnvPayload (new_envelope (?fl OR f) d)) s = (None, ?s)"
    using fit s by (simp add: writeSender_Send_envelope)
  then obtain w' where sent: "MarshalWebTrailers writeSender_Send w t s = (None, w', ?s)"
    using special_sent [OF fl wire, of writeSender_Send s ?s] by (auto simp: MarshalWebTrailers_def)
  let ?r = "(gu_reader u)\<lparr>er_reader := clean_reader (w_out ?s)\<rparr>"
  let ?u = "u\<lparr>gu_reader := ?r\<rparr>"
  have cfg': "er_compressionPool ?r = ew_compressionPool w" "er_readMaxBytes ?r = er_readMaxBytes (gu_reader u)"
    "er_reader ?r = clean_reader (frame (?fl OR f) d)"
    using cfg s by simp_all
  obtain r' where r': "er_Unmarshal codec m ?r = (Some errSpecialEnvelope, m, r')"
    "er_last r' = new_envelope (?fl OR f) (web_trailer_block t)"
    using special_received [OF fl pool wire fit cfg'(3,1), of codec m] lim cfg'(2) by auto
  obtain h where h: "ReadMIMEHeader (string_of_bytes (web_trailer_block t) @ [CHR 0x0A]) = Inr h"
    "\<forall>K. values_of h K = values_of t K"
    using web_block_values [OF t] by blast
  have "envelope_IsSet (er_last r') ?fl"
    using special_flag_bits(4) [OF fl wire_message_flags [OF wire]]
    by (simp add: r' envelope_IsSet_def new_envelope_def)
  then obtain u' where "grpcUnmarshaler_Unmarshal codec m ?u = (Some errSpecialEnvelope, m, u')"
    "gu_webTrailer u' = h"
    using grpcUnmarshaler_special [of codec m ?u r' h] u r' h(1) by (auto simp: new_envelope_def)
  with sent h(2) show ?thesis by blast
qed

definition witness_trailers :: http_header where
  "witness_trailers = [(''Grpc-Status'', [''0'']), (''Foo'', [''a b'', ''c''])]"

definition witness_unmarshaler :: grpc_unmarshaler where
  "witness_unmarshaler = \<lparr>gu_reader = witness_reader [], gu_web = True, gu_webTrailer = []\<rparr>"

theorem web_trailers_delivered_witness:
  "\<exists>w' s' u'. MarshalWebTrailers writeSender_Send witness_writer witness_trailers good_writer = (None, w', s')
    \<and> grpcUnmarshaler_Unmarshal raw_codec []
        (witness_unmarshaler\<lparr>gu_reader := witness_reader (w_out s')\<rparr>) = (Some errSpecialEnvelope, [], u')
    \<and> values_of (gu_webTrailer u') ''Foo'' = [''a b'', ''c'']"
proof -
  let ?b = "web_trailer_block witness_trailers"
  have clean: "web_clean witness_trailers" by code_simp
  have len: "length ?b = 34" by code_simp
  have wire: "wire_message witness_writer ?b = Inr (1, 31 # rev ?b)"
    using len by (simp add: wire_message_def witness_writer_def compressionPool_Compress_def rev_compressor_def)
  have pool: "pool_ok (ew_compressionPool witness_writer)"
    by (simp add: pool_ok_def witness_writer_def rev_compressor_ok)
  have lims: "read_limit_ok (er_readMaxBytes (gu_reader witness_unmarshaler)) (31 # rev ?b)"
    "read_limit_ok (er_readMaxBytes (gu_reader witness_unmarshaler)) ?b"
    using len by (simp_all add: read_limit_ok_def witness_unmarshaler_def witness_reader_def)
  have vals: "values_of witness_trailers ''Foo'' = [''a b'', ''c'']" by code_simp
  have upd: "(gu_reader witness_unmarshaler)\<lparr>er_reader := clean_reader bs\<rparr> = witness_reader bs" for bs
    by (simp add: witness_unmarshaler_def witness_reader_def)
  have side: "fits (31 # rev ?b)" "w_room good_writer = None" "w_out good_writer = []"
    "gu_web witness_unmarshaler"
    "er_compressionPool (gu_reader witness_unmarshaler) = ew_compressionPool witness_writer"
    using len by (simp_all add: fits_def good_writer_def witness_unmarshaler_def witness_reader_def witness_writer_def)
  show ?thesis
    using web_trailers_delivered [OF clean pool wire side lims, of raw_codec "[]"]
    unfolding upd vals [symmetric] by blast
qed

end
