(* ===== verification/Duplex.thy ===== *)
theory Duplex
  imports Web_Trailers
begin

section \<open>One HTTP request with streamed bodies (connecthttp/duplex\_http\_call.go)\<close>

text \<open>
  \<open>duplexHTTPCall\<close> sends one request and hands out its response. For unary and server-streaming
  calls \<open>Send\<close> makes the request itself; for the others the request runs in a goroutine that
  \<open>Send\<close> or \<open>CloseWrite\<close> starts, while the body is written through a pipe. The HTTP client is a
  parameter: what \<open>Do\<close> returns for a request.

  The state has the fields of the struct; \<open>dc_running\<close> says that the goroutine has been started
  and has not finished, \<open>dc_ready\<close> that \<open>responseReady\<close> is closed, and \<open>dc_dispatched\<close> counts
  the calls of \<open>Do\<close>. The step relation \<open>dc_step\<close> interleaves the user's calls with the end of
  the goroutine and with cancellation; the invariant \<open>dc_inv\<close> holds in every reachable state.
\<close>

subsection \<open>payloadCloser\<close>

definition payload_Read :: "nat \<Rightarrow> payload \<Rightarrow> bytes \<times> go_error option \<times> payload" where
  "payload_Read n p =
     (case p of
        NopPayload \<Rightarrow> ([], Some (Sentinel EOF), p)
      | BytesPayload bs i \<Rightarrow>
          if length bs \<le> i then ([], Some (Sentinel EOF), p)
          else let d = take n (drop i bs) in (d, None, BytesPayload bs (i + length d))
      | EnvPayload e \<Rightarrow>
          (case envelope_Read n e of
             None \<Rightarrow> ([], Some panic_error, p)
           | Some (d, err, e') \<Rightarrow> (d, err, EnvPayload e')))"

text \<open>\<open>Seek(0, io.SeekStart)\<close>.\<close>

definition payload_Seek_start :: "payload \<Rightarrow> go_error option \<times> payload" where
  "payload_Seek_start p =
     (case p of
        NopPayload \<Rightarrow> (None, p)
      | BytesPayload bs i \<Rightarrow> (None, BytesPayload bs 0)
      | EnvPayload e \<Rightarrow> (case envelope_Seek 0 SeekStart e of (_, err, e') \<Rightarrow> (err, EnvPayload e')))"

type_synonym payload_closer = "payload option"

definition newPayloadCloser :: "payload \<Rightarrow> payload_closer" where
  "newPayloadCloser p = Some p"

definition payloadCloser_Read :: "nat \<Rightarrow> payload_closer \<Rightarrow> bytes \<times> go_error option \<times> payload_closer" where
  "payloadCloser_Read n pc =
     (case pc of
        None \<Rightarrow> ([], Some (Sentinel EOF), None)
      | Some p \<Rightarrow> (case payload_Read n p of (d, err, p') \<Rightarrow> (d, err, Some p')))"

definition payloadCloser_WriteTo :: "payload_closer \<Rightarrow> writer \<Rightarrow> int \<times> go_error option \<times> writer" where
  "payloadCloser_WriteTo pc w = (case pc of None \<Rightarrow> (0, None, w) | Some p \<Rightarrow> payload_WriteTo p w)"

definition payloadCloser_Close :: "payload_closer \<Rightarrow> go_error option" where
  "payloadCloser_Close pc = None"

definition payloadCloser_Rewind :: "payload_closer \<Rightarrow> bool \<times> payload_closer" where
  "payloadCloser_Rewind pc =
     (case pc of
        None \<Rightarrow> (False, None)
      | Some p \<Rightarrow> (case payload_Seek_start p of
                     (Some err, p') \<Rightarrow> (False, Some p')
                   | (None, p') \<Rightarrow> (True, Some p')))"

definition payloadCloser_Release :: "payload_closer \<Rightarrow> payload_closer" where
  "payloadCloser_Release pc = None"

subsection \<open>The call\<close>

record duplex_call =
  dc_ctx :: context_t
  dc_streamType :: stream_type
  dc_request :: http_request
  dc_pipe :: "writer option"
  dc_body :: payload_closer
  dc_requestSent :: bool
  dc_running :: bool
  dc_ready :: bool
  dc_response :: "http_response option"
  dc_responseErr :: "go_error option"
  dc_hooks :: bool
  dc_infoRequest :: "http_request option"
  dc_infoResponse :: "http_response option"
  dc_dispatched :: nat

text \<open>What the call needs from outside: the clock, the HTTP client and the protocol's
  \<open>validateResponse\<close>.\<close>

record http_env =
  he_now :: int
  he_Do :: "http_request \<Rightarrow> payload_closer \<Rightarrow> go_error + http_response"
  he_validate :: "http_response \<Rightarrow> connect_error option"

definition streams_request :: "stream_type \<Rightarrow> bool" where
  "streams_request st \<longleftrightarrow> st AND StreamTypeClient \<noteq> 0"

definition newDuplexHTTPCall ::
  "context_t \<Rightarrow> http_request \<Rightarrow> stream_type \<Rightarrow> http_header \<Rightarrow> duplex_call" where
  \<comment> \<open>the second argument carries the parts of the URL\<close>
  "newDuplexHTTPCall ctx url streamType header =
     (let streaming = streams_request streamType in
      \<lparr>dc_ctx = ctx, dc_streamType = streamType,
       dc_request = url\<lparr>rq_Method := ''POST'', rq_Header := header, rq_ProtoMajor := 1,
                        rq_Body := clean_reader [],
                        rq_ContentLength := (if streaming then - 1 else 0), rq_ctx := ctx\<rparr>,
       dc_pipe = (if streaming
                  then Some \<lparr>w_out = [], w_room = None, w_err = Sentinel ErrClosedPipe\<rparr> else None),
       dc_body = None, dc_requestSent = False, dc_running = False, dc_ready = False,
       dc_response = None, dc_responseErr = None, dc_hooks = False,
       dc_infoRequest = None, dc_infoResponse = None, dc_dispatched = 0\<rparr>)"

text \<open>Closing the write side: later writes fail with \<open>io.ErrClosedPipe\<close>. The other bodies
  (\<open>http.NoBody\<close>, \<open>payloadCloser\<close>) have nothing to close.\<close>

definition close_body :: "duplex_call \<Rightarrow> duplex_call" where
  "close_body d = d\<lparr>dc_pipe := map_option (\<lambda>w. w\<lparr>w_room := Some 0\<rparr>) (dc_pipe d)\<rparr>"

definition makeRequest_error :: "http_env \<Rightarrow> duplex_call \<Rightarrow> go_error \<Rightarrow> go_error" where
  "makeRequest_error he d err =
     (let err = (if errors_Is err EOF then Sentinel ErrUnexpectedEOF else err);
          err = wrapIfContextError err;
          err = wrapIfLikelyH2CNotConfiguredError (Some (rq_Scheme (dc_request d))) err;
          err = wrapIfLikelyWithGRPCNotUsedError err;
          err = wrapIfRSTError (he_now he) (dc_ctx d) err
      in if asError err = None
         then Coded (WithCause (Errorf CodeUnavailable ''%s'' [error_text err]) (Some err))
         else err)"

definition makeRequest :: "http_env \<Rightarrow> duplex_call \<Rightarrow> duplex_call" where
  "makeRequest he d =
     (let host = getHeaderCanonical (rq_Header (dc_request d)) headerHost;
          d = (if host \<noteq> [] then d\<lparr>dc_request := (dc_request d)\<lparr>rq_Host := host\<rparr>\<rparr> else d);
          d = (if dc_hooks d then d\<lparr>dc_infoRequest := Some (dc_request d)\<rparr> else d);
          d = d\<lparr>dc_dispatched := Suc (dc_dispatched d), dc_running := False, dc_ready := True\<rparr>
      in case he_Do he (dc_request d) (dc_body d) of
           Inl err \<Rightarrow> close_body (d\<lparr>dc_responseErr := Some (makeRequest_error he d err)\<rparr>)
         | Inr response \<Rightarrow>
             let d = d\<lparr>dc_response := Some response\<rparr>;
                 d = (if dc_hooks d then d\<lparr>dc_infoResponse := Some response\<rparr> else d)
             in case he_validate he response of
                  Some err \<Rightarrow> close_body (d\<lparr>dc_responseErr := Some (Coded err)\<rparr>)
                | None \<Rightarrow>
                    if dc_streamType d AND StreamTypeBidi = StreamTypeBidi \<and> rs_ProtoMajor response < 2
                    then close_body (d\<lparr>dc_responseErr := Some (Coded (Errorf CodeUnimplemented
                           ''response from %v is HTTP/%d.%d: bidi streams require at least HTTP/2''
                           [rq_URL (dc_request d), itoa (rs_ProtoMajor response),
                            itoa (rs_ProtoMinor response)]))\<rparr>)
                    else d)"

definition duplex_sendUnary ::
  "http_env \<Rightarrow> payload \<Rightarrow> duplex_call \<Rightarrow> int \<times> go_error option \<times> duplex_call" where
  "duplex_sendUnary he p d =
     (if dc_requestSent d then (0, Some (Plain ''request already sent''), d)
      else
        let d = d\<lparr>dc_requestSent := True\<rparr>;
            payloadLength = payload_Len p;
            d = (if payloadLength > 0
                 then d\<lparr>dc_body := newPayloadCloser p,
                        dc_request := (dc_request d)\<lparr>rq_ContentLength := payloadLength\<rparr>\<rparr>
                 else d);
            d = makeRequest he d;
            d = d\<lparr>dc_body := payloadCloser_Release (dc_body d)\<rparr>
        in if dc_responseErr d \<noteq> None then
             (case cx_err (dc_ctx d) of
                Some err \<Rightarrow> (0, Some (wrapIfContextError err), d)
              | None \<Rightarrow> (payloadLength, None, d))
           else (payloadLength, None, d))"

text \<open>\<open>go d.makeRequest()\<close>: the goroutine is started.\<close>

definition start_request :: "duplex_call \<Rightarrow> bool \<times> duplex_call" where
  "start_request d =
     (if dc_requestSent d then (False, d) else (True, d\<lparr>dc_requestSent := True, dc_running := True\<rparr>))"

definition duplex_sendStream :: "payload \<Rightarrow> duplex_call \<Rightarrow> int \<times> go_error option \<times> duplex_call" where
  "duplex_sendStream p d =
     (case start_request d of
        (isFirst, d) \<Rightarrow>
          (case cx_err (dc_ctx d) of
             Some err \<Rightarrow> (0, Some (wrapIfContextError err), d)
           | None \<Rightarrow>
               if isFirst \<and> payload_Len p = 0 then (0, None, d)
               else
                 (case dc_pipe d of
                    None \<Rightarrow> (0, Some panic_error, d)
                  | Some w \<Rightarrow>
                      (case payload_WriteTo p w of
                         (n, err, w') \<Rightarrow>
                           (n, (case err of
                                  Some e \<Rightarrow> if errors_Is e ErrClosedPipe then Some (Sentinel EOF) else Some e
                                | None \<Rightarrow> None),
                            d\<lparr>dc_pipe := Some w'\<rparr>)))))"

definition duplex_Send ::
  "http_env \<Rightarrow> payload \<Rightarrow> duplex_call \<Rightarrow> int \<times> go_error option \<times> duplex_call" where
  "duplex_Send he p d =
     (if dc_streamType d AND StreamTypeClient = 0 then duplex_sendUnary he p d else duplex_sendStream p d)"

definition duplex_CloseWrite :: "duplex_call \<Rightarrow> go_error option \<times> duplex_call" where
  "duplex_CloseWrite d = (case start_request d of (_, d) \<Rightarrow> (None, close_body d))"

definition duplex_SetMethod :: "string \<Rightarrow> duplex_call \<Rightarrow> duplex_call" where
  "duplex_SetMethod method d = d\<lparr>dc_request := (dc_request d)\<lparr>rq_Method := method\<rparr>\<rparr>"

text \<open>\<open>None\<close>: still blocked.\<close>

definition blockUntilResponseReady ::
  "duplex_call \<Rightarrow> (http_response option \<times> go_error option) option" where
  "blockUntilResponseReady d =
     (if dc_ready d then Some (dc_response d, dc_responseErr d)
      else case cx_err (dc_ctx d) of
             Some err \<Rightarrow> Some (None, Some (wrapIfContextError err))
           | None \<Rightarrow> None)"

definition awaitResponse :: "duplex_call \<Rightarrow> bool option" where
  "awaitResponse d =
     (if \<not> dc_requestSent d then Some False
      else map_option (\<lambda>(response, _). response \<noteq> None) (blockUntilResponseReady d))"

text \<open>The response body as \<open>duplexHTTPCall.Read\<close> delivers it.\<close>

definition duplex_Read :: "http_env \<Rightarrow> duplex_call \<Rightarrow> reader option" where
  "duplex_Read he d =
     (case blockUntilResponseReady d of
        None \<Rightarrow> None
      | Some (_, Some err) \<Rightarrow> Some \<lparr>rd_data = [], rd_err = err\<rparr>
      | Some (response, None) \<Rightarrow>
          (case cx_err (dc_ctx d) of
             Some err \<Rightarrow> Some \<lparr>rd_data = [], rd_err = wrapIfContextError err\<rparr>
           | None \<Rightarrow>
               (case response of
                  None \<Rightarrow> Some \<lparr>rd_data = [], rd_err = panic_error\<rparr>
                | Some r \<Rightarrow>
                    let err = rd_err (rs_Body r) in
                    Some ((rs_Body r)\<lparr>rd_err :=
                      (if errors_Is err EOF then err
                       else wrapIfRSTError (he_now he) (dc_ctx d) (wrapIfContextDone (dc_ctx d) err))\<rparr>))))"

text \<open>\<open>close_err\<close> is what closing the response body returns.\<close>

definition duplex_CloseRead ::
  "http_env \<Rightarrow> go_error option \<Rightarrow> duplex_call \<Rightarrow> go_error option option" where
  "duplex_CloseRead he close_err d =
     (case blockUntilResponseReady d of
        None \<Rightarrow> None
      | Some (None, _) \<Rightarrow> Some None
      | Some (Some response, _) \<Rightarrow>
          Some (map_option (\<lambda>err. wrapIfRSTError (he_now he) (dc_ctx d) (wrapIfContextDone (dc_ctx d) err))
                  close_err))"

definition ResponseStatusCode :: "duplex_call \<Rightarrow> (go_error + int) option" where
  "ResponseStatusCode d =
     (case blockUntilResponseReady d of
        None \<Rightarrow> None
      | Some (_, Some err) \<Rightarrow> Some (Inl err)
      | Some (response, None) \<Rightarrow>
          (case response of None \<Rightarrow> Some (Inl panic_error) | Some r \<Rightarrow> Some (Inr (rs_StatusCode r))))"

definition duplex_ResponseHeader :: "duplex_call \<Rightarrow> http_header option" where
  "duplex_ResponseHeader d =
     (case blockUntilResponseReady d of
        None \<Rightarrow> None
      | Some (Some r, _) \<Rightarrow> Some (rs_Header r)
      | Some (None, _) \<Rightarrow> Some [])"

definition duplex_ResponseTrailer :: "duplex_call \<Rightarrow> http_header option" where
  "duplex_ResponseTrailer d =
     (case blockUntilResponseReady d of
        None \<Rightarrow> None
      | Some (Some r, _) \<Rightarrow> Some (rs_Trailer r)
      | Some (None, _) \<Rightarrow> Some [])"

subsection \<open>Interleavings\<close>

text \<open>The user sends and closes, the goroutine finishes with any result of the HTTP client, the
  context ends.\<close>

inductive dc_step :: "duplex_call \<Rightarrow> duplex_call \<Rightarrow> bool" where
  step_send: "duplex_Send he p d = (n, err, d') \<Longrightarrow> dc_step d d'"
| step_close: "duplex_CloseWrite d = (err, d') \<Longrightarrow> dc_step d d'"
| step_finish: "dc_running d \<Longrightarrow> dc_step d (makeRequest he d)"
| step_cancel: "cx_err (dc_ctx d) = None \<Longrightarrow> dc_step d (d\<lparr>dc_ctx := (dc_ctx d)\<lparr>cx_err := Some e\<rparr>\<rparr>)"

inductive dc_reachable :: "duplex_call \<Rightarrow> bool" where
  dc_init: "dc_reachable (newDuplexHTTPCall ctx url st header)"
| dc_next: "dc_reachable d \<Longrightarrow> dc_step d d' \<Longrightarrow> dc_reachable d'"

inductive_cases dc_step_cases: "dc_step d d'"

subsection \<open>Errors of the HTTP client\<close>

lemma chain_first_url: "first_url_error es = Some e \<Longrightarrow> \<exists>op url. UrlErr op url e \<in> set es"
  by (induction es rule: first_url_error.induct) auto

lemma errors_Is_Wrap [simp]: "errors_Is (Wrap m e) s \<longleftrightarrow> errors_Is e s"
  by (simp add: errors_Is_def)

lemma errors_Is_caused [simp]: "errors_Is (Coded (WithCause (Errorf c f as) (Some e))) s \<longleftrightarrow> errors_Is e s"
  by (simp add: errors_Is_WithCause) (simp add: errors_Is_Coded)

text \<open>What \<open>errors.As\<close> finds of an error is wrapped by it.\<close>

lemma chain_trans:
  "e' \<in> set (chain e) \<Longrightarrow> set (chain e') \<subseteq> set (chain e)"
  "e' \<in> set (chain_cause ce) \<Longrightarrow> set (chain e') \<subseteq> set (chain_cause ce)"
proof (induction e and ce rule: chain_chain_cause.induct)
  case (1 s)
  then show ?case by (cases s) auto
qed auto

lemma url_error_Is:
  assumes "first_url_error (chain e) = Some e'" "errors_Is e' s"
  shows "errors_Is e s"
proof -
  from chain_first_url [OF assms(1)] obtain op url where "UrlErr op url e' \<in> set (chain e)" by blast
  then have "set (chain (UrlErr op url e')) \<subseteq> set (chain e)" by (rule chain_trans)
  with assms(2) show ?thesis by (auto simp: errors_Is_def)
qed

lemma wrapIfRSTError_Is: "errors_Is (wrapIfRSTError now ctx e) s \<Longrightarrow> errors_Is e s"
  by (auto simp: wrapIfRSTError_def errors_Is_caused Let_def split: if_splits option.splits dest: url_error_Is)

lemma wrapIfLikely_Is [simp]:
  "errors_Is (wrapIfLikelyH2CNotConfiguredError scheme e) s \<longleftrightarrow> errors_Is e s"
  "errors_Is (wrapIfLikelyWithGRPCNotUsedError e) s \<longleftrightarrow> errors_Is e s"
  by (simp_all add: wrapIfLikelyH2CNotConfiguredError_def wrapIfLikelyWithGRPCNotUsedError_def Let_def)

lemma makeRequest_error_coded: "asError (makeRequest_error he d err) \<noteq> None"
  by (simp add: makeRequest_error_def Let_def)

lemma makeRequest_error_ex [simp]: "\<exists>y. asError (makeRequest_error he d err) = Some y"
  using makeRequest_error_coded [of he d err] by blast

lemma makeRequest_error_not_EOF: "\<not> errors_Is (makeRequest_error he d err) EOF"
proof -
  let ?e = "if errors_Is err EOF then Sentinel ErrUnexpectedEOF else err"
  let ?f = "wrapIfRSTError (he_now he) (dc_ctx d) (wrapIfLikelyWithGRPCNotUsedError
      (wrapIfLikelyH2CNotConfiguredError (Some (rq_Scheme (dc_request d))) (wrapIfContextError ?e)))"
  have "\<not> errors_Is ?e EOF" by (simp add: errors_Is_Sentinel)
  then have f: "\<not> errors_Is ?f EOF" by (auto dest!: wrapIfRSTError_Is)
  have "makeRequest_error he d err =
      (if asError ?f = None then Coded (WithCause (Errorf CodeUnavailable ''%s'' [error_text ?f]) (Some ?f)) else ?f)"
    by (simp add: makeRequest_error_def Let_def)
  with f show ?thesis by simp
qed

subsection \<open>The invariant\<close>

definition pipe_closed :: "duplex_call \<Rightarrow> bool" where
  "pipe_closed d = (case dc_pipe d of None \<Rightarrow> True | Some w \<Rightarrow> w_room w = Some 0)"

definition dc_inv :: "duplex_call \<Rightarrow> bool" where
  "dc_inv d \<longleftrightarrow>
     (dc_requestSent d \<longleftrightarrow> dc_running d \<or> dc_ready d) \<and> \<not> (dc_running d \<and> dc_ready d)
     \<and> dc_dispatched d = (if dc_ready d then 1 else 0)
     \<and> (\<not> dc_ready d \<longrightarrow> dc_response d = None \<and> dc_responseErr d = None)
     \<and> (dc_ready d \<longrightarrow> dc_response d \<noteq> None \<or> dc_responseErr d \<noteq> None)
     \<and> (dc_responseErr d \<noteq> None \<longrightarrow> asError (the (dc_responseErr d)) \<noteq> None \<and> pipe_closed d)
     \<and> (dc_pipe d \<noteq> None \<longleftrightarrow> streams_request (dc_streamType d))"

lemma dc_inv_init: "dc_inv (newDuplexHTTPCall ctx url st header)"
  by (simp add: dc_inv_def newDuplexHTTPCall_def Let_def)

lemma close_body_simps [simp]:
  "dc_requestSent (close_body d) = dc_requestSent d" "dc_running (close_body d) = dc_running d"
  "dc_ready (close_body d) = dc_ready d" "dc_dispatched (close_body d) = dc_dispatched d"
  "dc_response (close_body d) = dc_response d" "dc_responseErr (close_body d) = dc_responseErr d"
  "dc_streamType (close_body d) = dc_streamType d" "dc_ctx (close_body d) = dc_ctx d"
  "dc_body (close_body d) = dc_body d" "pipe_closed (close_body d)"
  "dc_pipe (close_body d) = None \<longleftrightarrow> dc_pipe d = None"
  by (auto simp: close_body_def pipe_closed_def split: option.splits)

lemma dc_inv_close_body: "dc_inv d \<Longrightarrow> dc_inv (close_body d)"
  by (simp add: dc_inv_def)

lemma makeRequest_fields:
  "dc_requestSent (makeRequest he d) = dc_requestSent d"
  "dc_running (makeRequest he d) = False" "dc_ready (makeRequest he d) = True"
  "dc_dispatched (makeRequest he d) = Suc (dc_dispatched d)"
  "dc_streamType (makeRequest he d) = dc_streamType d"
  "dc_ctx (makeRequest he d) = dc_ctx d" "dc_body (makeRequest he d) = dc_body d"
  "dc_pipe (makeRequest he d) = None \<longleftrightarrow> dc_pipe d = None"
  by (simp_all add: makeRequest_def Let_def split: sum.splits option.splits)

lemma makeRequest_outcome:
  assumes "dc_response d = None" "dc_responseErr d = None"
  shows "(dc_response (makeRequest he d) \<noteq> None \<or> dc_responseErr (makeRequest he d) \<noteq> None)
    \<and> (dc_responseErr (makeRequest he d) \<noteq> None \<longrightarrow>
         asError (the (dc_responseErr (makeRequest he d))) \<noteq> None \<and> pipe_closed (makeRequest he d))"
  using assms by (simp add: makeRequest_def Let_def makeRequest_error_coded split: sum.splits option.splits)

lemma dc_inv_makeRequest:
  assumes "dc_inv d" "dc_running d"
  shows "dc_inv (makeRequest he d)"
  using assms makeRequest_outcome [of d he] by (simp add: dc_inv_def makeRequest_fields)

lemma dc_inv_start: "dc_inv d \<Longrightarrow> dc_inv (snd (start_request d))"
  by (auto simp: start_request_def dc_inv_def pipe_closed_def)

lemma write_closed:
  assumes "payload_WriteTo p w = (n, err, w')" "w_room w = Some 0"
  shows "w_room w' = Some 0"
proof -
  have io: "w_room w2 = Some 0" if "io_Write bs w1 = (k, e, w2)" "w_room w1 = Some 0" for bs k e w1 w2
    using that by (auto simp: io_Write_def split: if_splits)
  show ?thesis using assms
    by (auto simp: payload_WriteTo_def envelope_WriteTo_def envelope_write_data_def Let_def
        split: payload.splits if_splits prod.splits option.splits sum.splits dest!: io)
qed

lemma dc_inv_sendUnary:
  assumes "dc_inv d" "\<not> streams_request (dc_streamType d)"
  shows "dc_inv (snd (snd (duplex_sendUnary he p d)))"
proof (cases "dc_requestSent d")
  case True
  with assms show ?thesis by (simp add: duplex_sendUnary_def)
next
  case False
  let ?d = "d\<lparr>dc_requestSent := True\<rparr>"
  define d1 where "d1 = (if payload_Len p > 0
      then ?d\<lparr>dc_body := newPayloadCloser p,
             dc_request := (dc_request ?d)\<lparr>rq_ContentLength := payload_Len p\<rparr>\<rparr> else ?d)"
  have d1: "dc_response d1 = None" "dc_responseErr d1 = None" "dc_requestSent d1" "dc_dispatched d1 = 0"
    "dc_streamType d1 = dc_streamType d" "dc_pipe d1 = dc_pipe d"
    using assms(1) False by (simp_all add: d1_def dc_inv_def)
  define d2 where "d2 = (makeRequest he d1)\<lparr>dc_body := payloadCloser_Release (dc_body (makeRequest he d1))\<rparr>"
  have "dc_inv d2"
    using makeRequest_outcome [OF d1(1,2), of he] assms d1
    by (simp add: d2_def dc_inv_def makeRequest_fields pipe_closed_def)
  moreover have "snd (snd (duplex_sendUnary he p d)) = d2"
    using False unfolding duplex_sendUnary_def Let_def d1_def [symmetric] d2_def [symmetric]
    by (simp split: option.splits)
  ultimately show ?thesis by simp
qed

lemma dc_inv_sendStream:
  assumes "dc_inv d"
  shows "dc_inv (snd (snd (duplex_sendStream p d)))"
proof -
  have s: "dc_inv (snd (start_request d))" using assms by (rule dc_inv_start)
  obtain f d1 where d1: "start_request d = (f, d1)" by fastforce
  have "dc_inv (d1\<lparr>dc_pipe := Some w'\<rparr>)" if "dc_pipe d1 = Some w" "payload_WriteTo p w = (n, e, w')" for w n e w'
    using s that write_closed [OF that(2)] by (auto simp: d1 dc_inv_def pipe_closed_def)
  then show ?thesis
    using s d1 by (auto simp: duplex_sendStream_def split: option.splits prod.splits)
qed

lemma dc_inv_step: "dc_step d d' \<Longrightarrow> dc_inv d \<Longrightarrow> dc_inv d'"
proof (induction rule: dc_step.induct)
  case (step_send he p d n err d')
  then show ?case
    using dc_inv_sendUnary [of d he p] dc_inv_sendStream [of d p]
    by (auto simp: duplex_Send_def streams_request_def split: if_splits)
next
  case (step_close d err d')
  then show ?case
    using dc_inv_close_body [OF dc_inv_start [of d]]
    by (auto simp: duplex_CloseWrite_def split: prod.splits)
next
  case (step_finish d he)
  then show ?case by (intro dc_inv_makeRequest)
next
  case (step_cancel d e)
  then show ?case by (simp add: dc_inv_def pipe_closed_def)
qed

text \<open>C9. One HTTP request per call: however sends, closes, the request goroutine and
  cancellation interleave, the HTTP client is called at most once; when the response is ready
  there is a response or an error; an error is always coded and the request body is then closed;
  and a request that was started is always either still running or answered.\<close>

theorem duplex_call_invariant:
  assumes "dc_reachable d"
  shows "dc_dispatched d \<le> 1 \<and> (dc_ready d \<longrightarrow> dc_response d \<noteq> None \<or> dc_responseErr d \<noteq> None)
    \<and> (dc_responseErr d \<noteq> None \<longrightarrow> asError (the (dc_responseErr d)) \<noteq> None \<and> pipe_closed d)
    \<and> (dc_requestSent d \<longleftrightarrow> dc_running d \<or> dc_ready d)
    \<and> (dc_ready d \<or> cx_err (dc_ctx d) \<noteq> None \<longrightarrow> blockUntilResponseReady d \<noteq> None)"
proof -
  from assms have "dc_inv d"
    by (induction rule: dc_reachable.induct) (auto intro: dc_inv_init dc_inv_step)
  then show ?thesis by (auto simp: dc_inv_def blockUntilResponseReady_def split: option.splits)
qed

definition witness_request :: http_request where
  "witness_request = \<lparr>rq_Method = ''POST'', rq_URL = ''http://localhost/svc/M'', rq_Scheme = ''http'',
     rq_Host = ''localhost'', rq_Path = ''/svc/M'', rq_Query = [], rq_Header = [],
     rq_Body = clean_reader [], rq_ContentLength = 0, rq_ProtoMajor = 2, rq_RemoteAddr = [],
     rq_ctx = \<lparr>cx_err = None, cx_deadline = None\<rparr>\<rparr>"

text \<open>An HTTP client whose connection breaks.\<close>

definition witness_env :: http_env where
  "witness_env = \<lparr>he_now = 0, he_Do = (\<lambda>_ _. Inl (Sentinel EOF)), he_validate = (\<lambda>_. None)\<rparr>"

definition witness_call :: duplex_call where
  "witness_call =
     newDuplexHTTPCall \<lparr>cx_err = None, cx_deadline = None\<rparr> witness_request StreamTypeBidi []"

theorem duplex_call_invariant_witness:
  "dc_reachable (makeRequest witness_env (snd (duplex_CloseWrite witness_call)))
   \<and> dc_dispatched (makeRequest witness_env (snd (duplex_CloseWrite witness_call))) \<le> 1
   \<and> pipe_closed (makeRequest witness_env (snd (duplex_CloseWrite witness_call)))
   \<and> dc_responseErr (makeRequest witness_env (snd (duplex_CloseWrite witness_call))) \<noteq> None"
proof -
  let ?c = "snd (duplex_CloseWrite witness_call)"
  have "dc_reachable witness_call" unfolding witness_call_def by (rule dc_init)
  then have c: "dc_reachable ?c"
    by (rule dc_next) (rule step_close [of _ "fst (duplex_CloseWrite witness_call)"], simp)
  have "dc_running ?c"
    by (simp add: duplex_CloseWrite_def start_request_def witness_call_def newDuplexHTTPCall_def Let_def)
  with c have r: "dc_reachable (makeRequest witness_env ?c)"
    by (blast intro: dc_next step_finish)
  moreover have "dc_responseErr (makeRequest witness_env ?c) \<noteq> None"
    by (simp add: makeRequest_def witness_env_def Let_def)
  ultimately show ?thesis using duplex_call_invariant [OF r] by blast
qed

subsection \<open>Retried requests\<close>

fun pc_reads :: "nat list \<Rightarrow> payload_closer \<Rightarrow> bytes \<times> payload_closer" where
  "pc_reads [] pc = ([], pc)"
| "pc_reads (n # ns) pc =
     (case payloadCloser_Read n pc of
        (d, err, pc') \<Rightarrow> (case pc_reads ns pc' of (ds, pc'') \<Rightarrow> (d @ ds, pc'')))"

text \<open>The bytes of a payload on the wire, and the payloads at a position within them.\<close>

definition payload_image :: "payload \<Rightarrow> bytes" where
  "payload_image p =
     (case p of NopPayload \<Rightarrow> [] | BytesPayload bs i \<Rightarrow> bs | EnvPayload e \<Rightarrow> env_frame e)"

fun payload_at :: "nat \<Rightarrow> payload \<Rightarrow> payload" where
  "payload_at k NopPayload = NopPayload"
| "payload_at k (BytesPayload bs i) = BytesPayload bs k"
| "payload_at k (EnvPayload e) = EnvPayload (e\<lparr>env_offset := int k\<rparr>)"

definition payload_ok :: "payload \<Rightarrow> bool" where
  "payload_ok p = (case p of EnvPayload e \<Rightarrow> fits (env_Data e) | _ \<Rightarrow> True)"

lemma payload_Read_at:
  assumes "payload_ok p" "k \<le> length (payload_image p)"
  shows "\<exists>err. payload_Read n (payload_at k p) =
    (take n (drop k (payload_image p)), err,
     payload_at (k + length (take n (drop k (payload_image p)))) p)"
proof (cases p)
  case (EnvPayload e)
  then have "env_ok (e\<lparr>env_offset := int k\<rparr>)"
    using assms by (simp add: payload_ok_def env_ok_def payload_image_def)
  with EnvPayload show ?thesis
    by (simp add: payload_Read_def payload_image_def envelope_Read_frame Let_def)
qed (use assms in \<open>auto simp: payload_Read_def payload_image_def Let_def\<close>)

lemma pc_reads_at:
  assumes "payload_ok p" "k \<le> length (payload_image p)"
  shows "pc_reads ns (Some (payload_at k p)) =
    (take (sum_list ns) (drop k (payload_image p)),
     Some (payload_at (k + length (take (sum_list ns) (drop k (payload_image p)))) p))"
  using assms(2)
proof (induction ns arbitrary: k)
  case (Cons n ns)
  let ?im = "payload_image p"
  obtain err where r: "payload_Read n (payload_at k p) =
      (take n (drop k ?im), err, payload_at (k + length (take n (drop k ?im))) p)"
    using payload_Read_at [OF assms(1) Cons.prems] by blast
  let ?k = "k + length (take n (drop k ?im))"
  have k: "?k \<le> length ?im" using Cons.prems by simp
  have split: "take (n + sum_list ns) (drop k ?im) =
      take n (drop k ?im) @ take (sum_list ns) (drop ?k ?im)"
  proof (cases "n \<le> length (drop k ?im)")
    case True
    then have "?k = k + n" by simp
    then show ?thesis by (simp add: take_add add.commute)
  next
    case False
    then show ?thesis by simp
  qed
  show ?case
    using Cons.IH [OF k] by (simp add: payloadCloser_Read_def r split) (simp add: add.assoc)
qed (use assms in simp)

text \<open>Retried requests: whatever pieces of a unary request body net/http has read, they are
  the beginning of the message; rewinding the body succeeds and yields the whole message again;
  once the body is released, reads end at once and it cannot be rewound.\<close>

lemma payload_retry:
  assumes "payload_ok p" and "payload_at 0 p = p"
  shows "fst (pc_reads ns (newPayloadCloser p)) = take (sum_list ns) (payload_image p)
    \<and> payloadCloser_Rewind (snd (pc_reads ns (newPayloadCloser p))) = (True, newPayloadCloser p)
    \<and> payloadCloser_Read n (payloadCloser_Release pc) = ([], Some (Sentinel EOF), None)
    \<and> payloadCloser_Rewind (payloadCloser_Release pc) = (False, None)"
proof -
  have "pc_reads ns (newPayloadCloser p) =
      (take (sum_list ns) (payload_image p),
       Some (payload_at (length (take (sum_list ns) (payload_image p))) p))"
    using pc_reads_at [OF assms(1), of 0 ns] assms(2) by (simp add: newPayloadCloser_def)
  moreover have "payload_Seek_start (payload_at k p) = (None, p)" for k
    using assms(2) by (cases p) (simp_all add: payload_Seek_start_def envelope_Seek_def)
  ultimately show ?thesis
    by (simp add: payloadCloser_Rewind_def payloadCloser_Read_def payloadCloser_Release_def newPayloadCloser_def)
qed

lemma payload_retry_witness:
  "payload_ok (EnvPayload (new_envelope 0 [7, 8])) \<and>
   fst (pc_reads [3, 2] (newPayloadCloser (EnvPayload (new_envelope 0 [7, 8])))) = [0, 0, 0, 0, 2]
   \<and> payloadCloser_Rewind (snd (pc_reads [3, 2] (newPayloadCloser (EnvPayload (new_envelope 0 [7, 8])))))
       = (True, newPayloadCloser (EnvPayload (new_envelope 0 [7, 8])))"
proof -
  let ?p = "EnvPayload (new_envelope 0 [7, 8])"
  have "payload_ok ?p" by (simp add: payload_ok_def new_envelope_def fits_def)
  moreover have "payload_at 0 ?p = ?p" by (simp add: new_envelope_def)
  moreover have "take (sum_list [3, 2]) (payload_image ?p) = [0, 0, 0, 0, 2]"
    by (simp add: payload_image_def new_envelope_def)  (simp add: PutUint32_def)
  ultimately show ?thesis
    using payload_retry [of ?p "[3, 2]" 0 None] by simp
qed

end
