(* ===== verification/Grpc_Protocol.thy ===== *)
theory Grpc_Protocol
  imports Duplex
begin

section \<open>The gRPC and gRPC-Web protocols (connecthttp/protocol_grpc.go)\<close>

text \<open>
  The handler side (\<open>grpcHandler\<close>, \<open>grpcHandlerConn\<close>) and the client side (\<open>grpcClient\<close>,
  \<open>grpcClientConn\<close>) of gRPC; the flag \<open>web\<close> selects gRPC-Web. A connection is a record with the
  fields of the struct; the response writer and the HTTP call are part of it. The lemmas follow
  an error from \<open>Close\<close> on the handler to the trailers that the client reads, and show that a
  client reports the end of a stream only when the server said that the call succeeded.
\<close>

subsection \<open>connect.CallInfo\<close>

text \<open>The metadata that connecthttp hangs on a call: \<open>ClientInfo\<close> and \<open>ServerInfo\<close>. The two
  \<open>MessageStats\<close> of a \<open>CallInfo\<close> are kept by the marshalers, which write them through a
  pointer.\<close>

datatype transport_info =
    ClientInfo "http_request option" "http_response option"
  | ServerInfo "http_request option"

record call_info =
  ci_Spec :: rpc_spec
  ci_PeerAddr :: string
  ci_Protocol :: string
  ci_Codec :: string
  ci_RequestEncoding :: string
  ci_ResponseEncoding :: string
  ci_TransportInfo :: "transport_info option"
  ci_request :: http_header
  ci_response :: http_header
  ci_trailer :: http_header

definition RequestHeader :: "call_info \<Rightarrow> header_ptr" where
  "RequestHeader c = Some (ci_request c)"

definition ResponseHeader :: "call_info \<Rightarrow> header_ptr" where
  "ResponseHeader c = Some (ci_response c)"

definition ResponseTrailer :: "call_info \<Rightarrow> header_ptr" where
  "ResponseTrailer c = Some (ci_trailer c)"

abbreviation no_stats :: message_stats where "no_stats \<equiv> \<lparr>Size = 0, CompressedSize = 0\<rparr>"

text \<open>The three results of \<open>negotiateCompression\<close>; the names are empty when it fails.\<close>

definition negotiated ::
  "compression_pools \<Rightarrow> string \<Rightarrow> string \<Rightarrow> string \<times> string \<times> connect_error option" where
  "negotiated pools sent accept =
     (case negotiateCompression pools sent accept of
        Inl err \<Rightarrow> ([], [], Some err)
      | Inr (requestCompression, responseCompression) \<Rightarrow> (requestCompression, responseCompression, None))"

definition encodingOrIdentity :: "string \<Rightarrow> string" where
  "encodingOrIdentity name = (if name = [] then CompressionNameIdentity else name)"

definition http_Add :: "http_header \<Rightarrow> string \<Rightarrow> string \<Rightarrow> http_header" where
  "http_Add h key val = append_values h (CanonicalMIMEHeaderKey key) [val]"

subsection \<open>Handler\<close>

definition protocolGRPC_NewHandler :: "mime_package \<Rightarrow> bool \<Rightarrow> 'm handler_params \<Rightarrow> 'm protocol_handler" where
  "protocolGRPC_NewHandler mime web params =
     (let (bare, prefix) = (if web then (grpcWebContentTypeDefault, grpcWebContentTypePrefix)
                            else (grpcContentTypeDefault, grpcContentTypePrefix));
          contentTypes = map (\<lambda>name. canonicalizeContentType mime (prefix @ name))
                           (codecs_Names (hp_Codecs params));
          contentTypes = (if codecs_Get (hp_Codecs params) CodecNameProto \<noteq> None
                          then contentTypes @ [bare] else contentTypes)
      in \<lparr>ph_kind = (if web then ProtocolGRPCWeb else ProtocolGRPC), ph_params = params,
          ph_methods = [''POST''], ph_accept = contentTypes\<rparr>)"

definition grpc_SetTimeout :: "int \<Rightarrow> http_request \<Rightarrow> connect_error + context_t" where
  "grpc_SetTimeout now request =
     (case grpcParseTimeout (getHeaderCanonical (rq_Header request) grpcHeaderTimeout) of
        Inl err \<Rightarrow>
          if \<not> errors_Is err ErrNoTimeout
          then Inl (WithCause (NewError CodeInvalidArgument (error_text err)) (Some err))
          else Inr (rq_ctx request)
      | Inr timeout \<Rightarrow> Inr (WithTimeout now (rq_ctx request) timeout))"

definition grpc_CanHandlePayload :: "'m protocol_handler \<Rightarrow> string \<Rightarrow> bool" where
  "grpc_CanHandlePayload h contentType \<longleftrightarrow> contentType \<in> set (ph_accept h)"

record 'm grpc_handler_conn =
  gh_spec :: rpc_spec
  gh_web :: bool
  gh_peerAddr :: string
  gh_peerProtocol :: string
  gh_codec :: "'m codec"
  gh_protobuf :: "any_msg codec"
  gh_marshaler :: envelope_writer
  gh_responseWriter :: response_writer
  gh_responseHeader :: http_header
  gh_responseTrailer :: http_header
  gh_wroteToBody :: bool
  gh_request :: http_request
  gh_unmarshaler :: grpc_unmarshaler

definition gh_Receive ::
  "'m \<Rightarrow> 'm grpc_handler_conn \<Rightarrow> go_error option \<times> 'm \<times> 'm grpc_handler_conn" where
  "gh_Receive msg hc =
     (case grpcUnmarshaler_Unmarshal (gh_codec hc) msg (gh_unmarshaler hc) of
        (err, msg', u) \<Rightarrow> (map_option Coded err, msg', hc\<lparr>gh_unmarshaler := u\<rparr>))"

text \<open>If the header block is not out yet, the headers set by the user are merged into it.\<close>

definition gh_merge_header :: "'m grpc_handler_conn \<Rightarrow> 'm grpc_handler_conn" where
  "gh_merge_header hc =
     (if gh_wroteToBody hc then hc
      else hc\<lparr>gh_responseWriter := (gh_responseWriter hc)
                \<lparr>rw_Header := mergeHeaders (rw_Header (gh_responseWriter hc)) (gh_responseHeader hc)\<rparr>\<rparr>)"

definition gh_Send ::
  "'m option \<Rightarrow> 'm grpc_handler_conn \<Rightarrow> go_error option \<times> 'm grpc_handler_conn" where
  "gh_Send msg hc =
     (let hc = (gh_merge_header hc)\<lparr>gh_wroteToBody := True\<rparr> in
      case ew_Marshal rw_Send (gh_codec hc) (gh_marshaler hc) msg (gh_responseWriter hc) of
        (err, w, rw) \<Rightarrow>
          (map_option Coded err,
           hc\<lparr>gh_marshaler := w, gh_responseWriter := flushResponseWriter rw\<rparr>))"

fun add_trailers :: "http_header \<Rightarrow> http_header \<Rightarrow> http_header" where
  "add_trailers h [] = h"
| "add_trailers h ((key, vals) # rest) =
     add_trailers (foldl (\<lambda>h val. http_Add h (TrailerPrefix @ key) val) h vals) rest"

text \<open>\<open>closeErr\<close> is what closing the request body returns.\<close>

definition gh_Close ::
  "protowire \<Rightarrow> go_error option \<Rightarrow> go_error option \<Rightarrow> 'm grpc_handler_conn
     \<Rightarrow> go_error option \<times> 'm grpc_handler_conn" where
  "gh_Close pw closeErr err hc =
     (let hc = gh_merge_header hc;
          mergedTrailers = mergeHeaders [] (gh_responseTrailer hc);
          mergedTrailers = grpcErrorToTrailer pw (gh_protobuf hc) mergedTrailers err;
          rw = gh_responseWriter hc;
          (retErr, hc) =
            (if gh_web hc \<and> \<not> gh_wroteToBody hc \<and> length (gh_responseHeader hc) = 0
             then (None, hc\<lparr>gh_responseWriter := rw\<lparr>rw_Header := mergeHeaders (rw_Header rw) mergedTrailers\<rparr>\<rparr>)
             else if gh_web hc
             then (case MarshalWebTrailers rw_Send (gh_marshaler hc) mergedTrailers rw of
                     (e, w, rw') \<Rightarrow> (map_option Coded e, hc\<lparr>gh_marshaler := w, gh_responseWriter := rw'\<rparr>))
             else (None, hc\<lparr>gh_responseWriter := rw\<lparr>rw_Header := add_trailers (rw_Header rw) mergedTrailers\<rparr>\<rparr>));
          hc = hc\<lparr>gh_responseWriter := flushResponseWriter (gh_responseWriter hc)\<rparr>
      in (case retErr of None \<Rightarrow> closeErr | Some e \<Rightarrow> Some e, hc))"

text \<open>The connection as \<open>grpcHandler.NewConn\<close> builds it, and what \<open>NewConn\<close> returns: a connection,
  or nothing after the failure has been written.\<close>

definition grpc_new_conn ::
  "any_msg codec \<Rightarrow> 'm codec \<Rightarrow> 'm protocol_handler \<Rightarrow> string \<Rightarrow> string \<Rightarrow> string
     \<Rightarrow> response_writer \<Rightarrow> http_request \<Rightarrow> 'm grpc_handler_conn" where
  "grpc_new_conn protobuf codec h protocolName requestCompression responseCompression rw request =
     (let p = ph_params h; web = (ph_kind h = ProtocolGRPCWeb); ctx = rq_ctx request in
      \<lparr>gh_spec = hp_spec p, gh_web = web, gh_peerAddr = rq_RemoteAddr request,
       gh_peerProtocol = protocolName, gh_codec = codec, gh_protobuf = protobuf,
       gh_marshaler = \<lparr>ew_ctx = ctx, ew_compressMinBytes = hp_CompressMinBytes p,
          ew_compressionPool = pools_Get (hp_CompressionPools p) responseCompression,
          ew_sendMaxBytes = hp_SendMaxBytes p, ew_stats = Some no_stats\<rparr>,
       gh_responseWriter = rw, gh_responseHeader = [], gh_responseTrailer = [],
       gh_wroteToBody = False, gh_request = request,
       gh_unmarshaler = \<lparr>gu_reader = \<lparr>er_ctx = ctx, er_reader = rq_Body request, er_bytesRead = 0,
            er_last = new_envelope 0 [],
            er_compressionPool = pools_Get (hp_CompressionPools p) requestCompression,
            er_readMaxBytes = hp_ReadMaxBytes p, er_stats = Some no_stats\<rparr>,
          gu_web = web, gu_webTrailer = []\<rparr>\<rparr>)"

definition grpc_NewConn ::
  "protowire \<Rightarrow> any_msg codec \<Rightarrow> 'm codec \<Rightarrow> string \<Rightarrow> go_error option \<Rightarrow> 'm protocol_handler
     \<Rightarrow> response_writer \<Rightarrow> http_request \<Rightarrow> call_info
     \<Rightarrow> response_writer + ('m grpc_handler_conn \<times> call_info)" where
  \<comment> \<open>\<open>protobuf\<close> is \<open>g.Codecs.Protobuf()\<close> at type Any, \<open>nilCodec\<close> what a lookup of an
     unregistered codec gives; \<open>ServeHTTP\<close> has checked that the codec is registered\<close>
  "grpc_NewConn pw protobuf nilCodec typeName closeErr h rw request info =
     (let p = ph_params h; web = (ph_kind h = ProtocolGRPCWeb);
          (requestCompression, responseCompression, failed) =
            negotiated (hp_CompressionPools p)
              (getHeaderCanonical (rq_Header request) grpcHeaderCompression)
              (getHeaderCanonical (rq_Header request) grpcHeaderAcceptCompression);
          failed = (if failed = None then checkServerStreamsCanFlush typeName (hp_spec p) rw else failed);
          contentType = getHeaderCanonical (rq_Header request) headerContentType;
          header = setHeaderCanonical (rw_Header rw) headerContentType contentType;
          header = setHeaderCanonical header grpcHeaderAcceptCompression
                     (CommaSeparatedNames (hp_CompressionPools p));
          header = (if responseCompression \<noteq> CompressionNameIdentity
                    then setHeaderCanonical header grpcHeaderCompression responseCompression else header);
          rw = rw\<lparr>rw_Header := header\<rparr>;
          codecName = grpcCodecForContentType web contentType;
          codec = (case codecs_Get (hp_Codecs p) codecName of Some c \<Rightarrow> c | None \<Rightarrow> nilCodec);
          protocolName = (if web then ''grpcweb'' else ''grpc'');
          info = info\<lparr>ci_Codec := codecName, ci_RequestEncoding := requestCompression,
                      ci_ResponseEncoding := responseCompression\<rparr>;
          conn = grpc_new_conn protobuf codec h protocolName requestCompression responseCompression rw request
      in case failed of
           Some e \<Rightarrow>
             Inl (gh_responseWriter (snd (translated_close (gh_Close pw closeErr) (Some (Coded e)) conn)))
         | None \<Rightarrow> Inr (conn, info))"

subsection \<open>Client\<close>

record 'm client_params =
  cp_CompressionName :: string
  cp_CompressionPools :: compression_pools
  cp_Codec :: "'m codec"
  cp_CompressMinBytes :: int
  cp_URL :: http_request
  cp_ReadMaxBytes :: int
  cp_SendMaxBytes :: int
  cp_EnableGet :: bool
  cp_GetURLMaxBytes :: int
  cp_GetUseFallback :: bool

definition grpc_WriteRequestHeader ::
  "string \<Rightarrow> bool \<Rightarrow> 'm client_params \<Rightarrow> http_header \<Rightarrow> http_header" where
  \<comment> \<open>the first argument is \<open>defaultGrpcUserAgent\<close>\<close>
  "grpc_WriteRequestHeader userAgent web p header =
     (let header = setUserAgentIfAbsent header userAgent;
          header = (if web \<and> getHeaderCanonical header headerXUserAgent = []
                    then setHeaderCanonical header headerXUserAgent userAgent else header);
          header = setHeaderCanonical header headerContentType
                     (grpcContentTypeForCodecName web (codec_Name (cp_Codec p)));
          header = setHeaderCanonical header ''Accept-Encoding'' CompressionNameIdentity;
          header = (if cp_CompressionName p \<noteq> [] \<and> cp_CompressionName p \<noteq> CompressionNameIdentity
                    then setHeaderCanonical header grpcHeaderCompression (cp_CompressionName p) else header);
          acceptCompression = CommaSeparatedNames (cp_CompressionPools p);
          header = (if acceptCompression \<noteq> []
                    then setHeaderCanonical header grpcHeaderAcceptCompression acceptCompression else header)
      in if \<not> web then setHeaderCanonical header ''Te'' ''trailers'' else header)"

record 'm grpc_client_conn =
  gc_spec :: rpc_spec
  gc_web :: bool
  gc_call :: duplex_call
  gc_pools :: compression_pools
  gc_protobuf :: "any_msg codec"
  gc_codec :: "'m codec"
  gc_marshaler :: envelope_writer
  gc_unmarshaler :: grpc_unmarshaler
  gc_responseHeader :: http_header
  gc_responseTrailer :: http_header
  gc_ResponseEncoding :: "string option"

definition grpcClient_NewConn ::
  "int \<Rightarrow> any_msg codec \<Rightarrow> bool \<Rightarrow> 'm client_params \<Rightarrow> context_t \<Rightarrow> rpc_spec \<Rightarrow> http_header \<Rightarrow> bool
     \<Rightarrow> 'm grpc_client_conn" where
  \<comment> \<open>the last argument says whether the context carries a \<open>CallInfo\<close>\<close>
  "grpcClient_NewConn now protobuf web p ctx spec header hasInfo =
     (let header = (case cx_deadline ctx of
                      Some deadline \<Rightarrow> setHeaderCanonical header grpcHeaderTimeout
                                         (grpcEncodeTimeout (deadline - now))
                    | None \<Rightarrow> header);
          stats = (if hasInfo then Some no_stats else None)
      in \<lparr>gc_spec = spec, gc_web = web,
          gc_call = newDuplexHTTPCall ctx (cp_URL p) (spec_StreamType spec) header,
          gc_pools = cp_CompressionPools p, gc_protobuf = protobuf, gc_codec = cp_Codec p,
          gc_marshaler = \<lparr>ew_ctx = ctx, ew_compressMinBytes = cp_CompressMinBytes p,
             ew_compressionPool = pools_Get (cp_CompressionPools p) (cp_CompressionName p),
             ew_sendMaxBytes = cp_SendMaxBytes p, ew_stats = stats\<rparr>,
          gc_unmarshaler = \<lparr>gu_reader = \<lparr>er_ctx = ctx, er_reader = clean_reader [], er_bytesRead = 0,
               er_last = new_envelope 0 [], er_compressionPool = None,
               er_readMaxBytes = cp_ReadMaxBytes p, er_stats = stats\<rparr>,
             gu_web = web, gu_webTrailer = []\<rparr>,
          gc_responseHeader = [], gc_responseTrailer = [],
          gc_ResponseEncoding = (if hasInfo then Some [] else None)\<rparr>)"

definition grpcValidateResponse ::
  "http_response \<Rightarrow> http_header \<Rightarrow> compression_pools \<Rightarrow> bool \<Rightarrow> string \<Rightarrow> connect_error option \<times> http_header" where
  "grpcValidateResponse response header pools web codecName =
     (if rs_StatusCode response \<noteq> 200
      then (Some (Errorf (httpToCode (rs_StatusCode response)) ''HTTP status %v'' [rs_Status response]), header)
      else case grpcValidateResponseContentType web codecName
                  (getHeaderCanonical (rs_Header response) headerContentType) of
        Some err \<Rightarrow> (Some err, header)
      | None \<Rightarrow>
          let compression = getHeaderCanonical (rs_Header response) grpcHeaderCompression in
          if compression \<noteq> [] \<and> compression \<noteq> CompressionNameIdentity \<and> \<not> pools_Contains pools compression
          then (Some (Errorf CodeInternal ''unknown encoding %q: accepted encodings are %v''
                        [Quote compression, CommaSeparatedNames pools]), header)
          else (None, mergeHeaders header (rs_Header response)))"

definition gc_validateResponse ::
  "http_response \<Rightarrow> 'm grpc_client_conn \<Rightarrow> connect_error option \<times> 'm grpc_client_conn" where
  "gc_validateResponse response cc =
     (case grpcValidateResponse response (gc_responseHeader cc) (gc_pools cc)
             (gu_web (gc_unmarshaler cc)) (codec_Name (gc_codec cc)) of
        (Some err, header) \<Rightarrow> (Some err, cc\<lparr>gc_responseHeader := header\<rparr>)
      | (None, header) \<Rightarrow>
          let compression = getHeaderCanonical (rs_Header response) grpcHeaderCompression;
              u = gc_unmarshaler cc
          in (None,
              cc\<lparr>gc_responseHeader := header,
                 gc_unmarshaler := u\<lparr>gu_reader := (gu_reader u)
                   \<lparr>er_compressionPool := pools_Get (gc_pools cc) compression\<rparr>\<rparr>,
                 gc_ResponseEncoding :=
                   map_option (\<lambda>_. encodingOrIdentity compression) (gc_ResponseEncoding cc)\<rparr>))"

text \<open>The call \<open>d\<close> has its response: the validation has updated the connection, and from now on
  the unmarshaler reads the response body.\<close>

definition gc_env :: "http_env \<Rightarrow> 'm grpc_client_conn \<Rightarrow> http_env" where
  "gc_env he cc = he\<lparr>he_validate := (\<lambda>r. fst (gc_validateResponse r cc))\<rparr>"

definition gc_arrived :: "http_env \<Rightarrow> duplex_call \<Rightarrow> 'm grpc_client_conn \<Rightarrow> 'm grpc_client_conn" where
  "gc_arrived he d cc =
     (let cc = (case dc_response d of None \<Rightarrow> cc | Some r \<Rightarrow> snd (gc_validateResponse r cc));
          body = (case duplex_Read he d of None \<Rightarrow> clean_reader [] | Some rd \<Rightarrow> rd);
          u = gc_unmarshaler cc
      in cc\<lparr>gc_call := d, gc_unmarshaler := u\<lparr>gu_reader := (gu_reader u)\<lparr>er_reader := body\<rparr>\<rparr>\<rparr>)"

text \<open>The request goroutine of a streaming call finishes.\<close>

definition gc_complete :: "http_env \<Rightarrow> 'm grpc_client_conn \<Rightarrow> 'm grpc_client_conn" where
  "gc_complete he cc = gc_arrived he (makeRequest (gc_env he cc) (gc_call cc)) cc"

text \<open>\<open>readTrailers\<close>: the trailers in the body for gRPC-Web; otherwise the HTTP trailers, once the
  body has been read to its end.\<close>

definition gc_readTrailers :: "'m grpc_client_conn \<Rightarrow> http_header \<times> 'm grpc_client_conn" where
  "gc_readTrailers cc =
     (if gc_web cc then (gu_webTrailer (gc_unmarshaler cc), cc)
      else
        let u = gc_unmarshaler cc;
            (_, _, rd) = discard (er_reader (gu_reader u))
        in (case duplex_ResponseTrailer (gc_call cc) of None \<Rightarrow> [] | Some t \<Rightarrow> t,
            cc\<lparr>gc_unmarshaler := u\<lparr>gu_reader := (gu_reader u)\<lparr>er_reader := rd\<rparr>\<rparr>\<rparr>))"

definition gc_close_write :: "'m grpc_client_conn \<Rightarrow> 'm grpc_client_conn" where
  "gc_close_write cc = cc\<lparr>gc_call := snd (duplex_CloseWrite (gc_call cc))\<rparr>"

text \<open>\<open>grpcClientConn.Receive\<close>; \<open>None\<close> while the response is awaited.\<close>

definition gc_Receive ::
  "protowire \<Rightarrow> 'm \<Rightarrow> 'm grpc_client_conn \<Rightarrow> (go_error option \<times> 'm \<times> 'm grpc_client_conn) option" where
  "gc_Receive pw msg cc =
     (case blockUntilResponseReady (gc_call cc) of
        None \<Rightarrow> None
      | Some (_, Some err) \<Rightarrow> Some (Some err, msg, cc)
      | Some (_, None) \<Rightarrow>
          (case grpcUnmarshaler_Unmarshal (gc_codec cc) msg (gc_unmarshaler cc) of
             (None, msg, u) \<Rightarrow> Some (None, msg, cc\<lparr>gc_unmarshaler := u\<rparr>)
           | (Some err, msg, u) \<Rightarrow>
               let (trailers, cc) = gc_readTrailers (cc\<lparr>gc_unmarshaler := u\<rparr>);
                   cc = cc\<lparr>gc_responseTrailer := mergeHeaders (gc_responseTrailer cc) trailers\<rparr>
               in if errors_Is (Coded err) EOF \<and> er_bytesRead (gu_reader (gc_unmarshaler cc)) = 0
                     \<and> length (gc_responseTrailer cc) = 0
                  then
                    let cc = cc\<lparr>gc_responseTrailer := delHeaderCanonical
                               (mergeHeaders (gc_responseTrailer cc) (gc_responseHeader cc)) headerContentType\<rparr>
                    in (case grpcErrorForTrailer pw (gc_protobuf cc) (gc_responseHeader cc) of
                          None \<Rightarrow> Some (Some (Coded err), msg, cc)
                        | Some serverErr \<Rightarrow> Some (Some (Coded serverErr), msg, cc))
                  else
                    (case grpcErrorForTrailer pw (gc_protobuf cc) (gc_responseTrailer cc) of
                       Some serverErr \<Rightarrow>
                         if errors_Is (Coded err) EOF
                            \<or> \<not> errors_Is (Coded serverErr) ErrTrailersWithoutGRPCStatus
                         then Some (Some (Coded serverErr), msg, gc_close_write cc)
                         else Some (Some (Coded err), msg, gc_close_write cc)
                     | None \<Rightarrow> Some (Some (Coded err), msg, gc_close_write cc))))"

definition gc_Send ::
  "http_env \<Rightarrow> 'm option \<Rightarrow> 'm grpc_client_conn \<Rightarrow> go_error option \<times> 'm grpc_client_conn" where
  "gc_Send he msg cc =
     (case ew_Marshal (\<lambda>p d. case duplex_Send (gc_env he cc) p d of (_, err, d') \<Rightarrow> (err, d'))
             (gc_codec cc) (gc_marshaler cc) msg (gc_call cc) of
        (err, w, d) \<Rightarrow>
          let cc = cc\<lparr>gc_marshaler := w\<rparr> in
          (map_option Coded err,
           if dc_ready d \<and> \<not> dc_ready (gc_call cc) then gc_arrived he d cc else cc\<lparr>gc_call := d\<rparr>))"

definition gc_CloseRequest :: "'m grpc_client_conn \<Rightarrow> go_error option \<times> 'm grpc_client_conn" where
  "gc_CloseRequest cc = (case duplex_CloseWrite (gc_call cc) of (err, d) \<Rightarrow> (err, cc\<lparr>gc_call := d\<rparr>))"

definition gc_ResponseHeader :: "'m grpc_client_conn \<Rightarrow> http_header option" where
  "gc_ResponseHeader cc =
     map_option (\<lambda>arrived. if arrived then gc_responseHeader cc else []) (awaitResponse (gc_call cc))"

definition gc_ResponseTrailer :: "'m grpc_client_conn \<Rightarrow> http_header option" where
  "gc_ResponseTrailer cc =
     map_option (\<lambda>arrived. if arrived then gc_responseTrailer cc else []) (awaitResponse (gc_call cc))"

subsection \<open>Trailers of a handler\<close>

lemma CanonicalMIMEHeaderKey_trailer [simp]:
  "CanonicalMIMEHeaderKey (TrailerPrefix @ k) = TrailerPrefix @ k"
  by (simp add: TrailerPrefix_def CanonicalMIMEHeaderKey_def validHeaderFieldByte_def in_range_def is_digit_def)

lemma CutPrefix_iff: "CutPrefix k p = Some kk \<longleftrightarrow> k = p @ kk"
  by (auto simp: CutPrefix_def HasPrefix_iff)

lemma CutPrefix_None: "CutPrefix k p = None \<Longrightarrow> k \<noteq> p @ kk"
  by (metis CutPrefix_iff option.distinct(1))

lemma final_trailers_values: "values_of (final_trailers h) k = values_of h (TrailerPrefix @ k)"
proof (induction h rule: final_trailers.induct)
  case (2 key vs h)
  then show ?case
    by (cases "CutPrefix key TrailerPrefix") (auto simp: CutPrefix_None CutPrefix_iff)
qed simp

lemma http_Add_trailer_values:
  "values_of (foldl (\<lambda>h val. http_Add h (TrailerPrefix @ key) val) h vals) k =
     values_of h k @ (if k = TrailerPrefix @ key then vals else [])"
  by (induction vals arbitrary: h) (auto simp: http_Add_def simp del: append_Cons)

lemma add_trailers_values:
  "wf_map t \<Longrightarrow> values_of (add_trailers h t) (TrailerPrefix @ k) = values_of h (TrailerPrefix @ k) @ values_of t k"
proof (induction h t rule: add_trailers.induct)
  case (2 h key vals rest)
  then show ?case
    by (auto simp: http_Add_trailer_values wf_map_Cons values_of_absent simp del: append_Cons)
qed simp

lemma wf_grpcErrorToTrailer: "wf_map t \<Longrightarrow> wf_map (grpcErrorToTrailer pw pb t err)"
  by (auto simp: grpcErrorToTrailer_def Let_def split: option.splits sum.splits prod.splits)

text \<open>Reading the trailers only looks at their values.\<close>

lemma getHeaderCanonical_cong:
  "values_of t k = values_of t' k \<Longrightarrow> getHeaderCanonical t k = getHeaderCanonical t' k"
  by (simp add: getHeaderCanonical_def)

lemma grpcErrorForTrailer_cong:
  assumes "\<forall>k. values_of t k = values_of t' k" and "getHeaderCanonical t grpcHeaderStatus \<noteq> []"
  shows "grpcErrorForTrailer pw pb t = grpcErrorForTrailer pw pb t'"
proof -
  have eq: "getHeaderCanonical t k = getHeaderCanonical t' k" for k
    using assms(1) by (blast intro: getHeaderCanonical_cong)
  with assms(2) have "getHeaderCanonical t' grpcHeaderStatus \<noteq> []" by metis
  then show ?thesis unfolding grpcErrorForTrailer_def Let_def eq [of grpcHeaderStatus]
    eq [of grpcHeaderMessage] eq [of grpcHeaderDetails] by simp
qed

lemma grpcErrorToTrailer_status: "getHeaderCanonical (grpcErrorToTrailer pw pb t err) grpcHeaderStatus \<noteq> []"
proof (cases err)
  case None
  then show ?thesis by (simp add: grpcErrorToTrailer_def)
next
  case (Some e)
  have "itoa i \<noteq> []" for i by (simp add: itoa_def)
  with Some show ?thesis
    by (auto simp: grpcErrorToTrailer_def Let_def split: option.splits sum.splits if_splits)
qed

lemma rw_Header_gh_merge: "gh_responseTrailer (gh_merge_header hc) = gh_responseTrailer hc"
  "gh_web (gh_merge_header hc) = gh_web hc" "gh_protobuf (gh_merge_header hc) = gh_protobuf hc"
  "gh_wroteToBody (gh_merge_header hc) = gh_wroteToBody hc"
  "gh_responseHeader (gh_merge_header hc) = gh_responseHeader hc"
  by (simp_all add: gh_merge_header_def)

lemma mergeHeaders_trailer_free:
  assumes "wf_map hdr" "\<forall>k. values_of hdr (TrailerPrefix @ k) = []"
    and "\<forall>k. values_of h (TrailerPrefix @ k) = []"
  shows "values_of (mergeHeaders h hdr) (TrailerPrefix @ k) = []"
  using assms by (simp add: mergeHeaders_values)

text \<open>What an HTTP/2 client sees as trailers after \<open>Close\<close> are the user's trailers and the status.\<close>

lemma gh_Close_trailers:
  assumes "\<not> gh_web hc" and "wf_map (gh_responseHeader hc)"
    and "\<forall>k. values_of (rw_Header (gh_responseWriter hc)) (TrailerPrefix @ k) = []"
    and "\<forall>k. values_of (gh_responseHeader hc) (TrailerPrefix @ k) = []"
    and "gh_Close pw closeErr err hc = (ret, hc')"
  shows "values_of (rs_Trailer (rw_finish (gh_responseWriter hc'))) k =
    values_of (grpcErrorToTrailer pw (gh_protobuf hc) (mergeHeaders [] (gh_responseTrailer hc)) err) k"
proof -
  let ?t = "grpcErrorToTrailer pw (gh_protobuf hc) (mergeHeaders [] (gh_responseTrailer hc)) err"
  let ?h = "rw_Header (gh_responseWriter (gh_merge_header hc))"
  have wf: "wf_map ?t" by (simp add: wf_grpcErrorToTrailer wf_mergeHeaders)
  have none: "values_of ?h (TrailerPrefix @ k) = []"
    using mergeHeaders_trailer_free [OF assms(2,4,3)] assms(3) by (simp add: gh_merge_header_def)
  have "rw_Header (gh_responseWriter hc') = add_trailers ?h ?t"
    using assms(1,5) by (auto simp: gh_Close_def rw_Header_gh_merge Let_def)
  then show ?thesis
    using none wf
    by (simp add: rw_finish_def Let_def final_trailers_values add_trailers_values del: append_Cons)
qed

text \<open>C30. A gRPC handler's error reaches the client: when a handler connection is closed with a
  coded error, the HTTP trailers that the client then sees make \<open>grpcErrorForTrailer\<close> return a
  remote error with the same code, message and details; when it is closed without an error, they
  make it return no error.\<close>

theorem grpc_close_reports_error:
  assumes "protowire_ok pw" and "codec_ok (gh_protobuf hc) new_any"
    and "\<not> gh_web hc" and "wf_map (gh_responseHeader hc)" and "wf_map (gh_responseTrailer hc)"
    and "\<forall>k. values_of (rw_Header (gh_responseWriter hc)) (TrailerPrefix @ k) = []"
    and "\<forall>k. values_of (gh_responseHeader hc) (TrailerPrefix @ k) = []"
    and "values_of (gh_responseTrailer hc) grpcHeaderDetails = []"
    and "gh_Close pw closeErr err hc = (ret, hc')"
    and "case err of None \<Rightarrow> True
         | Some e \<Rightarrow> asError e = Some ce \<and> go_len (Error_Message ce)
             \<and> details_fit (gh_protobuf hc) (map ErrorDetailToAny (Error_Details ce))"
  shows "case grpcErrorForTrailer pw (gh_protobuf hc) (rs_Trailer (rw_finish (gh_responseWriter hc'))) of
      None \<Rightarrow> err = None
    | Some r \<Rightarrow> err \<noteq> None \<and> Error_Code r = Error_Code ce \<and> Error_Message r = Error_Message ce
        \<and> Error_Details r = map received_detail (Error_Details ce) \<and> IsRemote r"
proof -
  let ?m = "mergeHeaders [] (gh_responseTrailer hc)"
  let ?t = "grpcErrorToTrailer pw (gh_protobuf hc) ?m err"
  have "\<forall>k. values_of ?t k = values_of (rs_Trailer (rw_finish (gh_responseWriter hc'))) k"
    using gh_Close_trailers [OF assms(3,4,6,7,9)] by simp
  then have eq: "grpcErrorForTrailer pw (gh_protobuf hc) (rs_Trailer (rw_finish (gh_responseWriter hc'))) =
      grpcErrorForTrailer pw (gh_protobuf hc) ?t"
    using grpcErrorForTrailer_cong [OF _ grpcErrorToTrailer_status] by metis
  have det: "values_of ?m grpcHeaderDetails = []"
    using assms(5,8) by (simp add: mergeHeaders_values)
  show ?thesis
  proof (cases err)
    case None
    have "grpcErrorForTrailer pw (gh_protobuf hc) ?t = None"
      by (simp add: None grpcErrorForTrailer_def grpcErrorToTrailer_def Let_def)
    with None show ?thesis by (simp add: eq)
  next
    case (Some e)
    with assms(10) have e: "asError e = Some ce" "go_len (Error_Message ce)"
      "details_fit (gh_protobuf hc) (map ErrorDetailToAny (Error_Details ce))" by simp_all
    obtain r where "grpcErrorForTrailer pw (gh_protobuf hc) ?t = Some r"
      "Error_Code r = Error_Code ce" "Error_Message r = Error_Message ce"
      "Error_Details r = map received_detail (Error_Details ce)" "IsRemote r"
      unfolding Some using grpcErrorToTrailer_read [OF assms(1,2) e det] by blast
    with Some show ?thesis by (simp add: eq)
  qed
qed

definition witness_spec :: rpc_spec where
  "witness_spec = \<lparr>spec_StreamType = StreamTypeBidi, spec_IdempotencyLevel = 0, spec_Procedure = ''/svc/M''\<rparr>"

definition witness_handler :: "bytes protocol_handler" where
  "witness_handler = \<lparr>ph_kind = ProtocolGRPC,
     ph_params = \<lparr>hp_spec = witness_spec, hp_Codecs = [(''proto'', raw_codec)],
       hp_CompressionPools = \<lparr>nameToPool = [], commaSeparatedNames = []\<rparr>, hp_CompressMinBytes = 0,
       hp_ReadMaxBytes = 0, hp_SendMaxBytes = 0, hp_RequireConnectProtocolHeader = False,
       hp_IdempotencyLevel = 0\<rparr>,
     ph_methods = [''POST''], ph_accept = [''application/grpc'']\<rparr>"

definition witness_rw :: response_writer where
  "witness_rw = \<lparr>rw_Header = [(''Content-Type'', [''application/grpc''])], rw_wrote = None,
     rw_body = good_writer, rw_flusher = True, rw_flushes = 0\<rparr>"

definition witness_conn :: "bytes grpc_handler_conn" where
  "witness_conn = (grpc_new_conn any_codec raw_codec witness_handler ''grpc'' [] [] witness_rw witness_request)
     \<lparr>gh_responseTrailer := [(''Foo'', [''bar''])]\<rparr>"

theorem grpc_close_reports_error_witness:
  "\<exists>r. grpcErrorForTrailer base128 any_codec (rs_Trailer (rw_finish (gh_responseWriter
        (snd (gh_Close base128 None (Some (Coded witness_error)) witness_conn))))) = Some r
     \<and> Error_Code r = CodeNotFound \<and> Error_Message r = ''no such user'' \<and> length (Error_Details r) = 1"
proof -
  let ?hc = "witness_conn"
  have pb: "gh_protobuf ?hc = any_codec" "\<not> gh_web ?hc"
    by (simp_all add: witness_conn_def grpc_new_conn_def witness_handler_def Let_def)
  have wf: "wf_map (gh_responseHeader ?hc)" "wf_map (gh_responseTrailer ?hc)"
    "values_of (gh_responseTrailer ?hc) grpcHeaderDetails = []"
    "\<forall>k. values_of (gh_responseHeader ?hc) (TrailerPrefix @ k) = []"
    "\<forall>k. values_of (rw_Header (gh_responseWriter ?hc)) (TrailerPrefix @ k) = []"
    by (simp_all add: witness_conn_def grpc_new_conn_def witness_rw_def TrailerPrefix_def Let_def wf_map_def)
  obtain ret hc' where c: "gh_Close base128 None (Some (Coded witness_error)) ?hc = (ret, hc')" by fastforce
  show ?thesis
    using grpc_close_reports_error [OF base128_ok _ pb(2) wf(1,2,5,4,3) c, where ce = witness_error]
      any_codec_ok witness_error_fits by (auto simp: pb c witness_error_fields split: option.splits)
qed

subsection \<open>The end of a stream on the client\<close>

lemma errors_Is_simps [simp]:
  "\<not> errors_Is (Plain m) s" "\<not> errors_Is (Coded (NewError c m)) s" "\<not> errors_Is (Coded (Errorf c f as)) s"
  "errors_Is (Coded (WithRemote ce)) s = errors_Is (Coded ce) s"
  "errors_Is (Coded (WithDetail ce d)) s = errors_Is (Coded ce) s"
  by (simp_all add: errors_Is_Coded NewError_def Errorf_def WithRemote_def WithDetail_def
      split: option.splits) (simp add: errors_Is_def)

lemma errors_Is_add_any_details [simp]:
  "errors_Is (Coded (add_any_details ce ds)) s = errors_Is (Coded ce) s"
  by (induction ce ds rule: add_any_details.induct) (simp_all split: sum.splits)

lemma DecodeBinaryHeader_not_EOF: "DecodeBinaryHeader data = Inl e \<Longrightarrow> \<not> errors_Is e EOF"
  by (auto simp: DecodeBinaryHeader_def DecodeString_def split: option.splits sum.splits if_splits prod.splits)

definition status_errors_ok :: "protowire \<Rightarrow> any_msg codec \<Rightarrow> bool" where
  "status_errors_ok pw pb \<longleftrightarrow> (\<forall>data e. grpcUnmarshalStatus pw pb data = Inl e \<longrightarrow> \<not> errors_Is e EOF)"

lemma grpcErrorForTrailer_not_EOF:
  assumes "status_errors_ok pw pb" and "grpcErrorForTrailer pw pb t = Some e"
  shows "\<not> errors_Is (Coded e) EOF"
  using assms
  by (auto simp: grpcErrorForTrailer_def Let_def status_errors_ok_def errors_Is_Sentinel
      DecodeBinaryHeader_not_EOF split: if_splits option.splits sum.splits)

lemma grpcErrorForTrailer_None:
  "grpcErrorForTrailer pw pb t = None \<longleftrightarrow> getHeaderCanonical t grpcHeaderStatus = ''0''"
  by (auto simp: grpcErrorForTrailer_def Let_def split: option.splits sum.splits)

lemma gc_readTrailers_protobuf: "gc_readTrailers cc = (t, cc') \<Longrightarrow> gc_protobuf cc' = gc_protobuf cc"
  by (auto simp: gc_readTrailers_def Let_def split: prod.splits if_splits)

lemma gc_close_write_trailer [simp]: "gc_responseTrailer (gc_close_write cc) = gc_responseTrailer cc"
  by (simp add: gc_close_write_def)

text \<open>A failed or refused gRPC request is never reported as the end of the stream.\<close>

lemma grpcValidateResponse_not_EOF:
  "fst (grpcValidateResponse r h pools web name) = Some err \<Longrightarrow> \<not> errors_Is (Coded err) EOF"
  by (auto simp: grpcValidateResponse_def grpcValidateResponseContentType_def Let_def
      split: if_splits option.splits)

lemma gc_validateResponse_not_EOF:
  assumes "fst (gc_validateResponse r cc) = Some err"
  shows "\<not> errors_Is (Coded err) EOF"
proof -
  have "fst (grpcValidateResponse r (gc_responseHeader cc) (gc_pools cc)
      (gu_web (gc_unmarshaler cc)) (codec_Name (gc_codec cc))) = Some err"
    using assms by (auto simp: gc_validateResponse_def Let_def split: prod.splits option.splits)
  then show ?thesis by (rule grpcValidateResponse_not_EOF)
qed

lemma makeRequest_not_EOF:
  assumes "dc_responseErr d = None" and "dc_responseErr (makeRequest he d) = Some e"
    and "\<And>r err. he_validate he r = Some err \<Longrightarrow> \<not> errors_Is (Coded err) EOF"
  shows "\<not> errors_Is e EOF"
  using assms
  by (cases "getHeaderCanonical (rq_Header (dc_request d)) headerHost = []"; cases "dc_hooks d")
    (auto simp: makeRequest_def Let_def makeRequest_error_not_EOF split: sum.splits option.splits if_splits)

lemma gc_complete_not_EOF:
  assumes "dc_responseErr (gc_call cc) = None" and "dc_responseErr (gc_call (gc_complete he cc)) = Some e"
  shows "\<not> errors_Is e EOF"
proof -
  have "gc_call (gc_complete he cc) = makeRequest (gc_env he cc) (gc_call cc)"
    by (simp add: gc_complete_def gc_arrived_def Let_def)
  with assms have "dc_responseErr (makeRequest (gc_env he cc) (gc_call cc)) = Some e" by simp
  then show ?thesis
    by (rule makeRequest_not_EOF [OF assms(1)]) (simp add: gc_env_def gc_validateResponse_not_EOF)
qed

text \<open>C31. The end of a stream means success: when \<open>Receive\<close> of a gRPC client connection whose
  response is there reports an error that matches \<open>io.EOF\<close>, then the server has sent the status 0,
  in the trailers or, for a response without a body, in the headers. A missing or malformed status,
  a failed request and a truncated body are all reported as other errors.\<close>

theorem grpc_end_of_stream_is_success:
  assumes "status_errors_ok pw (gc_protobuf cc)" and "dc_ready (gc_call cc)"
    and "\<forall>e. dc_responseErr (gc_call cc) = Some e \<longrightarrow> \<not> errors_Is e EOF"
    and "gc_Receive pw msg cc = Some (Some e, msg', cc')" and "errors_Is e EOF"
  shows "getHeaderCanonical (gc_responseTrailer cc') grpcHeaderStatus = ''0''
    \<or> getHeaderCanonical (gc_responseHeader cc') grpcHeaderStatus = ''0''"
  using assms
  by (auto simp: gc_Receive_def blockUntilResponseReady_def Let_def grpcErrorForTrailer_None
      dest!: gc_readTrailers_protobuf dest: grpcErrorForTrailer_not_EOF
      split: option.splits prod.splits if_splits)

lemma base128_errors_ok: "status_errors_ok base128 any_codec"
proof -
  have "\<not> errors_Is e EOF" if "unmarshal_status_loop base128 any_codec c m ds data = Inl e" for c m ds data e
    using that
  proof (induction base128 any_codec c m ds data rule: unmarshal_status_loop.induct)
    case (1 code message details data)
    then show ?case
      by (subst (asm) (5) unmarshal_status_loop.simps)
        (auto simp: Let_def base128_def any_codec_def split: if_splits sum.splits prod.splits)
  qed
  then show ?thesis by (auto simp: status_errors_ok_def grpcUnmarshalStatus_def)
qed

text \<open>A gRPC-Web server that answers with an empty body and the status 0 in the headers.\<close>

definition witness_server :: http_env where
  "witness_server = \<lparr>he_now = 0,
     he_Do = (\<lambda>_ _. Inr \<lparr>rs_StatusCode = 200, rs_Status = ''200 OK'',
        rs_Header = [(''Content-Type'', [''application/grpc-web'']), (''Grpc-Status'', [''0''])],
        rs_Body = clean_reader [], rs_Trailer = [], rs_ProtoMajor = 2, rs_ProtoMinor = 0\<rparr>),
     he_validate = (\<lambda>_. None)\<rparr>"

definition witness_client :: "bytes grpc_client_conn" where
  "witness_client = grpcClient_NewConn 0 any_codec True
     \<lparr>cp_CompressionName = [], cp_CompressionPools = \<lparr>nameToPool = [], commaSeparatedNames = []\<rparr>,
      cp_Codec = raw_codec, cp_CompressMinBytes = 0, cp_URL = witness_request, cp_ReadMaxBytes = 0,
      cp_SendMaxBytes = 0, cp_EnableGet = False, cp_GetURLMaxBytes = 0, cp_GetUseFallback = False\<rparr>
     \<lparr>cx_err = None, cx_deadline = None\<rparr> witness_spec [] False"

definition witness_answered :: "bytes grpc_client_conn" where
  "witness_answered = gc_complete witness_server (snd (gc_CloseRequest witness_client))"

theorem grpc_end_of_stream_is_success_witness:
  "case gc_Receive base128 [] witness_answered of
     Some (Some e, _, cc') \<Rightarrow>
       errors_Is e EOF
       \<and> (getHeaderCanonical (gc_responseTrailer cc') grpcHeaderStatus = ''0''
          \<or> getHeaderCanonical (gc_responseHeader cc') grpcHeaderStatus = ''0'')
   | _ \<Rightarrow> False"
proof -
  have "gc_protobuf (gc_complete he cc) = gc_protobuf cc" for he and cc :: "bytes grpc_client_conn"
    by (simp add: gc_complete_def gc_arrived_def gc_validateResponse_def Let_def split: option.splits prod.splits)
  then have pb: "gc_protobuf witness_answered = any_codec"
    by (simp add: witness_answered_def gc_CloseRequest_def witness_client_def grpcClient_NewConn_def Let_def
        split: prod.splits)
  have ready: "dc_ready (gc_call witness_answered)" "dc_responseErr (gc_call witness_answered) = None"
    by code_simp+
  have "case gc_Receive base128 [] witness_answered of Some (Some e, _, _) \<Rightarrow> errors_Is e EOF | _ \<Rightarrow> False"
    by code_simp
  then obtain e msg' cc' where r: "gc_Receive base128 [] witness_answered = Some (Some e, msg', cc')" "errors_Is e EOF"
    by (auto split: option.splits)
  with grpc_end_of_stream_is_success [OF _ ready(1) _ r, unfolded pb, OF base128_errors_ok] ready(2)
  show ?thesis by simp
qed

end
