(* ===== verification/Rpc_Core.thy ===== *)
theory Rpc_Core
  imports Grpc_Protocol
begin

section \<open>Clients, servers and interceptors (connect.go)\<close>

text \<open>
  \<open>Client\<close> and \<open>Server\<close> are generic in the transport. A stream is an interface value: a record of
  functions on the state of the program, so that an interceptor can wrap it. The state has the
  \<open>CallInfo\<close>s, which contexts refer to by address, and whatever else the streams need. A context
  carries the two values that the package puts there. The lemmas show in which order interceptors
  run, what the registry of a server answers, that a handler never sees the \<open>CallInfo\<close> of
  its caller, and how a unary call drives a stream.
\<close>

subsection \<open>Contexts and CallInfo\<close>

text \<open>\<open>&CallInfo{}\<close>.\<close>

definition new_info :: call_info where
  "new_info = \<lparr>ci_Spec = \<lparr>spec_StreamType = 0, spec_IdempotencyLevel = 0, spec_Procedure = []\<rparr>,
     ci_PeerAddr = [], ci_Protocol = [], ci_Codec = [], ci_RequestEncoding = [], ci_ResponseEncoding = [],
     ci_TransportInfo = None, ci_request = [], ci_response = [], ci_trailer = []\<rparr>"

type_synonym info_ref = nat

text \<open>A \<open>context.Context\<close> with the values under \<open>clientInfoKey\<close> and \<open>serverInfoKey\<close>; \<open>None\<close>
  is an absent value or a nil pointer.\<close>

record go_context =
  gx_ctx :: context_t
  gx_clientInfo :: "info_ref option"
  gx_serverInfo :: "info_ref option"

record 'w rpc_state =
  st_infos :: "call_info list"
  st_world :: 'w

text \<open>The map behind the pointer that the \<open>Header\<close> operations return.\<close>

definition header_map :: "header_ptr \<Rightarrow> http_header" where
  "header_map h = (case h of None \<Rightarrow> [] | Some m \<Rightarrow> m)"

definition alloc_info :: "call_info \<Rightarrow> 'w rpc_state \<Rightarrow> info_ref \<times> 'w rpc_state" where
  "alloc_info info st = (length (st_infos st), st\<lparr>st_infos := st_infos st @ [info]\<rparr>)"

definition CallInfoForClientContext :: "go_context \<Rightarrow> info_ref option" where
  "CallInfoForClientContext ctx = gx_clientInfo ctx"

definition CallInfoForServerContext :: "go_context \<Rightarrow> info_ref option" where
  "CallInfoForServerContext ctx = gx_serverInfo ctx"

definition NewClientContext :: "go_context \<Rightarrow> 'w rpc_state \<Rightarrow> go_context \<times> info_ref \<times> 'w rpc_state" where
  "NewClientContext ctx st =
     (case alloc_info new_info st of (info, st') \<Rightarrow> (ctx\<lparr>gx_clientInfo := Some info\<rparr>, info, st'))"

definition withServerContext :: "go_context \<Rightarrow> info_ref \<Rightarrow> go_context" where
  "withServerContext ctx info = ctx\<lparr>gx_serverInfo := Some info\<rparr>"

definition reset_info :: "call_info \<Rightarrow> call_info" where
  "reset_info info = new_info\<lparr>ci_request := ci_request info\<rparr>"

definition ensureClientContext :: "go_context \<Rightarrow> 'w rpc_state \<Rightarrow> go_context \<times> 'w rpc_state" where
  "ensureClientContext ctx st =
     (case CallInfoForClientContext ctx of
        Some info \<Rightarrow> (ctx, st\<lparr>st_infos := (st_infos st)[info := reset_info (st_infos st ! info)]\<rparr>)
      | None \<Rightarrow> (case NewClientContext ctx st of (ctx, _, st) \<Rightarrow> (ctx, st)))"

definition clearClientContext :: "go_context \<Rightarrow> go_context" where
  "clearClientContext ctx =
     (case CallInfoForClientContext ctx of None \<Rightarrow> ctx | Some _ \<Rightarrow> ctx\<lparr>gx_clientInfo := None\<rparr>)"

subsection \<open>Streams and functions\<close>

record ('m, 'w) client_stream =
  cs_SendHeaders :: "'w rpc_state \<Rightarrow> go_error option \<times> 'w rpc_state"
  cs_Send :: "'m option \<Rightarrow> 'w rpc_state \<Rightarrow> go_error option \<times> 'w rpc_state"
  cs_CloseSend :: "'w rpc_state \<Rightarrow> go_error option \<times> 'w rpc_state"
  cs_Receive :: "'m \<Rightarrow> 'w rpc_state \<Rightarrow> (go_error option \<times> 'm) \<times> 'w rpc_state"
  cs_Close :: "'w rpc_state \<Rightarrow> go_error option \<times> 'w rpc_state"

record ('m, 'w) server_stream =
  ss_Receive :: "'m \<Rightarrow> 'w rpc_state \<Rightarrow> (go_error option \<times> 'm) \<times> 'w rpc_state"
  ss_SendHeaders :: "'w rpc_state \<Rightarrow> go_error option \<times> 'w rpc_state"
  ss_Send :: "'m option \<Rightarrow> 'w rpc_state \<Rightarrow> go_error option \<times> 'w rpc_state"

text \<open>How a server function ends: it returns an error or nil, or it panics with a value, of which the
  text is kept.\<close>

datatype outcome = Return "go_error option" | Panic string

type_synonym ('m, 'w) client_func =
  "go_context \<Rightarrow> rpc_spec \<Rightarrow> 'w rpc_state \<Rightarrow> (go_error + ('m, 'w) client_stream) \<times> 'w rpc_state"

type_synonym ('m, 'w) server_func =
  "go_context \<Rightarrow> rpc_spec \<Rightarrow> ('m, 'w) server_stream \<Rightarrow> 'w rpc_state \<Rightarrow> outcome \<times> 'w rpc_state"

type_synonym ('m, 'w) client_interceptor = "('m, 'w) client_func \<Rightarrow> ('m, 'w) client_func"
type_synonym ('m, 'w) server_interceptor = "('m, 'w) server_func \<Rightarrow> ('m, 'w) server_func"

text \<open>The loop over \<open>slices.Backward(ics)\<close>.\<close>

fun wrap_backward :: "('f \<Rightarrow> 'f) list \<Rightarrow> 'f \<Rightarrow> 'f" where
  "wrap_backward [] next = next"
| "wrap_backward (interceptor # ics) next = interceptor (wrap_backward ics next)"

definition chainClientInterceptors ::
  "('m, 'w) client_interceptor list \<Rightarrow> ('m, 'w) client_func \<Rightarrow> ('m, 'w) client_func" where
  "chainClientInterceptors ics next = wrap_backward ics next"

definition chainServerInterceptors ::
  "('m, 'w) server_interceptor list \<Rightarrow> ('m, 'w) server_interceptor option" where
  "chainServerInterceptors ics =
     (case ics of
        [] \<Rightarrow> None
      | [ic] \<Rightarrow> Some ic
      | _ \<Rightarrow> Some (\<lambda>next. wrap_backward ics next))"

subsection \<open>Client\<close>

record ('m, 'w) rpc_client =
  cl_transport :: "('m, 'w) client_func"
  cl_clientFunc :: "('m, 'w) client_func"

definition NewClient :: "('m, 'w) client_func \<Rightarrow> ('m, 'w) client_interceptor list \<Rightarrow> ('m, 'w) rpc_client" where
  "NewClient transport interceptors =
     \<lparr>cl_transport = transport, cl_clientFunc = chainClientInterceptors interceptors transport\<rparr>"

text \<open>\<open>errors.Join\<close> of two errors.\<close>

definition errors_Join :: "go_error option \<Rightarrow> go_error option \<Rightarrow> go_error option" where
  "errors_Join a b =
     (case (a, b) of
        (None, None) \<Rightarrow> None
      | (Some x, None) \<Rightarrow> Some (JoinErr [x])
      | (None, Some y) \<Rightarrow> Some (JoinErr [y])
      | (Some x, Some y) \<Rightarrow> Some (JoinErr [x, y]))"

text \<open>\<open>CallUnary\<close>; the message is the new content of \<open>res\<close>. The deferred \<open>Close\<close> runs on every
  return after the stream was opened.\<close>

definition close_joined ::
  "('m, 'w) client_stream \<Rightarrow> go_error option \<Rightarrow> 'm \<Rightarrow> 'w rpc_state
     \<Rightarrow> (go_error option \<times> 'm) \<times> 'w rpc_state" where
  "close_joined stream err res st =
     (case cs_Close stream st of (closeErr, st) \<Rightarrow> ((errors_Join err closeErr, res), st))"

definition CallUnary ::
  "('m, 'w) rpc_client \<Rightarrow> go_context \<Rightarrow> rpc_spec \<Rightarrow> 'm option \<Rightarrow> 'm \<Rightarrow> 'w rpc_state
     \<Rightarrow> (go_error option \<times> 'm) \<times> 'w rpc_state" where
  "CallUnary c ctx spec req res st =
     (let (ctx, st) = ensureClientContext ctx st in
      case cl_clientFunc c ctx spec st of
        (Inl err, st) \<Rightarrow> ((Some err, res), st)
      | (Inr stream, st) \<Rightarrow>
          (case cs_Send stream req st of
             (Some err, st) \<Rightarrow> close_joined stream (Some err) res st
           | (None, st) \<Rightarrow>
               (case cs_CloseSend stream st of
                  (Some err, st) \<Rightarrow> close_joined stream (Some err) res st
                | (None, st) \<Rightarrow>
                    (case cs_Receive stream res st of
                       ((err, res), st) \<Rightarrow> close_joined stream err res st))))"

definition CallClientStream ::
  "('m, 'w) rpc_client \<Rightarrow> go_context \<Rightarrow> rpc_spec \<Rightarrow> 'w rpc_state
     \<Rightarrow> (go_error + ('m, 'w) client_stream) \<times> 'w rpc_state" where
  "CallClientStream c ctx spec st =
     (let (ctx, st) = ensureClientContext ctx st in cl_clientFunc c ctx spec st)"

definition CallServerStream ::
  "('m, 'w) rpc_client \<Rightarrow> go_context \<Rightarrow> rpc_spec \<Rightarrow> 'm option \<Rightarrow> 'w rpc_state
     \<Rightarrow> (go_error + ('m, 'w) client_stream) \<times> 'w rpc_state" where
  "CallServerStream c ctx spec req st =
     (let (ctx, st) = ensureClientContext ctx st in
      case cl_clientFunc c ctx spec st of
        (Inl err, st) \<Rightarrow> (Inl err, st)
      | (Inr stream, st) \<Rightarrow>
          (case cs_Send stream req st of
             (Some err, st) \<Rightarrow> (Inl err, st)
           | (None, st) \<Rightarrow>
               (case cs_CloseSend stream st of
                  (Some err, st) \<Rightarrow> (Inl err, st)
                | (None, st) \<Rightarrow> (Inr stream, st))))"

subsection \<open>Server\<close>

record ('m, 'w) rpc_method =
  mt_Spec :: rpc_spec
  mt_Handler :: "('m, 'w) server_func"

record ('m, 'w) rpc_server =
  sv_chain :: "('m, 'w) server_interceptor option"
  sv_methods :: "(string \<times> ('m, 'w) rpc_method) list"
  sv_specs :: "rpc_spec list"
  sv_unknown :: "('m, 'w) server_func option"

definition NewServer :: "('m, 'w) server_interceptor list \<Rightarrow> ('m, 'w) rpc_server" where
  "NewServer interceptors =
     \<lparr>sv_chain = chainServerInterceptors interceptors, sv_methods = [], sv_specs = [], sv_unknown = None\<rparr>"

text \<open>\<open>Register\<close> panics on a repeated procedure: the message of the panic is on the left, with the
  server as the methods before left it.\<close>

fun Register ::
  "('m, 'w) rpc_method list \<Rightarrow> ('m, 'w) rpc_server
     \<Rightarrow> (string \<times> ('m, 'w) rpc_server) + ('m, 'w) rpc_server" where
  "Register [] s = Inr s"
| "Register (method # methods) s =
     (let procedure = spec_Procedure (mt_Spec method) in
      if has_key (sv_methods s) procedure
      then Inl (Sprintf ''connect: duplicate procedure %q'' [Quote procedure], s)
      else
        let method = (case sv_chain s of None \<Rightarrow> method | Some c \<Rightarrow> method\<lparr>mt_Handler := c (mt_Handler method)\<rparr>)
        in Register methods
             (s\<lparr>sv_methods := AList.update procedure method (sv_methods s),
                sv_specs := sv_specs s @ [mt_Spec method]\<rparr>))"

definition Specs :: "('m, 'w) rpc_server \<Rightarrow> rpc_spec list" where
  "Specs s = sv_specs s"

definition SetUnknownHandler :: "('m, 'w) server_func option \<Rightarrow> ('m, 'w) rpc_server \<Rightarrow> ('m, 'w) rpc_server" where
  "SetUnknownHandler fn s =
     s\<lparr>sv_unknown := (case (fn, sv_chain s) of (Some f, Some c) \<Rightarrow> Some (c f) | _ \<Rightarrow> fn)\<rparr>"

definition Server_Call ::
  "('m, 'w) rpc_server \<Rightarrow> go_context \<Rightarrow> string \<Rightarrow> info_ref option \<Rightarrow> ('m, 'w) server_stream \<Rightarrow> 'w rpc_state
     \<Rightarrow> outcome \<times> 'w rpc_state" where
  "Server_Call s ctx procedure info stream st =
     (let (info, st) = (case info of Some i \<Rightarrow> (i, st) | None \<Rightarrow> alloc_info new_info st);
          ctx = clearClientContext (withServerContext ctx info)
      in case map_of (sv_methods s) procedure of
           None \<Rightarrow>
             (case sv_unknown s of
                Some unknown \<Rightarrow>
                  unknown ctx \<lparr>spec_StreamType = StreamTypeBidi, spec_IdempotencyLevel = IdempotencyUnknown,
                    spec_Procedure = procedure\<rparr> stream st
              | None \<Rightarrow>
                  (Return (Some (Coded (Errorf CodeUnimplemented ''procedure %q not registered'' [Quote procedure]))), st))
         | Some method \<Rightarrow> mt_Handler method ctx (mt_Spec method) stream st)"

subsection \<open>Interceptor chains\<close>

lemma wrap_backward_foldr: "wrap_backward ics next = foldr (\<lambda>ic f. ic f) ics next"
  by (induction ics) auto

lemma wrap_backward_append: "wrap_backward (ics @ js) next = wrap_backward ics (wrap_backward js next)"
  by (induction ics) auto

text \<open>The handler that a server runs for a method: the handler itself inside all interceptors.\<close>

definition intercepted :: "('m, 'w) server_interceptor option \<Rightarrow> ('m, 'w) server_func \<Rightarrow> ('m, 'w) server_func" where
  "intercepted ics f = (case ics of None \<Rightarrow> f | Some c \<Rightarrow> c f)"

lemma intercepted_chain: "intercepted (chainServerInterceptors ics) f = wrap_backward ics f"
  by (auto simp: intercepted_def chainServerInterceptors_def split: list.splits)

subsection \<open>The registry\<close>

text \<open>The methods of a server are kept under their own procedure, and its specifications are those of
  its methods in the order of registration, without repetition.\<close>

definition server_inv :: "('m, 'w) rpc_server \<Rightarrow> bool" where
  "server_inv s \<longleftrightarrow>
     distinct (map spec_Procedure (sv_specs s)) \<and>
     set (map fst (sv_methods s)) = set (map spec_Procedure (sv_specs s)) \<and>
     (\<forall>p m. map_of (sv_methods s) p = Some m \<longrightarrow> spec_Procedure (mt_Spec m) = p \<and> mt_Spec m \<in> set (sv_specs s))"

lemma NewServer_inv: "server_inv (NewServer ics)"
  by (simp add: server_inv_def NewServer_def)

lemma SetUnknownHandler_inv: "server_inv (SetUnknownHandler fn s) \<longleftrightarrow> server_inv s"
  by (simp add: server_inv_def SetUnknownHandler_def)

text \<open>One round of the loop of \<open>Register\<close>.\<close>

definition add_method :: "('m, 'w) rpc_method \<Rightarrow> ('m, 'w) rpc_server \<Rightarrow> ('m, 'w) rpc_server" where
  "add_method method s =
     s\<lparr>sv_methods := AList.update (spec_Procedure (mt_Spec method))
         (method\<lparr>mt_Handler := intercepted (sv_chain s) (mt_Handler method)\<rparr>) (sv_methods s),
       sv_specs := sv_specs s @ [mt_Spec method]\<rparr>"

lemma Register_Cons:
  "Register (method # methods) s =
     (let procedure = spec_Procedure (mt_Spec method) in
      if has_key (sv_methods s) procedure
      then Inl (Sprintf ''connect: duplicate procedure %q'' [Quote procedure], s)
      else Register methods (add_method method s))"
  by (simp add: Let_def add_method_def intercepted_def split: option.splits)

lemmas Register_simps [simp] = Register.simps(1) Register_Cons
declare Register.simps(2) [simp del]

lemma add_method_sel [simp]:
  "sv_specs (add_method m s) = sv_specs s @ [mt_Spec m]" "sv_chain (add_method m s) = sv_chain s"
  "sv_unknown (add_method m s) = sv_unknown s"
  "map_of (sv_methods (add_method m s)) =
     (map_of (sv_methods s))(spec_Procedure (mt_Spec m) \<mapsto>
        m\<lparr>mt_Handler := intercepted (sv_chain s) (mt_Handler m)\<rparr>)"
  by (simp_all add: add_method_def update_conv')

lemma has_key_add_method:
  "has_key (sv_methods (add_method m s)) p \<longleftrightarrow> p = spec_Procedure (mt_Spec m) \<or> has_key (sv_methods s) p"
  by (simp add: has_key_def)

lemma add_method_inv:
  assumes "server_inv s" "\<not> has_key (sv_methods s) (spec_Procedure (mt_Spec m))"
  shows "server_inv (add_method m s)"
proof -
  have "set (map fst (sv_methods (add_method m s))) =
      insert (spec_Procedure (mt_Spec m)) (set (map fst (sv_methods s)))"
    by (simp add: add_method_def dom_map_of_conv_image_fst [symmetric] update_conv')
  with assms show ?thesis
    unfolding server_inv_def by (auto simp: has_key_iff split: if_splits)
qed

lemma Register_inv:
  "server_inv s \<Longrightarrow> (case Register ms s of Inl (_, s') \<Rightarrow> server_inv s' | Inr s' \<Rightarrow> server_inv s')"
  by (induction ms arbitrary: s) (auto simp: Let_def add_method_inv)

lemma Register_chain: "Register ms s = Inr s' \<Longrightarrow> sv_chain s' = sv_chain s \<and> sv_unknown s' = sv_unknown s"
  by (induction ms arbitrary: s) (auto simp: Let_def split: if_splits)

lemma Register_specs: "Register ms s = Inr s' \<Longrightarrow> sv_specs s' = sv_specs s @ map mt_Spec ms"
  by (induction ms arbitrary: s) (auto simp: Let_def split: if_splits)

lemma Register_keeps:
  "Register ms s = Inr s' \<Longrightarrow> map_of (sv_methods s) p = Some m \<Longrightarrow> map_of (sv_methods s') p = Some m"
proof (induction ms arbitrary: s)
  case (Cons a ms)
  then have "Register ms (add_method a s) = Inr s'" "map_of (sv_methods (add_method a s)) p = Some m"
    by (auto simp: Let_def has_key_def split: if_splits)
  then show ?case by (rule Cons.IH)
qed simp

lemma Register_lookup:
  "Register ms s = Inr s' \<Longrightarrow> m \<in> set ms
     \<Longrightarrow> map_of (sv_methods s') (spec_Procedure (mt_Spec m)) =
           Some (m\<lparr>mt_Handler := intercepted (sv_chain s) (mt_Handler m)\<rparr>)"
proof (induction ms arbitrary: s)
  case (Cons a ms)
  from Cons.prems(1) have r: "Register ms (add_method a s) = Inr s'"
    by (auto simp: Let_def split: if_splits)
  show ?case
  proof (cases "m \<in> set ms")
    case True
    with Cons.IH [OF r] show ?thesis by simp
  next
    case False
    with Cons.prems(2) have "m = a" by simp
    then show ?thesis by (intro Register_keeps [OF r]) simp
  qed
qed simp

lemma Register_ok_iff:
  "(\<exists>s'. Register ms s = Inr s') \<longleftrightarrow>
     distinct (map (spec_Procedure \<circ> mt_Spec) ms) \<and>
     (\<forall>m \<in> set ms. \<not> has_key (sv_methods s) (spec_Procedure (mt_Spec m)))"
proof (induction ms arbitrary: s)
  case (Cons a ms)
  show ?case
    by (cases "has_key (sv_methods s) (spec_Procedure (mt_Spec a))")
      (auto simp: Let_def Cons.IH has_key_add_method image_iff)
qed simp

subsection \<open>Contexts\<close>

lemma clearClientContext_sel [simp]:
  "gx_clientInfo (clearClientContext ctx) = None" "gx_serverInfo (clearClientContext ctx) = gx_serverInfo ctx"
  "gx_ctx (clearClientContext ctx) = gx_ctx ctx"
  by (auto simp: clearClientContext_def CallInfoForClientContext_def split: option.splits)

lemma withServerContext_sel [simp]:
  "gx_serverInfo (withServerContext ctx i) = Some i" "gx_ctx (withServerContext ctx i) = gx_ctx ctx"
  "gx_clientInfo (withServerContext ctx i) = gx_clientInfo ctx"
  by (simp_all add: withServerContext_def)

lemma go_context_eqI:
  "gx_ctx a = gx_ctx b \<Longrightarrow> gx_clientInfo a = gx_clientInfo b \<Longrightarrow> gx_serverInfo a = gx_serverInfo b
     \<Longrightarrow> a = (b :: go_context)"
  by simp

text \<open>A call made with a context that has no client \<open>CallInfo\<close> gets a new one, and no \<open>CallInfo\<close> that
  existed before is changed.\<close>

lemma ensureClientContext_fresh:
  assumes "gx_clientInfo ctx = None" and "ensureClientContext ctx st = (ctx', st')"
  shows "gx_clientInfo ctx' = Some (length (st_infos st))" "st_infos st' = st_infos st @ [new_info]"
    "st_world st' = st_world st" "gx_ctx ctx' = gx_ctx ctx" "gx_serverInfo ctx' = gx_serverInfo ctx"
  using assms
  by (auto simp: ensureClientContext_def CallInfoForClientContext_def NewClientContext_def alloc_info_def)

lemma ensureClientContext_reused:
  assumes "gx_clientInfo ctx = Some i" "i < length (st_infos st)" "ensureClientContext ctx st = (ctx', st')"
  shows "ctx' = ctx" "st_infos st' ! i = reset_info (st_infos st ! i)"
    "\<And>j. j \<noteq> i \<Longrightarrow> st_infos st' ! j = st_infos st ! j"
  using assms by (auto simp: ensureClientContext_def CallInfoForClientContext_def)

lemma reset_info_sel [simp]:
  "ci_request (reset_info info) = ci_request info" "ci_response (reset_info info) = []"
  "ci_trailer (reset_info info) = []" "ci_TransportInfo (reset_info info) = None"
  by (simp_all add: reset_info_def new_info_def)

subsection \<open>Dispatch\<close>

text \<open>The context in which a server runs a handler.\<close>

definition handler_context :: "go_context \<Rightarrow> info_ref \<Rightarrow> go_context" where
  "handler_context ctx i = clearClientContext (withServerContext ctx i)"

lemma handler_context_sel [simp]:
  "gx_clientInfo (handler_context ctx i) = None" "gx_serverInfo (handler_context ctx i) = Some i"
  "gx_ctx (handler_context ctx i) = gx_ctx ctx"
  by (simp_all add: handler_context_def)

lemma NewServer_sel [simp]:
  "sv_chain (NewServer ics) = chainServerInterceptors ics" "sv_methods (NewServer ics) = []"
  "sv_specs (NewServer ics) = []" "sv_unknown (NewServer ics) = None"
  by (simp_all add: NewServer_def)

lemma dispatch_registered:
  assumes "Register ms (NewServer ics) = Inr s" "m \<in> set ms"
  shows "Server_Call s ctx (spec_Procedure (mt_Spec m)) (Some i) stream st =
    foldr (\<lambda>ic f. ic f) ics (mt_Handler m) (handler_context ctx i) (mt_Spec m) stream st"
  using Register_lookup [OF assms]
  by (simp add: Server_Call_def handler_context_def intercepted_chain wrap_backward_foldr)

lemma dispatch_unknown:
  assumes "Register ms (NewServer ics) = Inr s" "p \<notin> set (map (spec_Procedure \<circ> mt_Spec) ms)"
  shows "\<exists>e. Server_Call s ctx p (Some i) stream st = (Return (Some e), st) \<and> CodeOf (Some e) = CodeUnimplemented"
proof -
  have "server_inv s" using Register_inv [OF NewServer_inv, of ms ics] assms(1) by simp
  then have "map_of (sv_methods s) p = None"
    using Register_specs [OF assms(1)] assms(2) by (auto simp: server_inv_def map_of_eq_None_iff)
  then show ?thesis
    using Register_chain [OF assms(1)]
    by (simp add: Server_Call_def CodeOf_def Error_Code_def)
qed

text \<open>C6. Dispatch. A server on which every method could be registered runs, for each of these
  methods, its handler inside all interceptors, the first one outermost, on the specification of
  the method; the handler's context carries the \<open>CallInfo\<close> of the call and never the client
  \<open>CallInfo\<close> of the caller. A procedure that is not registered fails with \<open>CodeUnimplemented\<close>,
  and \<open>Register\<close> succeeds exactly when no procedure is repeated.\<close>

theorem server_dispatch:
  assumes "Register ms (NewServer ics) = Inr s"
  shows "distinct (map (spec_Procedure \<circ> mt_Spec) ms) \<and> Specs s = map mt_Spec ms \<and>
    (\<forall>m \<in> set ms. Server_Call s ctx (spec_Procedure (mt_Spec m)) (Some i) stream st =
       foldr (\<lambda>ic f. ic f) ics (mt_Handler m) (handler_context ctx i) (mt_Spec m) stream st) \<and>
    (\<forall>p. p \<notin> set (map (spec_Procedure \<circ> mt_Spec) ms) \<longrightarrow>
       (\<exists>e. Server_Call s ctx p (Some i) stream st = (Return (Some e), st) \<and> CodeOf (Some e) = CodeUnimplemented)) \<and>
    CallInfoForClientContext (handler_context ctx i) = None \<and>
    CallInfoForServerContext (handler_context ctx i) = Some i"
proof (intro conjI)
  show "distinct (map (spec_Procedure \<circ> mt_Spec) ms)"
    using Register_ok_iff [of ms "NewServer ics"] assms by auto
  show "Specs s = map mt_Spec ms" using Register_specs [OF assms] by (simp add: Specs_def)
qed (use assms dispatch_registered dispatch_unknown in
    \<open>auto simp: CallInfoForClientContext_def CallInfoForServerContext_def\<close>)

text \<open>Two methods behind two interceptors, one of which refuses calls without a deadline.\<close>

definition deadline_interceptor :: "(bytes, unit) server_interceptor" where
  "deadline_interceptor next ctx spec stream st =
     (if cx_deadline (gx_ctx ctx) = None
      then (Return (Some (Coded (NewError CodeInvalidArgument ''no deadline''))), st) else next ctx spec stream st)"

definition echo_method :: "string \<Rightarrow> (bytes, unit) rpc_method" where
  "echo_method p =
     \<lparr>mt_Spec = \<lparr>spec_StreamType = StreamTypeUnary, spec_IdempotencyLevel = 0, spec_Procedure = p\<rparr>,
      mt_Handler = (\<lambda>ctx spec stream st. case ss_Receive stream [] st of
         ((Some e, _), st) \<Rightarrow> (Return (Some e), st)
       | ((None, m), st) \<Rightarrow> (case ss_Send stream (Some m) st of (e, st) \<Rightarrow> (Return e, st)))\<rparr>"

theorem server_dispatch_witness:
  "\<exists>s. Register [echo_method ''/a'', echo_method ''/b''] (NewServer [id, deadline_interceptor]) = Inr s \<and>
     map spec_Procedure (Specs s) = [''/a'', ''/b''] \<and>
     (\<forall>stream st. \<exists>e. CodeOf e = CodeInvalidArgument \<and> fst (Server_Call s \<lparr>gx_ctx = \<lparr>cx_err = None, cx_deadline = None\<rparr>, gx_clientInfo = Some 0,
        gx_serverInfo = None\<rparr> ''/a'' (Some 0) stream st) = Return e)"
proof -
  let ?ms = "[echo_method ''/a'', echo_method ''/b'']" and ?ics = "[id, deadline_interceptor]"
  obtain s where s: "Register ?ms (NewServer ?ics) = Inr s"
    using Register_ok_iff [of ?ms "NewServer ?ics"] by (auto simp: echo_method_def has_key_def)
  have "Server_Call s ctx ''/a'' (Some 0) stream st =
      deadline_interceptor (mt_Handler (echo_method ''/a'')) (handler_context ctx 0) (mt_Spec (echo_method ''/a'')) stream st"
    for ctx stream st
    using server_dispatch [OF s, of ctx 0 stream st] by (simp add: echo_method_def)
  moreover have "map spec_Procedure (Specs s) = [''/a'', ''/b'']"
    using server_dispatch [OF s, of undefined 0 undefined undefined] by (simp add: echo_method_def)
  ultimately show ?thesis using s
    by (simp add: deadline_interceptor_def CodeOf_def Error_Code_def NewError_def)
qed


subsection \<open>The contract of unary client streams\<close>

text \<open>What the transports promise of a stream that carries one request and one response: a request is
  transmitted once, nothing is sent after the send side is closed, and after the response the
  stream is at its end. The operations work on the state of the stream, or on that of the program
  where it holds the stream (\<open>ok\<close>); \<open>sent\<close>, \<open>closed\<close> and \<open>ended\<close> are its flags. \<open>receive\<close> is
  \<open>None\<close> when it never returns.\<close>

locale one_request_sender =
  fixes ok :: "'s \<Rightarrow> bool"
    and send :: "'m option \<Rightarrow> 's \<Rightarrow> go_error option \<times> 's"
    and close_send :: "'s \<Rightarrow> go_error option \<times> 's"
    and sent :: "'s \<Rightarrow> bool"
    and closed :: "'s \<Rightarrow> bool"
  assumes send_closed: "ok s \<Longrightarrow> closed s \<Longrightarrow> send m s = (Some (Sentinel EOF), s)"
    and send_again: "ok s \<Longrightarrow> sent s \<Longrightarrow> \<not> closed s \<Longrightarrow> \<exists>e. send m s = (Some e, s) \<and> \<not> errors_Is e EOF"
    and send_marks: "ok s \<Longrightarrow> \<not> closed s \<Longrightarrow> send m s = (e, s') \<Longrightarrow> ok s' \<and> sent s' \<and> \<not> closed s'"
    and close_marks: "ok s \<Longrightarrow> close_send s = (e, s') \<Longrightarrow> ok s' \<and> closed s'"
begin

fun sends :: "'m option list \<Rightarrow> 's \<Rightarrow> 's" where
  "sends [] s = s"
| "sends (m # ms) s = sends ms (snd (send m s))"

lemma send_refused: "ok s \<Longrightarrow> sent s \<or> closed s \<Longrightarrow> snd (send m s) = s \<and> fst (send m s) \<noteq> None"
  using send_closed [of s m] send_again [of s m] by (cases "closed s") auto

lemma sends_refused: "ok s \<Longrightarrow> sent s \<or> closed s \<Longrightarrow> sends ms s = s"
  by (induction ms) (auto simp: send_refused)

lemma only_first_sent: "ok s \<Longrightarrow> \<not> closed s \<Longrightarrow> sends (m # ms) s = snd (send m s)"
  using send_marks [of s m] by (cases "send m s") (simp add: sends_refused)

lemma nothing_after_close:
  "ok s \<Longrightarrow> close_send s = (e, s') \<Longrightarrow> sends ms s' = s' \<and> (\<forall>m. send m s' = (Some (Sentinel EOF), s'))"
  using close_marks [of s e s'] by (simp add: sends_refused send_closed)

end

locale one_request_stream = one_request_sender ok send close_send sent closed
  for ok :: "'s \<Rightarrow> bool" and send :: "'m option \<Rightarrow> 's \<Rightarrow> go_error option \<times> 's"
    and close_send sent closed +
  fixes receive :: "'m \<Rightarrow> 's \<Rightarrow> (go_error option \<times> 'm \<times> 's) option"
    and ended :: "'s \<Rightarrow> bool"
  assumes receive_marks: "receive d s = Some (e, d', s') \<Longrightarrow> ended s'"
    and receive_ended: "ended s \<Longrightarrow> receive d s = Some (Some (Sentinel EOF), d, s)"
begin

lemma one_response:
  "receive d s = Some (e, d', s') \<Longrightarrow> receive d'' s' = Some (Some (Sentinel EOF), d'', s')"
  using receive_marks receive_ended by blast

end

end
