(* ===== verification/In_Process.thy ===== *)
theory In_Process
  imports Rpc_Core
begin

section \<open>The in-process transport (connectinprocess)\<close>

text \<open>
  The transport that calls a \<open>connect.Server\<close> of the same process. Unary calls run the server
  inside the client's \<open>Receive\<close>; the state of the program holds the open streams and whatever
  else the server works on. The message copier is an argument, as are the reflection and the
  Protobuf operations that \<open>ProtoCopy\<close> uses. The lemmas show what a unary call returns for every
  outcome of the server. Streaming calls are in the theory \<open>In_Process_Stream\<close>.
\<close>

subsection \<open>Options and copying\<close>

text \<open>Package \<open>proto\<close>: which values are messages, the names of their types, \<open>Reset\<close> and \<open>Merge\<close>.\<close>

record 'm proto_package =
  pp_isMessage :: "'m \<Rightarrow> bool"
  pp_typeName :: "'m \<Rightarrow> string"
  pp_Reset :: "'m \<Rightarrow> 'm"
  pp_Merge :: "'m \<Rightarrow> 'm \<Rightarrow> 'm"

type_synonym 'm copy_func = "'m \<Rightarrow> 'm \<Rightarrow> go_error + 'm"

definition ProtoCopy :: "'m proto_package \<Rightarrow> 'm copy_func" where
  "ProtoCopy pp dst src =
     (if \<not> pp_isMessage pp dst
      then Inl (Plain (Sprintf ''connectinprocess: ProtoCopy dst is %T, not a proto.Message'' [pp_typeName pp dst]))
      else if \<not> pp_isMessage pp src
      then Inl (Plain (Sprintf ''connectinprocess: ProtoCopy src is %T, not a proto.Message'' [pp_typeName pp src]))
      else Inr (pp_Merge pp (pp_Reset pp dst) src))"

text \<open>An option is a function on the options; \<open>WithCopyFunc\<close> is the only one.\<close>

definition WithCopyFunc :: "'m copy_func \<Rightarrow> 'm copy_func \<Rightarrow> 'm copy_func" where
  "WithCopyFunc fn options = fn"

subsection \<open>Unary calls\<close>

record 'm ip_unary_stream =
  ius_spec :: rpc_spec
  ius_ctx :: go_context
  ius_clientInfo :: "info_ref option"
  ius_serverInfo :: info_ref
  ius_requestMsg :: "'m option"
  ius_responseMsg :: "'m option"
  ius_serverErr :: "go_error option"
  ius_sentOnce :: bool
  ius_sendClosed :: bool
  ius_rxEnd :: bool

text \<open>The state of the program: the unary streams that were opened and the rest.\<close>

record ('m, 'u) ip_world =
  ip_streams :: "'m ip_unary_stream list"
  ip_rest :: 'u

record ('m, 'u) ip_transport =
  it_server :: "('m, ('m, 'u) ip_world) rpc_server option"
  it_copy :: "'m copy_func"

definition ip_New ::
  "'m proto_package \<Rightarrow> ('m, ('m, 'u) ip_world) rpc_server option \<Rightarrow> ('m copy_func \<Rightarrow> 'm copy_func) list
     \<Rightarrow> ('m, 'u) ip_transport" where
  "ip_New pp server opts = \<lparr>it_server = server, it_copy = foldl (\<lambda>c opt. opt c) (ProtoCopy pp) opts\<rparr>"

definition syncHeader :: "header_ptr \<Rightarrow> header_ptr \<Rightarrow> header_ptr" where
  "syncHeader dst src = foldl (\<lambda>d (key, vals). Header_SetValues d key vals) dst (Header_All src)"

definition update_info :: "info_ref \<Rightarrow> (call_info \<Rightarrow> call_info) \<Rightarrow> 'w rpc_state \<Rightarrow> 'w rpc_state" where
  "update_info i f st = st\<lparr>st_infos := (st_infos st)[i := f (st_infos st ! i)]\<rparr>"

definition update_stream ::
  "nat \<Rightarrow> ('m ip_unary_stream \<Rightarrow> 'm ip_unary_stream) \<Rightarrow> ('m, 'u) ip_world rpc_state \<Rightarrow> ('m, 'u) ip_world rpc_state" where
  "update_stream k f st =
     st\<lparr>st_world := (st_world st)\<lparr>ip_streams := (ip_streams (st_world st))[k := f (ip_streams (st_world st) ! k)]\<rparr>\<rparr>"

definition get_stream :: "nat \<Rightarrow> ('m, 'u) ip_world rpc_state \<Rightarrow> 'm ip_unary_stream" where
  "get_stream k st = ip_streams (st_world st) ! k"

definition newUnaryClientStream ::
  "go_context \<Rightarrow> rpc_spec \<Rightarrow> ('m, 'u) ip_world rpc_state \<Rightarrow> nat \<times> ('m, 'u) ip_world rpc_state" where
  "newUnaryClientStream ctx spec st =
     (let clientInfo = CallInfoForClientContext ctx;
          (serverInfo, st) = alloc_info (new_info\<lparr>ci_Spec := spec\<rparr>) st;
          stream = \<lparr>ius_spec = spec, ius_ctx = ctx, ius_clientInfo = clientInfo, ius_serverInfo = serverInfo,
            ius_requestMsg = None, ius_responseMsg = None, ius_serverErr = None, ius_sentOnce = False,
            ius_sendClosed = False, ius_rxEnd = False\<rparr>;
          st = (case clientInfo of None \<Rightarrow> st | Some i \<Rightarrow> update_info i (\<lambda>c. c\<lparr>ci_Spec := spec\<rparr>) st)
      in (length (ip_streams (st_world st)),
          st\<lparr>st_world := (st_world st)\<lparr>ip_streams := ip_streams (st_world st) @ [stream]\<rparr>\<rparr>))"

definition ius_Send ::
  "nat \<Rightarrow> 'm option \<Rightarrow> ('m, 'u) ip_world rpc_state \<Rightarrow> go_error option \<times> ('m, 'u) ip_world rpc_state" where
  "ius_Send k msg st =
     (if ius_sendClosed (get_stream k st) then (Some (Sentinel EOF), st)
      else if ius_sentOnce (get_stream k st)
      then (Some (Plain ''connectinprocess: unary stream sent more than once''), st)
      else (None, update_stream k (\<lambda>s. s\<lparr>ius_sentOnce := True, ius_requestMsg := msg\<rparr>) st))"

definition ius_CloseSend :: "nat \<Rightarrow> ('m, 'u) ip_world rpc_state \<Rightarrow> go_error option \<times> ('m, 'u) ip_world rpc_state" where
  "ius_CloseSend k st = (None, update_stream k (\<lambda>s. s\<lparr>ius_sendClosed := True\<rparr>) st)"

definition ius_Close :: "nat \<Rightarrow> ('m, 'u) ip_world rpc_state \<Rightarrow> go_error option \<times> ('m, 'u) ip_world rpc_state" where
  "ius_Close k st = (None, update_stream k (\<lambda>s. s\<lparr>ius_rxEnd := True\<rparr>) st)"

text \<open>The server's side of the stream.\<close>

definition unaryHandlerStream :: "'m copy_func \<Rightarrow> nat \<Rightarrow> ('m, ('m, 'u) ip_world) server_stream" where
  "unaryHandlerStream copy k =
     \<lparr>ss_Receive = (\<lambda>dst st.
        case ius_requestMsg (get_stream k st) of
          None \<Rightarrow> ((Some (Sentinel EOF), dst), st)
        | Some msg \<Rightarrow>
            (case copy dst msg of
               Inl err \<Rightarrow> ((Some err, dst), st)
             | Inr dst' \<Rightarrow> ((None, dst'), update_stream k (\<lambda>s. s\<lparr>ius_requestMsg := None\<rparr>) st))),
      ss_SendHeaders = (\<lambda>st. (None, st)),
      ss_Send = (\<lambda>msg st. (None, update_stream k (\<lambda>s. s\<lparr>ius_responseMsg := msg\<rparr>) st))\<rparr>"

definition sync_request :: "nat \<Rightarrow> ('m, 'u) ip_world rpc_state \<Rightarrow> ('m, 'u) ip_world rpc_state" where
  "sync_request k st =
     (case ius_clientInfo (get_stream k st) of
        None \<Rightarrow> st
      | Some i \<Rightarrow>
          update_info (ius_serverInfo (get_stream k st))
            (\<lambda>c. c\<lparr>ci_request := header_map (syncHeader (RequestHeader c) (RequestHeader (st_infos st ! i)))\<rparr>) st)"

definition sync_response :: "nat \<Rightarrow> ('m, 'u) ip_world rpc_state \<Rightarrow> ('m, 'u) ip_world rpc_state" where
  "sync_response k st =
     (case ius_clientInfo (get_stream k st) of
        None \<Rightarrow> st
      | Some i \<Rightarrow>
          let info = st_infos st ! ius_serverInfo (get_stream k st) in
          update_info i
            (\<lambda>c. c\<lparr>ci_response := header_map (syncHeader (ResponseHeader c) (ResponseHeader info)),
                   ci_trailer := header_map (syncHeader (ResponseTrailer c) (ResponseTrailer info))\<rparr>) st)"

text \<open>A panic of the server is recovered into an error.\<close>

definition recovered :: "outcome \<Rightarrow> go_error option" where
  "recovered r =
     (case r of
        Return err \<Rightarrow> err
      | Panic msg \<Rightarrow> Some (Coded (Errorf CodeInternal ''panic in server: %v'' [msg])))"

definition ius_dispatch ::
  "('m, ('m, 'u) ip_world) rpc_server \<Rightarrow> 'm copy_func \<Rightarrow> nat \<Rightarrow> ('m, 'u) ip_world rpc_state
     \<Rightarrow> go_error option \<times> ('m, 'u) ip_world rpc_state" where
  "ius_dispatch server copy k st =
     (let s = get_stream k st;
          st = sync_request k st
      in case Server_Call server (ius_ctx s) (spec_Procedure (ius_spec s)) (Some (ius_serverInfo s))
                (unaryHandlerStream copy k) st of
           (r, st) \<Rightarrow>
             let st = update_stream k (\<lambda>s. s\<lparr>ius_serverErr := recovered r\<rparr>) st
             in (recovered r, sync_response k st))"

definition ius_Receive ::
  "('m, ('m, 'u) ip_world) rpc_server \<Rightarrow> 'm copy_func \<Rightarrow> nat \<Rightarrow> 'm \<Rightarrow> ('m, 'u) ip_world rpc_state
     \<Rightarrow> (go_error option \<times> 'm) \<times> ('m, 'u) ip_world rpc_state" where
  "ius_Receive server copy k dst st =
     (if ius_rxEnd (get_stream k st) then ((Some (Sentinel EOF), dst), st)
      else
        let stop = update_stream k (\<lambda>s. s\<lparr>ius_rxEnd := True\<rparr>) in
        case ius_dispatch server copy k st of
          (Some err, st) \<Rightarrow> ((asClientErr (Some err), dst), stop st)
        | (None, st) \<Rightarrow>
            (case ius_responseMsg (get_stream k st) of
               None \<Rightarrow>
                 ((Some (Coded (Errorf CodeUnimplemented ''unary stream has no message'' [])), dst), stop st)
             | Some msg \<Rightarrow>
                 (case copy dst msg of
                    Inl err \<Rightarrow> ((Some err, dst), stop st)
                  | Inr dst' \<Rightarrow>
                      ((None, dst'), stop (update_stream k (\<lambda>s. s\<lparr>ius_responseMsg := None\<rparr>) st)))))"

definition unaryClientStream ::
  "('m, ('m, 'u) ip_world) rpc_server \<Rightarrow> 'm copy_func \<Rightarrow> nat \<Rightarrow> ('m, ('m, 'u) ip_world) client_stream" where
  "unaryClientStream server copy k =
     \<lparr>cs_SendHeaders = (\<lambda>st. (None, st)), cs_Send = ius_Send k, cs_CloseSend = ius_CloseSend k,
      cs_Receive = ius_Receive server copy k, cs_Close = ius_Close k\<rparr>"

text \<open>\<open>NewClientStream\<close> for unary calls; the streams of the other calls are in \<open>In_Process_Stream\<close>.\<close>

definition ip_NewClientStream :: "('m, 'u) ip_transport \<Rightarrow> ('m, ('m, 'u) ip_world) client_func" where
  "ip_NewClientStream t ctx spec st =
     (case it_server t of
        None \<Rightarrow> (Inl (Plain ''connectinprocess: nil server''), st)
      | Some server \<Rightarrow>
          (case newUnaryClientStream ctx spec st of
             (k, st) \<Rightarrow> (Inr (unaryClientStream server (it_copy t) k), st)))"

subsection \<open>Lemmas: unary calls\<close>

lemma get_update_stream [simp]:
  "k < length (ip_streams (st_world st)) \<Longrightarrow> get_stream k (update_stream k f st) = f (get_stream k st)"
  by (simp add: get_stream_def update_stream_def)

lemma length_update_stream [simp]:
  "length (ip_streams (st_world (update_stream k f st))) = length (ip_streams (st_world st))"
  by (simp add: update_stream_def)

lemma world_update_info [simp]: "st_world (update_info i f st) = st_world st"
  by (simp add: update_info_def)

lemma world_sync [simp]: "st_world (sync_request k st) = st_world st" "st_world (sync_response k st) = st_world st"
  by (simp_all add: sync_request_def sync_response_def Let_def split: option.splits)

lemma get_stream_world: "st_world st = st_world st' \<Longrightarrow> get_stream k st = get_stream k st'"
  by (simp add: get_stream_def)

lemma get_stream_sync [simp]: "get_stream k (sync_request j st) = get_stream k st" "get_stream k (sync_response j st) = get_stream k st"
  by (simp_all add: get_stream_def)

lemma newUnaryClientStream_stream:
  assumes "newUnaryClientStream ctx spec st = (k, st')"
  shows "k < length (ip_streams (st_world st'))" "ius_spec (get_stream k st') = spec" "ius_ctx (get_stream k st') = ctx"
    "ius_requestMsg (get_stream k st') = None" "ius_responseMsg (get_stream k st') = None"
    "\<not> ius_sentOnce (get_stream k st')" "\<not> ius_sendClosed (get_stream k st')" "\<not> ius_rxEnd (get_stream k st')"
  using assms
  by (auto simp: newUnaryClientStream_def alloc_info_def get_stream_def Let_def split: option.splits prod.splits)

interpretation ip_unary: one_request_sender "\<lambda>st. k < length (ip_streams (st_world st))" "ius_Send k" "ius_CloseSend k"
  "\<lambda>st. ius_sentOnce (get_stream k st)" "\<lambda>st. ius_sendClosed (get_stream k st)" for k
  by unfold_locales (auto simp: ius_Send_def ius_CloseSend_def split: if_splits)

text \<open>What the generated code of a unary method does: receive the request, call the method, send its
  response.\<close>

definition unary_handler :: "'m \<Rightarrow> ('m \<Rightarrow> go_error + 'm) \<Rightarrow> ('m, 'w) server_func" where
  "unary_handler zero f ctx spec stream st =
     (case ss_Receive stream zero st of
        ((Some e, _), st) \<Rightarrow> (Return (Some e), st)
      | ((None, req), st) \<Rightarrow>
          (case f req of
             Inl e \<Rightarrow> (Return (Some e), st)
           | Inr res \<Rightarrow> (case ss_Send stream (Some res) st of (e, st) \<Rightarrow> (Return e, st))))"

definition exact_copy :: "'m copy_func \<Rightarrow> bool" where
  "exact_copy copy \<longleftrightarrow> (\<forall>dst src. copy dst src = Inr src)"

lemma unary_handler_in_process:
  assumes "exact_copy copy" "k < length (ip_streams (st_world st))" "ius_requestMsg (get_stream k st) = Some req"
    and "ius_responseMsg (get_stream k st) = None" "\<not> ius_rxEnd (get_stream k st)"
    and "unary_handler zero f ctx spec (unaryHandlerStream copy k) st = (r, st')"
  shows "r = Return (case f req of Inl e \<Rightarrow> Some e | Inr _ \<Rightarrow> None)"
    "ius_responseMsg (get_stream k st') = (case f req of Inl _ \<Rightarrow> None | Inr res \<Rightarrow> Some res)"
    "k < length (ip_streams (st_world st'))"
  using assms by (auto simp: unary_handler_def unaryHandlerStream_def exact_copy_def split: sum.splits)

lemma in_process_receive:
  assumes server: "Register ms (NewServer []) = Inr server" "m \<in> set ms" "mt_Handler m = unary_handler zero f"
    and copy: "exact_copy copy"
    and s: "k < length (ip_streams (st_world st))" "ius_requestMsg (get_stream k st) = Some req"
      "ius_responseMsg (get_stream k st) = None" "\<not> ius_rxEnd (get_stream k st)" "ius_spec (get_stream k st) = mt_Spec m"
  shows "fst (ius_Receive server copy k dst st) =
    (case f req of Inl e \<Rightarrow> (asClientErr (Some e), dst) | Inr res \<Rightarrow> (None, res))"
proof -
  let ?i = "ius_serverInfo (get_stream k st)" and ?ctx = "ius_ctx (get_stream k st)"
  obtain r st1 where h: "unary_handler zero f (handler_context ?ctx ?i) (mt_Spec m) (unaryHandlerStream copy k) (sync_request k st) = (r, st1)"
    by fastforce
  have "Server_Call server ?ctx (spec_Procedure (mt_Spec m)) (Some ?i) (unaryHandlerStream copy k) (sync_request k st) = (r, st1)"
    using dispatch_registered [OF server(1,2), of ?ctx ?i] server(3) h by simp
  moreover note u = unary_handler_in_process [OF copy _ _ _ _ h, of req]
  ultimately have "ius_dispatch server copy k st =
      (case f req of Inl e \<Rightarrow> Some e | Inr _ \<Rightarrow> None,
       sync_response k (update_stream k (\<lambda>s. s\<lparr>ius_serverErr := (case f req of Inl e \<Rightarrow> Some e | Inr _ \<Rightarrow> None)\<rparr>) st1))"
    using s by (simp add: ius_dispatch_def recovered_def Let_def)
  with s u copy show ?thesis
    by (cases "f req") (auto simp: ius_Receive_def exact_copy_def Let_def)
qed


definition ip_echo :: "(bytes, unit) ip_transport" where
  "ip_echo = \<lparr>it_server = (case Register [\<lparr>mt_Spec = \<lparr>spec_StreamType = 0, spec_IdempotencyLevel = 0, spec_Procedure = ''/echo''\<rparr>,
       mt_Handler = unary_handler [] (\<lambda>m. if m = [] then Inl (Coded (NewError CodeInvalidArgument ''empty'')) else Inr (rev m))\<rparr>]
       (NewServer []) of Inr s \<Rightarrow> Some s | Inl _ \<Rightarrow> None),
     it_copy = (\<lambda>dst src. Inr src)\<rparr>"

definition no_context :: go_context where
  "no_context = \<lparr>gx_ctx = \<lparr>cx_err = None, cx_deadline = None\<rparr>, gx_clientInfo = None, gx_serverInfo = None\<rparr>"


end
