(* ===== verification/In_Process_Stream.thy ===== *)
theory In_Process_Stream
  imports In_Process
begin

section \<open>Streams of the in-process transport (connectinprocess/stream.go)\<close>

text \<open>
  A \<open>streamPair\<close> runs the server in a goroutine of its own and hands messages over on unbuffered
  channels: a step relation with one step for every way in which an operation of either side can
  proceed. Both sides may use the stream from several goroutines at once. The lemmas show that the
  stream ends on the client only after the server returned and its metadata was copied, that the
  server sees the end of the requests only after \<open>CloseSend\<close>, and that no operation waits for ever.
\<close>

subsection \<open>State\<close>

text \<open>Where the server goroutine is: not started, in the code of the handler, waiting in \<open>Receive\<close>
  (with the destination) or \<open>Send\<close> (with the message), after the handler returned and the metadata
  was copied, after \<open>responseCh\<close> was closed, after \<open>serverDone\<close> was closed.\<close>

datatype 'm server_state =
    NotStarted | InHandler | InReceive 'm | InSend 'm | Returned | ResponseClosed | ServerDone

text \<open>Where a \<open>Send\<close> of the client is: none, between its two \<open>select\<close> statements, at the second.\<close>

datatype 'm send_state = NoSend | Entered 'm | Sending 'm

record 'm stream_pair =
  sp_clientInfo :: "call_info option"
  sp_serverInfo :: call_info
  sp_server :: "'m server_state"
  sp_serverErr :: "go_error option"
  sp_ctxErr :: "go_error option"         \<comment> \<open>\<open>ctx.Err()\<close> once \<open>ctx.Done()\<close> is closed\<close>
  sp_closeSend :: bool                   \<comment> \<open>\<open>closeSendCh\<close> is closed\<close>
  sp_sending :: "'m send_state"
  sp_receiving :: "'m option"            \<comment> \<open>the client is in \<open>Receive\<close>, with its destination\<close>

definition newStreamPair :: "call_info option \<Rightarrow> go_error option \<Rightarrow> rpc_spec \<Rightarrow> 'm stream_pair" where
  "newStreamPair clientInfo ctxErr spec =
     \<lparr>sp_clientInfo = map_option (\<lambda>c. c\<lparr>ci_Spec := spec\<rparr>) clientInfo,
      sp_serverInfo = new_info\<lparr>ci_Spec := spec\<rparr>, sp_server = NotStarted, sp_serverErr = None,
      sp_ctxErr = ctxErr, sp_closeSend = False, sp_sending = NoSend, sp_receiving = None\<rparr>"

definition sp_dispatch :: "'m stream_pair \<Rightarrow> 'm stream_pair" where
  "sp_dispatch p =
     (if sp_server p = NotStarted
      then p\<lparr>sp_server := InHandler,
             sp_serverInfo := (case sp_clientInfo p of
                None \<Rightarrow> sp_serverInfo p
              | Some c \<Rightarrow> (sp_serverInfo p)
                  \<lparr>ci_request := header_map (syncHeader (RequestHeader (sp_serverInfo p)) (RequestHeader c))\<rparr>)\<rparr>
      else p)"

definition sp_cancel :: "'m stream_pair \<Rightarrow> 'm stream_pair" where
  "sp_cancel p = (if sp_ctxErr p = None then p\<lparr>sp_ctxErr := Some (Sentinel Canceled)\<rparr> else p)"

text \<open>The deferred function of \<open>run\<close>, after the server returned or panicked.\<close>

definition sp_finish :: "outcome \<Rightarrow> 'm stream_pair \<Rightarrow> 'm stream_pair" where
  "sp_finish r p =
     p\<lparr>sp_server := Returned, sp_serverErr := recovered r,
       sp_clientInfo := map_option (\<lambda>c. c
         \<lparr>ci_response := header_map (syncHeader (ResponseHeader c) (ResponseHeader (sp_serverInfo p))),
          ci_trailer := header_map (syncHeader (ResponseTrailer c) (ResponseTrailer (sp_serverInfo p)))\<rparr>)
         (sp_clientInfo p)\<rparr>"

text \<open>What \<open>clientStream.Receive\<close> returns on a closed \<open>responseCh\<close>.\<close>

definition closed_error :: "'m stream_pair \<Rightarrow> go_error" where
  "closed_error p = (case asClientErr (sp_serverErr p) of Some e \<Rightarrow> e | None \<Rightarrow> Sentinel EOF)"

subsection \<open>Steps\<close>

text \<open>What an operation returns to its caller: \<open>Request\<close> and \<open>Response\<close> hand a message over, with what
  the copy into the receiver's destination gives; the others return an error.\<close>

datatype 'm sp_event =
    Request 'm "go_error + 'm"
  | Response 'm "go_error + 'm"
  | ClientSendErr go_error
  | ClientReceiveErr go_error
  | ServerReceiveErr go_error
  | ServerSendErr go_error
  | Internal

inductive sp_step :: "'m copy_func \<Rightarrow> 'm stream_pair \<Rightarrow> 'm sp_event \<Rightarrow> 'm stream_pair \<Rightarrow> bool"
  for copy :: "'m copy_func" where
  \<comment> \<open>the client calls \<open>SendHeaders\<close>, \<open>Send\<close>, \<open>CloseSend\<close>, \<open>Receive\<close> or \<open>Close\<close>, or the call's context ends\<close>
  send_headers: "sp_step copy p Internal (sp_dispatch p)"
| send_refused: "sp_sending p = NoSend \<Longrightarrow> sp_closeSend p \<Longrightarrow> sp_step copy p (ClientSendErr (Sentinel EOF)) p"
| send_enter: "sp_sending p = NoSend \<Longrightarrow> \<not> sp_closeSend p
    \<Longrightarrow> sp_step copy p Internal ((sp_dispatch p)\<lparr>sp_sending := Entered m\<rparr>)"
| close_send: "sp_step copy p Internal (p\<lparr>sp_closeSend := True\<rparr>)"
| receive_enter: "sp_receiving p = None \<Longrightarrow> sp_step copy p Internal ((sp_dispatch p)\<lparr>sp_receiving := Some dst\<rparr>)"
| close: "sp_step copy p Internal (sp_cancel (p\<lparr>sp_closeSend := True\<rparr>))"
| context_done: "sp_ctxErr p = None \<Longrightarrow> sp_step copy p Internal (p\<lparr>sp_ctxErr := Some e\<rparr>)"
  \<comment> \<open>the second \<open>select\<close> of \<open>clientStream.Send\<close>\<close>
| send_select: "sp_sending p = Entered m \<Longrightarrow> sp_step copy p Internal (p\<lparr>sp_sending := Sending m\<rparr>)"
| send_closed: "sp_sending p = Sending m \<Longrightarrow> sp_closeSend p
    \<Longrightarrow> sp_step copy p (ClientSendErr (Sentinel EOF)) (p\<lparr>sp_sending := NoSend\<rparr>)"
| send_done: "sp_sending p = Sending m \<Longrightarrow> sp_server p = ServerDone
    \<Longrightarrow> sp_step copy p (ClientSendErr (Sentinel EOF)) (p\<lparr>sp_sending := NoSend\<rparr>)"
| send_ctx: "sp_sending p = Sending m \<Longrightarrow> sp_ctxErr p = Some e
    \<Longrightarrow> sp_step copy p (ClientSendErr e) (p\<lparr>sp_sending := NoSend\<rparr>)"
| request: "sp_sending p = Sending m \<Longrightarrow> sp_server p = InReceive dst
    \<Longrightarrow> sp_step copy p (Request m (copy dst m)) (p\<lparr>sp_sending := NoSend, sp_server := InHandler\<rparr>)"
  \<comment> \<open>the \<open>select\<close> of \<open>clientStream.Receive\<close>\<close>
| receive_ctx: "sp_receiving p = Some dst \<Longrightarrow> sp_ctxErr p = Some e
    \<Longrightarrow> sp_step copy p (ClientReceiveErr e) (p\<lparr>sp_receiving := None\<rparr>)"
| response: "sp_receiving p = Some dst \<Longrightarrow> sp_server p = InSend m
    \<Longrightarrow> sp_step copy p (Response m (copy dst m)) (p\<lparr>sp_receiving := None, sp_server := InHandler\<rparr>)"
| receive_closed: "sp_receiving p = Some dst \<Longrightarrow> sp_server p \<in> {ResponseClosed, ServerDone}
    \<Longrightarrow> sp_step copy p (ClientReceiveErr (closed_error p)) (sp_cancel (p\<lparr>sp_receiving := None\<rparr>))"
  \<comment> \<open>the handler changes its metadata, receives, sends and returns; then \<open>run\<close> closes the channels\<close>
| handler_metadata: "sp_server p = InHandler \<Longrightarrow> Header_inv (ResponseHeader info) \<Longrightarrow> Header_inv (ResponseTrailer info)
    \<Longrightarrow> sp_step copy p Internal (p\<lparr>sp_serverInfo := info\<rparr>)"
| server_receive: "sp_server p = InHandler \<Longrightarrow> sp_step copy p Internal (p\<lparr>sp_server := InReceive dst\<rparr>)"
| server_receive_ctx: "sp_server p = InReceive dst \<Longrightarrow> sp_ctxErr p = Some e
    \<Longrightarrow> sp_step copy p (ServerReceiveErr e) (p\<lparr>sp_server := InHandler\<rparr>)"
| server_receive_end: "sp_server p = InReceive dst \<Longrightarrow> sp_closeSend p \<Longrightarrow> \<forall>m. sp_sending p \<noteq> Sending m
    \<Longrightarrow> sp_step copy p (ServerReceiveErr (Sentinel EOF)) (p\<lparr>sp_server := InHandler\<rparr>)"
| server_send: "sp_server p = InHandler \<Longrightarrow> sp_step copy p Internal (p\<lparr>sp_server := InSend m\<rparr>)"
| server_send_ctx: "sp_server p = InSend m \<Longrightarrow> sp_ctxErr p = Some e
    \<Longrightarrow> sp_step copy p (ServerSendErr e) (p\<lparr>sp_server := InHandler\<rparr>)"
| server_return: "sp_server p = InHandler \<Longrightarrow> sp_step copy p Internal (sp_finish r p)"
| close_responses: "sp_server p = Returned \<Longrightarrow> sp_step copy p Internal (p\<lparr>sp_server := ResponseClosed\<rparr>)"
| close_done: "sp_server p = ResponseClosed \<Longrightarrow> sp_step copy p Internal (p\<lparr>sp_server := ServerDone\<rparr>)"

inductive_cases client_receive_err: "sp_step copy p (ClientReceiveErr e) p'"
inductive_cases server_receive_err: "sp_step copy p (ServerReceiveErr e) p'"

inductive sp_steps :: "'m copy_func \<Rightarrow> 'm stream_pair \<Rightarrow> 'm sp_event list \<Rightarrow> 'm stream_pair \<Rightarrow> bool"
  for copy :: "'m copy_func" and p :: "'m stream_pair" where
  no_steps: "sp_steps copy p [] p"
| more_steps: "sp_steps copy p evs q \<Longrightarrow> sp_step copy q ev r \<Longrightarrow> sp_steps copy p (evs @ [ev]) r"


subsection \<open>The end of a stream\<close>

abbreviation finished :: "'m stream_pair \<Rightarrow> bool" where
  "finished p \<equiv> sp_server p \<in> {Returned, ResponseClosed, ServerDone}"

abbreviation handed_over :: "'m sp_event \<Rightarrow> bool" where
  "handed_over ev \<equiv> (\<exists>m r. ev = Request m r \<or> ev = Response m r)"

lemmas sp_defs = sp_dispatch_def sp_cancel_def sp_finish_def

lemma finished_step:
  "sp_step copy p ev p' \<Longrightarrow> finished p \<Longrightarrow> finished p' \<and> \<not> handed_over ev"
  by (induction rule: sp_step.induct) (auto simp: sp_defs)

lemma finished_steps: "sp_steps copy p evs q \<Longrightarrow> finished p \<Longrightarrow> finished q \<and> (\<forall>ev \<in> set evs. \<not> handed_over ev)"
  by (induction rule: sp_steps.induct) (auto dest: finished_step)

text \<open>The metadata of the client has every key that the server set, with the values of the server.\<close>

definition copied :: "http_header \<Rightarrow> http_header \<Rightarrow> bool" where
  "copied h h' \<longleftrightarrow> (\<forall>k. CanonicalMIMEHeaderKey k = k \<longrightarrow> has_key h k \<longrightarrow> values_of h' k = values_of h k)"

definition synced :: "'m stream_pair \<Rightarrow> bool" where
  "synced p \<longleftrightarrow> (case sp_clientInfo p of
       None \<Rightarrow> True
     | Some c \<Rightarrow> copied (ci_response (sp_serverInfo p)) (ci_response c) \<and>
                 copied (ci_trailer (sp_serverInfo p)) (ci_trailer c))"

lemma syncHeader_from: "syncHeader d (Some h) = fromHTTPHeader d h"
proof -
  have "foldl (\<lambda>d (key, vals). Header_SetValues d key vals) d h = fromHTTPHeader d h"
    by (induction d h rule: fromHTTPHeader.induct) auto
  then show ?thesis by (simp add: syncHeader_def Header_All_def)
qed

lemma copied_sync: "Header_inv (Some h) \<Longrightarrow> copied h (header_map (syncHeader (Some d) (Some h)))"
  using fromHTTPHeader_values [of h _ "Some d"] fromHTTPHeader_Some [of "Some d" h]
  by (auto simp: copied_def syncHeader_from Header_inv_def header_map_def Header_Values_def split: option.splits)

definition sp_inv :: "'m stream_pair \<Rightarrow> bool" where
  "sp_inv p \<longleftrightarrow>
     Header_inv (ResponseHeader (sp_serverInfo p)) \<and> Header_inv (ResponseTrailer (sp_serverInfo p)) \<and>
     (finished p \<longrightarrow> synced p) \<and>
     (sp_receiving p \<noteq> None \<or> sp_sending p \<noteq> NoSend \<longrightarrow> sp_server p \<noteq> NotStarted)"

lemma synced_finish:
  assumes "Header_inv (ResponseHeader (sp_serverInfo p))" "Header_inv (ResponseTrailer (sp_serverInfo p))"
  shows "synced (sp_finish r p)"
  using assms by (auto simp: synced_def sp_finish_def ResponseHeader_def ResponseTrailer_def copied_sync split: option.splits)

lemma sp_inv_step: "sp_step copy p ev p' \<Longrightarrow> sp_inv p \<Longrightarrow> sp_inv p'"
proof (induction rule: sp_step.induct)
  case (server_return p r)
  then show ?case using synced_finish [of p r] by (auto simp: sp_inv_def sp_finish_def)
qed (auto simp: sp_inv_def sp_dispatch_def sp_cancel_def ResponseHeader_def ResponseTrailer_def synced_def split: option.splits)

lemma sp_inv_reachable: "sp_steps copy (newStreamPair info ctxErr spec) evs p \<Longrightarrow> sp_inv p"
proof (induction rule: sp_steps.induct)
  case no_steps
  show ?case
    by (simp add: sp_inv_def newStreamPair_def new_info_def ResponseHeader_def ResponseTrailer_def Header_inv_def
        wf_map_def canonical_keys_def)
qed (blast intro: sp_inv_step)

text \<open>C10. The end of an in-process stream. Unless the context of the call ended, \<open>Receive\<close> of the
  client reports an error of the stream only after the handler returned and \<open>responseCh\<close> was
  closed: \<open>io.EOF\<close> when the handler returned nil, the handler's error as a remote error otherwise.
  By then the client's \<open>CallInfo\<close> has all response headers and trailers of the handler, and no
  message is handed over any more.\<close>

theorem in_process_stream_end:
  assumes "sp_steps copy (newStreamPair info ctxErr spec) evs p"
    and "sp_step copy p (ClientReceiveErr e) p'" and "sp_ctxErr p = None"
  shows "sp_server p \<in> {ResponseClosed, ServerDone} \<and>
    e = (case sp_serverErr p of None \<Rightarrow> Sentinel EOF | Some err \<Rightarrow> the (asClientErr (Some err))) \<and>
    (\<forall>c. sp_clientInfo p' = Some c \<longrightarrow>
       copied (ci_response (sp_serverInfo p)) (ci_response c) \<and> copied (ci_trailer (sp_serverInfo p)) (ci_trailer c)) \<and>
    (\<forall>evs' q m r. sp_steps copy p' evs' q \<longrightarrow> Request m r \<notin> set evs' \<and> Response m r \<notin> set evs')"
proof -
  from assms(2,3) have p: "sp_server p \<in> {ResponseClosed, ServerDone}" "e = closed_error p" and p': "p' = sp_cancel (p\<lparr>sp_receiving := None\<rparr>)"
    by (auto elim: client_receive_err)
  have a: "asClientErr None = None" "(asClientErr (Some err) = None) = False" for err
    by (simp_all add: asClientErr_def Let_def split: option.splits)
  from p(2) have "e = (case sp_serverErr p of None \<Rightarrow> Sentinel EOF | Some err \<Rightarrow> the (asClientErr (Some err)))"
    by (auto simp: closed_error_def a split: option.splits)
  moreover have "synced p" using sp_inv_reachable [OF assms(1)] p by (auto simp: sp_inv_def)
  then have "\<forall>c. sp_clientInfo p' = Some c \<longrightarrow>
       copied (ci_response (sp_serverInfo p)) (ci_response c) \<and> copied (ci_trailer (sp_serverInfo p)) (ci_trailer c)"
    using p' by (auto simp: synced_def sp_cancel_def split: if_splits)
  moreover have "finished p'" using p p' by (auto simp: sp_cancel_def)
  then have "Request m r \<notin> set evs' \<and> Response m r \<notin> set evs'" if "sp_steps copy p' evs' q" for evs' q m r
    using finished_steps [OF that] by blast
  ultimately show ?thesis using p by simp
qed

text \<open>A stream over bytes, with a handler that sets a header, sends one response and returns.\<close>

definition byte_copy :: "bytes copy_func" where
  "byte_copy dst src = Inr src"

definition stream_spec :: rpc_spec where
  "stream_spec = \<lparr>spec_StreamType = StreamTypeServer, spec_IdempotencyLevel = 0, spec_Procedure = ''/a''\<rparr>"

definition handler_info :: call_info where
  "handler_info = new_info\<lparr>ci_Spec := stream_spec, ci_trailer := [(''Acme'', [''1''])]\<rparr>"

text \<open>A run of it until the channel of the responses is closed.\<close>

definition stream_run :: "bytes \<Rightarrow> bytes stream_pair" where
  "stream_run msg =
     (sp_finish (Return None) ((sp_dispatch
       ((newStreamPair (Some new_info) None stream_spec)\<lparr>sp_serverInfo := handler_info\<rparr>))
          \<lparr>sp_serverInfo := handler_info, sp_receiving := Some []\<rparr>))\<lparr>sp_server := ResponseClosed\<rparr>"

lemma stream_run_steps:
  "\<exists>evs. Response msg (Inr msg) \<in> set evs \<and> sp_steps byte_copy (newStreamPair (Some new_info) None stream_spec) evs (stream_run msg)"
proof -
  let ?p0 = "newStreamPair (Some new_info) None stream_spec :: bytes stream_pair"
  let ?p1 = "(sp_dispatch ?p0)\<lparr>sp_receiving := Some []\<rparr>"
  let ?p2 = "?p1\<lparr>sp_serverInfo := handler_info\<rparr>"
  let ?p3 = "?p2\<lparr>sp_server := InSend msg\<rparr>"
  let ?p4 = "?p3\<lparr>sp_receiving := None, sp_server := InHandler\<rparr>"
  let ?p5 = "(sp_dispatch ?p4)\<lparr>sp_receiving := Some []\<rparr>"
  let ?p6 = "sp_finish (Return None) ?p5"
  note d = newStreamPair_def sp_dispatch_def sp_finish_def
  have 1: "sp_step byte_copy ?p0 Internal ?p1" by (rule receive_enter) (simp add: d)
  have 2: "sp_step byte_copy ?p1 Internal ?p2"
    by (rule handler_metadata) (simp_all add: d handler_info_def new_info_def ResponseHeader_def ResponseTrailer_def
        Header_inv_def wf_map_def canonical_keys_def, code_simp)
  have 3: "sp_step byte_copy ?p2 Internal ?p3" by (rule server_send) (simp add: d)
  have 4: "sp_step byte_copy ?p3 (Response msg (byte_copy [] msg)) ?p4" by (rule response) simp_all
  have 5: "sp_step byte_copy ?p4 Internal ?p5" by (rule receive_enter) (simp add: d)
  have 6: "sp_step byte_copy ?p5 Internal ?p6" by (rule server_return) (simp add: d)
  have 7: "sp_step byte_copy ?p6 Internal (?p6\<lparr>sp_server := ResponseClosed\<rparr>)" by (rule close_responses) (simp add: d)
  have "?p6\<lparr>sp_server := ResponseClosed\<rparr> = stream_run msg" by (simp add: stream_run_def d)
  with more_steps [OF more_steps [OF more_steps [OF more_steps [OF more_steps [OF more_steps [OF more_steps [OF no_steps 1] 2] 3] 4] 5] 6] 7]
  have "sp_steps byte_copy ?p0 [Internal, Internal, Internal, Response msg (byte_copy [] msg), Internal, Internal, Internal] (stream_run msg)"
    by simp
  then show ?thesis by (intro exI conjI) (auto simp: byte_copy_def)
qed

theorem in_process_stream_end_witness:
  "\<exists>p'. sp_step byte_copy (stream_run [7]) (ClientReceiveErr (Sentinel EOF)) p' \<and>
     (\<forall>c. sp_clientInfo p' = Some c \<longrightarrow> copied (ci_trailer handler_info) (ci_trailer c)) \<and>
     (\<forall>evs q m r. sp_steps byte_copy p' evs q \<longrightarrow> Response m r \<notin> set evs)"
proof -
  let ?p' = "sp_cancel ((stream_run [7])\<lparr>sp_receiving := None\<rparr>)"
  obtain evs where r: "sp_steps byte_copy (newStreamPair (Some new_info) None stream_spec) evs (stream_run [7])"
    using stream_run_steps [of "[7]"] by blast
  have p: "sp_receiving (stream_run [7]) = Some []" "sp_server (stream_run [7]) = ResponseClosed"
    "sp_ctxErr (stream_run [7]) = None" "closed_error (stream_run [7]) = Sentinel EOF"
    "sp_serverInfo (stream_run [7]) = handler_info"
    by (simp_all add: stream_run_def newStreamPair_def sp_dispatch_def sp_finish_def closed_error_def recovered_def asClientErr_def)
  with receive_closed [of "stream_run [7]" "[]" byte_copy]
  have st: "sp_step byte_copy (stream_run [7]) (ClientReceiveErr (Sentinel EOF)) ?p'" by simp
  from in_process_stream_end [OF r this p(3)] st p(5) show ?thesis by (intro exI [of _ ?p']) simp
qed

subsection \<open>The end of the requests\<close>

lemma closed_step:
  "sp_step copy p ev p' \<Longrightarrow> sp_closeSend p \<Longrightarrow> sp_sending p = NoSend
     \<Longrightarrow> sp_closeSend p' \<and> sp_sending p' = NoSend \<and> (\<forall>m r. ev \<noteq> Request m r)"
  by (induction rule: sp_step.induct) (auto simp: sp_defs)

lemma closed_steps:
  "sp_steps copy p evs q \<Longrightarrow> sp_closeSend p \<Longrightarrow> sp_sending p = NoSend
     \<Longrightarrow> sp_closeSend q \<and> sp_sending q = NoSend \<and> (\<forall>ev \<in> set evs. \<forall>m r. ev \<noteq> Request m r)"
  by (induction rule: sp_steps.induct) (auto dest: closed_step)

text \<open>C37. The end of the requests of an in-process stream. Unless the context of the call ended, the
  handler's \<open>Receive\<close> fails only with \<open>io.EOF\<close>, only after the client closed its side, and never
  while a \<open>Send\<close> offers a message; and when no \<open>Send\<close> was in progress, no request follows.\<close>

theorem in_process_half_close:
  assumes "sp_step copy p (ServerReceiveErr e) p'" and "sp_ctxErr p = None"
  shows "e = Sentinel EOF \<and> sp_closeSend p \<and> (\<forall>m. sp_sending p \<noteq> Sending m) \<and>
    (\<forall>evs q m r. sp_sending p = NoSend \<longrightarrow> sp_steps copy p' evs q \<longrightarrow> Request m r \<notin> set evs)"
proof -
  from assms have p: "e = Sentinel EOF" "sp_closeSend p" "\<forall>m. sp_sending p \<noteq> Sending m" and p': "p' = p\<lparr>sp_server := InHandler\<rparr>"
    by (auto elim: server_receive_err)
  have "Request m r \<notin> set evs" if "sp_sending p = NoSend" "sp_steps copy p' evs q" for evs q m r
    using closed_steps [OF that(2)] p p' that(1) by auto
  with p show ?thesis by blast
qed

theorem in_process_half_close_witness:
  "\<exists>p p'. sp_step byte_copy p (ServerReceiveErr (Sentinel EOF)) p' \<and> sp_closeSend p \<and>
     (\<forall>evs q m r. sp_steps byte_copy p' evs q \<longrightarrow> Request m r \<notin> set evs)"
proof -
  let ?p = "(newStreamPair None None stream_spec)\<lparr>sp_server := InReceive [], sp_closeSend := True\<rparr>"
  have "sp_step byte_copy ?p (ServerReceiveErr (Sentinel EOF)) (?p\<lparr>sp_server := InHandler\<rparr>)"
    by (rule server_receive_end) (simp_all add: newStreamPair_def)
  from in_process_half_close [OF this] this show ?thesis by (fastforce simp: newStreamPair_def)
qed

subsection \<open>Progress\<close>

text \<open>How far the operations in progress and the exit of the server are from their end. A step that
  gets closer is one of the package; the others are calls of its user.\<close>

definition work :: "'m stream_pair \<Rightarrow> nat" where
  "work p =
     (case sp_sending p of NoSend \<Rightarrow> 0 | Sending _ \<Rightarrow> 1 | Entered _ \<Rightarrow> 2) +
     (if sp_receiving p = None then 0 else 1) +
     (case sp_server p of InReceive _ \<Rightarrow> 1 | InSend _ \<Rightarrow> 1 | Returned \<Rightarrow> 2 | ResponseClosed \<Rightarrow> 1 | _ \<Rightarrow> 0)"

definition package_step :: "'m copy_func \<Rightarrow> 'm stream_pair \<Rightarrow> 'm stream_pair \<Rightarrow> bool" where
  "package_step copy p p' \<longleftrightarrow> (\<exists>ev. sp_step copy p ev p' \<and> work p' < work p)"

lemma work_le: "work p \<le> 5"
  by (auto simp: work_def split: send_state.splits server_state.splits)

lemma work_cancel [simp]: "work (sp_cancel p) = work p"
  by (simp add: work_def sp_cancel_def)

lemma work_receive_end: "sp_receiving p = Some d \<Longrightarrow> work (p\<lparr>sp_receiving := None\<rparr>) < work p"
  by (simp add: work_def)

lemma package_steps_bounded: "(package_step copy ^^ n) p q \<Longrightarrow> n + work q \<le> work p"
  by (induction n arbitrary: q) (fastforce simp: package_step_def)+

lemma package_stepI: "sp_step copy p ev p' \<Longrightarrow> work p' < work p \<Longrightarrow> package_step copy p p'"
  by (auto simp: package_step_def)

text \<open>No package step is possible: what holds of a waiting operation then.\<close>

abbreviation quiet :: "'m copy_func \<Rightarrow> 'm stream_pair \<Rightarrow> bool" where
  "quiet copy p \<equiv> (\<forall>p'. \<not> package_step copy p p')"

lemma quiet_step: "quiet copy p \<Longrightarrow> sp_step copy p ev p' \<Longrightarrow> work p' < work p \<Longrightarrow> False"
  using package_stepI by blast

lemma quiet_sending:
  assumes q: "quiet copy p"
  shows "sp_sending p \<noteq> Entered m" "sp_sending p = Sending m \<Longrightarrow> \<not> sp_closeSend p"
    "sp_sending p = Sending m \<Longrightarrow> sp_ctxErr p \<noteq> Some e" "sp_sending p = Sending m \<Longrightarrow> sp_server p \<noteq> ServerDone"
    "sp_sending p = Sending m \<Longrightarrow> sp_server p \<noteq> InReceive d"
  using quiet_step [OF q send_select] quiet_step [OF q send_closed] quiet_step [OF q send_ctx]
    quiet_step [OF q send_done] quiet_step [OF q request]
  by (force simp: work_def)+

lemma quiet_receiving:
  assumes q: "quiet copy p"
  shows "sp_receiving p = Some d \<Longrightarrow> sp_ctxErr p \<noteq> Some e" "sp_receiving p = Some d \<Longrightarrow> sp_server p \<noteq> InSend m"
    "sp_receiving p = Some d \<Longrightarrow> sp_server p \<notin> {ResponseClosed, ServerDone}"
  using quiet_step [OF q receive_ctx] quiet_step [OF q response] quiet_step [OF q receive_closed]
    work_receive_end [of p d]
  by (force simp: work_def, force simp: work_def, auto)

lemma quiet_server:
  assumes q: "quiet copy p"
  shows "sp_server p \<noteq> Returned" "sp_server p \<noteq> ResponseClosed"
    "sp_server p = InReceive d \<Longrightarrow> sp_ctxErr p \<noteq> Some e" "sp_server p = InSend m \<Longrightarrow> sp_ctxErr p \<noteq> Some e"
    "sp_server p = InReceive d \<Longrightarrow> sp_closeSend p \<Longrightarrow> \<exists>m. sp_sending p = Sending m"
  using quiet_step [OF q close_responses] quiet_step [OF q close_done] quiet_step [OF q server_receive_ctx]
    quiet_step [OF q server_receive_end] quiet_step [OF q server_send_ctx]
  by (force simp: work_def)+



end
