(* ===== verification/Go_Json.thy ===== *)
theory Go_Json
  imports Rpc_Error
begin

section \<open>Package encoding/json, as far as the repository uses it\<close>

text \<open>
  The scanner of \<open>encoding/json\<close> is a stack machine that reads one character at a time:
  \<open>json_step\<close> is its step function, \<open>json_run\<close> the run over a text. \<open>json_Valid\<close>, the splitting
  of objects and arrays into the texts of their parts, \<open>json.Compact\<close> and the reading of string
  literals are defined over it, so that decoding works, as in Go, on the raw text of a value.
  Strings are byte sequences; a byte sequence that is not UTF-8 is replaced by U+FFFD in both
  directions. The texts of the package's errors are shortened to one message.

  The lemmas give the round trip of string literals, and that an object or array built from
  complete values is split into exactly these values.
\<close>

subsection \<open>UTF-8\<close>

definition byte_in :: "nat \<Rightarrow> nat \<Rightarrow> char \<Rightarrow> bool" where
  "byte_in lo hi c \<longleftrightarrow> lo \<le> of_char c \<and> of_char c \<le> hi"

abbreviation is_cont :: "char \<Rightarrow> bool" where "is_cont \<equiv> byte_in 0x80 0xBF"

text \<open>\<open>utf8.DecodeRune\<close>: the width of the well-formed multi-byte sequence at the front, if any.\<close>

fun rune_width :: "string \<Rightarrow> nat option" where
  "rune_width (a # b # c # d # _) =
     (if byte_in 0xC2 0xDF a \<and> is_cont b then Some 2
      else if (byte_in 0xE0 0xE0 a \<and> byte_in 0xA0 0xBF b \<or> byte_in 0xE1 0xEC a \<and> is_cont b
               \<or> byte_in 0xED 0xED a \<and> byte_in 0x80 0x9F b \<or> byte_in 0xEE 0xEF a \<and> is_cont b) \<and> is_cont c
      then Some 3
      else if (byte_in 0xF0 0xF0 a \<and> byte_in 0x90 0xBF b \<or> byte_in 0xF1 0xF3 a \<and> is_cont b
               \<or> byte_in 0xF4 0xF4 a \<and> byte_in 0x80 0x8F b) \<and> is_cont c \<and> is_cont d
      then Some 4
      else None)"
| "rune_width [a, b, c] =
     (if byte_in 0xC2 0xDF a \<and> is_cont b then Some 2
      else if (byte_in 0xE0 0xE0 a \<and> byte_in 0xA0 0xBF b \<or> byte_in 0xE1 0xEC a \<and> is_cont b
               \<or> byte_in 0xED 0xED a \<and> byte_in 0x80 0x9F b \<or> byte_in 0xEE 0xEF a \<and> is_cont b) \<and> is_cont c
      then Some 3
      else None)"
| "rune_width [a, b] = (if byte_in 0xC2 0xDF a \<and> is_cont b then Some 2 else None)"
| "rune_width _ = None"

text \<open>\<open>utf8.EncodeRune\<close>.\<close>

definition encode_rune :: "nat \<Rightarrow> string" where
  "encode_rune r =
     (if r < 0x80 then [char_of r]
      else if r < 0x800 then [char_of (0xC0 + r div 64), char_of (0x80 + r mod 64)]
      else if r < 0x10000
      then [char_of (0xE0 + r div 4096), char_of (0x80 + r div 64 mod 64), char_of (0x80 + r mod 64)]
      else [char_of (0xF0 + r div 262144), char_of (0x80 + r div 4096 mod 64),
            char_of (0x80 + r div 64 mod 64), char_of (0x80 + r mod 64)])"

abbreviation rune_error :: nat where "rune_error \<equiv> 0xFFFD"

subsection \<open>String literals\<close>

definition hex_val :: "char \<Rightarrow> nat option" where
  "hex_val c =
     (if in_range CHR ''0'' CHR ''9'' c then Some (of_char c - 48)
      else if in_range CHR ''a'' CHR ''f'' c then Some (of_char c - 87)
      else if in_range CHR ''A'' CHR ''F'' c then Some (of_char c - 55)
      else None)"

abbreviation quote :: char where "quote \<equiv> CHR 0x22"
abbreviation backslash :: char where "backslash \<equiv> CHR 0x5C"

text \<open>\<open>appendString\<close> with HTML escaping: characters that are not safe are escaped.\<close>

definition json_char :: "char \<Rightarrow> string" where
  "json_char c =
     (if c = backslash \<or> c = quote then [backslash, c]
      else if c = CHR 0x08 then [backslash, CHR ''b'']
      else if c = CHR 0x0C then [backslash, CHR ''f'']
      else if c = CHR 0x0A then [backslash, CHR ''n'']
      else if c = CHR 0x0D then [backslash, CHR ''r'']
      else if c = CHR 0x09 then [backslash, CHR ''t'']
      else if of_char c < (32 :: nat) \<or> c = CHR ''<'' \<or> c = CHR ''>'' \<or> c = CHR ''&''
      then [backslash, CHR ''u'', CHR ''0'', CHR ''0'',
            lower_hex (of_char c div 16), lower_hex (of_char c mod 16)]
      else [c])"

text \<open>U+2028 and U+2029.\<close>

definition line_separator :: "string \<Rightarrow> bool" where
  "line_separator s \<longleftrightarrow> s = [CHR 0xE2, CHR 0x80, CHR 0xA8] \<or> s = [CHR 0xE2, CHR 0x80, CHR 0xA9]"

function json_escape :: "string \<Rightarrow> string" where
  "json_escape [] = []"
| "json_escape (c # s) =
     (if of_char c < (0x80 :: nat) then json_char c @ json_escape s
      else case rune_width (c # s) of
        None \<Rightarrow> backslash # ''ufffd'' @ json_escape s
      | Some n \<Rightarrow>
          (let r = take n (c # s) in
           if line_separator r then backslash # ''u202'' @ [lower_hex (of_char (last r) mod 16)]
           else r) @ json_escape (drop (n - 1) s))"
  by pat_completeness auto

termination json_escape
  by (relation "measure length") auto

definition json_string :: "string \<Rightarrow> string" where
  "json_string s = quote # json_escape s @ [quote]"

text \<open>\<open>unquote\<close>: the text between the quotes of a valid literal.\<close>

fun getu4 :: "string \<Rightarrow> nat option" where
  "getu4 (b # u # h1 # h2 # h3 # h4 # _) =
     (if b = backslash \<and> u = CHR ''u'' then
        case (hex_val h1, hex_val h2, hex_val h3, hex_val h4) of
          (Some a, Some b, Some c, Some d) \<Rightarrow> Some (((a * 16 + b) * 16 + c) * 16 + d)
        | _ \<Rightarrow> None
      else None)"
| "getu4 _ = None"

definition is_surrogate :: "nat \<Rightarrow> bool" where
  "is_surrogate r \<longleftrightarrow> 0xD800 \<le> r \<and> r < 0xE000"

text \<open>\<open>utf16.DecodeRune\<close>.\<close>

definition utf16_pair :: "nat \<Rightarrow> nat \<Rightarrow> nat" where
  "utf16_pair r1 r2 =
     (if 0xD800 \<le> r1 \<and> r1 < 0xDC00 \<and> 0xDC00 \<le> r2 \<and> r2 < 0xE000
      then (r1 - 0xD800) * 1024 + (r2 - 0xDC00) + 0x10000 else rune_error)"

definition simple_escape :: "char \<Rightarrow> char" where
  "simple_escape c =
     (if c = CHR ''b'' then CHR 0x08 else if c = CHR ''f'' then CHR 0x0C
      else if c = CHR ''n'' then CHR 0x0A else if c = CHR ''r'' then CHR 0x0D
      else if c = CHR ''t'' then CHR 0x09 else c)"

function unquote :: "string \<Rightarrow> string" where
  "unquote [] = []"
| "unquote (c # s) =
     (if c = backslash then
        (case getu4 (c # s) of
           Some r \<Rightarrow>
             if is_surrogate r then
               let dec = (case getu4 (drop 5 s) of None \<Rightarrow> rune_error | Some r2 \<Rightarrow> utf16_pair r r2) in
               if dec \<noteq> rune_error then encode_rune dec @ unquote (drop 11 s)
               else encode_rune rune_error @ unquote (drop 5 s)
             else encode_rune r @ unquote (drop 5 s)
         | None \<Rightarrow> simple_escape (hd (s @ [c])) # unquote (drop 1 s))
      else if of_char c < (0x80 :: nat) then c # unquote s
      else case rune_width (c # s) of
        None \<Rightarrow> encode_rune rune_error @ unquote s
      | Some n \<Rightarrow> take n (c # s) @ unquote (drop (n - 1) s))"
  by pat_completeness auto

termination unquote
  by (relation "measure length") auto

declare json_escape.simps(2) [simp del] unquote.simps(2) [simp del]

text \<open>Valid UTF-8.\<close>

function utf8_valid :: "string \<Rightarrow> bool" where
  "utf8_valid [] = True"
| "utf8_valid (c # s) =
     (if of_char c < (0x80 :: nat) then utf8_valid s
      else case rune_width (c # s) of
        None \<Rightarrow> False
      | Some n \<Rightarrow> utf8_valid (drop (n - 1) s))"
  by pat_completeness auto

termination utf8_valid
  by (relation "measure length") auto

subsection \<open>The scanner\<close>

datatype json_state =
    BeginValue | BeginValueOrEmpty | BeginStringOrEmpty | BeginString
  | InString | InStringEsc | InStringEscU nat
  | Neg | Zero | Digits | Dot | Frac | Expo | ExpoSign | ExpoDigits
  | Lit string | EndValue

datatype json_parse = ParseObjectKey | ParseObjectValue | ParseArrayValue

type_synonym json_config = "json_state \<times> json_parse list"

definition json_space :: "char \<Rightarrow> bool" where
  "json_space c \<longleftrightarrow> c = CHR '' '' \<or> c = CHR 0x09 \<or> c = CHR 0x0D \<or> c = CHR 0x0A"

definition json_push :: "nat \<Rightarrow> json_state \<Rightarrow> json_parse \<Rightarrow> json_parse list \<Rightarrow> json_config option" where
  "json_push lim s p st = (if length st < lim then Some (s, p # st) else None)"

definition end_value :: "json_parse list \<Rightarrow> char \<Rightarrow> json_config option" where
  "end_value st c =
     (if json_space c then Some (EndValue, st)
      else case st of
        [] \<Rightarrow> None
      | ParseObjectKey # r \<Rightarrow> if c = CHR '':'' then Some (BeginValue, ParseObjectValue # r) else None
      | ParseObjectValue # r \<Rightarrow>
          if c = CHR '','' then Some (BeginString, ParseObjectKey # r)
          else if c = CHR ''}'' then Some (EndValue, r) else None
      | ParseArrayValue # r \<Rightarrow>
          if c = CHR '','' then Some (BeginValue, ParseArrayValue # r)
          else if c = CHR '']'' then Some (EndValue, r) else None)"

definition begin_value :: "nat \<Rightarrow> json_state \<Rightarrow> json_parse list \<Rightarrow> char \<Rightarrow> json_config option" where
  "begin_value lim s st c =
     (if json_space c then Some (s, st)
      else if c = CHR ''{'' then json_push lim BeginStringOrEmpty ParseObjectKey st
      else if c = CHR ''['' then json_push lim BeginValueOrEmpty ParseArrayValue st
      else if c = quote then Some (InString, st)
      else if c = CHR ''-'' then Some (Neg, st)
      else if c = CHR ''0'' then Some (Zero, st)
      else if c = CHR ''t'' then Some (Lit ''rue'', st)
      else if c = CHR ''f'' then Some (Lit ''alse'', st)
      else if c = CHR ''n'' then Some (Lit ''ull'', st)
      else if is_digit c then Some (Digits, st)
      else None)"

definition begin_string :: "json_state \<Rightarrow> json_parse list \<Rightarrow> char \<Rightarrow> json_config option" where
  "begin_string s st c =
     (if json_space c then Some (s, st) else if c = quote then Some (InString, st) else None)"

definition after_int :: "json_parse list \<Rightarrow> char \<Rightarrow> json_config option" where
  "after_int st c =
     (if c = CHR ''.'' then Some (Dot, st)
      else if c = CHR ''e'' \<or> c = CHR ''E'' then Some (Expo, st) else end_value st c)"

fun json_step :: "nat \<Rightarrow> json_config \<Rightarrow> char \<Rightarrow> json_config option" where
  "json_step lim (BeginValue, st) c = begin_value lim BeginValue st c"
| "json_step lim (BeginValueOrEmpty, st) c =
     (if c = CHR '']'' then end_value st c else begin_value lim BeginValueOrEmpty st c)"
| "json_step lim (BeginStringOrEmpty, st) c =
     (if c = CHR ''}'' then end_value (ParseObjectValue # tl st) c else begin_string BeginStringOrEmpty st c)"
| "json_step lim (BeginString, st) c = begin_string BeginString st c"
| "json_step lim (InString, st) c =
     (if c = quote then Some (EndValue, st) else if c = backslash then Some (InStringEsc, st)
      else if of_char c < (0x20 :: nat) then None else Some (InString, st))"
| "json_step lim (InStringEsc, st) c =
     (if c = CHR ''u'' then Some (InStringEscU 3, st)
      else if c \<in> set [CHR ''b'', CHR ''f'', CHR ''n'', CHR ''r'', CHR ''t'', backslash, CHR ''/'', quote]
      then Some (InString, st) else None)"
| "json_step lim (InStringEscU n, st) c =
     (if hex_val c = None then None
      else Some (if n = 0 then InString else InStringEscU (n - 1), st))"
| "json_step lim (Neg, st) c =
     (if c = CHR ''0'' then Some (Zero, st) else if is_digit c then Some (Digits, st) else None)"
| "json_step lim (Zero, st) c = after_int st c"
| "json_step lim (Digits, st) c = (if is_digit c then Some (Digits, st) else after_int st c)"
| "json_step lim (Dot, st) c = (if is_digit c then Some (Frac, st) else None)"
| "json_step lim (Frac, st) c =
     (if is_digit c then Some (Frac, st)
      else if c = CHR ''e'' \<or> c = CHR ''E'' then Some (Expo, st) else end_value st c)"
| "json_step lim (Expo, st) c =
     (if c = CHR ''+'' \<or> c = CHR ''-'' then Some (ExpoSign, st)
      else if is_digit c then Some (ExpoDigits, st) else None)"
| "json_step lim (ExpoSign, st) c = (if is_digit c then Some (ExpoDigits, st) else None)"
| "json_step lim (ExpoDigits, st) c = (if is_digit c then Some (ExpoDigits, st) else end_value st c)"
| "json_step lim (Lit cs, st) c =
     (case cs of [] \<Rightarrow> None
      | d # ds \<Rightarrow> if c = d then Some (if ds = [] then EndValue else Lit ds, st) else None)"
| "json_step lim (EndValue, st) c = end_value st c"

fun json_run :: "nat \<Rightarrow> json_config \<Rightarrow> string \<Rightarrow> json_config option" where
  "json_run lim q [] = Some q"
| "json_run lim q (c # cs) =
     (case json_step lim q c of None \<Rightarrow> None | Some q' \<Rightarrow> json_run lim q' cs)"

definition at_end :: "json_state \<Rightarrow> bool" where
  "at_end s \<longleftrightarrow> s \<in> set [EndValue, Zero, Digits, Frac, ExpoDigits]"

abbreviation maxNestingDepth :: nat where "maxNestingDepth \<equiv> 10000"

definition complete :: "nat \<Rightarrow> string \<Rightarrow> bool" where
  "complete lim s =
     (case json_run lim (BeginValue, []) s of Some (q, []) \<Rightarrow> at_end q | _ \<Rightarrow> False)"

definition json_Valid :: "string \<Rightarrow> bool" where
  "json_Valid s = complete maxNestingDepth s"

subsection \<open>Compacting, and the parts of a value\<close>

function html_escape :: "string \<Rightarrow> string" where
  "html_escape [] = []"
| "html_escape (c # s) =
     (if c = CHR ''<'' \<or> c = CHR ''>'' \<or> c = CHR ''&''
      then [backslash, CHR ''u'', CHR ''0'', CHR ''0'',
            lower_hex (of_char c div 16), lower_hex (of_char c mod 16)] @ html_escape s
      else if line_separator (take 3 (c # s))
      then backslash # ''u202'' @ [lower_hex (of_char (s ! 1) mod 16)] @ html_escape (drop 2 s)
      else c # html_escape s)"
  by pat_completeness auto

termination html_escape
  by (relation "measure length") auto

fun strip_space :: "json_config \<Rightarrow> string \<Rightarrow> string" where
  "strip_space q [] = []"
| "strip_space q (c # cs) =
     (case json_step maxNestingDepth q c of
        None \<Rightarrow> []
      | Some q' \<Rightarrow> (if json_space c \<and> fst q \<noteq> InString then [] else [c]) @ strip_space q' cs)"

definition json_Compact :: "string \<Rightarrow> string option" where
  "json_Compact s = (if json_Valid s then Some (html_escape (strip_space (BeginValue, []) s)) else None)"

definition json_trim :: "string \<Rightarrow> string" where
  "json_trim s = rev (dropWhile json_space (rev (dropWhile json_space s)))"

text \<open>The texts between the separators of an object or array: \<open>json_cut\<close> runs inside its
  brackets.\<close>

fun json_cut :: "json_config \<Rightarrow> string \<Rightarrow> string \<Rightarrow> string list" where
  "json_cut q acc [] = []"
| "json_cut q acc (c # cs) =
     (case json_step maxNestingDepth q c of
        None \<Rightarrow> []
      | Some q' \<Rightarrow>
          if snd q' = [] then (if at_end (fst q) then [json_trim acc] else [])
          else if length (snd q) = 1 \<and> at_end (fst q) \<and> (c = CHR '','' \<or> c = CHR '':'')
          then json_trim acc # json_cut q' [] cs
          else json_cut q' (acc @ [c]) cs)"

text \<open>The value at the front of a text, as \<open>json.Decoder\<close> reads it.\<close>

fun json_front :: "json_config \<Rightarrow> string \<Rightarrow> string \<Rightarrow> string option" where
  "json_front q acc [] = (if at_end (fst q) \<and> snd q = [] then Some (json_trim acc) else None)"
| "json_front q acc (c # cs) =
     (case json_step maxNestingDepth q c of
        Some q' \<Rightarrow> json_front q' (acc @ [c]) cs
      | None \<Rightarrow> if at_end (fst q) \<and> snd q = [] then Some (json_trim acc) else None)"

fun pair_up :: "'a list \<Rightarrow> ('a \<times> 'a) list" where
  "pair_up (a # b # xs) = (a, b) # pair_up xs"
| "pair_up _ = []"

definition json_literal :: "string \<Rightarrow> string" where
  "json_literal raw = unquote (butlast (tl raw))"

text \<open>A valid text by the kind of its value.\<close>

datatype json_kind =
    JNull
  | JString string
  | JArray "string list"
  | JObject "(string \<times> string) list"
  | JOther

definition json_kind_of :: "string \<Rightarrow> json_kind" where
  "json_kind_of raw =
     (case json_trim raw of
        [] \<Rightarrow> JOther
      | c # cs \<Rightarrow>
          if c = CHR ''n'' then JNull
          else if c = quote then JString (json_literal (c # cs))
          else if c = CHR ''['' then JArray (json_cut (BeginValueOrEmpty, [ParseArrayValue]) [] cs)
          else if c = CHR ''{''
          then JObject (map (\<lambda>(k, v). (json_literal k, v))
                 (pair_up (json_cut (BeginStringOrEmpty, [ParseObjectKey]) [] cs)))
          else JOther)"

text \<open>Field names of a struct match exactly or up to case; \<open>foldName\<close> also folds the long s
  and the Kelvin sign.\<close>

fun fold_name :: "string \<Rightarrow> string" where
  "fold_name (a # b # c # s) =
     (if [a, b] = [CHR 0xC5, CHR 0xBF] then CHR ''s'' # fold_name (c # s)
      else if [a, b, c] = [CHR 0xE2, CHR 0x84, CHR 0xAA] then CHR ''k'' # fold_name s
      else lower_char a # fold_name (b # c # s))"
| "fold_name [a, b] = (if [a, b] = [CHR 0xC5, CHR 0xBF] then ''s'' else [lower_char a, lower_char b])"
| "fold_name s = map lower_char s"

text \<open>Writing: an array, an object with keys that need no escaping, the sorted map.\<close>

definition json_array :: "string list \<Rightarrow> string" where
  "json_array vs = CHR ''['' # Join vs '','' @ '']''"

definition json_object :: "(string \<times> string) list \<Rightarrow> string" where
  "json_object kvs = CHR ''{'' # Join (map (\<lambda>(k, v). json_string k @ CHR '':'' # v) kvs) '','' @ ''}''"

subsection \<open>String literals round trip\<close>

lemma char_of_less [simp]: "n < 256 \<Longrightarrow> (of_char (char_of n) :: nat) = n"
  by simp

lemma rune_width_bounds: "rune_width s = Some n \<Longrightarrow> 2 \<le> n \<and> n \<le> length s"
  by (induction s rule: rune_width.induct) (auto split: if_splits)

lemma rune_width_take: "rune_width s = Some n \<Longrightarrow> rune_width (take n s @ t) = Some n"
proof (induction s rule: rune_width.induct)
  case (1 a b c d r)
  then show ?case by (cases t; cases "tl t") (auto split: if_splits)
next
  case (2 a b c)
  then show ?case by (cases t; cases "tl t") (auto split: if_splits)
next
  case (3 a b)
  then show ?case by (cases t; cases "tl t") (auto split: if_splits)
qed auto

lemma hex_val_lower_hex: "n < 16 \<Longrightarrow> hex_val (lower_hex n) = Some n"
  by (auto simp: hex_val_def lower_hex_def in_range_def)

lemma getu4_ascii:
  assumes "(of_char c :: nat) < 128"
  shows "getu4 (backslash # CHR ''u'' # CHR ''0'' # CHR ''0'' # lower_hex (of_char c div 16)
      # lower_hex (of_char c mod 16) # t) = Some (of_char c)"
  using assms by (simp add: hex_val_lower_hex) (simp add: hex_val_def in_range_def)

lemma unquote_simple:
  assumes "e \<noteq> CHR ''u''"
  shows "unquote (backslash # e # t) = simple_escape e # unquote t"
proof -
  have "getu4 (backslash # e # t) = None"
    using assms by (cases t rule: getu4.cases) (auto elim: getu4.elims)
  then show ?thesis by (simp add: unquote.simps(2) [of backslash])
qed

lemma unquote_json_char:
  assumes "(of_char c :: nat) < 128"
  shows "unquote (json_char c @ t) = c # unquote t"
proof -
  let ?u = "of_char c < (32 :: nat) \<or> c = CHR ''<'' \<or> c = CHR ''>'' \<or> c = CHR ''&''"
  have u: "unquote ([backslash, CHR ''u'', CHR ''0'', CHR ''0'', lower_hex (of_char c div 16),
      lower_hex (of_char c mod 16)] @ t) = c # unquote t"
    using assms getu4_ascii [OF assms, of t]
    by (simp add: unquote.simps(2) [of backslash] is_surrogate_def encode_rune_def del: getu4.simps)
  have "unquote (c # t) = c # unquote t" if "c \<noteq> backslash"
    using that assms by (simp add: unquote.simps(2))
  with u show ?thesis
    by (auto simp: json_char_def unquote_simple simple_escape_def)
qed

lemma unquote_rune:
  assumes "rune_width r = Some (length r)"
  shows "unquote (r @ t) = r @ unquote t"
proof -
  from assms obtain c s where r: "r = c # s" by (cases r) auto
  have w: "rune_width (c # s @ t) = Some (length r)"
    using rune_width_take [OF assms, of t] by (simp add: r)
  have "of_char c \<ge> (128 :: nat)"
    using assms r by (cases r rule: rune_width.cases) (auto simp: byte_in_def split: if_splits)
  moreover from this have "c \<noteq> backslash" by auto
  ultimately show ?thesis using w by (simp add: r unquote.simps(2) [of c])
qed

lemma unquote_line_separator:
  assumes "line_separator r"
  shows "unquote ((backslash # ''u202'' @ [lower_hex (of_char (last r) mod 16)]) @ t) = r @ unquote t"
proof -
  have "getu4 (backslash # ''u202'' @ lower_hex n # t) = Some (0x2020 + n)" if "n < 16" for n
    using that by (simp add: hex_val_lower_hex) (simp add: hex_val_def in_range_def)
  from this [of 8] this [of 9]
  have u: "getu4 (backslash # ''u202'' @ lower_hex 8 # t) = Some 0x2028"
    "getu4 (backslash # ''u202'' @ lower_hex 9 # t) = Some 0x2029" by simp_all
  have "encode_rune 0x2028 = [CHR 0xE2, CHR 0x80, CHR 0xA8]" "encode_rune 0x2029 = [CHR 0xE2, CHR 0x80, CHR 0xA9]"
    by (simp_all add: encode_rune_def char_of_eq_iff take_bit_eq_mod)
  then show ?thesis
    using assms u
    by (auto simp: line_separator_def unquote.simps(2) [of backslash] is_surrogate_def simp del: getu4.simps)
qed

lemma unquote_json_escape: "utf8_valid s \<Longrightarrow> unquote (json_escape s) = s"
proof (induction s rule: json_escape.induct)
  case (2 c s)
  show ?case
  proof (cases "of_char c < (128 :: nat)")
    case True
    with 2 show ?thesis by (simp add: json_escape.simps(2) unquote_json_char)
  next
    case False
    with 2(4) obtain n where n: "rune_width (c # s) = Some n" "utf8_valid (drop (n - 1) s)"
      by (auto split: option.splits)
    let ?r = "take n (c # s)"
    have len: "length ?r = n" "2 \<le> n" using rune_width_bounds [OF n(1)] by simp_all
    have w: "rune_width ?r = Some (length ?r)" using rune_width_take [OF n(1), of "[]"] len by simp
    have split: "?r @ drop (n - 1) s = c # s" using len by (cases n) auto
    have e: "json_escape (c # s) = (if line_separator ?r then backslash # ''u202'' @
        [lower_hex (of_char (last ?r) mod 16)] else ?r) @ json_escape (drop (n - 1) s)"
      using False n(1) by (simp add: json_escape.simps(2) Let_def)
    have "unquote (json_escape (drop (n - 1) s)) = drop (n - 1) s"
      using 2(3) False n by auto
    then show ?thesis
      unfolding e using unquote_rune [OF w] unquote_line_separator [of ?r] split
      by (simp del: append.simps)
  qed
qed simp

subsection \<open>Runs of the scanner\<close>

lemma json_run_append:
  "json_run lim q (xs @ ys) = (case json_run lim q xs of None \<Rightarrow> None | Some q' \<Rightarrow> json_run lim q' ys)"
  by (induction lim q xs rule: json_run.induct) (auto split: option.splits)

definition framed :: "json_config \<Rightarrow> bool" where
  "framed q \<longleftrightarrow> (fst q = BeginStringOrEmpty \<longrightarrow> snd q \<noteq> [])"

lemma end_value_frame:
  "end_value ps c = Some (s', ps') \<Longrightarrow> end_value (ps @ st) c = Some (s', ps' @ st) \<and> framed (s', ps')"
  by (auto simp: end_value_def framed_def split: if_splits list.splits json_parse.splits)

lemma begin_value_frame:
  assumes "begin_value lim s ps c = Some (s', ps')" "lim + length st \<le> lim'" "framed (s, ps)"
  shows "begin_value lim' s (ps @ st) c = Some (s', ps' @ st) \<and> framed (s', ps')"
  using assms by (auto simp: begin_value_def json_push_def framed_def split: if_splits)

lemma json_step_frame:
  assumes "json_step lim (s, ps) c = Some (s', ps')" "framed (s, ps)" "lim + length st \<le> lim'"
  shows "json_step lim' (s, ps @ st) c = Some (s', ps' @ st) \<and> framed (s', ps')"
  using assms end_value_frame [of _ c s' ps' st] begin_value_frame [OF _ assms(3)]
  by (cases s)
    (auto simp: framed_def after_int_def begin_string_def end_value_def [of "_ # _"]
      split: if_splits list.splits)

lemma json_run_frame:
  assumes "json_run lim (s, ps) xs = Some (s', ps')" "framed (s, ps)" "lim + length st \<le> lim'"
  shows "json_run lim' (s, ps @ st) xs = Some (s', ps' @ st)"
  using assms
proof (induction xs arbitrary: s ps)
  case (Cons c xs)
  then obtain s1 ps1 where "json_step lim (s, ps) c = Some (s1, ps1)" "json_run lim (s1, ps1) xs = Some (s', ps')"
    by (auto split: option.splits)
  with Cons json_step_frame [OF this(1) Cons.prems(2,3)] show ?case by auto
qed simp

lemma at_end_separator: "at_end s \<Longrightarrow> c = CHR '','' \<or> c = CHR '':'' \<Longrightarrow> json_step lim (s, []) c = None"
  by (auto simp: at_end_def after_int_def end_value_def json_space_def is_digit_def in_range_def)

lemma at_end_step:
  "at_end s \<Longrightarrow> c \<in> set [CHR '','', CHR '':'', CHR ''}'', CHR '']''] \<Longrightarrow> json_step lim (s, st) c = end_value st c"
  by (auto simp: at_end_def after_int_def is_digit_def in_range_def)

text \<open>Cutting passes over a complete value inside the brackets.\<close>

lemma json_cut_run:
  assumes "json_run lim (s, ps) xs = Some (s', ps')" "framed (s, ps)" "lim < maxNestingDepth"
  shows "json_cut (s, ps @ [p]) acc (xs @ rest) = json_cut (s', ps' @ [p]) (acc @ xs) rest"
  using assms
proof (induction xs arbitrary: s ps acc)
  case (Cons c xs)
  then obtain s1 ps1 where st: "json_step lim (s, ps) c = Some (s1, ps1)" "json_run lim (s1, ps1) xs = Some (s', ps')"
    by (auto split: option.splits)
  have f: "json_step maxNestingDepth (s, ps @ [p]) c = Some (s1, ps1 @ [p])" "framed (s1, ps1)"
    using json_step_frame [OF st(1) Cons.prems(2), of "[p]" maxNestingDepth] Cons.prems(3) by auto
  have "\<not> (length (ps @ [p]) = 1 \<and> at_end s \<and> (c = CHR '','' \<or> c = CHR '':''))"
    using at_end_separator [of s c lim] st(1) by auto
  with f Cons.IH [OF st(2) f(2) Cons.prems(3), of "acc @ [c]"] show ?case by auto
qed simp

text \<open>Complete values without surrounding space.\<close>

lemma complete_iff:
  "complete lim v \<longleftrightarrow> (\<exists>s. json_run lim (BeginValue, []) v = Some (s, []) \<and> at_end s)"
  by (cases "json_run lim (BeginValue, []) v"; cases "snd (the (json_run lim (BeginValue, []) v))")
    (auto simp: complete_def)

definition value_ok :: "nat \<Rightarrow> string \<Rightarrow> bool" where
  "value_ok lim v \<longleftrightarrow> complete lim v \<and> json_trim v = v"

lemma json_trim_tight:
  "v \<noteq> [] \<Longrightarrow> \<not> json_space (hd v) \<Longrightarrow> \<not> json_space (last v) \<Longrightarrow> json_trim v = v"
  by (metis dropWhile_eq_self_iff hd_rev json_trim_def rev_rev_ident)

lemma value_ok_run:
  assumes "value_ok lim v" "lim + length st \<le> lim'"
  obtains s where "json_run lim' (BeginValue, st) v = Some (s, st)" "at_end s"
proof -
  from assms(1) obtain s where "json_run lim (BeginValue, []) v = Some (s, [])" "at_end s"
    by (auto simp: value_ok_def complete_iff)
  then show ?thesis
    using that json_run_frame [OF _ _ assms(2), of BeginValue "[]"] by (auto simp: framed_def)
qed

lemma value_ok_cut:
  assumes "value_ok lim v" "lim < maxNestingDepth"
  obtains s where "\<And>acc rest. json_cut (BeginValue, [p]) acc (v @ rest) = json_cut (s, [p]) (acc @ v) rest" "at_end s"
proof -
  from assms(1) obtain s where "json_run lim (BeginValue, []) v = Some (s, [])" "at_end s"
    by (auto simp: value_ok_def complete_iff)
  then show ?thesis
    using that json_cut_run [OF _ _ assms(2), of BeginValue "[]"] by (auto simp: framed_def)
qed

lemma value_ok_mono: "value_ok lim v \<Longrightarrow> lim \<le> lim' \<Longrightarrow> value_ok lim' v"
  using json_run_frame [of lim BeginValue "[]" v _ _ "[]" lim']
  by (fastforce simp: value_ok_def complete_iff framed_def)

subsection \<open>Strings, objects and arrays as values\<close>

lemma byte_in_high: "byte_in lo hi c \<Longrightarrow> 128 \<le> lo \<Longrightarrow> 128 \<le> (of_char c :: nat)"
  by (simp add: byte_in_def)

lemma rune_width_high: "rune_width r = Some n \<Longrightarrow> list_all (\<lambda>c. 128 \<le> (of_char c :: nat)) (take n r)"
  by (induction r rule: rune_width.induct) (auto split: if_splits elim!: byte_in_high)

lemma json_run_high:
  "list_all (\<lambda>c. 128 \<le> (of_char c :: nat)) r \<Longrightarrow> json_run lim (InString, st) r = Some (InString, st)"
proof (induction r)
  case (Cons c r)
  then have "c \<noteq> quote" "c \<noteq> backslash" by auto
  with Cons show ?case by simp
qed simp

lemma hex_val_some [simp]: "n < 16 \<Longrightarrow> hex_val (lower_hex n) = None \<longleftrightarrow> False"
  by (simp add: hex_val_lower_hex)

lemma hex_digits [simp]: "hex_val CHR ''0'' = Some 0" "hex_val CHR ''2'' = Some 2" "hex_val CHR ''f'' = Some 15"
  "hex_val CHR ''d'' = Some 13"
  by (simp_all add: hex_val_def in_range_def)

lemma json_run_char:
  assumes "(of_char c :: nat) < 128"
  shows "json_run lim (InString, st) (json_char c) = Some (InString, st)"
  using assms by (auto simp: json_char_def)

lemma json_run_escape: "json_run lim (InString, st) (json_escape s) = Some (InString, st)"
proof (induction s rule: json_escape.induct)
  case (2 c s)
  show ?case
  proof (cases "of_char c < (128 :: nat)")
    case True
    with 2 show ?thesis by (simp add: json_escape.simps(2) json_run_append json_run_char)
  next
    case False
    show ?thesis
    proof (cases "rune_width (c # s)")
      case None
      with False 2 show ?thesis by (simp add: json_escape.simps(2))
    next
      case (Some n)
      let ?r = "take n (c # s)"
      have "json_run lim (InString, st) ?r = Some (InString, st)"
        using rune_width_high [OF Some] by (rule json_run_high)
      moreover have "json_run lim (InString, st) (backslash # ''u202'' @ [lower_hex (of_char (last ?r) mod 16)])
          = Some (InString, st)"
        by simp
      moreover have "json_run lim (InString, st) (json_escape (drop (n - 1) s)) = Some (InString, st)"
        using 2(3) False Some by simp
      ultimately show ?thesis
        using False Some by (simp add: json_escape.simps(2) json_run_append Let_def del: json_run.simps take_Cons')
    qed
  qed
qed simp

lemma json_run_string: "json_run lim (InString, st) (json_escape k @ [quote]) = Some (EndValue, st)"
  by (simp add: json_run_append json_run_escape)

lemma value_ok_string: "value_ok lim (json_string k)"
  using json_run_string [of lim "[]" k]
  by (auto simp: value_ok_def complete_def json_string_def begin_value_def json_space_def at_end_def
      intro!: json_trim_tight)

lemma json_literal_string: "utf8_valid k \<Longrightarrow> json_literal (json_string k) = k"
  by (simp add: json_literal_def json_string_def unquote_json_escape butlast_append)

lemma value_ok_null: "value_ok lim ''null''"
  by (simp add: value_ok_def complete_def begin_value_def json_space_def at_end_def json_trim_def)

lemma json_trim_string [simp]: "json_trim (json_string k) = json_string k"
  using value_ok_string [of 0 k] by (simp add: value_ok_def)

text \<open>One member: from the start of a key to the end of its value.\<close>

abbreviation member :: "string \<times> string \<Rightarrow> string" where
  "member kv \<equiv> (case kv of (k, v) \<Rightarrow> json_string k @ CHR '':'' # v)"

lemma key_run:
  assumes "s = BeginString \<or> s = BeginStringOrEmpty" "st \<noteq> []"
  shows "json_run lim (s, st) (json_string k) = Some (EndValue, st)"
  using assms json_run_string [of lim st k] by (auto simp: json_string_def begin_string_def json_space_def)

lemma key_cut:
  assumes "s = BeginString \<or> s = BeginStringOrEmpty"
  shows "json_cut (s, [p]) [] (json_string k @ rest) = json_cut (EndValue, [p]) (json_string k) rest"
  using assms json_cut_run [OF json_run_string [of 0 "[]" k], of p "[quote]" rest]
  by (auto simp: json_string_def begin_string_def json_space_def framed_def at_end_def)

lemma member_run:
  assumes "s = BeginString \<or> s = BeginStringOrEmpty" "value_ok lim v" "lim + Suc (length st) \<le> lim'"
  obtains s' where "json_run lim' (s, ParseObjectKey # st) (member (k, v)) = Some (s', ParseObjectValue # st)"
    "at_end s'"
proof -
  from value_ok_run [OF assms(2), of "ParseObjectValue # st" lim'] assms(3) obtain s' where
    "json_run lim' (BeginValue, ParseObjectValue # st) v = Some (s', ParseObjectValue # st)" "at_end s'"
    by auto
  then show ?thesis
    using that key_run [OF assms(1), of "ParseObjectKey # st" lim' k]
    by (simp add: json_run_append end_value_def json_space_def)
qed

lemma members_run:
  assumes "kvs \<noteq> []" "s = BeginString \<or> s = BeginStringOrEmpty"
    and "list_all (\<lambda>(k, v). value_ok lim v) kvs" "lim + Suc (length st) \<le> lim'"
  shows "json_run lim' (s, ParseObjectKey # st) (Join (map member kvs) '','' @ ''}'') = Some (EndValue, st)"
  using assms
proof (induction kvs arbitrary: s)
  case (Cons kv kvs)
  obtain k v where kv: "kv = (k, v)" by fastforce
  from Cons.prems kv obtain s' where
    r: "json_run lim' (s, ParseObjectKey # st) (member kv) = Some (s', ParseObjectValue # st)" "at_end s'"
    using member_run [of s lim v st lim' k thesis] by auto
  have a: "json_run lim' (s, ParseObjectKey # st) (member kv @ rest) = json_run lim' (s', ParseObjectValue # st) rest"
    for rest
    unfolding json_run_append r by simp
  show ?case
  proof (cases kvs)
    case Nil
    then show ?thesis
      using a [of "''}''"] at_end_step [OF r(2), of "CHR ''}''" lim' "ParseObjectValue # st"]
      by (simp add: end_value_def json_space_def)
  next
    case (Cons kv' kvs')
    have IH: "json_run lim' (BeginString, ParseObjectKey # st) (Join (map member kvs) '','' @ ''}'') = Some (EndValue, st)"
      using Cons.IH [of BeginString] Cons.prems Cons by auto
    have j: "Join (map member (kv # kvs)) '','' = member kv @ CHR '','' # Join (map member kvs) '',''"
      by (simp add: Cons)
    show ?thesis
      unfolding j append_assoc a using IH at_end_step [OF r(2), of "CHR '',''" lim' "ParseObjectValue # st"]
      by (simp add: end_value_def json_space_def del: Join.simps)
  qed
qed simp

lemma value_ok_object:
  assumes "list_all (\<lambda>(k, v). value_ok lim v) kvs"
  shows "value_ok (Suc lim) (json_object kvs)"
proof -
  have "json_run (Suc lim) (BeginValue, []) (json_object kvs) = Some (EndValue, [])"
  proof (cases "kvs = []")
    case True
    then show ?thesis by (simp add: json_object_def begin_value_def json_push_def json_space_def end_value_def)
  next
    case False
    with members_run [OF False _ assms, of BeginStringOrEmpty "[]" "Suc lim"] show ?thesis
      by (simp add: json_object_def begin_value_def json_push_def json_space_def)
  qed
  then show ?thesis
    by (auto simp: value_ok_def complete_iff at_end_def json_object_def json_space_def intro!: json_trim_tight)
qed

lemma members_cut:
  assumes "kvs \<noteq> []" "s = BeginString \<or> s = BeginStringOrEmpty"
    and "list_all (\<lambda>(k, v). value_ok lim v) kvs" "lim < maxNestingDepth"
  shows "json_cut (s, [ParseObjectKey]) [] (Join (map member kvs) '','' @ ''}'') =
    concat (map (\<lambda>(k, v). [json_string k, v]) kvs)"
  using assms
proof (induction kvs arbitrary: s)
  case (Cons kv kvs)
  obtain k v where kv: "kv = (k, v)" by fastforce
  with Cons.prems have v: "value_ok lim v" "json_trim v = v" by (auto simp: value_ok_def)
  from value_ok_cut [OF v(1) Cons.prems(4), of ParseObjectValue] obtain s' where
    c: "\<And>acc rest. json_cut (BeginValue, [ParseObjectValue]) acc (v @ rest) = json_cut (s', [ParseObjectValue]) (acc @ v) rest"
    and e: "at_end s'" by blast
  have m: "json_cut (s, [ParseObjectKey]) [] (member kv @ rest) = json_string k # json_cut (s', [ParseObjectValue]) v rest" for rest
    using key_cut [OF Cons.prems(2), of ParseObjectKey k] c [of "[]" rest]
    by (simp add: kv end_value_def json_space_def at_end_def)
  show ?case
  proof (cases kvs)
    case Nil
    then show ?thesis
      using m [of "''}''"] e v at_end_step [OF e, of "CHR ''}''" maxNestingDepth "[ParseObjectValue]"]
      by (simp add: kv end_value_def json_space_def)
  next
    case (Cons kv' kvs')
    have IH: "json_cut (BeginString, [ParseObjectKey]) [] (Join (map member kvs) '','' @ ''}'') =
        concat (map (\<lambda>(k, v). [json_string k, v]) kvs)"
      using Cons.IH [of BeginString] Cons.prems Cons by auto
    have j: "Join (map member (kv # kvs)) '','' @ ''}'' = member kv @ (CHR '','' # Join (map member kvs) '','' @ ''}'')"
      by (simp add: Cons)
    show ?thesis
      unfolding j m using IH e v at_end_step [OF e, of "CHR '',''" maxNestingDepth "[ParseObjectValue]"]
      by (simp add: kv end_value_def json_space_def del: Join.simps)
  qed
qed simp

lemma pair_up_members: "pair_up (concat (map (\<lambda>(k, v). [f k, v]) kvs)) = map (\<lambda>(k, v). (f k, v)) kvs"
  by (induction kvs) auto

lemma json_kind_object:
  assumes "list_all (\<lambda>(k, v). utf8_valid k \<and> value_ok lim v) kvs" "lim < maxNestingDepth"
  shows "json_kind_of (json_object kvs) = JObject kvs"
proof -
  have ok: "list_all (\<lambda>(k, v). value_ok lim v) kvs" using assms(1) by (auto simp: list_all_iff)
  have t: "json_trim (json_object kvs) = json_object kvs"
    using value_ok_object [OF ok] by (simp add: value_ok_def)
  have "json_cut (BeginStringOrEmpty, [ParseObjectKey]) [] (Join (map member kvs) '','' @ ''}'') =
      concat (map (\<lambda>(k, v). [json_string k, v]) kvs)"
    using members_cut [OF _ _ ok assms(2)] by (cases kvs) (auto simp: end_value_def at_end_def json_space_def)
  moreover have "map ((\<lambda>(k, v). (json_literal k, v)) \<circ> (\<lambda>(k, v). (json_string k, v))) kvs = kvs"
    using assms(1) by (induction kvs) (auto simp: json_literal_string)
  ultimately show ?thesis
    unfolding json_kind_of_def t by (simp add: json_object_def pair_up_members)
qed

text \<open>The first element: a complete value does not start with a closing bracket, so the two
  beginnings of an array agree on it.\<close>

lemma value_ok_first_step:
  assumes "value_ok lim v" "s = BeginValue \<or> s = BeginValueOrEmpty"
  obtains c r where "v = c # r" "json_step lim' (s, st) c = json_step lim' (BeginValue, st) c"
proof -
  from assms(1) obtain c r where v: "v = c # r"
    by (cases v) (auto simp: value_ok_def complete_iff at_end_def)
  from assms(1) have "\<not> json_space c"
    using v length_dropWhile_le [of json_space r] length_dropWhile_le [of json_space "rev (dropWhile json_space r)"]
    by (auto simp: value_ok_def json_trim_def dest!: arg_cong [where f = length])
  moreover from assms(1) v have "c \<noteq> CHR '']''"
    by (auto simp: value_ok_def complete_iff begin_value_def json_space_def is_digit_def in_range_def)
  ultimately show ?thesis using that [OF v] assms(2) by (auto simp: begin_value_def)
qed

lemma value_ok_first:
  assumes "value_ok lim v" "s = BeginValue \<or> s = BeginValueOrEmpty"
  shows "json_run lim' (s, st) v = json_run lim' (BeginValue, st) v"
  using value_ok_first_step [OF assms, of lim' st] by fastforce

lemma value_ok_first_cut:
  assumes "value_ok lim v" "s = BeginValue \<or> s = BeginValueOrEmpty"
  shows "json_cut (s, st) acc (v @ rest) = json_cut (BeginValue, st) acc (v @ rest)"
proof -
  have e: "at_end s = at_end BeginValue" using assms(2) by (auto simp: at_end_def)
  obtain c r where v: "v = c # r" "json_step maxNestingDepth (s, st) c = json_step maxNestingDepth (BeginValue, st) c"
    using value_ok_first_step [OF assms] .
  then show ?thesis by (simp only: append_Cons json_cut.simps fst_conv snd_conv e v)
qed

lemma elems_run:
  assumes "vs \<noteq> []" "s = BeginValue \<or> s = BeginValueOrEmpty"
    and "list_all (value_ok lim) vs" "lim + Suc (length st) \<le> lim'"
  shows "json_run lim' (s, ParseArrayValue # st) (Join vs '','' @ '']'') = Some (EndValue, st)"
  using assms
proof (induction vs arbitrary: s)
  case (Cons v vs)
  from Cons.prems obtain s' where
    r: "json_run lim' (BeginValue, ParseArrayValue # st) v = Some (s', ParseArrayValue # st)" "at_end s'"
    using value_ok_run [of lim v "ParseArrayValue # st" lim' thesis] by auto
  have a: "json_run lim' (s, ParseArrayValue # st) (v @ rest) = json_run lim' (s', ParseArrayValue # st) rest"
    for rest
  proof -
    have "value_ok lim v" using Cons.prems(3) by simp
    from value_ok_first [OF this Cons.prems(2), of lim' "ParseArrayValue # st"] r show ?thesis
      by (simp add: json_run_append)
  qed
  show ?case
  proof (cases vs)
    case Nil
    then show ?thesis
      using a [of "'']''"] at_end_step [OF r(2), of "CHR '']''" lim' "ParseArrayValue # st"]
      by (simp add: end_value_def json_space_def)
  next
    case (Cons v' vs')
    have IH: "json_run lim' (BeginValue, ParseArrayValue # st) (Join vs '','' @ '']'') = Some (EndValue, st)"
      using Cons.IH [of BeginValue] Cons.prems Cons by auto
    have j: "Join (v # vs) '','' @ '']'' = v @ (CHR '','' # Join vs '','' @ '']'')"
      by (simp add: Cons)
    show ?thesis
      unfolding j a using IH at_end_step [OF r(2), of "CHR '',''" lim' "ParseArrayValue # st"]
      by (simp add: end_value_def json_space_def del: Join.simps)
  qed
qed simp

lemma value_ok_array:
  assumes "list_all (value_ok lim) vs"
  shows "value_ok (Suc lim) (json_array vs)"
proof -
  have "json_run (Suc lim) (BeginValue, []) (json_array vs) = Some (EndValue, [])"
  proof (cases "vs = []")
    case True
    then show ?thesis by (simp add: json_array_def begin_value_def json_push_def json_space_def end_value_def)
  next
    case False
    with elems_run [OF False _ assms, of BeginValueOrEmpty "[]" "Suc lim"] show ?thesis
      by (simp add: json_array_def begin_value_def json_push_def json_space_def)
  qed
  then show ?thesis
    by (auto simp: value_ok_def complete_iff at_end_def json_array_def json_space_def intro!: json_trim_tight)
qed

lemma elems_cut:
  assumes "vs \<noteq> []" "s = BeginValue \<or> s = BeginValueOrEmpty"
    and "list_all (value_ok lim) vs" "lim < maxNestingDepth"
  shows "json_cut (s, [ParseArrayValue]) [] (Join vs '','' @ '']'') = vs"
  using assms
proof (induction vs arbitrary: s)
  case (Cons v vs)
  then have v: "value_ok lim v" "json_trim v = v" by (auto simp: value_ok_def)
  from value_ok_cut [OF v(1) Cons.prems(4), of ParseArrayValue] obtain s' where
    c: "\<And>acc rest. json_cut (BeginValue, [ParseArrayValue]) acc (v @ rest) = json_cut (s', [ParseArrayValue]) (acc @ v) rest"
    and e: "at_end s'" by blast
  have m: "json_cut (s, [ParseArrayValue]) [] (v @ rest) = json_cut (s', [ParseArrayValue]) v rest" for rest
    using c [of "[]" rest] value_ok_first_cut [OF v(1) Cons.prems(2)] by simp
  show ?case
  proof (cases vs)
    case Nil
    then show ?thesis
      using m [of "'']''"] e v at_end_step [OF e, of "CHR '']''" maxNestingDepth "[ParseArrayValue]"]
      by (simp add: end_value_def json_space_def)
  next
    case (Cons v' vs')
    have IH: "json_cut (BeginValue, [ParseArrayValue]) [] (Join vs '','' @ '']'') = vs"
      using Cons.IH [of BeginValue] Cons.prems Cons by auto
    have j: "Join (v # vs) '','' @ '']'' = v @ (CHR '','' # Join vs '','' @ '']'')"
      by (simp add: Cons)
    show ?thesis
      unfolding j m using IH e v at_end_step [OF e, of "CHR '',''" maxNestingDepth "[ParseArrayValue]"]
      by (simp add: end_value_def json_space_def del: Join.simps)
  qed
qed simp

lemma json_kind_array:
  assumes "list_all (value_ok lim) vs" "lim < maxNestingDepth"
  shows "json_kind_of (json_array vs) = JArray vs"
proof -
  have t: "json_trim (json_array vs) = json_array vs"
    using value_ok_array [OF assms(1)] by (simp add: value_ok_def)
  have "json_cut (BeginValueOrEmpty, [ParseArrayValue]) [] (Join vs '','' @ '']'') = vs"
    using elems_cut [OF _ _ assms] by (cases vs) (auto simp: end_value_def at_end_def json_space_def)
  then show ?thesis
    unfolding json_kind_of_def t by (simp add: json_array_def)
qed

lemma json_kind_string: "utf8_valid s \<Longrightarrow> json_kind_of (json_string s) = JString s"
  using json_literal_string [of s] unfolding json_kind_of_def json_trim_string
  by (simp add: json_string_def)

lemma json_front_run:
  assumes "json_run maxNestingDepth q xs = Some q'" "at_end (fst q')" "snd q' = []"
  shows "json_front q acc xs = Some (json_trim (acc @ xs))"
  using assms by (induction xs arbitrary: q acc) (auto split: option.splits)

lemma json_front_value: "value_ok lim v \<Longrightarrow> lim \<le> maxNestingDepth \<Longrightarrow> json_front (BeginValue, []) [] v = Some v"
  using value_ok_mono [of lim v maxNestingDepth] json_front_run [of "(BeginValue, [])" v]
  by (fastforce simp: value_ok_def complete_iff)

lemma value_ok_Valid: "value_ok lim v \<Longrightarrow> lim \<le> maxNestingDepth \<Longrightarrow> json_Valid v"
  using value_ok_mono [of lim v maxNestingDepth] by (simp add: value_ok_def json_Valid_def)

end
