(* ===== verification/Connect_Wire.thy ===== *)
theory Connect_Wire
  imports Go_Json Grpc_Status
begin

section \<open>Errors on the wire of the Connect protocol (connecthttp/protocol_connect.go)\<close>

text \<open>
  The JSON forms of errors, error details and the end-of-stream message: \<open>connectWireError\<close>,
  \<open>connectWireDetail\<close> and \<open>connectEndStreamMessage\<close> with their \<open>MarshalJSON\<close> and
  \<open>UnmarshalJSON\<close>. A type registry that can render a detail as JSON for debugging is not part of
  the repository: it is the argument \<open>registry\<close>. The main lemma is the round trip of an error.
\<close>

record connect_wire_error =
  we_Code :: code
  we_Message :: string
  we_Details :: "error_detail option list"

record connect_end_stream_message =
  es_Error :: "connect_wire_error option"
  es_Trailer :: http_header

abbreviation no_wire_error :: connect_wire_error where
  "no_wire_error \<equiv> \<lparr>we_Code = 0, we_Message = [], we_Details = []\<rparr>"

subsection \<open>Writing\<close>

definition wire_debug :: "(error_detail \<Rightarrow> string option) \<Rightarrow> error_detail \<Rightarrow> string" where
  "wire_debug registry d =
     (if json_Valid (string_of_bytes (Debug d)) then string_of_bytes (Debug d)
      else case registry d of Some t \<Rightarrow> t | None \<Rightarrow> [])"

definition connectWireDetail_MarshalJSON ::
  "(error_detail \<Rightarrow> string option) \<Rightarrow> error_detail \<Rightarrow> string option" where
  "connectWireDetail_MarshalJSON registry d =
     (let fields = [(''type'', json_string (Type d)),
                    (''value'', json_string (b64_encode std_alphabet False (Value d)))];
          debug = wire_debug registry d
      in if debug = [] then Some (json_object fields)
         else map_option (\<lambda>t. json_object (fields @ [(''debug'', t)])) (json_Compact debug))"

definition newConnectWireError :: "go_error \<Rightarrow> connect_wire_error" where
  "newConnectWireError err =
     (case asError err of
        None \<Rightarrow> \<lparr>we_Code = CodeUnknown, we_Message = error_text err, we_Details = []\<rparr>
      | Some connectErr \<Rightarrow>
          \<lparr>we_Code = Error_Code connectErr, we_Message = Error_Message connectErr,
           we_Details = map Some (Error_Details connectErr)\<rparr>)"

definition marshal_wire_detail ::
  "(error_detail \<Rightarrow> string option) \<Rightarrow> error_detail option \<Rightarrow> string option" where
  "marshal_wire_detail registry d =
     (case d of None \<Rightarrow> Some ''null'' | Some detail \<Rightarrow> connectWireDetail_MarshalJSON registry detail)"

text \<open>\<open>json.Marshal\<close> of a \<open>connectWireError\<close> and of a \<open>connectEndStreamMessage\<close>, by their field
  tags; \<open>None\<close> is a marshalling error.\<close>

definition marshal_wire_error ::
  "(error_detail \<Rightarrow> string option) \<Rightarrow> connect_wire_error \<Rightarrow> string option" where
  "marshal_wire_error registry e =
     map_option (\<lambda>ds. json_object
         ([(''code'', json_string (string_of_bytes (Code_MarshalText (we_Code e))))]
          @ (if we_Message e = [] then [] else [(''message'', json_string (we_Message e))])
          @ (if ds = [] then [] else [(''details'', json_array ds)])))
       (those (map (marshal_wire_detail registry) (we_Details e)))"

definition marshal_trailer :: "http_header \<Rightarrow> string" where
  "marshal_trailer h = json_object (map (\<lambda>(k, vs). (k, json_array (map json_string vs))) (sort_key fst h))"

definition marshal_end_stream ::
  "(error_detail \<Rightarrow> string option) \<Rightarrow> connect_end_stream_message \<Rightarrow> string option" where
  "marshal_end_stream registry e =
     (let metadata = (if length (es_Trailer e) = 0 then [] else [(''metadata'', marshal_trailer (es_Trailer e))]) in
      case es_Error e of
        None \<Rightarrow> Some (json_object metadata)
      | Some w \<Rightarrow> map_option (\<lambda>t. json_object ((''error'', t) # metadata)) (marshal_wire_error registry w))"

subsection \<open>Reading\<close>

definition json_type_error :: go_error where
  "json_type_error = Plain ''json: cannot unmarshal value into Go value''"

definition json_syntax_error :: go_error where
  "json_syntax_error = Plain ''invalid character in JSON input''"

text \<open>The members of an object are decoded one after the other into the fields of a struct; the
  first error is the result.\<close>

fun decode_fields ::
  "(string \<Rightarrow> string \<Rightarrow> 's \<Rightarrow> go_error + 's) \<Rightarrow> (string \<times> string) list \<Rightarrow> 's \<Rightarrow> go_error + 's" where
  "decode_fields f [] s = Inr s"
| "decode_fields f ((k, raw) # ms) s =
     (case f k raw s of Inl err \<Rightarrow> Inl err | Inr s' \<Rightarrow> decode_fields f ms s')"

definition decode_struct :: "(string \<Rightarrow> string \<Rightarrow> 's \<Rightarrow> go_error + 's) \<Rightarrow> string \<Rightarrow> 's \<Rightarrow> go_error + 's" where
  "decode_struct f raw s =
     (case json_kind_of raw of
        JNull \<Rightarrow> Inr s
      | JObject ms \<Rightarrow> decode_fields f ms s
      | _ \<Rightarrow> Inl json_type_error)"

fun decode_list :: "(string \<Rightarrow> go_error + 'a) \<Rightarrow> string list \<Rightarrow> go_error + 'a list" where
  "decode_list f [] = Inr []"
| "decode_list f (raw # rs) =
     (case f raw of
        Inl err \<Rightarrow> Inl err
      | Inr x \<Rightarrow> (case decode_list f rs of Inl err \<Rightarrow> Inl err | Inr xs \<Rightarrow> Inr (x # xs)))"

definition decode_array :: "(string \<Rightarrow> go_error + 'a) \<Rightarrow> string \<Rightarrow> go_error + 'a list" where
  "decode_array f raw =
     (case json_kind_of raw of
        JNull \<Rightarrow> Inr []
      | JArray rs \<Rightarrow> decode_list f rs
      | _ \<Rightarrow> Inl json_type_error)"

definition decode_string :: "string \<Rightarrow> string \<Rightarrow> go_error + string" where
  "decode_string raw old =
     (case json_kind_of raw of
        JNull \<Rightarrow> Inr old
      | JString s \<Rightarrow> Inr s
      | _ \<Rightarrow> Inl json_type_error)"

definition field_is :: "string list \<Rightarrow> string \<Rightarrow> string \<Rightarrow> bool" where
  "field_is names k name \<longleftrightarrow> k = name \<or> k \<notin> set names \<and> fold_name k = name"

definition map_sum_right :: "('a \<Rightarrow> 'b) \<Rightarrow> 'e + 'a \<Rightarrow> 'e + 'b" where
  "map_sum_right f r = (case r of Inl e \<Rightarrow> Inl e | Inr x \<Rightarrow> Inr (f x))"

definition wire_detail_field ::
  "string \<Rightarrow> string \<Rightarrow> string \<times> string \<times> string \<Rightarrow> go_error + string \<times> string \<times> string" where
  "wire_detail_field k raw s =
     (let (ty, val, debug) = s; field = field_is [''type'', ''value'', ''debug''] k in
      if field ''type'' then map_sum_right (\<lambda>t. (t, val, debug)) (decode_string raw ty)
      else if field ''value'' then map_sum_right (\<lambda>v. (ty, v, debug)) (decode_string raw val)
      else if field ''debug'' then Inr (ty, val, json_trim raw)
      else Inr s)"

definition connectWireDetail_UnmarshalJSON :: "string \<Rightarrow> go_error + error_detail" where
  "connectWireDetail_UnmarshalJSON raw =
     (case decode_struct wire_detail_field raw ([], [], []) of
        Inl err \<Rightarrow> Inl err
      | Inr (ty, val, debug) \<Rightarrow>
          (case DecodeBinaryHeader val of
             Inl err \<Rightarrow> Inl (Wrap (''decode base64: '' @ error_text err) err)
           | Inr bs \<Rightarrow> Inr \<lparr>Type = ty, Value = bs, Debug = bytes_of_string debug\<rparr>))"

definition wire_detail_pointer :: "string \<Rightarrow> go_error + error_detail option" where
  "wire_detail_pointer raw =
     (if json_kind_of raw = JNull then Inr None
      else map_sum_right Some (connectWireDetail_UnmarshalJSON raw))"

definition wire_error_field ::
  "string \<Rightarrow> string \<Rightarrow> string \<times> string \<times> error_detail option list
     \<Rightarrow> go_error + string \<times> string \<times> error_detail option list" where
  "wire_error_field k raw s =
     (let (code, message, details) = s; field = field_is [''code'', ''message'', ''details''] k in
      if field ''code'' then map_sum_right (\<lambda>c. (c, message, details)) (decode_string raw code)
      else if field ''message'' then map_sum_right (\<lambda>m. (code, m, details)) (decode_string raw message)
      else if field ''details''
      then map_sum_right (\<lambda>ds. (code, message, ds)) (decode_array wire_detail_pointer raw)
      else Inr s)"

definition connectWireError_UnmarshalJSON ::
  "string \<Rightarrow> connect_wire_error \<Rightarrow> go_error + connect_wire_error" where
  "connectWireError_UnmarshalJSON raw e =
     (case decode_struct wire_error_field raw ([], [], []) of
        Inl err \<Rightarrow> Inl err
      | Inr (code, message, details) \<Rightarrow>
          Inr \<lparr>we_Code = (case Code_UnmarshalText (bytes_of_string code) of
                            Inl _ \<Rightarrow> we_Code e | Inr c \<Rightarrow> c),
               we_Message = message, we_Details = details\<rparr>)"

definition connectWireError_asError :: "connect_wire_error option \<Rightarrow> connect_error option" where
  "connectWireError_asError e =
     map_option (\<lambda>e.
       let code = (if we_Code e < CodeCanceled \<or> we_Code e > CodeUnauthenticated then CodeUnknown
                   else we_Code e)
       in foldl WithDetail (WithRemote (NewError code (we_Message e))) (we_Details e)) e"

definition trailer_string :: "string \<Rightarrow> go_error + string" where
  "trailer_string raw = decode_string raw []"

fun decode_trailer :: "(string \<times> string) list \<Rightarrow> http_header \<Rightarrow> go_error + http_header" where
  "decode_trailer [] h = Inr h"
| "decode_trailer ((k, raw) # ms) h =
     (case decode_array trailer_string raw of
        Inl err \<Rightarrow> Inl err
      | Inr vs \<Rightarrow> decode_trailer ms (AList.update k vs h))"

definition end_stream_field ::
  "string \<Rightarrow> string \<Rightarrow> connect_end_stream_message \<Rightarrow> go_error + connect_end_stream_message" where
  "end_stream_field k raw s =
     (let field = field_is [''error'', ''metadata''] k in
      if field ''error'' then
        (if json_kind_of raw = JNull then Inr (s\<lparr>es_Error := None\<rparr>)
         else map_sum_right (\<lambda>e. s\<lparr>es_Error := Some e\<rparr>)
                (connectWireError_UnmarshalJSON raw
                   (case es_Error s of None \<Rightarrow> no_wire_error | Some e \<Rightarrow> e)))
      else if field ''metadata'' then
        (case json_kind_of raw of
           JNull \<Rightarrow> Inr (s\<lparr>es_Trailer := []\<rparr>)
         | JObject ms \<Rightarrow> map_sum_right (\<lambda>h. s\<lparr>es_Trailer := h\<rparr>) (decode_trailer ms (es_Trailer s))
         | _ \<Rightarrow> Inl json_type_error)
      else Inr s)"

text \<open>\<open>json.Unmarshal\<close> into a \<open>connectEndStreamMessage\<close>, and \<open>json.NewDecoder(src).Decode\<close> into a
  \<open>connectWireError\<close>.\<close>

definition unmarshal_end_stream :: "string \<Rightarrow> go_error + connect_end_stream_message" where
  "unmarshal_end_stream data =
     (if \<not> json_Valid data then Inl json_syntax_error
      else decode_struct end_stream_field data \<lparr>es_Error = None, es_Trailer = []\<rparr>)"

definition decode_wire_error :: "bytes \<Rightarrow> go_error + connect_wire_error" where
  "decode_wire_error src =
     (case json_front (BeginValue, []) [] (string_of_bytes src) of
        None \<Rightarrow> Inl json_syntax_error
      | Some raw \<Rightarrow> connectWireError_UnmarshalJSON raw no_wire_error)"

text \<open>The keys of a received trailer are made canonical.\<close>

definition canonical_trailer :: "http_header \<Rightarrow> http_header" where
  "canonical_trailer h =
     foldl (\<lambda>t (name, vals).
         let canonical = CanonicalMIMEHeaderKey name in
         if name \<noteq> canonical then append_values (delHeaderCanonical t name) canonical vals else t) h h"

subsection \<open>Round trip\<close>

lemma utf8_valid_ascii: "list_all (\<lambda>c. (of_char c :: nat) < 128) s \<Longrightarrow> utf8_valid s"
  by (induction s) simp_all

lemma utf8_valid_base64: "utf8_valid (b64_encode std_alphabet False bs)"
proof (rule utf8_valid_ascii)
  have "list_all (\<lambda>c. (of_char c :: nat) < 128) (CHR ''='' # std_alphabet)"
    by (simp add: std_alphabet_def)
  then show "list_all (\<lambda>c. (of_char c :: nat) < 128) (b64_encode std_alphabet False bs)"
    using encode_chars [OF std_alphabet_ok, of False bs] by (auto simp: list_all_iff)
qed

lemma utf8_valid_code: "utf8_valid (string_of_bytes (Code_MarshalText c))"
proof (rule utf8_valid_ascii, cases "known_code c")
  case True
  then show "list_all (\<lambda>c. (of_char c :: nat) < 128) (string_of_bytes (Code_MarshalText c))"
    by (drule_tac known_code_cases, elim disjE) (simp_all add: Code_MarshalText_def Code_String_def)
next
  case False
  have "(of_char d :: nat) < 128" if "d \<in> set (utoa n)" for d n
    using utoa_digits [OF that] by (simp add: is_digit_def in_range_def)
  with False show "list_all (\<lambda>c. (of_char c :: nat) < 128) (string_of_bytes (Code_MarshalText c))"
    by (auto simp: Code_MarshalText_def unknown_code_text list_all_iff)
qed

text \<open>A detail that can be sent: its type is a UTF-8 string, and the text for debugging, if there
  is one, is JSON that is not nested too deeply.\<close>

definition wire_detail_ok :: "(error_detail \<Rightarrow> string option) \<Rightarrow> error_detail \<Rightarrow> bool" where
  "wire_detail_ok registry d \<longleftrightarrow>
     utf8_valid (Type d)
     \<and> (wire_debug registry d = []
        \<or> (case json_Compact (wire_debug registry d) of None \<Rightarrow> False | Some t \<Rightarrow> value_ok 9000 t))"

definition sent_detail :: "(error_detail \<Rightarrow> string option) \<Rightarrow> error_detail \<Rightarrow> error_detail" where
  "sent_detail registry d =
     d\<lparr>Debug := (if wire_debug registry d = [] then []
                 else case json_Compact (wire_debug registry d) of None \<Rightarrow> [] | Some t \<Rightarrow> bytes_of_string t)\<rparr>"

lemma field_is_self [simp]: "field_is names k k"
  by (simp add: field_is_def)

lemma field_is_other [simp]: "k \<in> set names \<Longrightarrow> field_is names k name \<longleftrightarrow> k = name"
  by (auto simp: field_is_def)

lemma decode_string_string [simp]: "utf8_valid s \<Longrightarrow> decode_string (json_string s) old = Inr s"
  by (simp add: decode_string_def json_kind_string)

lemma decode_struct_object:
  assumes "list_all (\<lambda>(k, v). utf8_valid k \<and> value_ok lim v) kvs" "lim < maxNestingDepth"
  shows "decode_struct f (json_object kvs) s = decode_fields f kvs s"
  by (simp add: decode_struct_def json_kind_object [OF assms])

lemma value_ok_members:
  assumes "list_all (\<lambda>(k, v). utf8_valid k \<and> value_ok lim v) kvs"
  shows "value_ok (Suc lim) (json_object kvs)"
proof -
  have "list_all (\<lambda>(k, v). value_ok lim v) kvs" using assms by (auto simp: list_all_iff)
  then show ?thesis by (rule value_ok_object)
qed

lemmas wire_field_defs = wire_detail_field_def wire_error_field_def end_stream_field_def map_sum_right_def Let_def

lemma wire_detail_round_trip:
  assumes "wire_detail_ok registry d"
  obtains raw where "connectWireDetail_MarshalJSON registry d = Some raw" "value_ok 9001 raw"
    "wire_detail_pointer raw = Inr (Some (sent_detail registry d))"
proof -
  define kvs where "kvs = [(''type'', json_string (Type d)),
      (''value'', json_string (b64_encode std_alphabet False (Value d)))] @
      (if wire_debug registry d = [] then [] else [(''debug'', the (json_Compact (wire_debug registry d)))])"
  have m: "connectWireDetail_MarshalJSON registry d = Some (json_object kvs)"
    using assms by (auto simp: connectWireDetail_MarshalJSON_def kvs_def wire_detail_ok_def split: option.splits)
  have ok: "list_all (\<lambda>(k, v). utf8_valid k \<and> value_ok 9000 v) kvs"
    using assms by (auto simp: kvs_def wire_detail_ok_def value_ok_string split: option.splits)
  then have v: "value_ok 9001 (json_object kvs)"
    using value_ok_members [of 9000 kvs] by simp
  have t: "json_trim (the (json_Compact (wire_debug registry d))) = the (json_Compact (wire_debug registry d))"
    if "wire_debug registry d \<noteq> []"
    using assms that by (auto simp: wire_detail_ok_def value_ok_def split: option.splits)
  have "decode_struct wire_detail_field (json_object kvs) ([], [], []) =
      Inr (Type d, b64_encode std_alphabet False (Value d),
        if wire_debug registry d = [] then [] else the (json_Compact (wire_debug registry d)))"
    using assms t unfolding decode_struct_object [OF ok, simplified]
    by (auto simp: kvs_def wire_field_defs wire_detail_ok_def utf8_valid_base64)
  moreover have "json_kind_of (json_object kvs) \<noteq> JNull"
    using json_kind_object [OF ok] by simp
  ultimately have "wire_detail_pointer (json_object kvs) = Inr (Some (sent_detail registry d))"
    using assms
    by (auto simp: wire_detail_pointer_def connectWireDetail_UnmarshalJSON_def DecodeBinaryHeader_encode
        map_sum_right_def sent_detail_def wire_detail_ok_def bytes_of_string_def [of "[]"] split: option.splits)
  with m v that show ?thesis by blast
qed

lemma wire_details_round_trip:
  assumes "list_all (wire_detail_ok registry) ds"
  shows "\<exists>raws. those (map (marshal_wire_detail registry) (map Some ds)) = Some raws
    \<and> list_all (value_ok 9001) raws \<and> length raws = length ds
    \<and> decode_list wire_detail_pointer raws = Inr (map (Some \<circ> sent_detail registry) ds)"
  using assms
proof (induction ds)
  case (Cons d ds)
  then have "wire_detail_ok registry d" by simp
  then obtain raw where raw: "connectWireDetail_MarshalJSON registry d = Some raw" "value_ok 9001 raw"
    "wire_detail_pointer raw = Inr (Some (sent_detail registry d))"
    by (rule wire_detail_round_trip)
  from Cons obtain raws where
    "those (map (marshal_wire_detail registry) (map Some ds)) = Some raws"
    "list_all (value_ok 9001) raws" "length raws = length ds"
    "decode_list wire_detail_pointer raws = Inr (map (Some \<circ> sent_detail registry) ds)" by auto
  with raw show ?case
    by (intro exI [of _ "raw # raws"]) (simp add: marshal_wire_detail_def [of registry "Some d"])
qed simp

lemma foldl_WithDetail:
  "Error_Details (foldl WithDetail e (map Some ds)) = Error_Details e @ ds"
  "ce_code (foldl WithDetail e (map Some ds)) = ce_code e"
  "Error_Message (foldl WithDetail e (map Some ds)) = Error_Message e"
  "IsRemote (foldl WithDetail e (map Some ds)) = IsRemote e"
  "ce_cause (foldl WithDetail e (map Some ds)) = ce_cause e"
  by (induction ds arbitrary: e) (simp_all add: connect_error_defs)

text \<open>The error that a client makes of the wire error of an error.\<close>

definition wire_image :: "(error_detail \<Rightarrow> string option) \<Rightarrow> connect_error \<Rightarrow> connect_wire_error" where
  "wire_image registry ce =
     \<lparr>we_Code = Error_Code ce, we_Message = Error_Message ce,
      we_Details = map (Some \<circ> sent_detail registry) (Error_Details ce)\<rparr>"

lemma wire_error_round_trip:
  assumes "asError err = Some ce" and "utf8_valid (Error_Message ce)"
    and "list_all (wire_detail_ok registry) (Error_Details ce)"
  obtains raw where "marshal_wire_error registry (newConnectWireError err) = Some raw" "value_ok 9003 raw"
    "json_kind_of raw \<noteq> JNull" "\<And>w. connectWireError_UnmarshalJSON raw w = Inr (wire_image registry ce)"
proof -
  from wire_details_round_trip [OF assms(3)] obtain raws where
    r: "those (map (marshal_wire_detail registry) (map Some (Error_Details ce))) = Some raws"
    "list_all (value_ok 9001) raws" "length raws = length (Error_Details ce)"
    "decode_list wire_detail_pointer raws = Inr (map (Some \<circ> sent_detail registry) (Error_Details ce))" by blast
  define kvs where "kvs = [(''code'', json_string (string_of_bytes (Code_MarshalText (Error_Code ce))))]
      @ (if Error_Message ce = [] then [] else [(''message'', json_string (Error_Message ce))])
      @ (if raws = [] then [] else [(''details'', json_array raws)])"
  have m: "marshal_wire_error registry (newConnectWireError err) = Some (json_object kvs)"
    using assms(1) r(1) by (simp add: marshal_wire_error_def newConnectWireError_def kvs_def)
  have ok: "list_all (\<lambda>(k, v). utf8_valid k \<and> value_ok 9002 v) kvs"
    using value_ok_array [OF r(2)] by (auto simp: kvs_def value_ok_string)
  then have v: "value_ok 9003 (json_object kvs)"
    using value_ok_members [of 9002 kvs] by simp
  have "decode_struct wire_error_field (json_object kvs) ([], [], []) =
      Inr (string_of_bytes (Code_MarshalText (Error_Code ce)), Error_Message ce,
        map (Some \<circ> sent_detail registry) (Error_Details ce))"
    using assms(2) r(3,4) unfolding decode_struct_object [OF ok, simplified]
    by (auto simp: kvs_def wire_field_defs utf8_valid_code decode_array_def json_kind_array [OF r(2)])
  moreover have "Code_UnmarshalText (Code_MarshalText c) = Inr c" for c
    using Code_unmarshal_known Code_unmarshal_unknown by blast
  ultimately have "connectWireError_UnmarshalJSON (json_object kvs) w = Inr (wire_image registry ce)" for w
    by (simp add: connectWireError_UnmarshalJSON_def wire_image_def)
  moreover have "json_kind_of (json_object kvs) \<noteq> JNull"
    using json_kind_object [OF ok] by simp
  ultimately show ?thesis using m v that by blast
qed

lemma wire_image_asError:
  assumes "known_code (Error_Code ce)" and "connectWireError_asError (Some (wire_image registry ce)) = Some r"
  shows "Error_Code r = Error_Code ce \<and> Error_Message r = Error_Message ce
    \<and> Error_Details r = map (sent_detail registry) (Error_Details ce) \<and> IsRemote r \<and> ce_cause r = None"
proof -
  have "\<not> (Error_Code ce < CodeCanceled \<or> Error_Code ce > CodeUnauthenticated)" "Error_Code ce \<noteq> 0"
    using assms(1) by (auto simp: known_code_def)
  then have r: "r = foldl WithDetail (WithRemote (NewError (Error_Code ce) (Error_Message ce)))
      (map Some (map (sent_detail registry) (Error_Details ce)))"
    using assms(2) by (simp add: connectWireError_asError_def wire_image_def)
  let ?e = "WithRemote (NewError (Error_Code ce) (Error_Message ce))"
  have e: "Error_Details ?e = []" "ce_code ?e = Error_Code ce" "Error_Message ?e = Error_Message ce" "IsRemote ?e"
    "ce_cause ?e = None"
    by (simp_all add: connect_error_defs)
  show ?thesis
    using foldl_WithDetail [of ?e "map (sent_detail registry) (Error_Details ce)", folded r, unfolded e]
      e(4) \<open>Error_Code ce \<noteq> 0\<close> by (simp add: Error_Code_def [of r])
qed

text \<open>Round trip of errors in the Connect protocol: the JSON that is written for an error with
  a known code is decoded into a remote error with the same code and message and with the same
  details in the same order; the debugging text of a detail arrives in compact form.\<close>

lemma connect_error_round_trip:
  assumes "asError err = Some ce" and "known_code (Error_Code ce)" and "utf8_valid (Error_Message ce)"
    and "list_all (wire_detail_ok registry) (Error_Details ce)"
  shows "\<exists>data w r. marshal_wire_error registry (newConnectWireError err) = Some data
    \<and> decode_wire_error (bytes_of_string data) = Inr w \<and> connectWireError_asError (Some w) = Some r
    \<and> Error_Code r = Error_Code ce \<and> Error_Message r = Error_Message ce
    \<and> Error_Details r = map (sent_detail registry) (Error_Details ce) \<and> IsRemote r"
proof -
  from wire_error_round_trip [OF assms(1,3,4)] obtain raw where
    raw: "marshal_wire_error registry (newConnectWireError err) = Some raw" "value_ok 9003 raw"
    "\<And>w. connectWireError_UnmarshalJSON raw w = Inr (wire_image registry ce)" by metis
  have "decode_wire_error (bytes_of_string raw) = Inr (wire_image registry ce)"
    using raw(3) json_front_value [OF raw(2)] by (simp add: decode_wire_error_def)
  moreover obtain r where "connectWireError_asError (Some (wire_image registry ce)) = Some r"
    by (simp add: connectWireError_asError_def)
  ultimately show ?thesis using raw(1) wire_image_asError [OF assms(2)] by blast
qed

definition wire_witness_error :: connect_error where
  "wire_witness_error =
     WithDetail (NewError CodeNotFound ''no such user'')
       (Some \<lparr>Type = ''google.rpc.ErrorInfo'', Value = [1, 2, 3], Debug = bytes_of_string ''[ 1 ]''\<rparr>)"

lemma wire_witness_fields:
  "Error_Code wire_witness_error = CodeNotFound" "Error_Message wire_witness_error = ''no such user''"
  "Error_Details wire_witness_error =
    [\<lparr>Type = ''google.rpc.ErrorInfo'', Value = [1, 2, 3], Debug = bytes_of_string ''[ 1 ]''\<rparr>]"
  by (simp_all add: wire_witness_error_def connect_error_defs)

lemma wire_witness_debug:
  "json_Valid ''[ 1 ]''" "json_Compact ''[ 1 ]'' = Some ''[1]''" "value_ok 9000 ''[1]''"
  by (simp_all add: json_Valid_def json_Compact_def complete_def begin_value_def json_space_def json_push_def
      is_digit_def in_range_def after_int_def end_value_def at_end_def value_ok_def json_trim_def line_separator_def)

lemma wire_witness_ok: "list_all (wire_detail_ok (\<lambda>_. None)) (Error_Details wire_witness_error)"
  by (simp add: wire_witness_fields wire_detail_ok_def wire_debug_def wire_witness_debug)

lemma connect_error_round_trip_witness:
  "\<exists>data w r. marshal_wire_error (\<lambda>_. None) (newConnectWireError (Coded wire_witness_error)) = Some data
    \<and> decode_wire_error (bytes_of_string data) = Inr w \<and> connectWireError_asError (Some w) = Some r
    \<and> Error_Code r = CodeNotFound \<and> Error_Message r = ''no such user''
    \<and> map Debug (Error_Details r) = [bytes_of_string ''[1]'']"
  using connect_error_round_trip [of "Coded wire_witness_error" wire_witness_error "\<lambda>_. None"] wire_witness_ok
  by (auto simp: known_code_def wire_witness_fields sent_detail_def wire_debug_def wire_witness_debug)

subsection \<open>The end-of-stream message\<close>

definition trailer_ok :: "http_header \<Rightarrow> bool" where
  "trailer_ok h \<longleftrightarrow> wf_map h \<and> list_all (\<lambda>(k, vs). utf8_valid k \<and> list_all utf8_valid vs) h"

lemma decode_trailer_values:
  assumes "list_all utf8_valid vs"
  shows "decode_array trailer_string (json_array (map json_string vs)) = Inr vs"
proof -
  have "decode_list trailer_string (map json_string vs) = Inr vs"
    using assms by (induction vs) (simp_all add: trailer_string_def)
  moreover have "list_all (value_ok 0) (map json_string vs)"
    by (simp add: list_all_iff value_ok_string)
  ultimately show ?thesis by (simp add: decode_array_def json_kind_array [of 0])
qed

lemma decode_trailer_entries:
  assumes "distinct (map fst (h' @ h))" and "list_all (\<lambda>(k, vs). utf8_valid k \<and> list_all utf8_valid vs) h"
  shows "decode_trailer (map (\<lambda>(k, vs). (k, json_array (map json_string vs))) h) h' = Inr (h' @ h)"
  using assms
proof (induction h arbitrary: h')
  case (Cons e h)
  obtain k vs where e: "e = (k, vs)" by fastforce
  have "AList.update k vs h' = h' @ [e]"
    using Cons.prems(1) unfolding e by (induction h') auto
  with Cons.IH [of "h' @ [e]"] Cons.prems show ?case by (simp add: e decode_trailer_values)
qed simp

lemma wf_map_sort: "wf_map h \<Longrightarrow> distinct (map fst (sort_key fst h))"
  unfolding wf_map_def by (simp add: distinct_map inj_on_def)

lemma marshal_trailer_ok:
  assumes "trailer_ok h"
  shows "value_ok 2 (marshal_trailer h)" "json_kind_of (marshal_trailer h) =
    JObject (map (\<lambda>(k, vs). (k, json_array (map json_string vs))) (sort_key fst h))"
proof -
  have a: "value_ok 1 (json_array (map json_string vs))" for vs
    using value_ok_array [of 0 "map json_string vs"] by (simp add: list_all_iff value_ok_string)
  then have "list_all (\<lambda>(k, v). utf8_valid k \<and> value_ok 1 v)
      (map (\<lambda>(k, vs). (k, json_array (map json_string vs))) (sort_key fst h))"
    using assms by (auto simp: trailer_ok_def list_all_iff)
  from json_kind_object [OF this] value_ok_members [OF this]
  show "value_ok 2 (marshal_trailer h)" "json_kind_of (marshal_trailer h) =
      JObject (map (\<lambda>(k, vs). (k, json_array (map json_string vs))) (sort_key fst h))"
    by (simp_all add: marshal_trailer_def numeral_2_eq_2)
qed

lemma metadata_field:
  assumes "trailer_ok h"
  shows "end_stream_field ''metadata'' (marshal_trailer h) \<lparr>es_Error = e, es_Trailer = []\<rparr> =
    Inr \<lparr>es_Error = e, es_Trailer = sort_key fst h\<rparr>"
proof -
  have "list_all (\<lambda>(k, vs). utf8_valid k \<and> list_all utf8_valid vs) (sort_key fst h)"
    using assms by (auto simp: trailer_ok_def list_all_iff)
  then show ?thesis
    using decode_trailer_entries [of "[]" "sort_key fst h"] wf_map_sort [of h] assms
    by (simp add: wire_field_defs marshal_trailer_ok [OF assms] trailer_ok_def)
qed

lemma end_stream_round_trip:
  assumes "trailer_ok h"
    and "case err of None \<Rightarrow> True
      | Some e \<Rightarrow> asError e = Some ce \<and> utf8_valid (Error_Message ce)
          \<and> list_all (wire_detail_ok registry) (Error_Details ce)"
  obtains data where "marshal_end_stream registry
      \<lparr>es_Error = map_option newConnectWireError err, es_Trailer = h\<rparr> = Some data"
    "unmarshal_end_stream data = Inr \<lparr>es_Error = map_option (\<lambda>_. wire_image registry ce) err, es_Trailer = sort_key fst h\<rparr>"
proof -
  define md where "md = (if length h = 0 then [] else [(''metadata'', marshal_trailer h)])"
  have md: "list_all (\<lambda>(k, v). utf8_valid k \<and> value_ok 9003 v) md"
    using value_ok_mono [OF marshal_trailer_ok(1) [OF assms(1)], of 9003] by (simp add: md_def)
  have dmd: "decode_fields end_stream_field md \<lparr>es_Error = e, es_Trailer = []\<rparr> =
      Inr \<lparr>es_Error = e, es_Trailer = sort_key fst h\<rparr>" for e
    by (simp add: md_def metadata_field [OF assms(1)])
  have read: "unmarshal_end_stream (json_object kvs) =
      decode_fields end_stream_field kvs \<lparr>es_Error = None, es_Trailer = []\<rparr>"
    if "list_all (\<lambda>(k, v). utf8_valid k \<and> value_ok 9003 v) kvs" for kvs
    using value_ok_Valid [OF value_ok_members [OF that]] decode_struct_object [OF that]
    by (simp add: unmarshal_end_stream_def)
  show ?thesis
  proof (cases err)
    case None
    then show ?thesis
      using that [of "json_object md"] read [OF md] dmd [of None]
      by (simp add: marshal_end_stream_def md_def)
  next
    case (Some e)
    with assms(2) have ok: "asError e = Some ce" "utf8_valid (Error_Message ce)"
      "list_all (wire_detail_ok registry) (Error_Details ce)" by simp_all
    from wire_error_round_trip [OF ok] obtain raw where
      raw: "marshal_wire_error registry (newConnectWireError e) = Some raw" "value_ok 9003 raw"
      "json_kind_of raw \<noteq> JNull" "\<And>w. connectWireError_UnmarshalJSON raw w = Inr (wire_image registry ce)"
      by blast
    have "unmarshal_end_stream (json_object ((''error'', raw) # md)) =
        Inr \<lparr>es_Error = Some (wire_image registry ce), es_Trailer = sort_key fst h\<rparr>"
      using read [of "(''error'', raw) # md"] md raw dmd [of "Some (wire_image registry ce)"]
      by (simp add: wire_field_defs)
    with Some raw show ?thesis
      using that [of "json_object ((''error'', raw) # md)"] by (simp add: marshal_end_stream_def md_def)
  qed
qed

lemma canonical_trailer_id:
  assumes "list_all (\<lambda>(k, _). CanonicalMIMEHeaderKey k = k) h"
  shows "canonical_trailer h = h"
proof -
  have "foldl (\<lambda>t (name, vals). let canonical = CanonicalMIMEHeaderKey name in
      if name \<noteq> canonical then append_values (delHeaderCanonical t name) canonical vals else t) t h' = t"
    if "list_all (\<lambda>(k, _). CanonicalMIMEHeaderKey k = k) h'" for t h'
    using that by (induction h') auto
  with assms show ?thesis by (simp add: canonical_trailer_def)
qed

end
