(* ===== verification/Connect_Unary.thy ===== *)
theory Connect_Unary
  imports Connect_Wire Grpc_Protocol
begin

section \<open>Unary messages of the Connect protocol (connecthttp/protocol_connect.go)\<close>

text \<open>
  Content types, the protocol version and the timeout of the Connect protocol, and the marshalers
  of unary messages: \<open>connectUnaryMarshaler\<close>, \<open>connectUnaryRequestMarshaler\<close> with its GET
  requests, and \<open>connectUnaryUnmarshaler\<close>. The functions of \<open>net/url\<close> that escape and parse a
  query are modelled here. The lemmas show that a unary message survives the trip, also in the
  query of a GET request, and that the limits hold.
\<close>

subsection \<open>Constants and content types\<close>

abbreviation connectUnaryContentTypePrefix :: string where "connectUnaryContentTypePrefix \<equiv> ''application/''"
abbreviation connectUnaryContentTypeJSON :: string where "connectUnaryContentTypeJSON \<equiv> ''application/json''"
abbreviation connectStreamingContentTypePrefix :: string where
  "connectStreamingContentTypePrefix \<equiv> ''application/connect+''"
abbreviation codecNameJSONCharsetUTF8 :: string where "codecNameJSONCharsetUTF8 \<equiv> ''json; charset=utf-8''"
abbreviation connectUnaryConnectQueryValue :: string where "connectUnaryConnectQueryValue \<equiv> ''v1''"

definition connectFlagEnvelopeEndStream :: byte where "connectFlagEnvelopeEndStream = 2"

definition connectCodecForContentType :: "stream_type \<Rightarrow> string \<Rightarrow> string" where
  "connectCodecForContentType streamType contentType =
     (if streamType = StreamTypeUnary then TrimPrefix contentType connectUnaryContentTypePrefix
      else TrimPrefix contentType connectStreamingContentTypePrefix)"

definition connectContentTypeForCodecName :: "stream_type \<Rightarrow> string \<Rightarrow> string" where
  "connectContentTypeForCodecName streamType name =
     (if streamType = StreamTypeUnary then connectUnaryContentTypePrefix @ name
      else connectStreamingContentTypePrefix @ name)"

definition connectValidateUnaryResponseContentType ::
  "string \<Rightarrow> string \<Rightarrow> int \<Rightarrow> string \<Rightarrow> string \<Rightarrow> connect_error option" where
  "connectValidateUnaryResponseContentType requestCodecName httpMethod statusCode statusMsg responseContentType =
     (if statusCode \<noteq> 200 then
        (if statusCode = 304 \<and> httpMethod = ''GET''
         then Some (WithCause (Errorf CodeUnknown ''%s'' [sentinel_text ErrNotModifiedClient])
                      (Some (Sentinel ErrNotModifiedClient)))
         else if responseContentType = connectUnaryContentTypePrefix @ ''json''
                 \<or> responseContentType = connectUnaryContentTypePrefix @ codecNameJSONCharsetUTF8
         then None
         else Some (NewError (httpToCode statusCode) statusMsg))
      else if \<not> HasPrefix responseContentType connectUnaryContentTypePrefix
      then Some (Errorf CodeUnknown ''invalid content-type: %q; expecting %q''
             [Quote responseContentType, Quote (connectUnaryContentTypePrefix @ requestCodecName)])
      else
        let responseCodecName = connectCodecForContentType StreamTypeUnary responseContentType in
        if responseCodecName = requestCodecName then None
        else if responseCodecName = ''json'' \<and> requestCodecName = codecNameJSONCharsetUTF8
                \<or> responseCodecName = codecNameJSONCharsetUTF8 \<and> requestCodecName = ''json''
        then None
        else Some (Errorf CodeInternal ''invalid content-type: %q; expecting %q''
               [Quote responseContentType, Quote (connectUnaryContentTypePrefix @ requestCodecName)]))"

definition connectValidateStreamResponseContentType ::
  "string \<Rightarrow> stream_type \<Rightarrow> string \<Rightarrow> connect_error option" where
  "connectValidateStreamResponseContentType requestCodecName streamType responseContentType =
     (if \<not> HasPrefix responseContentType connectStreamingContentTypePrefix
      then Some (Errorf CodeUnknown ''invalid content-type: %q; expecting %q''
             [Quote responseContentType, Quote (connectStreamingContentTypePrefix @ requestCodecName)])
      else if connectCodecForContentType streamType responseContentType \<noteq> requestCodecName
      then Some (Errorf CodeInternal ''invalid content-type: %q; expecting %q''
             [Quote responseContentType, Quote (connectStreamingContentTypePrefix @ requestCodecName)])
      else None)"

definition connectCheckProtocolVersion :: "http_request \<Rightarrow> bool \<Rightarrow> connect_error option" where
  "connectCheckProtocolVersion request required =
     (if rq_Method request = ''GET'' then
        (let version = query_Get (rq_Query request) ''connect'' in
         if version = [] \<and> required
         then Some (Errorf CodeInvalidArgument ''missing required query parameter: set %s to %q''
                [''connect'', Quote connectUnaryConnectQueryValue])
         else if version \<noteq> [] \<and> version \<noteq> connectUnaryConnectQueryValue
         then Some (Errorf CodeInvalidArgument ''%s must be %q: got %q''
                [''connect'', Quote connectUnaryConnectQueryValue, Quote version])
         else None)
      else if rq_Method request = ''POST'' then
        (let version = getHeaderCanonical (rq_Header request) connectHeaderProtocolVersion in
         if version = [] \<and> required
         then Some (Errorf CodeInvalidArgument ''missing required header: set %s to %q''
                [connectHeaderProtocolVersion, Quote connectProtocolVersion])
         else if version \<noteq> [] \<and> version \<noteq> connectProtocolVersion
         then Some (Errorf CodeInvalidArgument ''%s must be %q: got %q''
                [connectHeaderProtocolVersion, Quote connectProtocolVersion, Quote version])
         else None)
      else Some (Errorf CodeInvalidArgument ''unsupported method: %q'' [Quote (rq_Method request)]))"

subsection \<open>Timeouts\<close>

definition connect_SetTimeout :: "int \<Rightarrow> http_request \<Rightarrow> connect_error + context_t" where
  "connect_SetTimeout now request =
     (let timeout = getHeaderCanonical (rq_Header request) connectHeaderTimeout in
      if timeout = [] then Inr (rq_ctx request)
      else if length timeout > 10
      then Inl (Errorf CodeInvalidArgument ''parse timeout: %q has >10 digits'' [Quote timeout])
      else case ParseInt64 timeout of
        None \<Rightarrow>
          let err = Plain (Sprintf ''strconv.ParseInt: parsing %q: invalid syntax'' [Quote timeout]) in
          Inl (WithCause (Errorf CodeInvalidArgument ''parse timeout: %s'' [error_text err]) (Some err))
      | Some millis \<Rightarrow> Inr (WithTimeout now (rq_ctx request) (millis * 1000000)))"

text \<open>The header that \<open>connectClient.NewConn\<close> sends for a deadline; Go's division truncates.\<close>

definition connect_timeout_header :: "int \<Rightarrow> int option \<Rightarrow> http_header \<Rightarrow> http_header" where
  "connect_timeout_header now deadline header =
     (case deadline of
        None \<Rightarrow> header
      | Some d \<Rightarrow>
          let millis = sgn (d - now) * (\<bar>d - now\<bar> div 1000000) in
          if millis > 0 then
            let encoded = itoa millis in
            if length encoded \<le> 10 then setHeaderCanonical header connectHeaderTimeout encoded else header
          else header)"

subsection \<open>connectUnaryMarshaler\<close>

record connect_unary_marshaler =
  um_ctx :: context_t
  um_compressMinBytes :: int
  um_compressionName :: string
  um_compressionPool :: "compression_pool option"
  um_sendMaxBytes :: int
  um_wroteHeader :: bool
  um_stats :: "message_stats option"

definition um_recordStats :: "int \<Rightarrow> int \<Rightarrow> connect_unary_marshaler \<Rightarrow> connect_unary_marshaler" where
  "um_recordStats sz compressedSize m =
     m\<lparr>um_stats := map_option (\<lambda>_. \<lparr>Size = sz, CompressedSize = compressedSize\<rparr>) (um_stats m)\<rparr>"

definition um_write ::
  "'s sender \<Rightarrow> connect_unary_marshaler \<Rightarrow> bytes \<Rightarrow> 's \<Rightarrow> connect_error option \<times> connect_unary_marshaler \<times> 's" where
  "um_write send m data s =
     (let m = m\<lparr>um_wroteHeader := True\<rparr> in
      case send (BytesPayload data 0) s of
        (None, s') \<Rightarrow> (None, m, s')
      | (Some err, s') \<Rightarrow>
          let err = wrapIfContextError err in
          (case asError err of
             Some connectErr \<Rightarrow> (Some connectErr, m, s')
           | None \<Rightarrow>
               (Some (WithCause (Errorf CodeUnknown ''write message: %s'' [error_text err]) (Some err)), m, s')))"

definition um_writeAndRecord ::
  "'s sender \<Rightarrow> connect_unary_marshaler \<Rightarrow> bytes \<Rightarrow> int \<Rightarrow> int \<Rightarrow> 's
     \<Rightarrow> connect_error option \<times> connect_unary_marshaler \<times> 's" where
  "um_writeAndRecord send m data sz compressedSize s =
     (case um_write send m data s of
        (Some err, m, s) \<Rightarrow> (Some err, m, s)
      | (None, m, s) \<Rightarrow> (None, um_recordStats sz compressedSize m, s))"

text \<open>The field \<open>header\<close> of the marshaler is the header map of the sender: \<open>setHeader\<close> edits it.\<close>

definition um_Marshal ::
  "'s sender \<Rightarrow> (string \<Rightarrow> string \<Rightarrow> 's \<Rightarrow> 's) \<Rightarrow> 'm codec \<Rightarrow> connect_unary_marshaler \<Rightarrow> 'm option \<Rightarrow> 's
     \<Rightarrow> connect_error option \<times> connect_unary_marshaler \<times> 's" where
  "um_Marshal send setHeader codec m message s =
     (case message of
        None \<Rightarrow> um_write send m [] s
      | Some msg \<Rightarrow>
          (case codec_MarshalWrite codec msg of
             Inl err \<Rightarrow>
               (Some (WithCause (Errorf CodeInternal ''marshal message: %s'' [error_text err]) (Some err)), m, s)
           | Inr uncompressed \<Rightarrow>
               let len = int (length uncompressed) in
               (case (if len < um_compressMinBytes m then None else um_compressionPool m) of
                  None \<Rightarrow>
                    if um_sendMaxBytes m > 0 \<and> len > um_sendMaxBytes m
                    then (Some (Errorf CodeResourceExhausted ''message size %d exceeds sendMaxBytes %d''
                            [itoa len, itoa (um_sendMaxBytes m)]), m, s)
                    else um_writeAndRecord send m uncompressed len 0 s
                | Some pool \<Rightarrow>
                    (case compressionPool_Compress pool uncompressed of
                       Inl err \<Rightarrow> (Some err, m, s)
                     | Inr compressed \<Rightarrow>
                         let clen = int (length compressed) in
                         if um_sendMaxBytes m > 0 \<and> clen > um_sendMaxBytes m
                         then (Some (Errorf CodeResourceExhausted
                                 ''compressed message size %d exceeds sendMaxBytes %d''
                                 [itoa clen, itoa (um_sendMaxBytes m)]), m, s)
                         else um_writeAndRecord send m compressed len clen
                                (setHeader connectUnaryHeaderCompression (um_compressionName m) s)))))"

subsection \<open>Package net/url: queries\<close>

definition query_safe :: "char \<Rightarrow> bool" where
  "query_safe c \<longleftrightarrow>
     in_range CHR ''a'' CHR ''z'' c \<or> in_range CHR ''A'' CHR ''Z'' c \<or> is_digit c
     \<or> c = CHR ''-'' \<or> c = CHR ''_'' \<or> c = CHR ''.'' \<or> c = CHR ''~''"

fun QueryEscape :: "string \<Rightarrow> string" where
  "QueryEscape [] = []"
| "QueryEscape (c # s) =
     (if c = CHR '' '' then [CHR ''+'']
      else if query_safe c then [c]
      else [CHR ''%'', upperhex ! (of_char c div 16), upperhex ! (of_char c mod 16)]) @ QueryEscape s"

fun QueryUnescape :: "string \<Rightarrow> string option" where
  "QueryUnescape [] = Some []"
| "QueryUnescape (c # s) =
     (if c = CHR ''%'' then
        (case s of
           h # l # r \<Rightarrow>
             (case (hex_val h, hex_val l) of
                (Some a, Some b) \<Rightarrow> map_option ((#) (char_of (a * 16 + b))) (QueryUnescape r)
              | _ \<Rightarrow> None)
         | _ \<Rightarrow> None)
      else map_option ((#) (if c = CHR ''+'' then CHR '' '' else c)) (QueryUnescape s))"

text \<open>\<open>url.ParseQuery\<close>, whose errors \<open>URL.Query\<close> ignores: pairs that cannot be unescaped and pairs
  with a semicolon are dropped.\<close>

definition parse_pair :: "string \<Rightarrow> (string \<times> string) option" where
  "parse_pair p =
     (let key = takeWhile (\<lambda>c. c \<noteq> CHR ''='') p; val = drop (Suc (length key)) p in
      if p = [] \<or> CHR '';'' \<in> set p then None
      else case (QueryUnescape key, QueryUnescape val) of
             (Some k, Some v) \<Rightarrow> Some (k, v)
           | _ \<Rightarrow> None)"

definition ParseQuery :: "string \<Rightarrow> (string \<times> string list) list" where
  "ParseQuery q =
     foldl (\<lambda>m p. case parse_pair p of None \<Rightarrow> m | Some (k, v) \<Rightarrow> append_values m k [v])
       [] (Split q CHR ''&'')"

text \<open>The text of a URL whose query has been replaced.\<close>

definition url_with_query :: "string \<Rightarrow> string \<Rightarrow> string" where
  "url_with_query url q =
     takeWhile (\<lambda>c. c \<noteq> CHR ''?'' \<and> c \<noteq> CHR ''#'') url @ CHR ''?'' # q @ dropWhile (\<lambda>c. c \<noteq> CHR ''#'') url"

subsection \<open>connectUnaryRequestMarshaler\<close>

definition appendQueryParam :: "string \<Rightarrow> bool \<Rightarrow> string \<Rightarrow> string \<Rightarrow> string" where
  "appendQueryParam query withSeparator key escapedValue =
     query @ (if withSeparator then [CHR ''&''] else []) @ key @ [CHR ''=''] @ escapedValue"

definition buildGetURL :: "string \<Rightarrow> string \<Rightarrow> bool \<Rightarrow> bytes \<Rightarrow> bool \<Rightarrow> string" where
  \<comment> \<open>the query of \<open>buildGetURL\<close>: name of the compression and of the codec, whether the codec is
     binary, data, whether the data is compressed\<close>
  "buildGetURL compressionName codecName isBinary data compressed =
     (let query = appendQueryParam [] False ''connect'' connectUnaryConnectQueryValue;
          binary = (isBinary \<or> compressed);
          query = (if binary then appendQueryParam query True ''base64'' ''1'' else query);
          query = (if compressed then appendQueryParam query True ''compression'' (QueryEscape compressionName)
                   else query);
          query = appendQueryParam query True ''encoding'' (QueryEscape codecName)
      in if binary then appendQueryParam query True ''message'' (encodeBinaryQueryValue data)
         else appendQueryParam query True ''message'' (QueryEscape (string_of_bytes data)))"

definition dc_setHeader :: "string \<Rightarrow> string \<Rightarrow> duplex_call \<Rightarrow> duplex_call" where
  "dc_setHeader key val d =
     d\<lparr>dc_request := (dc_request d)\<lparr>rq_Header := setHeaderCanonical (rq_Header (dc_request d)) key val\<rparr>\<rparr>"

definition writeWithGet :: "string \<Rightarrow> string \<Rightarrow> duplex_call \<Rightarrow> duplex_call" where
  \<comment> \<open>the text of the URL and its raw query\<close>
  "writeWithGet url query d =
     (let h = rq_Header (dc_request d);
          h = delHeaderCanonical h connectHeaderProtocolVersion;
          h = delHeaderCanonical h headerContentType;
          h = delHeaderCanonical h headerContentEncoding;
          h = delHeaderCanonical h headerContentLength;
          d = d\<lparr>dc_request := (dc_request d)\<lparr>rq_Header := h\<rparr>\<rparr>;
          d = duplex_SetMethod ''GET'' d
      in d\<lparr>dc_request := (dc_request d)\<lparr>rq_URL := url, rq_Query := ParseQuery query\<rparr>\<rparr>)"

record connect_unary_request_marshaler =
  rm_marshaler :: connect_unary_marshaler
  rm_enableGet :: bool
  rm_getURLMaxBytes :: int
  rm_getUseFallback :: bool

definition on_marshaler ::
  "connect_unary_request_marshaler \<Rightarrow> connect_error option \<times> connect_unary_marshaler \<times> 's
     \<Rightarrow> connect_error option \<times> connect_unary_request_marshaler \<times> 's" where
  "on_marshaler rm r = (case r of (err, m, s) \<Rightarrow> (err, rm\<lparr>rm_marshaler := m\<rparr>, s))"

abbreviation duplex_sender :: "http_env \<Rightarrow> duplex_call sender" where
  "duplex_sender he \<equiv> \<lambda>p d. case duplex_Send he p d of (_, err, d') \<Rightarrow> (err, d')"

definition marshalWithGet ::
  "http_env \<Rightarrow> 'm codec \<Rightarrow> ('m \<Rightarrow> go_error + bytes) \<Rightarrow> bool \<Rightarrow> connect_unary_request_marshaler \<Rightarrow> 'm option
     \<Rightarrow> duplex_call \<Rightarrow> connect_error option \<times> connect_unary_request_marshaler \<times> duplex_call" where
  \<comment> \<open>\<open>MarshalWriteStable\<close> and \<open>IsBinary\<close> of the stable codec are the third and fourth argument\<close>
  "marshalWithGet he codec marshalStable isBinary rm message d =
     (let m = rm_marshaler rm; max = um_sendMaxBytes m; urlMax = rm_getURLMaxBytes rm in
      case (case message of None \<Rightarrow> Inr [] | Some msg \<Rightarrow> marshalStable msg) of
        Inl err \<Rightarrow>
          (Some (WithCause (Errorf CodeInternal ''marshal message stable: %s'' [error_text err]) (Some err)), rm, d)
      | Inr data \<Rightarrow>
          let len = int (length data);
              isTooBig = (max > 0 \<and> len > max);
              query = buildGetURL (um_compressionName m) (codec_Name codec) isBinary data False;
              url = url_with_query (rq_URL (dc_request d)) query;
              ulen = int (length url)
          in if isTooBig \<and> um_compressionPool m = None
             then (Some (Errorf CodeResourceExhausted
                     ''message size %d exceeds sendMaxBytes %d: enabling request compression may help''
                     [itoa len, itoa max]), rm, d)
             else if \<not> isTooBig \<and> (urlMax \<le> 0 \<or> ulen \<le> urlMax)
             then (None, rm\<lparr>rm_marshaler := um_recordStats len 0 m\<rparr>, writeWithGet url query d)
             else (case um_compressionPool m of
               None \<Rightarrow>
                 if rm_getUseFallback rm
                 then on_marshaler rm (um_writeAndRecord (duplex_sender he) m data len 0 d)
                 else (Some (Errorf CodeResourceExhausted
                         ''url size %d exceeds getURLMaxBytes %d: enabling request compression may help''
                         [itoa ulen, itoa urlMax]), rm, d)
             | Some pool \<Rightarrow>
                 (case compressionPool_Compress pool data of
                    Inl err \<Rightarrow> (Some err, rm, d)
                  | Inr compressed \<Rightarrow>
                      let clen = int (length compressed);
                          query = buildGetURL (um_compressionName m) (codec_Name codec) isBinary compressed True;
                          url = url_with_query (rq_URL (dc_request d)) query;
                          ulen = int (length url)
                      in if max > 0 \<and> clen > max
                         then (Some (Errorf CodeResourceExhausted
                                 ''compressed message size %d exceeds sendMaxBytes %d''
                                 [itoa clen, itoa max]), rm, d)
                         else if urlMax \<le> 0 \<or> ulen \<le> urlMax
                         then (None, rm\<lparr>rm_marshaler := um_recordStats len clen m\<rparr>, writeWithGet url query d)
                         else if rm_getUseFallback rm
                         then on_marshaler rm (um_writeAndRecord (duplex_sender he) m compressed len clen
                                (dc_setHeader connectUnaryHeaderCompression (um_compressionName m) d))
                         else (Some (Errorf CodeResourceExhausted
                                 ''compressed url size %d exceeds getURLMaxBytes %d''
                                 [itoa ulen, itoa urlMax]), rm, d))))"

definition rm_Marshal ::
  "http_env \<Rightarrow> 'm codec \<Rightarrow> connect_unary_request_marshaler \<Rightarrow> 'm option \<Rightarrow> duplex_call
     \<Rightarrow> connect_error option \<times> connect_unary_request_marshaler \<times> duplex_call" where
  "rm_Marshal he codec rm message d =
     (let plain = on_marshaler rm (um_Marshal (duplex_sender he) dc_setHeader codec (rm_marshaler rm) message d) in
      if rm_enableGet rm then
        (case codec_stable codec of
           None \<Rightarrow>
             if \<not> rm_getUseFallback rm
             then (Some (Errorf CodeInternal ''codec %s doesn't support stable marshal; can't use get''
                     [codec_Name codec]), rm, d)
             else plain
         | Some (marshalStable, isBinary) \<Rightarrow> marshalWithGet he codec marshalStable isBinary rm message d)
      else plain)"

subsection \<open>connectUnaryUnmarshaler\<close>

record connect_unary_unmarshaler =
  uu_ctx :: context_t
  uu_reader :: reader
  uu_compressionPool :: "compression_pool option"
  uu_alreadyRead :: bool
  uu_readMaxBytes :: int
  uu_stats :: "message_stats option"

text \<open>The last steps: the message is decoded and the statistics are recorded.\<close>

definition uu_decode ::
  "(bytes \<Rightarrow> 'm \<Rightarrow> go_error + 'm) \<Rightarrow> 'm \<Rightarrow> connect_unary_unmarshaler \<Rightarrow> bytes \<Rightarrow> int
     \<Rightarrow> connect_error option \<times> 'm \<times> connect_unary_unmarshaler" where
  "uu_decode unmarshal message u data compressedSize =
     (case unmarshal data message of
        Inl err \<Rightarrow>
          (Some (WithCause (Errorf CodeInvalidArgument ''unmarshal message: %s'' [error_text err]) (Some err)),
           message, u)
      | Inr message' \<Rightarrow>
          (None, message',
           u\<lparr>uu_stats := map_option (\<lambda>_. \<lparr>Size = int (length data), CompressedSize = compressedSize\<rparr>)
                          (uu_stats u)\<rparr>))"

definition uu_UnmarshalFunc ::
  "(bytes \<Rightarrow> 'm \<Rightarrow> go_error + 'm) \<Rightarrow> 'm \<Rightarrow> connect_unary_unmarshaler
     \<Rightarrow> connect_error option \<times> 'm \<times> connect_unary_unmarshaler" where
  "uu_UnmarshalFunc unmarshal message u =
     (if uu_alreadyRead u
      then (Some (WithCause (Errorf CodeInternal ''%s'' [sentinel_text EOF]) (Some (Sentinel EOF))), message, u)
      else
        let u = u\<lparr>uu_alreadyRead := True\<rparr>;
            max = uu_readMaxBytes u;
            limit = (if max > 0 \<and> max < max_int64 then Some (nat (max + 1)) else None)
        in case io_ReadAll limit (uu_reader u) of
             (data, Some err, rd) \<Rightarrow>
               let err = wrapIfMaxBytesError
                     (Sprintf ''read first %d bytes of message'' [itoa (int (length data))]) err;
                   err = wrapIfContextDone (uu_ctx u) err;
                   u = u\<lparr>uu_reader := rd\<rparr>
               in (case asError err of
                     Some connectErr \<Rightarrow> (Some connectErr, message, u)
                   | None \<Rightarrow>
                       (Some (WithCause (Errorf CodeUnknown ''read message: %s'' [error_text err]) (Some err)),
                        message, u))
           | (data, None, rd) \<Rightarrow>
               let u = u\<lparr>uu_reader := rd\<rparr>; bytesRead = int (length data) in
               if max > 0 \<and> bytesRead > max then
                 (case io_ReadAll None rd of
                    (discarded, err, rd) \<Rightarrow>
                      let u = u\<lparr>uu_reader := rd\<rparr> in
                      (case err of
                         Some err \<Rightarrow>
                           (Some (WithCause (Errorf CodeResourceExhausted
                              ''message is larger than configured max %d - unable to determine message size: %s''
                              [itoa max, error_text err]) (Some err)), message, u)
                       | None \<Rightarrow>
                           (Some (Errorf CodeResourceExhausted
                              ''message size %d is larger than configured max %d''
                              [itoa (bytesRead + int (length discarded)), itoa max]), message, u)))
               else
                 (case (if data = [] then None else uu_compressionPool u) of
                    None \<Rightarrow> uu_decode unmarshal message u data 0
                  | Some pool \<Rightarrow>
                      (case compressionPool_Decompress pool data max of
                         Inl err \<Rightarrow> (Some err, message, u)
                       | Inr decompressed \<Rightarrow> uu_decode unmarshal message u decompressed bytesRead)))"

definition uu_Unmarshal ::
  "'m codec \<Rightarrow> 'm \<Rightarrow> connect_unary_unmarshaler \<Rightarrow> connect_error option \<times> 'm \<times> connect_unary_unmarshaler" where
  "uu_Unmarshal codec message u = uu_UnmarshalFunc (codec_UnmarshalRead codec) message u"

subsection \<open>The query of a GET request\<close>

lemma hex_val_upperhex: "n < 16 \<Longrightarrow> hex_val (upperhex ! n) = Some n"
  by (drule less_16_cases) (auto simp: upperhex_def hex_val_def in_range_def)

lemma char_of_div_mod [simp]: "char_of (of_char c div 16 * 16 + of_char c mod (16 :: nat)) = c"
  by (simp add: div_mult_mod_eq)

lemma of_char_div_16: "of_char c div (16 :: nat) < 16"
  using of_char_less_256 [of c] by (simp add: less_mult_imp_div_less)

lemma QueryUnescape_Escape: "QueryUnescape (QueryEscape s) = Some s"
proof (induction s)
  case (Cons c s)
  have "c \<noteq> CHR ''%'' \<and> c \<noteq> CHR ''+''" if "query_safe c"
    using that by (auto simp: query_safe_def in_range_def is_digit_def)
  with Cons show ?case
    by (auto simp: hex_val_upperhex of_char_div_16)
qed simp

lemma QueryUnescape_plain:
  "CHR ''%'' \<notin> set s \<Longrightarrow> CHR ''+'' \<notin> set s \<Longrightarrow> QueryUnescape s = Some s"
  by (induction s) auto

lemma upperhex_chars: "n < 16 \<Longrightarrow> upperhex ! n \<in> set upperhex"
  by (rule nth_mem) (simp add: upperhex_def)

lemma QueryEscape_chars:
  "c \<in> {CHR ''&'', CHR ''='', CHR '';''} \<Longrightarrow> c \<notin> set (QueryEscape s)"
proof (induction s)
  case (Cons d s)
  have "c \<notin> set upperhex" using Cons.prems by (auto simp: upperhex_def)
  moreover have "\<not> query_safe c" using Cons.prems by (auto simp: query_safe_def in_range_def is_digit_def)
  ultimately show ?case
    using Cons upperhex_chars [OF of_char_div_16, of d] upperhex_chars [of "of_char d mod 16"] by auto
qed simp

lemma Split_append_sep: "c \<notin> set a \<Longrightarrow> Split (a @ c # b) c = a # Split b c"
  by (induction a) auto

lemma Split_plain: "c \<notin> set a \<Longrightarrow> Split a c = [a]"
  by (induction a) auto

lemma parse_pair_param:
  assumes "list_all query_safe key" "key \<noteq> []" "QueryUnescape v = Some val"
    "CHR '';'' \<notin> set v"
  shows "parse_pair (key @ CHR ''='' # v) = Some (key, val)"
proof -
  have safe: "c \<noteq> CHR ''='' \<and> c \<noteq> CHR '';'' \<and> c \<noteq> CHR ''%'' \<and> c \<noteq> CHR ''+''" if "c \<in> set key" for c
    using assms(1) that by (auto simp: list_all_iff query_safe_def in_range_def is_digit_def)
  then have "takeWhile (\<lambda>c. c \<noteq> CHR ''='') (key @ CHR ''='' # v) = key"
    by (simp add: takeWhile_append2)
  moreover have "QueryUnescape key = Some key" using safe by (intro QueryUnescape_plain) auto
  moreover have "CHR '';'' \<notin> set key" using safe by blast
  ultimately show ?thesis using assms(3,4) by (simp add: parse_pair_def Let_def)
qed

text \<open>A query as a list of parameters.\<close>

fun query_text :: "(string \<times> string) list \<Rightarrow> string" where
  "query_text [] = []"
| "query_text [(k, v)] = k @ CHR ''='' # v"
| "query_text ((k, v) # ps) = k @ CHR ''='' # v @ CHR ''&'' # query_text ps"

definition param_ok :: "string \<times> string \<Rightarrow> bool" where
  "param_ok p \<longleftrightarrow> list_all query_safe (fst p) \<and> fst p \<noteq> [] \<and> QueryUnescape (snd p) \<noteq> None
     \<and> CHR '';'' \<notin> set (snd p) \<and> CHR ''&'' \<notin> set (snd p)"

lemma Split_query_text:
  "list_all param_ok ps \<Longrightarrow> ps \<noteq> [] \<Longrightarrow> Split (query_text ps) CHR ''&'' = map (\<lambda>(k, v). k @ CHR ''='' # v) ps"
proof (induction ps rule: query_text.induct)
  case (3 k v p ps)
  have amp: "CHR ''&'' \<notin> set (k @ CHR ''='' # v)"
    using 3 by (auto simp: param_ok_def list_all_iff query_safe_def in_range_def is_digit_def)
  have "query_text ((k, v) # p # ps) = (k @ CHR ''='' # v) @ CHR ''&'' # query_text (p # ps)" by simp
  then show ?case using 3 Split_append_sep [OF amp, of "query_text (p # ps)"] by simp
next
  case (2 k v)
  have "CHR ''&'' \<notin> set (k @ CHR ''='' # v)"
    using 2 by (auto simp: param_ok_def list_all_iff query_safe_def in_range_def is_digit_def)
  from Split_plain [OF this] show ?case by simp
qed simp

lemma ParseQuery_text:
  assumes "list_all param_ok ps" "ps \<noteq> []"
  shows "ParseQuery (query_text ps) =
    foldl (\<lambda>m (k, v). append_values m k [the (QueryUnescape v)]) [] ps"
proof -
  have "foldl (\<lambda>m p. case parse_pair p of None \<Rightarrow> m | Some (k, v) \<Rightarrow> append_values m k [v]) m
      (map (\<lambda>(k, v). k @ CHR ''='' # v) ps) = foldl (\<lambda>m (k, v). append_values m k [the (QueryUnescape v)]) m ps" for m
    using assms(1)
  proof (induction ps arbitrary: m)
    case (Cons p ps)
    obtain k v where p: "p = (k, v)" by fastforce
    from Cons.prems p have "parse_pair (k @ CHR ''='' # v) = Some (k, the (QueryUnescape v))"
      by (intro parse_pair_param) (auto simp: param_ok_def)
    with Cons p show ?case by simp
  qed simp
  then show ?thesis by (simp add: ParseQuery_def Split_query_text [OF assms])
qed

lemma query_Get_values: "query_Get q k = (case values_of q k of [] \<Rightarrow> [] | v # _ \<Rightarrow> v)"
  by (simp add: query_Get_def values_of_def split: option.splits list.splits)

lemma buildGetURL_text:
  "buildGetURL cn codecName isBinary data compressed = query_text
     ([(''connect'', ''v1'')] @ (if isBinary \<or> compressed then [(''base64'', ''1'')] else [])
      @ (if compressed then [(''compression'', QueryEscape cn)] else [])
      @ [(''encoding'', QueryEscape codecName),
         (''message'', if isBinary \<or> compressed then encodeBinaryQueryValue data
                     else QueryEscape (string_of_bytes data))])"
  by (simp add: buildGetURL_def appendQueryParam_def Let_def)

lemma encodeBinaryQueryValue_chars:
  "c \<in> {CHR ''%'', CHR ''+'', CHR ''&'', CHR '';''} \<Longrightarrow> c \<notin> set (encodeBinaryQueryValue data)"
  using encode_chars [OF url_alphabet_ok, of False data]
  by (auto simp: encodeBinaryQueryValue_def url_alphabet_def)

lemma QueryUnescape_binary [simp]:
  "QueryUnescape (encodeBinaryQueryValue data) = Some (encodeBinaryQueryValue data)"
  by (intro QueryUnescape_plain) (simp_all add: encodeBinaryQueryValue_chars)

text \<open>C29. GET requests of the Connect protocol: the query that the client builds for a message,
  compressed or not, binary or text, is parsed by the handler into exactly these parameters:
  the protocol version, the codec, the compression and a message parameter from which
  \<open>queryValueReader\<close> reads the data, whatever bytes the data and the names contain.\<close>

theorem get_query_round_trip:
  "let q = ParseQuery (buildGetURL compressionName codecName isBinary data compressed) in
     query_Get q ''connect'' = connectUnaryConnectQueryValue
     \<and> query_Get q ''encoding'' = codecName
     \<and> query_Get q ''compression'' = (if compressed then compressionName else [])
     \<and> queryValueReader (query_Get q ''message'') (query_Get q ''base64'' = ''1'') = clean_reader data"
proof -
  let ?ps = "[(''connect'', ''v1'')] @ (if isBinary \<or> compressed then [(''base64'', ''1'')] else [])
      @ (if compressed then [(''compression'', QueryEscape compressionName)] else [])
      @ [(''encoding'', QueryEscape codecName),
         (''message'', if isBinary \<or> compressed then encodeBinaryQueryValue data
                     else QueryEscape (string_of_bytes data))]"
  have "list_all param_ok ?ps"
    by (simp add: param_ok_def query_safe_def in_range_def QueryUnescape_Escape QueryEscape_chars
        encodeBinaryQueryValue_chars is_digit_def)
  from ParseQuery_text [OF this]
  have q: "ParseQuery (buildGetURL compressionName codecName isBinary data compressed) =
      foldl (\<lambda>m (k, v). append_values m k [the (QueryUnescape v)]) [] ?ps"
    by (simp add: buildGetURL_text)
  have empty: "values_of [] k = []" for k by (simp add: values_of_def)
  show ?thesis
    unfolding q Let_def query_Get_values
    by (simp add: QueryUnescape_Escape empty queryValueReader_def)
       (simp add: encodeBinaryQueryValue_def binaryQueryValueReader_encode)
qed

subsection \<open>Timeouts\<close>

lemma utoa_bound: "n < 10 ^ length (utoa n)"
proof (induction n rule: utoa.induct)
  case (1 n)
  show ?case
  proof (cases "n < 10")
    case True
    then show ?thesis by (simp add: utoa.simps [of n])
  next
    case False
    with 1 have "n div 10 < 10 ^ length (utoa (n div 10))" by simp
    then show ?thesis using False by (simp add: utoa.simps [of n] div_less_iff_less_mult)
  qed
qed

lemma length_utoa_ge: "10 ^ k \<le> n \<Longrightarrow> k < length (utoa n)"
  using le_less_trans [OF _ utoa_bound [of n], of "10 ^ k"] by (simp add: power_less_imp_less_exp)

text \<open>Deadlines travel safely in the Connect protocol: the timeout that a client writes for a
  deadline at least a millisecond and less than ten billion milliseconds away is parsed by the
  handler, read at the same moment, into a deadline that is never later and less than a
  millisecond earlier; a nearer, a farther and a missing deadline send no timeout.\<close>

lemma connect_timeout_round_trip:
  "(case connect_SetTimeout now (request\<lparr>rq_Header := connect_timeout_header now (Some d) [],
          rq_ctx := \<lparr>cx_err = None, cx_deadline = None\<rparr>\<rparr>) of
      Inl _ \<Rightarrow> False
    | Inr ctx \<Rightarrow>
        (case cx_deadline ctx of
           None \<Rightarrow> d - now < 1000000 \<or> 10 ^ 16 \<le> d - now
         | Some d' \<Rightarrow> 1000000 \<le> d - now \<and> d - now < 10 ^ 16 \<and> d' \<le> d \<and> d - d' < 1000000))
   \<and> connect_timeout_header now None h = h"
proof -
  define n where "n = (d - now) div 1000000"
  show ?thesis
  proof (cases "1000000 \<le> d - now")
    case False
    then have "\<not> sgn (d - now) * (\<bar>d - now\<bar> div 1000000) > 0"
      by (cases "d - now" "0 :: int" rule: linorder_cases) (auto simp: sgn_if)
    with False show ?thesis by (simp add: connect_timeout_header_def connect_SetTimeout_def)
  next
    case True
    then have n: "sgn (d - now) * (\<bar>d - now\<bar> div 1000000) = n" "n > 0" by (auto simp: n_def sgn_if)
    have i: "itoa n = utoa (nat n)" using n(2) by (simp add: itoa_def)
    show ?thesis
    proof (cases "d - now < 10 ^ 16")
      case small: True
      then have "nat n < 10 ^ 10" by (simp add: n_def nat_less_iff)
      then have l: "length (itoa n) \<le> 10" and p: "ParseInt64 (itoa n) = Some n"
        using length_utoa [of 10 "nat n"] ParseInt64_utoa [of "nat n"] n(2) by (simp_all add: i)
      have "itoa n \<noteq> []" by (simp add: i)
      with n l p True small show ?thesis
        by (auto simp: connect_timeout_header_def connect_SetTimeout_def WithTimeout_def Let_def n_def)
    next
      case large: False
      then have "10 ^ 10 \<le> nat n" by (simp add: n_def le_nat_iff)
      then have "\<not> length (itoa n) \<le> 10"
        using length_utoa_ge [of 10 "nat n"] by (simp add: i)
      with n True large show ?thesis
        by (simp add: connect_timeout_header_def connect_SetTimeout_def)
    qed
  qed
qed

end
