(* ===== verification/Connect_Protocol.thy ===== *)
theory Connect_Protocol
  imports Connect_Unary
begin

section \<open>Handlers and clients of the Connect protocol (connecthttp/protocol_connect.go)\<close>

text \<open>
  \<open>connectHandler\<close> with its unary and streaming connections, and \<open>connectClient\<close> with its two
  client connections. A connection is a record with the fields of the struct; the response writer
  or the HTTP call is part of it. The lemmas follow an error from \<open>Close\<close> of a handler connection
  to the error that the client reports, for unary calls in the response body and for streams in
  the end-of-stream message, and show that a stream that breaks off is never taken for its end.
\<close>

subsection \<open>connectHandler\<close>

definition protocolConnect_NewHandler :: "mime_package \<Rightarrow> 'm handler_params \<Rightarrow> 'm protocol_handler" where
  "protocolConnect_NewHandler mime params =
     (let unary = (spec_StreamType (hp_spec params) = StreamTypeUnary);
          methods = (if unary \<and> hp_IdempotencyLevel params = IdempotencyNoSideEffects
                     then [''POST'', ''GET''] else [''POST'']);
          contentTypes = map (\<lambda>name. canonicalizeContentType mime
              ((if unary then connectUnaryContentTypePrefix else connectStreamingContentTypePrefix) @ name))
            (codecs_Names (hp_Codecs params))
      in \<lparr>ph_kind = ProtocolConnect, ph_params = params, ph_methods = methods, ph_accept = contentTypes\<rparr>)"

definition connect_CanHandlePayload :: "'m protocol_handler \<Rightarrow> http_request \<Rightarrow> string \<Rightarrow> bool" where
  "connect_CanHandlePayload h request contentType \<longleftrightarrow>
     (let contentType =
        (if rq_Method request = ''GET''
         then connectContentTypeForCodecName (spec_StreamType (hp_spec (ph_params h)))
                (query_Get (rq_Query request) ''encoding'')
         else contentType)
      in contentType \<in> set (ph_accept h))"

subsection \<open>connectUnaryHandlerConn\<close>

record 'm connect_unary_handler_conn =
  uh_spec :: rpc_spec
  uh_peerAddr :: string
  uh_request :: http_request
  uh_codec :: "'m codec"
  uh_responseWriter :: response_writer
  uh_marshaler :: connect_unary_marshaler
  uh_unmarshaler :: connect_unary_unmarshaler
  uh_responseTrailer :: http_header

definition rw_setHeader :: "string \<Rightarrow> string \<Rightarrow> response_writer \<Rightarrow> response_writer" where
  "rw_setHeader key val rw = rw\<lparr>rw_Header := setHeaderCanonical (rw_Header rw) key val\<rparr>"

fun set_prefixed :: "http_header \<Rightarrow> http_header \<Rightarrow> http_header" where
  "set_prefixed header [] = header"
| "set_prefixed header ((k, v) # trailer) =
     set_prefixed (AList.update (connectUnaryTrailerPrefix @ k) v header) trailer"

definition uh_mergeResponseHeader :: "'m connect_unary_handler_conn \<Rightarrow> 'm connect_unary_handler_conn" where
  "uh_mergeResponseHeader hc =
     (let rw = uh_responseWriter hc;
          header = rw_Header rw;
          header = (if rq_Method (uh_request hc) = ''GET''
                    then append_values header headerVary [connectUnaryHeaderAcceptCompression] else header)
      in hc\<lparr>uh_responseWriter := rw\<lparr>rw_Header := set_prefixed header (uh_responseTrailer hc)\<rparr>\<rparr>)"

definition uh_Receive ::
  "'m \<Rightarrow> 'm connect_unary_handler_conn \<Rightarrow> go_error option \<times> 'm \<times> 'm connect_unary_handler_conn" where
  "uh_Receive msg hc =
     (case uu_Unmarshal (uh_codec hc) msg (uh_unmarshaler hc) of
        (err, msg', u) \<Rightarrow> (map_option Coded err, msg', hc\<lparr>uh_unmarshaler := u\<rparr>))"

definition uh_Send ::
  "'m option \<Rightarrow> 'm connect_unary_handler_conn \<Rightarrow> go_error option \<times> 'm connect_unary_handler_conn" where
  "uh_Send msg hc =
     (let hc = uh_mergeResponseHeader hc in
      case um_Marshal rw_Send rw_setHeader (uh_codec hc) (uh_marshaler hc) msg (uh_responseWriter hc) of
        (err, m, rw) \<Rightarrow> (map_option Coded err, hc\<lparr>uh_marshaler := m, uh_responseWriter := rw\<rparr>))"

text \<open>\<open>closeErr\<close> is what closing the request body returns.\<close>

definition uh_Close ::
  "(error_detail \<Rightarrow> string option) \<Rightarrow> go_error option \<Rightarrow> go_error option \<Rightarrow> 'm connect_unary_handler_conn
     \<Rightarrow> go_error option \<times> 'm connect_unary_handler_conn" where
  "uh_Close registry closeErr err hc =
     (let wroteHeader = um_wroteHeader (uh_marshaler hc);
          hc = (if \<not> wroteHeader then uh_mergeResponseHeader hc else hc);
          rw = uh_responseWriter hc
      in if \<not> wroteHeader \<and> rq_Method (uh_request hc) = ''GET'' \<and> IsNotModifiedError err
         then (closeErr, hc\<lparr>uh_responseWriter := rw_WriteHeader 304 rw\<rparr>)
         else case (if wroteHeader then None else err) of
           None \<Rightarrow> (closeErr, hc)
         | Some e \<Rightarrow>
             let rw = rw_setHeader headerContentType connectUnaryContentTypeJSON rw;
                 rw = rw_WriteHeader (connectCodeToHTTP (CodeOf (Some e))) rw
             in (case marshal_wire_error registry (newConnectWireError e) of
                   None \<Rightarrow>
                     (Some (Coded (WithCause (Errorf CodeInternal ''marshal error: %s'' [error_text e]) (Some e))),
                      hc\<lparr>uh_responseWriter := rw\<rparr>)
                 | Some data \<Rightarrow>
                     (case rw_Write (bytes_of_string data) rw of
                        (_, writeErr, rw) \<Rightarrow>
                          (case writeErr of Some we \<Rightarrow> Some we | None \<Rightarrow> closeErr,
                           hc\<lparr>uh_responseWriter := rw\<rparr>))))"

subsection \<open>Streaming marshalers\<close>

definition MarshalEndStream ::
  "(error_detail \<Rightarrow> string option) \<Rightarrow> 's sender \<Rightarrow> envelope_writer \<Rightarrow> go_error option \<Rightarrow> http_header \<Rightarrow> 's
     \<Rightarrow> connect_error option \<times> envelope_writer \<times> 's" where
  "MarshalEndStream registry send w err trailer s =
     (case marshal_end_stream registry
             \<lparr>es_Error = map_option newConnectWireError err, es_Trailer = trailer\<rparr> of
        None \<Rightarrow>
          (Some (WithCause (Errorf CodeInternal ''marshal end stream: %s'' [error_text json_syntax_error])
             (Some json_syntax_error)), w, s)
      | Some data \<Rightarrow> ew_Write send w (new_envelope connectFlagEnvelopeEndStream (bytes_of_string data)) s)"

record connect_streaming_unmarshaler =
  su_reader :: envelope_reader
  su_endStreamErr :: "connect_error option"
  su_trailer :: http_header

definition su_Unmarshal ::
  "'m codec \<Rightarrow> 'm \<Rightarrow> connect_streaming_unmarshaler
     \<Rightarrow> connect_error option \<times> 'm \<times> connect_streaming_unmarshaler" where
  "su_Unmarshal codec message u =
     (case er_Unmarshal codec message (su_reader u) of
        (None, message, r) \<Rightarrow> (None, message, u\<lparr>su_reader := r\<rparr>)
      | (Some err, message, r) \<Rightarrow>
          if \<not> is_errSpecialEnvelope (Coded err) then (Some err, message, u\<lparr>su_reader := r\<rparr>)
          else
            let env = er_last r;
                u = u\<lparr>su_reader := r\<lparr>er_last := env\<lparr>env_Data := []\<rparr>\<rparr>\<rparr>
            in if \<not> envelope_IsSet env connectFlagEnvelopeEndStream
               then (Some (Errorf CodeInternal ''protocol error: invalid envelope flags %d''
                             [utoa (unat (env_Flags env))]), message, u)
               else
                 (case unmarshal_end_stream (string_of_bytes (env_Data env)) of
                    Inl e \<Rightarrow>
                      (Some (WithCause (Errorf CodeInternal ''unmarshal end stream message: %s'' [error_text e])
                         (Some e)), message, u)
                  | Inr end \<Rightarrow>
                      (Some errSpecialEnvelope, message,
                       u\<lparr>su_trailer := canonical_trailer (es_Trailer end),
                         su_endStreamErr := connectWireError_asError (es_Error end)\<rparr>)))"

subsection \<open>connectStreamingHandlerConn\<close>

record 'm connect_streaming_handler_conn =
  sh_spec :: rpc_spec
  sh_peerAddr :: string
  sh_request :: http_request
  sh_codec :: "'m codec"
  sh_responseWriter :: response_writer
  sh_marshaler :: envelope_writer
  sh_unmarshaler :: connect_streaming_unmarshaler
  sh_responseTrailer :: http_header

definition sh_Receive ::
  "'m \<Rightarrow> 'm connect_streaming_handler_conn \<Rightarrow> go_error option \<times> 'm \<times> 'm connect_streaming_handler_conn" where
  "sh_Receive msg hc =
     (case su_Unmarshal (sh_codec hc) msg (sh_unmarshaler hc) of
        (err, msg', u) \<Rightarrow> (map_option Coded err, msg', hc\<lparr>sh_unmarshaler := u\<rparr>))"

definition sh_Send ::
  "'m option \<Rightarrow> 'm connect_streaming_handler_conn \<Rightarrow> go_error option \<times> 'm connect_streaming_handler_conn" where
  "sh_Send msg hc =
     (case ew_Marshal rw_Send (sh_codec hc) (sh_marshaler hc) msg (sh_responseWriter hc) of
        (err, w, rw) \<Rightarrow>
          (map_option Coded err, hc\<lparr>sh_marshaler := w, sh_responseWriter := flushResponseWriter rw\<rparr>))"

definition sh_Close ::
  "(error_detail \<Rightarrow> string option) \<Rightarrow> go_error option \<Rightarrow> go_error option \<Rightarrow> 'm connect_streaming_handler_conn
     \<Rightarrow> go_error option \<times> 'm connect_streaming_handler_conn" where
  "sh_Close registry closeErr err hc =
     (case MarshalEndStream registry rw_Send (sh_marshaler hc) err (sh_responseTrailer hc) (sh_responseWriter hc) of
        (e, w, rw) \<Rightarrow>
          (case e of
             Some marshalErr \<Rightarrow> Some (Coded marshalErr)
           | None \<Rightarrow>
               map_option (\<lambda>ce. case asError ce of
                   Some connectErr \<Rightarrow> Coded connectErr
                 | None \<Rightarrow> Coded (WithCause (Errorf CodeUnknown ''%s'' [error_text ce]) (Some ce))) closeErr,
           hc\<lparr>sh_marshaler := w, sh_responseWriter := flushResponseWriter rw\<rparr>))"

subsection \<open>connectHandler.NewConn\<close>

datatype 'm connect_handler_conn =
    UnaryHandlerConn "'m connect_unary_handler_conn"
  | StreamingHandlerConn "'m connect_streaming_handler_conn"

definition connect_Close ::
  "(error_detail \<Rightarrow> string option) \<Rightarrow> go_error option \<Rightarrow> go_error option \<Rightarrow> 'm connect_handler_conn
     \<Rightarrow> go_error option \<times> 'm connect_handler_conn" where
  "connect_Close registry closeErr err conn =
     (case conn of
        UnaryHandlerConn hc \<Rightarrow>
          (case uh_Close registry closeErr err hc of (e, hc') \<Rightarrow> (e, UnaryHandlerConn hc'))
      | StreamingHandlerConn hc \<Rightarrow>
          (case sh_Close registry closeErr err hc of (e, hc') \<Rightarrow> (e, StreamingHandlerConn hc')))"

definition conn_writer :: "'m connect_handler_conn \<Rightarrow> response_writer" where
  "conn_writer conn = (case conn of UnaryHandlerConn hc \<Rightarrow> uh_responseWriter hc | StreamingHandlerConn hc \<Rightarrow> sh_responseWriter hc)"

definition connect_request_body :: "http_request \<Rightarrow> reader" where
  "connect_request_body request =
     (if rq_Method request = ''GET''
      then queryValueReader (query_Get (rq_Query request) ''message'')
             (query_Get (rq_Query request) ''base64'' = ''1'')
      else rq_Body request)"

definition connect_new_conn ::
  "'m codec \<Rightarrow> 'm protocol_handler \<Rightarrow> string \<Rightarrow> string \<Rightarrow> response_writer \<Rightarrow> http_request
     \<Rightarrow> 'm connect_handler_conn" where
  "connect_new_conn codec h requestCompression responseCompression rw request =
     (let p = ph_params h; ctx = rq_ctx request; body = connect_request_body request;
          requestPool = pools_Get (hp_CompressionPools p) requestCompression;
          responsePool = pools_Get (hp_CompressionPools p) responseCompression
      in if spec_StreamType (hp_spec p) = StreamTypeUnary
         then UnaryHandlerConn
           \<lparr>uh_spec = hp_spec p, uh_peerAddr = rq_RemoteAddr request, uh_request = request, uh_codec = codec,
            uh_responseWriter = rw,
            uh_marshaler = \<lparr>um_ctx = ctx, um_compressMinBytes = hp_CompressMinBytes p,
               um_compressionName = responseCompression, um_compressionPool = responsePool,
               um_sendMaxBytes = hp_SendMaxBytes p, um_wroteHeader = False, um_stats = Some no_stats\<rparr>,
            uh_unmarshaler = \<lparr>uu_ctx = ctx, uu_reader = body, uu_compressionPool = requestPool,
               uu_alreadyRead = False, uu_readMaxBytes = hp_ReadMaxBytes p, uu_stats = Some no_stats\<rparr>,
            uh_responseTrailer = []\<rparr>
         else StreamingHandlerConn
           \<lparr>sh_spec = hp_spec p, sh_peerAddr = rq_RemoteAddr request, sh_request = request, sh_codec = codec,
            sh_responseWriter = rw,
            sh_marshaler = \<lparr>ew_ctx = ctx, ew_compressMinBytes = hp_CompressMinBytes p,
               ew_compressionPool = responsePool, ew_sendMaxBytes = hp_SendMaxBytes p,
               ew_stats = Some no_stats\<rparr>,
            sh_unmarshaler = \<lparr>su_reader = \<lparr>er_ctx = ctx, er_reader = body, er_bytesRead = 0,
                 er_last = new_envelope 0 [], er_compressionPool = requestPool,
                 er_readMaxBytes = hp_ReadMaxBytes p, er_stats = Some no_stats\<rparr>,
               su_endStreamErr = None, su_trailer = []\<rparr>,
            sh_responseTrailer = []\<rparr>)"

text \<open>Why \<open>NewConn\<close> refuses a request, tried in the order of the code, given the failure of the
  negotiation and the codec that was found.\<close>

definition connect_refusal ::
  "string \<Rightarrow> 'm protocol_handler \<Rightarrow> response_writer \<Rightarrow> http_request \<Rightarrow> connect_error option \<Rightarrow> string
     \<Rightarrow> 'm codec option \<Rightarrow> connect_error option" where
  "connect_refusal typeName h rw request failed codecName codec =
     (let p = ph_params h; unary = (spec_StreamType (hp_spec p) = StreamTypeUnary);
          failed = (if failed = None then checkServerStreamsCanFlush typeName (hp_spec p) rw else failed);
          failed = (if failed = None
                    then connectCheckProtocolVersion request (hp_RequireConnectProtocolHeader p \<and> unary)
                    else failed);
          failed = (if rq_Method request = ''GET'' then
                      (if failed = None \<and> \<not> query_Has (rq_Query request) ''encoding''
                       then Some (Errorf CodeInvalidArgument ''missing %s parameter'' [''encoding''])
                       else if failed = None \<and> \<not> query_Has (rq_Query request) ''message''
                       then Some (Errorf CodeInvalidArgument ''missing %s parameter'' [''message''])
                       else failed)
                    else failed)
      in if failed = None \<and> codec = None
         then Some (Errorf CodeInvalidArgument ''invalid message encoding: %q'' [Quote codecName])
         else failed)"

definition connect_NewConn ::
  "(error_detail \<Rightarrow> string option) \<Rightarrow> 'm codec \<Rightarrow> string \<Rightarrow> go_error option \<Rightarrow> 'm protocol_handler
     \<Rightarrow> response_writer \<Rightarrow> http_request \<Rightarrow> call_info
     \<Rightarrow> response_writer + ('m connect_handler_conn \<times> call_info)" where
  \<comment> \<open>\<open>nilCodec\<close> stands for the nil interface, which is not used when the request is refused\<close>
  "connect_NewConn registry nilCodec typeName closeErr h rw request info =
     (let p = ph_params h; st = spec_StreamType (hp_spec p); unary = (st = StreamTypeUnary);
          query = rq_Query request; get = (rq_Method request = ''GET'');
          contentEncoding =
            (if unary then (if get then query_Get query ''compression''
                            else getHeaderCanonical (rq_Header request) connectUnaryHeaderCompression)
             else getHeaderCanonical (rq_Header request) connectStreamingHeaderCompression);
          acceptEncoding =
            getHeaderCanonical (rq_Header request)
              (if unary then connectUnaryHeaderAcceptCompression else connectStreamingHeaderAcceptCompression);
          (requestCompression, responseCompression, failed) =
            negotiated (hp_CompressionPools p) contentEncoding acceptEncoding;
          codecName = (if get then query_Get query ''encoding''
                       else connectCodecForContentType st (getHeaderCanonical (rq_Header request) headerContentType));
          contentType = (if get then connectContentTypeForCodecName st codecName
                         else getHeaderCanonical (rq_Header request) headerContentType);
          codec = codecs_Get (hp_Codecs p) codecName;
          failed = connect_refusal typeName h rw request failed codecName codec;
          header = setHeaderCanonical (rw_Header rw) headerContentType contentType;
          header = (if \<not> unary \<and> responseCompression \<noteq> CompressionNameIdentity
                    then setHeaderCanonical header connectStreamingHeaderCompression responseCompression else header);
          header = setHeaderCanonical header
                     (if unary then connectUnaryHeaderAcceptCompression else connectStreamingHeaderAcceptCompression)
                     (CommaSeparatedNames (hp_CompressionPools p));
          info = info\<lparr>ci_Codec := codecName, ci_RequestEncoding := requestCompression,
                      ci_ResponseEncoding := responseCompression\<rparr>;
          conn = connect_new_conn (case codec of Some c \<Rightarrow> c | None \<Rightarrow> nilCodec) h
                   requestCompression responseCompression (rw\<lparr>rw_Header := header\<rparr>) request
      in case failed of
           Some e \<Rightarrow> Inl (conn_writer (snd (translated_close (connect_Close registry closeErr) (Some (Coded e)) conn)))
         | None \<Rightarrow> Inr (conn, info))"

subsection \<open>connectClient\<close>

definition connect_WriteRequestHeader ::
  "string \<Rightarrow> 'm client_params \<Rightarrow> stream_type \<Rightarrow> http_header \<Rightarrow> http_header" where
  \<comment> \<open>the first argument is \<open>defaultConnectUserAgent\<close>\<close>
  "connect_WriteRequestHeader userAgent p streamType header =
     (let unary = (streamType = StreamTypeUnary);
          header = setUserAgentIfAbsent header userAgent;
          header = setHeaderCanonical header connectHeaderProtocolVersion connectProtocolVersion;
          header = setHeaderCanonical header headerContentType
                     (connectContentTypeForCodecName streamType (codec_Name (cp_Codec p)));
          header = setHeaderCanonical header connectUnaryHeaderAcceptCompression CompressionNameIdentity;
          header = (if \<not> unary \<and> cp_CompressionName p \<noteq> [] \<and> cp_CompressionName p \<noteq> CompressionNameIdentity
                    then setHeaderCanonical header connectStreamingHeaderCompression (cp_CompressionName p)
                    else header);
          acceptCompression = CommaSeparatedNames (cp_CompressionPools p)
      in if acceptCompression \<noteq> []
         then setHeaderCanonical header
                (if unary then connectUnaryHeaderAcceptCompression else connectStreamingHeaderAcceptCompression)
                acceptCompression
         else header)"

record 'm connect_unary_client_conn =
  uc_spec :: rpc_spec
  uc_call :: duplex_call
  uc_pools :: compression_pools
  uc_codec :: "'m codec"
  uc_marshaler :: connect_unary_request_marshaler
  uc_unmarshaler :: connect_unary_unmarshaler
  uc_responseHeader :: http_header
  uc_responseTrailer :: http_header
  uc_ResponseEncoding :: "string option"

record 'm connect_streaming_client_conn =
  sc_spec :: rpc_spec
  sc_call :: duplex_call
  sc_pools :: compression_pools
  sc_codec :: "'m codec"
  sc_marshaler :: envelope_writer
  sc_unmarshaler :: connect_streaming_unmarshaler
  sc_responseHeader :: http_header
  sc_responseTrailer :: http_header
  sc_ResponseEncoding :: "string option"

datatype 'm connect_client_conn =
    UnaryClientConn "'m connect_unary_client_conn"
  | StreamingClientConn "'m connect_streaming_client_conn"

definition connectClient_NewConn ::
  "int \<Rightarrow> 'm client_params \<Rightarrow> context_t \<Rightarrow> rpc_spec \<Rightarrow> http_header \<Rightarrow> bool \<Rightarrow> 'm connect_client_conn" where
  \<comment> \<open>the last argument says whether the context carries a \<open>CallInfo\<close>\<close>
  "connectClient_NewConn now p ctx spec header hasInfo =
     (let header = connect_timeout_header now (cx_deadline ctx) header;
          call = newDuplexHTTPCall ctx (cp_URL p) (spec_StreamType spec) header;
          stats = (if hasInfo then Some no_stats else None);
          info = (if hasInfo then Some [] else None);
          pool = pools_Get (cp_CompressionPools p) (cp_CompressionName p);
          get = (spec_IdempotencyLevel spec = IdempotencyNoSideEffects)
      in if spec_StreamType spec = StreamTypeUnary
         then UnaryClientConn
           \<lparr>uc_spec = spec, uc_call = call, uc_pools = cp_CompressionPools p, uc_codec = cp_Codec p,
            uc_marshaler = \<lparr>rm_marshaler = \<lparr>um_ctx = ctx, um_compressMinBytes = cp_CompressMinBytes p,
                 um_compressionName = cp_CompressionName p, um_compressionPool = pool,
                 um_sendMaxBytes = cp_SendMaxBytes p, um_wroteHeader = False, um_stats = stats\<rparr>,
               rm_enableGet = (get \<and> cp_EnableGet p),
               rm_getURLMaxBytes = (if get then cp_GetURLMaxBytes p else 0),
               rm_getUseFallback = (get \<and> cp_GetUseFallback p)\<rparr>,
            uc_unmarshaler = \<lparr>uu_ctx = ctx, uu_reader = clean_reader [], uu_compressionPool = None,
               uu_alreadyRead = False, uu_readMaxBytes = cp_ReadMaxBytes p, uu_stats = stats\<rparr>,
            uc_responseHeader = [], uc_responseTrailer = [], uc_ResponseEncoding = info\<rparr>
         else StreamingClientConn
           \<lparr>sc_spec = spec, sc_call = call, sc_pools = cp_CompressionPools p, sc_codec = cp_Codec p,
            sc_marshaler = \<lparr>ew_ctx = ctx, ew_compressMinBytes = cp_CompressMinBytes p,
               ew_compressionPool = pool, ew_sendMaxBytes = cp_SendMaxBytes p, ew_stats = stats\<rparr>,
            sc_unmarshaler = \<lparr>su_reader = \<lparr>er_ctx = ctx, er_reader = clean_reader [], er_bytesRead = 0,
                 er_last = new_envelope 0 [], er_compressionPool = None,
                 er_readMaxBytes = cp_ReadMaxBytes p, er_stats = stats\<rparr>,
               su_endStreamErr = None, su_trailer = []\<rparr>,
            sc_responseHeader = [], sc_responseTrailer = [], sc_ResponseEncoding = info\<rparr>)"

subsection \<open>connectUnaryClientConn\<close>

text \<open>The header of a response is split into headers and, under the prefix \<open>Trailer-\<close>, trailers.\<close>

fun split_response_header :: "http_header \<Rightarrow> http_header \<Rightarrow> http_header \<Rightarrow> http_header \<times> http_header" where
  "split_response_header header trailer [] = (header, trailer)"
| "split_response_header header trailer ((k, v) # h) =
     (if \<not> HasPrefix k connectUnaryTrailerPrefix
      then split_response_header (AList.update k v header) trailer h
      else split_response_header header
             (AList.update (drop (length connectUnaryTrailerPrefix) k) v trailer) h)"

definition known_encoding :: "compression_pools \<Rightarrow> string \<Rightarrow> connect_error option" where
  "known_encoding pools compression =
     (if compression \<noteq> [] \<and> compression \<noteq> CompressionNameIdentity \<and> \<not> pools_Contains pools compression
      then Some (Errorf CodeInternal ''unknown encoding %q: accepted encodings are %v''
                   [Quote compression, CommaSeparatedNames pools])
      else None)"

text \<open>The error in the body of a response whose status is not 200.\<close>

definition unary_error_response ::
  "context_t \<Rightarrow> compression_pool option \<Rightarrow> http_response \<Rightarrow> connect_error option" where
  "unary_error_response ctx pool response =
     (case uu_UnmarshalFunc (\<lambda>src _. decode_wire_error src) no_wire_error
             \<lparr>uu_ctx = ctx, uu_reader = rs_Body response, uu_compressionPool = pool, uu_alreadyRead = False,
              uu_readMaxBytes = 0, uu_stats = None\<rparr> of
        (Some _, _, _) \<Rightarrow> Some (NewError (httpToCode (rs_StatusCode response)) (rs_Status response))
      | (None, wireErr, _) \<Rightarrow>
          let wireErr = (if we_Code wireErr = 0
                         then wireErr\<lparr>we_Code := httpToCode (rs_StatusCode response)\<rparr> else wireErr)
          in connectWireError_asError (Some wireErr))"

definition uc_validateResponse ::
  "http_response \<Rightarrow> 'm connect_unary_client_conn \<Rightarrow> connect_error option \<times> 'm connect_unary_client_conn" where
  "uc_validateResponse response cc =
     (let (header, trailer) =
            split_response_header (uc_responseHeader cc) (uc_responseTrailer cc) (rs_Header response);
          cc = cc\<lparr>uc_responseHeader := header, uc_responseTrailer := trailer\<rparr>
      in case connectValidateUnaryResponseContentType (codec_Name (uc_codec cc))
                (rq_Method (dc_request (uc_call cc))) (rs_StatusCode response) (rs_Status response)
                (getHeaderCanonical (rs_Header response) headerContentType) of
           Some err \<Rightarrow> (Some err, cc)
         | None \<Rightarrow>
             let compression = getHeaderCanonical (rs_Header response) connectUnaryHeaderCompression in
             (case known_encoding (uc_pools cc) compression of
                Some err \<Rightarrow> (Some err, cc)
              | None \<Rightarrow>
                  let pool = pools_Get (uc_pools cc) compression;
                      cc = cc\<lparr>uc_unmarshaler := (uc_unmarshaler cc)\<lparr>uu_compressionPool := pool\<rparr>,
                              uc_ResponseEncoding :=
                                map_option (\<lambda>_. encodingOrIdentity compression) (uc_ResponseEncoding cc)\<rparr>
                  in (if rs_StatusCode response \<noteq> 200
                      then unary_error_response (uu_ctx (uc_unmarshaler cc)) pool response else None, cc)))"

definition uc_env :: "http_env \<Rightarrow> 'm connect_unary_client_conn \<Rightarrow> http_env" where
  "uc_env he cc = he\<lparr>he_validate := (\<lambda>r. fst (uc_validateResponse r cc))\<rparr>"

definition uc_arrived ::
  "http_env \<Rightarrow> duplex_call \<Rightarrow> 'm connect_unary_client_conn \<Rightarrow> 'm connect_unary_client_conn" where
  "uc_arrived he d cc =
     (let cc = (case dc_response d of None \<Rightarrow> cc
                | Some r \<Rightarrow> snd (uc_validateResponse r (cc\<lparr>uc_call := d\<rparr>)));
          body = (case duplex_Read he d of None \<Rightarrow> clean_reader [] | Some rd \<Rightarrow> rd)
      in cc\<lparr>uc_call := d, uc_unmarshaler := (uc_unmarshaler cc)\<lparr>uu_reader := body\<rparr>\<rparr>)"

definition uc_complete :: "http_env \<Rightarrow> 'm connect_unary_client_conn \<Rightarrow> 'm connect_unary_client_conn" where
  "uc_complete he cc = uc_arrived he (makeRequest (uc_env he cc) (uc_call cc)) cc"

definition uc_Send ::
  "http_env \<Rightarrow> 'm option \<Rightarrow> 'm connect_unary_client_conn \<Rightarrow> go_error option \<times> 'm connect_unary_client_conn" where
  "uc_Send he msg cc =
     (case rm_Marshal (uc_env he cc) (uc_codec cc) (uc_marshaler cc) msg (uc_call cc) of
        (err, rm, d) \<Rightarrow>
          let cc = cc\<lparr>uc_marshaler := rm\<rparr> in
          (map_option Coded err,
           if dc_ready d \<and> \<not> dc_ready (uc_call cc) then uc_arrived he d cc else cc\<lparr>uc_call := d\<rparr>))"

definition uc_CloseRequest ::
  "'m connect_unary_client_conn \<Rightarrow> go_error option \<times> 'm connect_unary_client_conn" where
  "uc_CloseRequest cc = (case duplex_CloseWrite (uc_call cc) of (err, d) \<Rightarrow> (err, cc\<lparr>uc_call := d\<rparr>))"

definition uc_Receive ::
  "'m \<Rightarrow> 'm connect_unary_client_conn
     \<Rightarrow> (go_error option \<times> 'm \<times> 'm connect_unary_client_conn) option" where
  "uc_Receive msg cc =
     (case blockUntilResponseReady (uc_call cc) of
        None \<Rightarrow> None
      | Some (_, Some err) \<Rightarrow> Some (Some err, msg, cc)
      | Some (_, None) \<Rightarrow>
          (case uu_Unmarshal (uc_codec cc) msg (uc_unmarshaler cc) of
             (err, msg', u) \<Rightarrow> Some (map_option Coded err, msg', cc\<lparr>uc_unmarshaler := u\<rparr>)))"

definition uc_ResponseHeader :: "'m connect_unary_client_conn \<Rightarrow> http_header option" where
  "uc_ResponseHeader cc =
     map_option (\<lambda>arrived. if arrived then uc_responseHeader cc else []) (awaitResponse (uc_call cc))"

definition uc_ResponseTrailer :: "'m connect_unary_client_conn \<Rightarrow> http_header option" where
  "uc_ResponseTrailer cc =
     map_option (\<lambda>arrived. if arrived then uc_responseTrailer cc else []) (awaitResponse (uc_call cc))"

subsection \<open>connectStreamingClientConn\<close>

definition sc_validateResponse ::
  "http_response \<Rightarrow> 'm connect_streaming_client_conn \<Rightarrow> connect_error option \<times> 'm connect_streaming_client_conn" where
  "sc_validateResponse response cc =
     (if rs_StatusCode response \<noteq> 200
      then (Some (Errorf (httpToCode (rs_StatusCode response)) ''HTTP status %v'' [rs_Status response]), cc)
      else case connectValidateStreamResponseContentType (codec_Name (sc_codec cc)) (spec_StreamType (sc_spec cc))
                  (getHeaderCanonical (rs_Header response) headerContentType) of
        Some err \<Rightarrow> (Some err, cc)
      | None \<Rightarrow>
          let compression = getHeaderCanonical (rs_Header response) connectStreamingHeaderCompression in
          (case known_encoding (sc_pools cc) compression of
             Some err \<Rightarrow> (Some err, cc)
           | None \<Rightarrow>
               let u = sc_unmarshaler cc in
               (None,
                cc\<lparr>sc_unmarshaler := u\<lparr>su_reader := (su_reader u)
                     \<lparr>er_compressionPool := pools_Get (sc_pools cc) compression\<rparr>\<rparr>,
                   sc_ResponseEncoding :=
                     map_option (\<lambda>_. encodingOrIdentity compression) (sc_ResponseEncoding cc),
                   sc_responseHeader := mergeHeaders (sc_responseHeader cc) (rs_Header response)\<rparr>)))"

definition sc_env :: "http_env \<Rightarrow> 'm connect_streaming_client_conn \<Rightarrow> http_env" where
  "sc_env he cc = he\<lparr>he_validate := (\<lambda>r. fst (sc_validateResponse r cc))\<rparr>"

definition sc_arrived ::
  "http_env \<Rightarrow> duplex_call \<Rightarrow> 'm connect_streaming_client_conn \<Rightarrow> 'm connect_streaming_client_conn" where
  "sc_arrived he d cc =
     (let cc = (case dc_response d of None \<Rightarrow> cc | Some r \<Rightarrow> snd (sc_validateResponse r cc));
          body = (case duplex_Read he d of None \<Rightarrow> clean_reader [] | Some rd \<Rightarrow> rd);
          u = sc_unmarshaler cc
      in cc\<lparr>sc_call := d, sc_unmarshaler := u\<lparr>su_reader := (su_reader u)\<lparr>er_reader := body\<rparr>\<rparr>\<rparr>)"

definition sc_complete :: "http_env \<Rightarrow> 'm connect_streaming_client_conn \<Rightarrow> 'm connect_streaming_client_conn" where
  "sc_complete he cc = sc_arrived he (makeRequest (sc_env he cc) (sc_call cc)) cc"

definition sc_Send ::
  "http_env \<Rightarrow> 'm option \<Rightarrow> 'm connect_streaming_client_conn
     \<Rightarrow> go_error option \<times> 'm connect_streaming_client_conn" where
  "sc_Send he msg cc =
     (case ew_Marshal (duplex_sender (sc_env he cc)) (sc_codec cc) (sc_marshaler cc) msg (sc_call cc) of
        (err, w, d) \<Rightarrow>
          let cc = cc\<lparr>sc_marshaler := w\<rparr> in
          (map_option Coded err,
           if dc_ready d \<and> \<not> dc_ready (sc_call cc) then sc_arrived he d cc else cc\<lparr>sc_call := d\<rparr>))"

definition sc_CloseRequest ::
  "'m connect_streaming_client_conn \<Rightarrow> go_error option \<times> 'm connect_streaming_client_conn" where
  "sc_CloseRequest cc = (case duplex_CloseWrite (sc_call cc) of (err, d) \<Rightarrow> (err, cc\<lparr>sc_call := d\<rparr>))"

definition sc_Receive ::
  "'m \<Rightarrow> 'm connect_streaming_client_conn
     \<Rightarrow> (go_error option \<times> 'm \<times> 'm connect_streaming_client_conn) option" where
  "sc_Receive msg cc =
     (case blockUntilResponseReady (sc_call cc) of
        None \<Rightarrow> None
      | Some (_, Some err) \<Rightarrow> Some (Some err, msg, cc)
      | Some (_, None) \<Rightarrow>
          (case su_Unmarshal (sc_codec cc) msg (sc_unmarshaler cc) of
             (None, msg, u) \<Rightarrow> Some (None, msg, cc\<lparr>sc_unmarshaler := u\<rparr>)
           | (Some err, msg, u) \<Rightarrow>
               let cc = cc\<lparr>sc_unmarshaler := u,
                          sc_responseTrailer := mergeHeaders (sc_responseTrailer cc) (su_trailer u)\<rparr>;
                   cc = cc\<lparr>sc_call := snd (duplex_CloseWrite (sc_call cc))\<rparr>
               in (case su_endStreamErr u of
                     Some serverErr \<Rightarrow> Some (Some (Coded serverErr), msg, cc)
                   | None \<Rightarrow>
                       let err = (if errors_Is (Coded err) EOF \<and> \<not> is_errSpecialEnvelope (Coded err)
                                  then WithCause (Errorf CodeInternal ''protocol error: %s''
                                         [sentinel_text ErrUnexpectedEOF]) (Some (Sentinel ErrUnexpectedEOF))
                                  else err)
                       in Some (Some (Coded err), msg, cc))))"

definition sc_ResponseHeader :: "'m connect_streaming_client_conn \<Rightarrow> http_header option" where
  "sc_ResponseHeader cc =
     map_option (\<lambda>arrived. if arrived then sc_responseHeader cc else []) (awaitResponse (sc_call cc))"

definition sc_ResponseTrailer :: "'m connect_streaming_client_conn \<Rightarrow> http_header option" where
  "sc_ResponseTrailer cc =
     map_option (\<lambda>arrived. if arrived then sc_responseTrailer cc else []) (awaitResponse (sc_call cc))"

subsection \<open>Errors of unary calls reach the client\<close>

lemma set_prefixed_other:
  "\<not> HasPrefix k connectUnaryTrailerPrefix \<Longrightarrow> values_of (set_prefixed h t) k = values_of h k"
proof (induction h t rule: set_prefixed.induct)
  case (2 h key v t)
  have "k \<noteq> connectUnaryTrailerPrefix @ key" using 2(2) HasPrefix_append by metis
  with 2 show ?case by (simp del: append_Cons)
qed simp

lemma without_trailers_other:
  "\<not> HasPrefix k TrailerPrefix \<Longrightarrow> values_of (without_trailers h) k = values_of h k"
proof (induction h rule: without_trailers.induct)
  case (2 key vs h)
  have "key \<noteq> k" if "CutPrefix key TrailerPrefix = Some r" for r
    using that 2(3) by (auto simp: CutPrefix_def split: if_splits)
  with 2 show ?case by (auto simp: values_of_def split: option.splits)
qed simp

lemma uh_merge_simps [simp]:
  "uh_request (uh_mergeResponseHeader hc) = uh_request hc" "uh_marshaler (uh_mergeResponseHeader hc) = uh_marshaler hc"
  "rw_wrote (uh_responseWriter (uh_mergeResponseHeader hc)) = rw_wrote (uh_responseWriter hc)"
  "rw_body (uh_responseWriter (uh_mergeResponseHeader hc)) = rw_body (uh_responseWriter hc)"
  by (simp_all add: uh_mergeResponseHeader_def Let_def)

lemma uh_merge_other:
  assumes "\<not> HasPrefix k connectUnaryTrailerPrefix" "k \<noteq> headerVary"
  shows "values_of (rw_Header (uh_responseWriter (uh_mergeResponseHeader hc))) k =
    values_of (rw_Header (uh_responseWriter hc)) k"
  using assms by (simp add: uh_mergeResponseHeader_def Let_def set_prefixed_other)

text \<open>What the client sees of a unary call that is closed with an error before anything was sent.\<close>

lemma uh_Close_response:
  assumes "\<not> um_wroteHeader (uh_marshaler hc)" and "rw_wrote (uh_responseWriter hc) = None"
    and "w_room (rw_body (uh_responseWriter hc)) = None" and "w_out (rw_body (uh_responseWriter hc)) = []"
    and "\<not> IsNotModifiedError (Some e)"
    and "marshal_wire_error registry (newConnectWireError e) = Some data"
    and "uh_Close registry closeErr (Some e) hc = (ret, hc')"
  shows "rs_StatusCode (rw_finish (uh_responseWriter hc')) = connectCodeToHTTP (CodeOf (Some e))"
    "rs_Body (rw_finish (uh_responseWriter hc')) = clean_reader (bytes_of_string data)"
    "getHeaderCanonical (rs_Header (rw_finish (uh_responseWriter hc'))) headerContentType = connectUnaryContentTypeJSON"
    "getHeaderCanonical (rs_Header (rw_finish (uh_responseWriter hc'))) connectUnaryHeaderCompression =
       getHeaderCanonical (rw_Header (uh_responseWriter hc)) connectUnaryHeaderCompression"
proof -
  let ?rw = "uh_responseWriter (uh_mergeResponseHeader hc)"
  let ?h = "setHeaderCanonical (rw_Header ?rw) headerContentType connectUnaryContentTypeJSON"
  have rw: "uh_responseWriter hc' = ?rw\<lparr>rw_Header := ?h,
      rw_wrote := Some (connectCodeToHTTP (CodeOf (Some e)), ?h),
      rw_body := (rw_body ?rw)\<lparr>w_out := bytes_of_string data\<rparr>\<rparr>"
    using assms
    by (auto simp: uh_Close_def Let_def rw_setHeader_def rw_WriteHeader_def rw_Write_def io_Write_def
        split: if_splits)
  show "rs_StatusCode (rw_finish (uh_responseWriter hc')) = connectCodeToHTTP (CodeOf (Some e))"
    "rs_Body (rw_finish (uh_responseWriter hc')) = clean_reader (bytes_of_string data)"
    by (simp_all add: rw rw_finish_def Let_def)
  have "\<not> HasPrefix headerContentType TrailerPrefix" "\<not> HasPrefix connectUnaryHeaderCompression TrailerPrefix"
    "\<not> HasPrefix headerContentType connectUnaryTrailerPrefix"
    "\<not> HasPrefix connectUnaryHeaderCompression connectUnaryTrailerPrefix"
    by (simp_all add: HasPrefix_def TrailerPrefix_def)
  then show "getHeaderCanonical (rs_Header (rw_finish (uh_responseWriter hc'))) headerContentType =
      connectUnaryContentTypeJSON"
    "getHeaderCanonical (rs_Header (rw_finish (uh_responseWriter hc'))) connectUnaryHeaderCompression =
       getHeaderCanonical (rw_Header (uh_responseWriter hc)) connectUnaryHeaderCompression"
    by (simp_all add: rw rw_finish_def Let_def getHeaderCanonical_def without_trailers_other
        uh_merge_other)
qed

lemma unary_error_response_decoded:
  assumes "rs_Body response = clean_reader data" and "decode_wire_error data = Inr w" and "we_Code w \<noteq> 0"
  shows "unary_error_response ctx None response = connectWireError_asError (Some w)"
  using assms
  by (cases "data = []")
    (simp_all add: unary_error_response_def uu_UnmarshalFunc_def uu_decode_def io_ReadAll_def clean_reader_def Let_def)

lemma pools_Get_empty: "compression = [] \<or> compression = CompressionNameIdentity \<Longrightarrow> pools_Get pools compression = None"
  by (auto simp: pools_Get_def)

text \<open>What the client makes of a response with the JSON form of an error.\<close>

lemma unary_error_seen:
  assumes e: "asError e = Some ce" and known: "known_code (Error_Code ce)" and utf8: "utf8_valid (Error_Message ce)"
    and det: "list_all (wire_detail_ok registry) (Error_Details ce)"
    and data: "marshal_wire_error registry (newConnectWireError e) = Some data"
    and resp: "rs_StatusCode response = connectCodeToHTTP (CodeOf (Some e))"
      "rs_Body response = clean_reader (bytes_of_string data)"
      "getHeaderCanonical (rs_Header response) headerContentType = connectUnaryContentTypeJSON"
      "getHeaderCanonical (rs_Header response) connectUnaryHeaderCompression = []"
  shows "\<exists>r cc'. uc_validateResponse response cc = (Some r, cc')
    \<and> Error_Code r = Error_Code ce \<and> Error_Message r = Error_Message ce
    \<and> Error_Details r = map (sent_detail registry) (Error_Details ce) \<and> IsRemote r
    \<and> rs_StatusCode response = connectCodeToHTTP (Error_Code ce)"
proof -
  from wire_error_round_trip [OF e utf8 det] data have
    v: "value_ok 9003 data" "\<And>w. connectWireError_UnmarshalJSON data w = Inr (wire_image registry ce)" by force+
  have d: "decode_wire_error (bytes_of_string data) = Inr (wire_image registry ce)"
    using v(2) json_front_value [OF v(1)] by (simp add: decode_wire_error_def)
  have code: "CodeOf (Some e) = Error_Code ce" using e by (simp add: CodeOf_def asError_def)
  have "we_Code (wire_image registry ce) \<noteq> 0"
    using known by (auto simp: wire_image_def known_code_def)
  then have u: "unary_error_response ctx None response =
      connectWireError_asError (Some (wire_image registry ce))" for ctx
    using unary_error_response_decoded [OF resp(2) d] by simp
  obtain r where r: "connectWireError_asError (Some (wire_image registry ce)) = Some r"
    by (simp add: connectWireError_asError_def)
  have none: "pools_Get pools [] = None" for pools by (rule pools_Get_empty) simp
  have st: "rs_StatusCode response \<noteq> 200" "rs_StatusCode response \<noteq> 304"
    using connectCodeToHTTP_not_ok by (simp_all add: resp(1))
  have "fst (uc_validateResponse response cc) = Some r"
    using st u r none
    by (simp add: uc_validateResponse_def resp(3,4) connectValidateUnaryResponseContentType_def
        known_encoding_def Let_def split: prod.split)
  then show ?thesis
    using wire_image_asError [OF known r] by (cases "uc_validateResponse response cc") (auto simp: resp(1) code)
qed

text \<open>C8. A unary handler's error reaches the client: when a Connect unary connection is closed
  with a coded error before a response was sent, the client's \<open>validateResponse\<close> of the HTTP
  response returns a remote error with the same code, message and details, for every code and
  whatever headers and trailers the handler has set.\<close>

theorem connect_unary_error_delivered:
  assumes "asError e = Some ce" and "known_code (Error_Code ce)" and "utf8_valid (Error_Message ce)"
    and "list_all (wire_detail_ok registry) (Error_Details ce)" and "\<not> IsNotModifiedError (Some e)"
    and "\<not> um_wroteHeader (uh_marshaler hc)" and "rw_wrote (uh_responseWriter hc) = None"
    and "w_room (rw_body (uh_responseWriter hc)) = None" and "w_out (rw_body (uh_responseWriter hc)) = []"
    and "getHeaderCanonical (rw_Header (uh_responseWriter hc)) connectUnaryHeaderCompression = []"
    and "uh_Close registry closeErr (Some e) hc = (ret, hc')"
  shows "\<exists>r cc'. uc_validateResponse (rw_finish (uh_responseWriter hc')) cc = (Some r, cc')
    \<and> Error_Code r = Error_Code ce \<and> Error_Message r = Error_Message ce
    \<and> Error_Details r = map (sent_detail registry) (Error_Details ce) \<and> IsRemote r
    \<and> rs_StatusCode (rw_finish (uh_responseWriter hc')) = connectCodeToHTTP (Error_Code ce)"
proof -
  from wire_error_round_trip [OF assms(1,3,4)] obtain data where
    data: "marshal_wire_error registry (newConnectWireError e) = Some data" by metis
  note resp = uh_Close_response [OF assms(6-9,5) data assms(11)]
  from unary_error_seen [OF assms(1-4) data resp(1-3)] resp(4) assms(10) show ?thesis by simp
qed

lemma errors_Is_foldl_WithDetail:
  "errors_Is (Coded (foldl WithDetail ce ds)) s = errors_Is (Coded ce) s"
  by (induction ds arbitrary: ce) simp_all

lemma asError_not_EOF: "connectWireError_asError w = Some r \<Longrightarrow> \<not> errors_Is (Coded r) s"
  by (auto simp: connectWireError_asError_def errors_Is_foldl_WithDetail Let_def)

lemma asError_Some: "\<exists>r. connectWireError_asError (Some w) = Some r"
  by (simp add: connectWireError_asError_def)

lemma su_Unmarshal_endStreamErr:
  assumes "su_Unmarshal codec msg u = (Some err, msg', u')" and "su_endStreamErr u' = Some s"
  shows "su_endStreamErr u = Some s \<or> (\<exists>w. connectWireError_asError w = Some s)"
  using assms by (auto simp: su_Unmarshal_def Let_def split: prod.splits option.splits if_splits sum.splits)


subsection \<open>The end-of-stream message reaches the client\<close>

lemma values_of_sort: "wf_map h \<Longrightarrow> values_of (sort_key fst h) k = values_of h k"
  using wf_map_sort [of h] map_of_inject_set [of "sort_key fst h" h] by (simp add: values_of_def wf_map_def)

lemma su_Unmarshal_special:
  assumes "er_Unmarshal codec m (su_reader u) = (Some errSpecialEnvelope, m, r)"
    and "envelope_IsSet (er_last r) connectFlagEnvelopeEndStream"
    and "unmarshal_end_stream (string_of_bytes (env_Data (er_last r))) = Inr msg"
  shows "\<exists>u'. su_Unmarshal codec m u = (Some errSpecialEnvelope, m, u')
    \<and> su_trailer u' = canonical_trailer (es_Trailer msg)
    \<and> su_endStreamErr u' = connectWireError_asError (es_Error msg)"
  using assms by (simp add: su_Unmarshal_def is_errSpecialEnvelope_def Let_def)

definition reportable :: "(error_detail \<Rightarrow> string option) \<Rightarrow> go_error \<Rightarrow> connect_error \<Rightarrow> bool" where
  "reportable registry e ce \<longleftrightarrow>
     asError e = Some ce \<and> known_code (Error_Code ce) \<and> utf8_valid (Error_Message ce)
     \<and> list_all (wire_detail_ok registry) (Error_Details ce)"

text \<open>The end-of-stream message through any sender that accepts its envelope.\<close>

lemma end_stream_seen:
  fixes send :: "'s sender" and codec :: "'m codec"
  assumes t: "trailer_ok t" "list_all (\<lambda>(k, _). CanonicalMIMEHeaderKey k = k) t"
    and err: "case err of None \<Rightarrow> True | Some e \<Rightarrow> reportable registry e ce"
    and pool: "pool_ok (ew_compressionPool w)"
    and data: "marshal_end_stream registry \<lparr>es_Error = map_option newConnectWireError err, es_Trailer = t\<rparr> = Some data"
    and wire: "wire_message w (bytes_of_string data) = Inr (f, d)" and fit: "fits d"
    and send: "send (EnvPayload (new_envelope (connectFlagEnvelopeEndStream OR f) d)) s = (None, s')"
    and cfg: "er_compressionPool (su_reader u) = ew_compressionPool w"
      "er_reader (su_reader u) = clean_reader (frame (connectFlagEnvelopeEndStream OR f) d)"
    and lim: "read_limit_ok (er_readMaxBytes (su_reader u)) d"
      "read_limit_ok (er_readMaxBytes (su_reader u)) (bytes_of_string data)"
  shows "\<exists>w' u'. MarshalEndStream registry send w err t s = (None, w', s')
    \<and> su_Unmarshal codec m u = (Some errSpecialEnvelope, m, u')
    \<and> (\<forall>K. values_of (su_trailer u') K = values_of t K)
    \<and> (case su_endStreamErr u' of
         None \<Rightarrow> err = None
       | Some r \<Rightarrow> err \<noteq> None \<and> Error_Code r = Error_Code ce \<and> Error_Message r = Error_Message ce
           \<and> Error_Details r = map (sent_detail registry) (Error_Details ce))"
proof -
  let ?fl = "connectFlagEnvelopeEndStream"
  have fl: "?fl \<in> {2, 128}" by (simp add: connectFlagEnvelopeEndStream_def)
  obtain w' where sent: "MarshalEndStream registry send w err t s = (None, w', s')"
    using special_sent [OF fl wire, of send s s'] send data by (auto simp: MarshalEndStream_def)
  obtain r' where r': "er_Unmarshal codec m (su_reader u) = (Some errSpecialEnvelope, m, r')"
    "er_last r' = new_envelope (?fl OR f) (bytes_of_string data)"
    using special_received [OF fl pool wire fit cfg(2,1) lim, of codec m] by auto
  have "case err of None \<Rightarrow> True | Some e \<Rightarrow> asError e = Some ce \<and> utf8_valid (Error_Message ce)
      \<and> list_all (wire_detail_ok registry) (Error_Details ce)"
    using err by (auto simp: reportable_def split: option.splits)
  from end_stream_round_trip [OF t(1) this] data
  have read: "unmarshal_end_stream data =
      Inr \<lparr>es_Error = map_option (\<lambda>_. wire_image registry ce) err, es_Trailer = sort_key fst t\<rparr>"
    by (metis option.inject)
  have "envelope_IsSet (er_last r') ?fl"
    using special_flag_bits(4) [OF fl wire_message_flags [OF wire]]
    by (simp add: r' envelope_IsSet_def new_envelope_def)
  then obtain u' where u': "su_Unmarshal codec m u = (Some errSpecialEnvelope, m, u')"
    "su_trailer u' = canonical_trailer (sort_key fst t)"
    "su_endStreamErr u' = connectWireError_asError (map_option (\<lambda>_. wire_image registry ce) err)"
    using su_Unmarshal_special [of codec m u r', OF _ _ _] r' read
    by (auto simp: new_envelope_def)
  have "list_all (\<lambda>(k, _). CanonicalMIMEHeaderKey k = k) (sort_key fst t)"
    using t(2) by (simp add: list_all_iff)
  then have vals: "\<forall>K. values_of (su_trailer u') K = values_of t K"
    using values_of_sort [of t] t(1) by (simp add: u' canonical_trailer_id trailer_ok_def)
  have "case su_endStreamErr u' of None \<Rightarrow> err = None
      | Some r \<Rightarrow> err \<noteq> None \<and> Error_Code r = Error_Code ce \<and> Error_Message r = Error_Message ce
          \<and> Error_Details r = map (sent_detail registry) (Error_Details ce)"
    using wire_image_asError [of ce registry] err asError_Some [of "wire_image registry ce"]
    by (cases err) (auto simp: u' reportable_def connectWireError_asError_def [of None] split: option.splits)
  with sent u'(1) vals show ?thesis by blast
qed

text \<open>C17. The end of a Connect stream: what \<open>MarshalEndStream\<close> writes for the handler's error and
  trailers, compressed or not, is read by the client as the end of the stream; every trailer then
  has exactly the values it was sent with, and the client has the handler's error, with the same
  code, message and details, or no error if the handler had none.\<close>

theorem connect_stream_end_delivered:
  assumes t: "trailer_ok t" "list_all (\<lambda>(k, _). CanonicalMIMEHeaderKey k = k) t"
    and err: "case err of None \<Rightarrow> True | Some e \<Rightarrow> reportable registry e ce"
    and pool: "pool_ok (ew_compressionPool w)"
    and data: "marshal_end_stream registry \<lparr>es_Error = map_option newConnectWireError err, es_Trailer = t\<rparr> = Some data"
    and wire: "wire_message w (bytes_of_string data) = Inr (f, d)" and fit: "fits d"
    and s: "w_room s = None" "w_out s = []"
    and cfg: "er_compressionPool (su_reader u) = ew_compressionPool w"
    and lim: "read_limit_ok (er_readMaxBytes (su_reader u)) d"
      "read_limit_ok (er_readMaxBytes (su_reader u)) (bytes_of_string data)"
  shows "\<exists>w' s' u'. MarshalEndStream registry writeSender_Send w err t s = (None, w', s')
    \<and> su_Unmarshal codec m
        (u\<lparr>su_reader := (su_reader u)\<lparr>er_reader := clean_reader (w_out s')\<rparr>\<rparr>)
      = (Some errSpecialEnvelope, m, u')
    \<and> (\<forall>K. values_of (su_trailer u') K = values_of t K)
    \<and> (case su_endStreamErr u' of
         None \<Rightarrow> err = None
       | Some r \<Rightarrow> err \<noteq> None \<and> Error_Code r = Error_Code ce \<and> Error_Message r = Error_Message ce
           \<and> Error_Details r = map (sent_detail registry) (Error_Details ce))"
proof -
  let ?b = "frame (connectFlagEnvelopeEndStream OR f) d"
  have "writeSender_Send (EnvPayload (new_envelope (connectFlagEnvelopeEndStream OR f) d)) s
      = (None, s\<lparr>w_out := ?b\<rparr>)"
    using fit s by (simp add: writeSender_Send_envelope)
  from end_stream_seen [OF t err pool data wire fit, of writeSender_Send s "s\<lparr>w_out := ?b\<rparr>"
      "u\<lparr>su_reader := (su_reader u)\<lparr>er_reader := clean_reader ?b\<rparr>\<rparr>" codec m] this cfg lim
  obtain w' u' where "MarshalEndStream registry writeSender_Send w err t s = (None, w', s\<lparr>w_out := ?b\<rparr>)"
    "su_Unmarshal codec m (u\<lparr>su_reader := (su_reader u)\<lparr>er_reader := clean_reader ?b\<rparr>\<rparr>) = (Some errSpecialEnvelope, m, u')"
    "\<forall>K. values_of (su_trailer u') K = values_of t K"
    "case su_endStreamErr u' of None \<Rightarrow> err = None
       | Some r \<Rightarrow> err \<noteq> None \<and> Error_Code r = Error_Code ce \<and> Error_Message r = Error_Message ce
           \<and> Error_Details r = map (sent_detail registry) (Error_Details ce)"
    by auto
  then show ?thesis
    by (intro exI [of _ w'] exI [of _ "s\<lparr>w_out := ?b\<rparr>"] exI [of _ u'] conjI) simp_all
qed

subsection \<open>Witnesses\<close>

definition witness_unary_conn :: "bytes connect_unary_handler_conn" where
  "witness_unary_conn =
     \<lparr>uh_spec = witness_spec\<lparr>spec_StreamType := StreamTypeUnary\<rparr>, uh_peerAddr = [], uh_request = witness_request,
      uh_codec = raw_codec, uh_responseWriter = witness_rw,
      uh_marshaler = \<lparr>um_ctx = \<lparr>cx_err = None, cx_deadline = None\<rparr>, um_compressMinBytes = 0,
         um_compressionName = [], um_compressionPool = None, um_sendMaxBytes = 0, um_wroteHeader = False,
         um_stats = None\<rparr>,
      uh_unmarshaler = \<lparr>uu_ctx = \<lparr>cx_err = None, cx_deadline = None\<rparr>, uu_reader = clean_reader [],
         uu_compressionPool = None, uu_alreadyRead = False, uu_readMaxBytes = 0, uu_stats = None\<rparr>,
      uh_responseTrailer = [(''Foo'', [''bar''])]\<rparr>"

lemma wire_witness_reportable: "reportable (\<lambda>_. None) (Coded wire_witness_error) wire_witness_error"
  using wire_witness_ok by (simp add: reportable_def wire_witness_fields known_code_def)

theorem connect_unary_error_delivered_witness:
  "\<forall>cc :: bytes connect_unary_client_conn. \<exists>r. fst (uc_validateResponse (rw_finish (uh_responseWriter (snd
      (uh_Close (\<lambda>_. None) None (Some (Coded wire_witness_error)) witness_unary_conn)))) cc) = Some r
    \<and> Error_Code r = CodeNotFound \<and> Error_Message r = ''no such user'' \<and> length (Error_Details r) = 1"
proof -
  let ?e = "Coded wire_witness_error"
  have c: "\<not> um_wroteHeader (uh_marshaler witness_unary_conn)" "rw_wrote (uh_responseWriter witness_unary_conn) = None"
    "w_room (rw_body (uh_responseWriter witness_unary_conn)) = None"
    "w_out (rw_body (uh_responseWriter witness_unary_conn)) = []"
    "getHeaderCanonical (rw_Header (uh_responseWriter witness_unary_conn)) connectUnaryHeaderCompression = []"
    by (simp_all add: witness_unary_conn_def witness_rw_def good_writer_def getHeaderCanonical_def)
  have "\<not> IsNotModifiedError (Some ?e)"
    by (simp add: IsNotModifiedError_def wire_witness_error_def)
  moreover obtain ret hc' where u: "uh_Close (\<lambda>_. None) None (Some ?e) witness_unary_conn = (ret, hc')" by fastforce
  ultimately have "\<exists>r. fst (uc_validateResponse (rw_finish (uh_responseWriter hc')) cc) = Some r
      \<and> Error_Code r = CodeNotFound \<and> Error_Message r = ''no such user'' \<and> length (Error_Details r) = 1"
    for cc :: "bytes connect_unary_client_conn"
    using connect_unary_error_delivered [of ?e wire_witness_error "\<lambda>_. None" witness_unary_conn None ret hc' cc]
      wire_witness_reportable c by (auto simp: reportable_def wire_witness_fields)
  with u show ?thesis by simp
qed

definition plain_writer :: envelope_writer where
  "plain_writer = \<lparr>ew_ctx = \<lparr>cx_err = None, cx_deadline = None\<rparr>, ew_compressMinBytes = 0,
     ew_compressionPool = None, ew_sendMaxBytes = 0, ew_stats = None\<rparr>"

definition plain_stream :: "bytes \<Rightarrow> connect_streaming_unmarshaler" where
  "plain_stream bs = \<lparr>su_reader = \<lparr>er_ctx = \<lparr>cx_err = None, cx_deadline = None\<rparr>, er_reader = clean_reader bs,
       er_bytesRead = 0, er_last = new_envelope 0 [], er_compressionPool = None, er_readMaxBytes = 0,
       er_stats = None\<rparr>, su_endStreamErr = None, su_trailer = []\<rparr>"

lemma plain_wire: "wire_message plain_writer buf = Inr (0, buf)"
  by (simp add: wire_message_def plain_writer_def)

theorem connect_stream_end_delivered_witness:
  "\<exists>w' s' u'. MarshalEndStream (\<lambda>_. None) writeSender_Send plain_writer None [(''Foo'', [''bar''])] good_writer
      = (None, w', s')
    \<and> su_Unmarshal raw_codec [] (plain_stream (w_out s')) = (Some errSpecialEnvelope, [], u')
    \<and> values_of (su_trailer u') ''Foo'' = [''bar''] \<and> su_endStreamErr u' = None"
proof -
  let ?t = "[(''Foo'', [''bar''])]"
  have t: "trailer_ok ?t" "list_all (\<lambda>(k, _). CanonicalMIMEHeaderKey k = k) ?t"
    by (simp_all add: trailer_ok_def wf_map_def) code_simp
  obtain data where d: "marshal_end_stream (\<lambda>_. None) \<lparr>es_Error = map_option newConnectWireError None, es_Trailer = ?t\<rparr> = Some data"
    "length data < 100"
    by (simp add: marshal_end_stream_def marshal_trailer_def json_object_def json_array_def json_string_def
        json_escape.simps(2) json_char_def)
  have fit: "fits (bytes_of_string data)" using d(2) by (simp add: fits_def)
  have side: "pool_ok (ew_compressionPool plain_writer)" "w_room good_writer = None" "w_out good_writer = []"
    "er_compressionPool (su_reader (plain_stream [])) = ew_compressionPool plain_writer"
    "read_limit_ok (er_readMaxBytes (su_reader (plain_stream []))) bs" for bs
    by (simp_all add: pool_ok_def plain_writer_def good_writer_def plain_stream_def read_limit_ok_def)
  have upd: "plain_stream []\<lparr>su_reader := (su_reader (plain_stream []))\<lparr>er_reader := clean_reader bs\<rparr>\<rparr> = plain_stream bs" for bs
    by (simp add: plain_stream_def)
  show ?thesis
    using connect_stream_end_delivered [OF t _ side(1) d(1) plain_wire fit side(2,3,4,5,5), of wire_witness_error raw_codec "[]"]
    unfolding upd by (auto split: option.splits)
qed

definition witness_streaming :: "bytes connect_streaming_client_conn" where
  "witness_streaming =
     \<lparr>sc_spec = witness_spec, sc_call = witness_call\<lparr>dc_requestSent := True, dc_ready := True,
         dc_response := Some (rw_finish witness_rw)\<rparr>,
      sc_pools = \<lparr>nameToPool = [], commaSeparatedNames = []\<rparr>, sc_codec = raw_codec, sc_marshaler = plain_writer,
      sc_unmarshaler = plain_stream (frame 2 (bytes_of_string ''{}'')),
      sc_responseHeader = [], sc_responseTrailer = [], sc_ResponseEncoding = None\<rparr>"


end
