(* ===== verification/Http_Options.thy ===== *)
theory Http_Options
  imports Http
begin

section \<open>Options of the HTTP transport (connecthttp/option.go, connecthttp.go)\<close>

text \<open>
  An \<open>Option\<close> is a value whose method \<open>apply\<close> changes the record \<open>options\<close>: a constructor of
  the datatype below per option type, and one function \<open>apply_option\<close> with a branch per method.
  \<open>forSpec\<close> evaluates the conditional options for a procedure. The default codecs and compressors
  are arguments of \<open>defaultOptions\<close>. The lemmas show that the settings of a procedure are those
  of the unconditional options followed by what its conditions return.
\<close>

datatype 'm http_option =
    ProtocolOption string
  | SendCodecOption string
  | CodecsOption "'m codec list"
  | CompressorsOption "compressor list"
  | SendCompressorOption string
  | CompressMinBytesOption int
  | ReadMaxBytesOption int
  | SendMaxBytesOption int
  | RequireConnectProtocolHeaderOption
  | EnableGetOption
  | GetURLMaxBytesOption int bool
  | ConditionalOption "(rpc_spec \<Rightarrow> 'm http_option list) option"

record 'm http_options =
  op_codecs :: "'m codec list"
  op_compressors :: "compressor list"
  op_compressMinBytes :: int
  op_readMaxBytes :: int
  op_sendMaxBytes :: int
  op_protocol :: string
  op_sendCodecName :: string
  op_sendCompressor :: string
  op_getEnabled :: bool
  op_getMaxURLBytes :: int
  op_getUseFallback :: bool
  op_requireConnectProtocolHeader :: bool
  op_conditional :: "(rpc_spec \<Rightarrow> 'm http_option list) list"

fun apply_option :: "'m http_option \<Rightarrow> 'm http_options \<Rightarrow> 'm http_options" where
  "apply_option (ProtocolOption name) opts = opts\<lparr>op_protocol := name\<rparr>"
| "apply_option (SendCodecOption name) opts = opts\<lparr>op_sendCodecName := name\<rparr>"
| "apply_option (CodecsOption codecs) opts = opts\<lparr>op_codecs := codecs\<rparr>"
| "apply_option (CompressorsOption compressors) opts = opts\<lparr>op_compressors := compressors\<rparr>"
| "apply_option (SendCompressorOption name) opts = opts\<lparr>op_sendCompressor := name\<rparr>"
| "apply_option (CompressMinBytesOption n) opts = opts\<lparr>op_compressMinBytes := n\<rparr>"
| "apply_option (ReadMaxBytesOption n) opts = opts\<lparr>op_readMaxBytes := n\<rparr>"
| "apply_option (SendMaxBytesOption n) opts = opts\<lparr>op_sendMaxBytes := n\<rparr>"
| "apply_option RequireConnectProtocolHeaderOption opts = opts\<lparr>op_requireConnectProtocolHeader := True\<rparr>"
| "apply_option EnableGetOption opts = opts\<lparr>op_getEnabled := True\<rparr>"
| "apply_option (GetURLMaxBytesOption m fallback) opts =
     opts\<lparr>op_getMaxURLBytes := m, op_getUseFallback := fallback\<rparr>"
| "apply_option (ConditionalOption conditional) opts =
     (case conditional of
        None \<Rightarrow> opts
      | Some c \<Rightarrow> opts\<lparr>op_conditional := op_conditional opts @ [c]\<rparr>)"

fun apply_options :: "'m http_option list \<Rightarrow> 'm http_options \<Rightarrow> 'm http_options" where
  "apply_options [] opts = opts"
| "apply_options (opt # options) opts = apply_options options (apply_option opt opts)"

subsection \<open>The exported options\<close>

definition WithGRPC :: "'m http_option" where "WithGRPC = ProtocolOption ''grpc''"

definition WithGRPCWeb :: "'m http_option" where "WithGRPCWeb = ProtocolOption ''grpcweb''"

definition WithSendCodec :: "string \<Rightarrow> 'm http_option" where "WithSendCodec name = SendCodecOption name"

definition WithProtoJSON :: "'m http_option" where "WithProtoJSON = WithSendCodec ''json''"

definition WithCodecs :: "'m codec list \<Rightarrow> 'm http_option" where "WithCodecs codecs = CodecsOption codecs"

definition WithCompressors :: "compressor list \<Rightarrow> 'm http_option" where
  "WithCompressors compressors = CompressorsOption compressors"

definition WithSendCompression :: "string \<Rightarrow> 'm http_option" where
  "WithSendCompression name = SendCompressorOption name"

definition WithSendGzip :: "'m http_option" where "WithSendGzip = WithSendCompression ''gzip''"

definition WithCompressMinBytes :: "int \<Rightarrow> 'm http_option" where
  "WithCompressMinBytes n = CompressMinBytesOption n"

definition WithReadMaxBytes :: "int \<Rightarrow> 'm http_option" where "WithReadMaxBytes n = ReadMaxBytesOption n"

definition WithSendMaxBytes :: "int \<Rightarrow> 'm http_option" where "WithSendMaxBytes n = SendMaxBytesOption n"

definition WithRequireConnectProtocolHeader :: "'m http_option" where
  "WithRequireConnectProtocolHeader = RequireConnectProtocolHeaderOption"

definition WithHTTPGet :: "'m http_option" where "WithHTTPGet = EnableGetOption"

definition WithHTTPGetMaxURLSize :: "int \<Rightarrow> bool \<Rightarrow> 'm http_option" where
  "WithHTTPGetMaxURLSize n fallback = GetURLMaxBytesOption n fallback"

definition WithConditionalOptions :: "(rpc_spec \<Rightarrow> 'm http_option list) option \<Rightarrow> 'm http_option" where
  "WithConditionalOptions conditional = ConditionalOption conditional"

subsection \<open>Defaults and conditional options\<close>

definition defaultReadMaxBytes :: int where "defaultReadMaxBytes = 1024 * 1024 * 4"

definition defaultOptions :: "'m codec list \<Rightarrow> compressor list \<Rightarrow> 'm http_options" where
  \<comment> \<open>the arguments are \<open>defaultCodecs()\<close> and \<open>defaultCompressors()\<close>\<close>
  "defaultOptions codecs compressors =
     \<lparr>op_codecs = codecs, op_compressors = compressors, op_compressMinBytes = 0,
      op_readMaxBytes = defaultReadMaxBytes, op_sendMaxBytes = 0, op_protocol = ''connect'',
      op_sendCodecName = [], op_sendCompressor = [], op_getEnabled = False, op_getMaxURLBytes = 0,
      op_getUseFallback = True, op_requireConnectProtocolHeader = False, op_conditional = []\<rparr>"

definition options_clone :: "'m http_options \<Rightarrow> 'm http_options" where
  "options_clone opts = opts\<lparr>op_conditional := []\<rparr>"

fun apply_conditionals ::
  "(rpc_spec \<Rightarrow> 'm http_option list) list \<Rightarrow> rpc_spec \<Rightarrow> 'm http_options \<Rightarrow> 'm http_options" where
  "apply_conditionals [] spec clone = clone"
| "apply_conditionals (conditional # cs) spec clone =
     apply_conditionals cs spec (apply_options (conditional spec) clone)"

definition forSpec :: "'m http_options \<Rightarrow> rpc_spec \<Rightarrow> 'm http_options" where
  "forSpec opts spec =
     (if op_conditional opts = [] then opts
      else apply_conditionals (op_conditional opts) spec (options_clone opts))"

definition getSendCodecName :: "'m http_options \<Rightarrow> string" where
  "getSendCodecName opts =
     (if op_sendCodecName opts \<noteq> [] then op_sendCodecName opts
      else case op_codecs opts of [] \<Rightarrow> [] | c # _ \<Rightarrow> codec_Name c)"

text \<open>What \<open>NewTransport\<close>, \<open>Mount\<close> and \<open>NewErrorWriter\<close> do with their options.\<close>

definition resolve :: "'m codec list \<Rightarrow> compressor list \<Rightarrow> 'm http_option list \<Rightarrow> 'm http_options" where
  "resolve codecs compressors options = apply_options options (defaultOptions codecs compressors)"

subsection \<open>The settings of a procedure\<close>

fun is_conditional :: "'m http_option \<Rightarrow> bool" where
  "is_conditional (ConditionalOption _) = True"
| "is_conditional _ = False"

fun condition_of :: "'m http_option \<Rightarrow> (rpc_spec \<Rightarrow> 'm http_option list) list" where
  "condition_of (ConditionalOption (Some c)) = [c]"
| "condition_of _ = []"

lemma apply_options_append: "apply_options (xs @ ys) opts = apply_options ys (apply_options xs opts)"
  by (induction xs arbitrary: opts) auto

lemma apply_conditionals_concat:
  "apply_conditionals cs spec opts = apply_options (concat (map (\<lambda>c. c spec) cs)) opts"
  by (induction cs arbitrary: opts) (auto simp: apply_options_append)

lemma condition_of_apply: "op_conditional (apply_option opt opts) = op_conditional opts @ condition_of opt"
  by (cases opt) (auto split: option.splits)

lemma conditions_applied:
  "op_conditional (apply_options options opts) = op_conditional opts @ concat (map condition_of options)"
  by (induction options arbitrary: opts) (auto simp: condition_of_apply)

lemma clone_apply:
  "options_clone (apply_option opt opts) =
     (if is_conditional opt then options_clone opts else apply_option opt (options_clone opts))"
  by (cases opt) (auto simp: options_clone_def split: option.splits)

lemma clone_apply_options:
  "options_clone (apply_options options opts) =
     apply_options (filter (\<lambda>opt. \<not> is_conditional opt) options) (options_clone opts)"
  by (induction options arbitrary: opts) (auto simp: clone_apply)

lemma clone_clone [simp]: "options_clone (options_clone opts) = options_clone opts"
  by (simp add: options_clone_def)

lemma apply_unconditional_clone:
  "\<forall>opt \<in> set options. \<not> is_conditional opt
     \<Longrightarrow> options_clone (apply_options options opts) = apply_options options (options_clone opts)"
  by (simp add: clone_apply_options)

text \<open>C39. Conditional options: the settings that a procedure runs with are those of the unconditional
  options, in order, then those that the conditions return for it. Conditions that these return in
  turn are not evaluated.\<close>

theorem forSpec_settings:
  "options_clone (forSpec (resolve codecs compressors options) spec) =
     options_clone (resolve codecs compressors
       (filter (\<lambda>opt. \<not> is_conditional opt)
          (options @ concat (map (\<lambda>c. c spec) (concat (map condition_of options))))))"
proof (cases "concat (map condition_of options) = []")
  case True
  then show ?thesis
    by (simp only: forSpec_def resolve_def conditions_applied True)
      (simp add: clone_apply_options apply_options_append defaultOptions_def)
next
  case False
  then show ?thesis
    by (auto simp: forSpec_def resolve_def conditions_applied apply_conditionals_concat clone_apply_options
        apply_options_append defaultOptions_def)
qed

end
