(* ===== verification/Http_Server.thy ===== *)
theory Http_Server
  imports Http_Handler
begin

section \<open>Error writer and mounted servers (connecthttp/error_writer.go, connecthttp.go)\<close>

text \<open>
  \<open>ErrorWriter\<close> answers a request with an error in the format of the protocol that the request
  uses, outside of any RPC handler; \<open>Mount\<close> registers a handler per procedure and one per service
  for unknown methods. The router is not part of the repository: \<open>Mount\<close> is the list of its
  registrations. The lemmas show that what the error writer writes is read by the client of each
  protocol as the same error, and what is mounted.
\<close>

subsection \<open>ErrorWriter\<close>

datatype protocol_type =
  unknownProtocol | connectUnaryProtocol | connectStreamProtocol | grpcProtocol | grpcWebProtocol

record error_writer =
  erw_protobuf :: "any_msg codec"
  erw_requireConnectProtocolHeader :: bool

definition NewErrorWriter ::
  "any_msg codec \<Rightarrow> any_msg codec list \<Rightarrow> compressor list \<Rightarrow> any_msg http_option list \<Rightarrow> error_writer" where
  \<comment> \<open>the first argument stands for \<open>&connectproto.BinaryCodec{}\<close>\<close>
  "NewErrorWriter binaryCodec codecs compressors options =
     (let opts = resolve codecs compressors options in
      \<lparr>erw_protobuf = codecs_Protobuf binaryCodec (newReadOnlyCodecs [] (op_codecs opts)),
       erw_requireConnectProtocolHeader = op_requireConnectProtocolHeader opts\<rparr>)"

definition classifyRequest :: "mime_package \<Rightarrow> error_writer \<Rightarrow> http_request \<Rightarrow> protocol_type" where
  "classifyRequest mime w request =
     (let ctype = canonicalizeContentType mime (getHeaderCanonical (rq_Header request) headerContentType);
          isPost = (rq_Method request = ''POST'');
          isGet = (rq_Method request = ''GET'')
      in if isPost \<and> (ctype = grpcContentTypeDefault \<or> HasPrefix ctype grpcContentTypePrefix) then grpcProtocol
         else if isPost \<and> (ctype = grpcWebContentTypeDefault \<or> HasPrefix ctype grpcWebContentTypePrefix)
         then grpcWebProtocol
         else if isPost \<and> HasPrefix ctype connectStreamingContentTypePrefix then
           (if connectCheckProtocolVersion request False \<noteq> None then unknownProtocol else connectStreamProtocol)
         else if isPost \<and> HasPrefix ctype connectUnaryContentTypePrefix then
           (if connectCheckProtocolVersion request (erw_requireConnectProtocolHeader w) \<noteq> None
            then unknownProtocol else connectUnaryProtocol)
         else if isGet then
           (if connectCheckProtocolVersion request (erw_requireConnectProtocolHeader w) \<noteq> None
            then unknownProtocol else connectUnaryProtocol)
         else unknownProtocol)"

definition IsSupported :: "mime_package \<Rightarrow> error_writer \<Rightarrow> http_request \<Rightarrow> bool" where
  "IsSupported mime w request \<longleftrightarrow> classifyRequest mime w request \<noteq> unknownProtocol"

definition writeConnectUnary ::
  "(error_detail \<Rightarrow> string option) \<Rightarrow> response_writer \<Rightarrow> go_error \<Rightarrow> go_error option \<times> response_writer" where
  "writeConnectUnary registry response err =
     (let response = rw_WriteHeader (connectCodeToHTTP (CodeOf (Some err))) response in
      case marshal_wire_error registry (newConnectWireError err) of
        None \<Rightarrow> (Some (Wrap (''marshal error: '' @ error_text json_syntax_error) json_syntax_error), response)
      | Some data \<Rightarrow>
          (case rw_Write (bytes_of_string data) response of (_, writeErr, response) \<Rightarrow> (writeErr, response)))"

text \<open>The zero \<open>envelopeWriter\<close> with a sender.\<close>

definition zero_writer :: envelope_writer where
  "zero_writer = \<lparr>ew_ctx = \<lparr>cx_err = None, cx_deadline = None\<rparr>, ew_compressMinBytes = 0,
     ew_compressionPool = None, ew_sendMaxBytes = 0, ew_stats = None\<rparr>"

definition writeConnectStreaming ::
  "(error_detail \<Rightarrow> string option) \<Rightarrow> response_writer \<Rightarrow> go_error \<Rightarrow> go_error option \<times> response_writer" where
  "writeConnectStreaming registry response err =
     (case MarshalEndStream registry rw_Send zero_writer (Some err) [] (rw_WriteHeader 200 response) of
        (marshalErr, _, response) \<Rightarrow> (map_option Coded marshalErr, response))"

definition writeGRPC ::
  "protowire \<Rightarrow> error_writer \<Rightarrow> response_writer \<Rightarrow> go_error \<Rightarrow> go_error option \<times> response_writer" where
  "writeGRPC pw w response err =
     (let trailers = grpcErrorToTrailer pw (erw_protobuf w) [] (Some err);
          keys = map fst trailers;
          response = rw_setHeader ''Trailer'' (Join keys '','') response;
          response = rw_WriteHeader 200 response
      in (None, response\<lparr>rw_Header := mergeHeaders (rw_Header response) trailers\<rparr>))"

definition writeGRPCWeb ::
  "protowire \<Rightarrow> error_writer \<Rightarrow> response_writer \<Rightarrow> go_error \<Rightarrow> go_error option \<times> response_writer" where
  "writeGRPCWeb pw w response err =
     (let response = response\<lparr>rw_Header := grpcErrorToTrailer pw (erw_protobuf w) (rw_Header response) (Some err)\<rparr>
      in (None, rw_WriteHeader 200 response))"

definition ErrorWriter_Write ::
  "mime_package \<Rightarrow> protowire \<Rightarrow> (error_detail \<Rightarrow> string option) \<Rightarrow> error_writer \<Rightarrow> response_writer \<Rightarrow> http_request
     \<Rightarrow> go_error \<Rightarrow> go_error option \<times> response_writer" where
  "ErrorWriter_Write mime pw registry w response request err =
     (let ctype = canonicalizeContentType mime (getHeaderCanonical (rq_Header request) headerContentType);
          typed = rw_setHeader headerContentType ctype response
      in case classifyRequest mime w request of
           connectStreamProtocol \<Rightarrow> writeConnectStreaming registry typed err
         | grpcProtocol \<Rightarrow> writeGRPC pw w typed err
         | grpcWebProtocol \<Rightarrow> writeGRPCWeb pw w typed err
         | _ \<Rightarrow> writeConnectUnary registry (rw_setHeader headerContentType connectUnaryContentTypeJSON response) err)"

subsection \<open>Mount\<close>

text \<open>\<open>http.NotFound\<close>.\<close>

definition http_NotFound :: "response_writer \<Rightarrow> response_writer" where
  "http_NotFound rw =
     (let h = http_Del (rw_Header rw) ''Content-Length'';
          h = http_Set h ''Content-Type'' ''text/plain; charset=utf-8'';
          h = http_Set h ''X-Content-Type-Options'' ''nosniff'';
          rw = rw_WriteHeader 404 (rw\<lparr>rw_Header := h\<rparr>)
      in snd (snd (rw_Write (bytes_of_string (''404 page not found'' @ [CHR 0x0A])) rw)))"

definition newUnknownMethodHandler ::
  "mime_package \<Rightarrow> ('m, 'm handler_stream) rpc_server \<Rightarrow> 'm http_options \<Rightarrow> 'm handler_env \<Rightarrow> response_writer
     \<Rightarrow> http_request \<Rightarrow> served" where
  "newUnknownMethodHandler mime server opts env rw request =
     (let classifier = \<lparr>erw_protobuf = env_protobuf env,
            erw_requireConnectProtocolHeader = op_requireConnectProtocolHeader opts\<rparr>;
          serve = (\<lambda>streamType. ServeHTTP env
            (newProcedureHandler mime server
               \<lparr>spec_StreamType = streamType, spec_IdempotencyLevel = IdempotencyUnknown,
                spec_Procedure = rq_Path request\<rparr> opts) rw request)
      in if rq_Method request \<noteq> ''POST'' then Served (http_NotFound rw)
         else case classifyRequest mime classifier request of
           unknownProtocol \<Rightarrow> Served (http_NotFound rw)
         | connectUnaryProtocol \<Rightarrow> serve StreamTypeUnary
         | _ \<Rightarrow> serve StreamTypeBidi)"

text \<open>What is registered for a pattern.\<close>

datatype 'm mounted = ProcedureHandler "'m http_handler" | UnknownMethodHandler

definition service_pattern :: "string \<Rightarrow> string option" where
  "service_pattern procedure =
     (let idx = after_last procedure CHR ''/'' in if idx > 1 then Some (take idx procedure) else None)"

fun mount_services :: "rpc_spec list \<Rightarrow> string list \<Rightarrow> string list" where
  "mount_services [] services = services"
| "mount_services (spec # specs) services =
     mount_services specs
       (case service_pattern (spec_Procedure spec) of
          None \<Rightarrow> services
        | Some p \<Rightarrow> if p \<in> set services then services else services @ [p])"

definition Mount ::
  "mime_package \<Rightarrow> 'm codec list \<Rightarrow> compressor list \<Rightarrow> ('m, 'm handler_stream) rpc_server \<Rightarrow> 'm http_option list
     \<Rightarrow> (string \<times> 'm mounted) list" where
  "Mount mime codecs compressors server options =
     (let opts = resolve codecs compressors options in
      map (\<lambda>spec. (spec_Procedure spec, ProcedureHandler (newProcedureHandler mime server spec opts))) (Specs server) @
      map (\<lambda>service. (service, UnknownMethodHandler)) (mount_services (Specs server) []))"

subsection \<open>Accessors of the call's HTTP metadata\<close>

definition HTTPMethod :: "transport_info \<Rightarrow> string" where
  "HTTPMethod info =
     (case info of
        ClientInfo (Some request) _ \<Rightarrow> rq_Method request
      | ServerInfo (Some request) \<Rightarrow> rq_Method request
      | _ \<Rightarrow> [])"

definition ResponseStatus :: "transport_info \<Rightarrow> int" where
  "ResponseStatus info = (case info of ClientInfo _ (Some response) \<Rightarrow> rs_StatusCode response | _ \<Rightarrow> 0)"

definition HTTPGetQueryParams :: "transport_info \<Rightarrow> (string \<times> string list) list" where
  "HTTPGetQueryParams info =
     (case info of
        ServerInfo (Some request) \<Rightarrow> if rq_Method request \<noteq> ''GET'' then [] else rq_Query request
      | _ \<Rightarrow> [])"

subsection \<open>Errors written outside of a handler\<close>

text \<open>The trailers of a response that announces them in its header block.\<close>

definition announced_trailers :: "response_writer \<Rightarrow> http_header" where
  "announced_trailers rw =
     (case rw_wrote rw of
        None \<Rightarrow> []
      | Some (_, sent) \<Rightarrow>
          filter (\<lambda>(k, _). k \<in> set (Split (getHeaderCanonical sent ''Trailer'') CHR '','')) (rw_Header rw))"

lemma Split_Join:
  "keys \<noteq> [] \<Longrightarrow> \<forall>k \<in> set keys. CHR '','' \<notin> set k \<Longrightarrow> Split (Join keys '','') CHR '','' = keys"
  by (induction keys "'',''" rule: Join.induct) (simp_all add: Split_plain Split_append_sep)

lemma values_of_filter_key:
  "values_of (filter (\<lambda>(k, _). P k) h) k = (if P k then values_of h k else [])"
  by (induction h) (auto simp: values_of_def)

abbreviation grpc_error_keys :: "string set" where
  "grpc_error_keys \<equiv> {grpcHeaderStatus, grpcHeaderMessage, grpcHeaderDetails}"

lemma grpcErrorToTrailer_keys:
  "fst ` set (grpcErrorToTrailer pw pb [] (Some e)) \<subseteq> grpc_error_keys \<and>
   grpcErrorToTrailer pw pb [] (Some e) \<noteq> [] \<and> wf_map (grpcErrorToTrailer pw pb [] (Some e))"
  by (auto simp: grpcErrorToTrailer_def Let_def setHeaderCanonical_def wf_map_def split: option.splits sum.splits)

lemma values_of_not_key: "k \<notin> fst ` set h \<Longrightarrow> values_of h k = []"
  by (simp add: values_of_absent map_of_eq_None_iff)

text \<open>A response in which nothing was written yet.\<close>

definition unwritten :: "response_writer \<Rightarrow> bool" where
  "unwritten rw \<longleftrightarrow> rw_wrote rw = None \<and> w_room (rw_body rw) = None \<and> w_out (rw_body rw) = [] \<and>
     (\<forall>k \<in> insert connectUnaryHeaderCompression grpc_error_keys. values_of (rw_Header rw) k = [])"

lemma writeGRPC_trailers:
  assumes "unwritten rw" "writeGRPC pw w rw e = (err, rw')"
  shows "err = None" "values_of (announced_trailers rw') k = values_of (grpcErrorToTrailer pw (erw_protobuf w) [] (Some e)) k"
proof -
  let ?t = "grpcErrorToTrailer pw (erw_protobuf w) [] (Some e)" and ?ks = "map fst (grpcErrorToTrailer pw (erw_protobuf w) [] (Some e))"
  let ?h = "setHeaderCanonical (rw_Header rw) ''Trailer'' (Join ?ks '','')"
  note ks = grpcErrorToTrailer_keys [of pw "erw_protobuf w" e]
  have split: "Split (Join ?ks '','') CHR '','' = ?ks"
    using ks by (intro Split_Join) auto
  have rw': "rw_wrote rw' = Some (200, ?h)" "rw_Header rw' = mergeHeaders ?h ?t" and "err = None"
    using assms by (auto simp: writeGRPC_def Let_def rw_setHeader_def rw_WriteHeader_def unwritten_def)
  then show "err = None" by simp
  have "values_of (announced_trailers rw') k = (if k \<in> set ?ks then values_of (mergeHeaders ?h ?t) k else [])"
    using split by (simp add: announced_trailers_def rw' values_of_filter_key del: set_map)
  also have "\<dots> = values_of ?t k"
  proof (cases "k \<in> set ?ks")
    case True
    then have "k \<in> grpc_error_keys" using ks by auto
    then have "values_of (rw_Header rw) k = []" "k \<noteq> ''Trailer''" using assms(1) by (auto simp: unwritten_def)
    with True ks show ?thesis by (simp add: mergeHeaders_values)
  next
    case False
    then show ?thesis by (simp add: values_of_not_key)
  qed
  finally show "values_of (announced_trailers rw') k = values_of ?t k" .
qed

lemma rw_Send_frame:
  assumes "fits d" "w_room (rw_body rw) = None" "rw_wrote rw = Some x"
  shows "rw_Send (EnvPayload (new_envelope f d)) rw =
    (None, rw\<lparr>rw_body := (rw_body rw)\<lparr>w_out := w_out (rw_body rw) @ frame f d\<rparr>\<rparr>)"
  using assms writeSender_Send_envelope [OF assms(1), of f "rw_body rw"]
  by (simp add: rw_Send_def Let_def sent_header_stays io_Write_def)

lemma not_trailer_prefix [simp]:
  "\<not> HasPrefix headerContentType TrailerPrefix" "\<not> HasPrefix connectUnaryHeaderCompression TrailerPrefix"
  "\<not> HasPrefix grpcHeaderStatus TrailerPrefix" "\<not> HasPrefix grpcHeaderMessage TrailerPrefix"
  "\<not> HasPrefix grpcHeaderDetails TrailerPrefix"
  by (simp_all add: HasPrefix_def TrailerPrefix_def)

lemma grpcErrorForTrailer_keys:
  assumes "\<forall>k \<in> grpc_error_keys. values_of t k = values_of t' k"
    and "getHeaderCanonical t grpcHeaderStatus \<noteq> []"
  shows "grpcErrorForTrailer pw pb t = grpcErrorForTrailer pw pb t'"
proof -
  have "getHeaderCanonical t k = getHeaderCanonical t' k" if "k \<in> grpc_error_keys" for k
    using assms(1) that by (auto simp: getHeaderCanonical_def)
  then have eq: "getHeaderCanonical t' grpcHeaderStatus = getHeaderCanonical t grpcHeaderStatus"
    "getHeaderCanonical t' grpcHeaderMessage = getHeaderCanonical t grpcHeaderMessage"
    "getHeaderCanonical t' grpcHeaderDetails = getHeaderCanonical t grpcHeaderDetails"
    by simp_all
  with assms(2) have "getHeaderCanonical t' grpcHeaderStatus \<noteq> []" by simp
  then show ?thesis unfolding grpcErrorForTrailer_def Let_def eq by simp
qed

text \<open>What the error that a client reads has in common with the error that was written.\<close>

definition same_error :: "connect_error \<Rightarrow> connect_error \<Rightarrow> bool" where
  "same_error ce r \<longleftrightarrow> Error_Code r = Error_Code ce \<and> Error_Message r = Error_Message ce \<and>
     length (Error_Details r) = length (Error_Details ce)"

lemma writeGRPC_delivers:
  assumes "protowire_ok pw" "codec_ok (erw_protobuf w) new_any" "asError e = Some ce" "go_len (Error_Message ce)"
    and "details_fit (erw_protobuf w) (map ErrorDetailToAny (Error_Details ce))"
    and "unwritten rw" "writeGRPC pw w rw e = (err, rw')"
  shows "err = None \<and> (\<exists>r. grpcErrorForTrailer pw (erw_protobuf w) (announced_trailers rw') = Some r \<and> same_error ce r)"
proof -
  let ?t = "grpcErrorToTrailer pw (erw_protobuf w) [] (Some e)"
  have "grpcErrorForTrailer pw (erw_protobuf w) ?t = grpcErrorForTrailer pw (erw_protobuf w) (announced_trailers rw')"
    using writeGRPC_trailers(2) [OF assms(6,7)] by (intro grpcErrorForTrailer_cong grpcErrorToTrailer_status) simp
  with grpcErrorToTrailer_read [OF assms(1-5), of "[]"] writeGRPC_trailers(1) [OF assms(6,7)]
  show ?thesis by (auto simp: same_error_def)
qed

lemma writeGRPCWeb_delivers:
  assumes "protowire_ok pw" "codec_ok (erw_protobuf w) new_any" "asError e = Some ce" "go_len (Error_Message ce)"
    and "details_fit (erw_protobuf w) (map ErrorDetailToAny (Error_Details ce))"
    and "unwritten rw" "writeGRPCWeb pw w rw e = (err, rw')"
  shows "err = None \<and> (\<exists>r. grpcErrorForTrailer pw (erw_protobuf w) (rs_Header (rw_finish rw')) = Some r \<and> same_error ce r)"
proof -
  let ?t = "grpcErrorToTrailer pw (erw_protobuf w) (rw_Header rw) (Some e)"
  have h: "err = None" "rs_Header (rw_finish rw') = without_trailers ?t"
    using assms(6,7) by (auto simp: writeGRPCWeb_def rw_WriteHeader_def rw_finish_def unwritten_def Let_def)
  have "grpcErrorForTrailer pw (erw_protobuf w) ?t = grpcErrorForTrailer pw (erw_protobuf w) (without_trailers ?t)"
    by (intro grpcErrorForTrailer_keys grpcErrorToTrailer_status) (auto simp: without_trailers_other)
  moreover have "values_of (rw_Header rw) grpcHeaderDetails = []" using assms(6) by (simp add: unwritten_def)
  ultimately show ?thesis using grpcErrorToTrailer_read [OF assms(1-5), of "rw_Header rw"] h by (auto simp: same_error_def)
qed

lemma writeConnectUnary_delivers:
  assumes "reportable registry e ce" and "unwritten rw"
    and "getHeaderCanonical (rw_Header rw) headerContentType = connectUnaryContentTypeJSON"
    and "writeConnectUnary registry rw e = (err, rw')"
  shows "err = None \<and> (\<exists>r. fst (uc_validateResponse (rw_finish rw') cc) = Some r \<and> same_error ce r)"
proof -
  have rep: "asError e = Some ce" "known_code (Error_Code ce)" "utf8_valid (Error_Message ce)"
    "list_all (wire_detail_ok registry) (Error_Details ce)"
    using assms(1) by (simp_all add: reportable_def)
  obtain data where data: "marshal_wire_error registry (newConnectWireError e) = Some data"
    using wire_error_round_trip [OF rep(1,3,4)] by metis
  let ?st = "connectCodeToHTTP (CodeOf (Some e))"
  have w: "err = None" "rw' = rw\<lparr>rw_wrote := Some (?st, rw_Header rw), rw_body := (rw_body rw)\<lparr>w_out := bytes_of_string data\<rparr>\<rparr>"
    using assms(2,4) data
    by (auto simp: writeConnectUnary_def rw_WriteHeader_def rw_Write_def io_Write_def unwritten_def Let_def)
  have "rs_StatusCode (rw_finish rw') = ?st" "rs_Body (rw_finish rw') = clean_reader (bytes_of_string data)"
    "getHeaderCanonical (rs_Header (rw_finish rw')) headerContentType = connectUnaryContentTypeJSON"
    "getHeaderCanonical (rs_Header (rw_finish rw')) connectUnaryHeaderCompression = []"
    using assms(2,3) by (simp_all add: w rw_finish_def Let_def getHeaderCanonical_def without_trailers_other unwritten_def)
  from unary_error_seen [OF rep data this, of cc] w(1) show ?thesis by (auto simp: same_error_def)
qed

lemma writeConnectStreaming_delivers:
  assumes "reportable registry e ce" and "unwritten rw" and "writeConnectStreaming registry rw e = (err, rw')"
    and "marshal_end_stream registry \<lparr>es_Error = Some (newConnectWireError e), es_Trailer = []\<rparr> = Some data"
    and "fits (bytes_of_string data)"
  shows "err = None \<and> (\<exists>u' r. su_Unmarshal codec m (plain_stream (w_out (rw_body rw'))) = (Some errSpecialEnvelope, m, u') \<and>
    su_endStreamErr u' = Some r \<and> same_error ce r)"
proof -
  let ?rw = "rw_WriteHeader 200 rw" and ?d = "bytes_of_string data"
  let ?b = "frame (connectFlagEnvelopeEndStream OR 0) ?d"
  let ?rw' = "?rw\<lparr>rw_body := (rw_body ?rw)\<lparr>w_out := ?b\<rparr>\<rparr>"
  have wire: "wire_message zero_writer ?d = Inr (0, ?d)" by (simp add: wire_message_def zero_writer_def)
  have sent: "rw_Send (EnvPayload (new_envelope (connectFlagEnvelopeEndStream OR 0) ?d)) ?rw = (None, ?rw')"
    using rw_Send_frame [OF assms(5), of ?rw] assms(2) by (simp add: unwritten_def rw_WriteHeader_def)
  have cfg: "trailer_ok []" "pool_ok (ew_compressionPool zero_writer)"
    "er_compressionPool (su_reader (plain_stream bs)) = ew_compressionPool zero_writer"
    "er_reader (su_reader (plain_stream bs)) = clean_reader bs"
    "read_limit_ok (er_readMaxBytes (su_reader (plain_stream bs))) d" for bs d
    by (simp_all add: trailer_ok_def wf_map_def pool_ok_def zero_writer_def plain_stream_def read_limit_ok_def)
  have "\<exists>w' u'. MarshalEndStream registry rw_Send zero_writer (Some e) [] ?rw = (None, w', ?rw')
      \<and> su_Unmarshal codec m (plain_stream ?b) = (Some errSpecialEnvelope, m, u')
      \<and> (\<forall>K. values_of (su_trailer u') K = values_of [] K)
      \<and> (case su_endStreamErr u' of None \<Rightarrow> Some e = None
         | Some r \<Rightarrow> Some e \<noteq> None \<and> Error_Code r = Error_Code ce \<and> Error_Message r = Error_Message ce
             \<and> Error_Details r = map (sent_detail registry) (Error_Details ce))"
    using assms(1,4) sent cfg by (intro end_stream_seen [OF cfg(1) _ _ cfg(2) _ wire assms(5)]) simp_all
  then obtain w' u' where m: "MarshalEndStream registry rw_Send zero_writer (Some e) [] ?rw = (None, w', ?rw')"
    "su_Unmarshal codec m (plain_stream ?b) = (Some errSpecialEnvelope, m, u')"
    "case su_endStreamErr u' of None \<Rightarrow> Some e = None
       | Some r \<Rightarrow> Some e \<noteq> None \<and> Error_Code r = Error_Code ce \<and> Error_Message r = Error_Message ce
           \<and> Error_Details r = map (sent_detail registry) (Error_Details ce)"
    by blast
  have "err = None" "w_out (rw_body rw') = ?b"
    using assms(3) by (auto simp: writeConnectStreaming_def m(1))
  with m(2,3) show ?thesis by (auto simp: same_error_def split: option.splits)
qed

text \<open>The error that the client of a protocol reads from a response: gRPC from the trailers that the
  response announces, gRPC-Web from its headers, Connect streams from the end-of-stream message in
  the body, and Connect unary clients, which also understand the answer to a request of no
  known protocol, from \<open>validateResponse\<close>.\<close>

definition client_reads ::
  "protowire \<Rightarrow> error_writer \<Rightarrow> protocol_type \<Rightarrow> bytes connect_unary_client_conn \<Rightarrow> response_writer
     \<Rightarrow> connect_error option" where
  "client_reads pw w protocol cc rw =
     (case protocol of
        grpcProtocol \<Rightarrow> grpcErrorForTrailer pw (erw_protobuf w) (announced_trailers rw)
      | grpcWebProtocol \<Rightarrow> grpcErrorForTrailer pw (erw_protobuf w) (rs_Header (rw_finish rw))
      | connectStreamProtocol \<Rightarrow>
          (case su_Unmarshal raw_codec [] (plain_stream (w_out (rw_body rw))) of
             (Some err, _, u) \<Rightarrow> if is_errSpecialEnvelope (Coded err) then su_endStreamErr u else None
           | _ \<Rightarrow> None)
      | _ \<Rightarrow> fst (uc_validateResponse (rw_finish rw) cc))"

lemma unwritten_setHeader:
  "unwritten rw \<Longrightarrow> unwritten (rw_setHeader headerContentType v rw)"
  by (simp add: unwritten_def rw_setHeader_def)


definition gone :: connect_error where "gone = NewError CodeNotFound ''gone''"

definition grpc_request :: http_request where
  "grpc_request = witness_request\<lparr>rq_Method := ''POST'', rq_Header := [(''Content-Type'', [''application/grpc+proto''])]\<rparr>"

definition any_error_writer :: error_writer where
  "any_error_writer = \<lparr>erw_protobuf = any_codec, erw_requireConnectProtocolHeader = False\<rparr>"

lemma gone_fields: "Error_Code gone = CodeNotFound" "Error_Message gone = ''gone''" "Error_Details gone = []"
  by (simp_all add: gone_def connect_error_defs)

lemma gone_json:
  "case marshal_end_stream (\<lambda>_. None) \<lparr>es_Error = Some (newConnectWireError (Coded gone)), es_Trailer = []\<rparr> of
     None \<Rightarrow> False | Some data \<Rightarrow> length data < 100"
  by code_simp


subsection \<open>Mounted patterns\<close>

lemma after_last_char: "after_last s c > 0 \<Longrightarrow> s ! (after_last s c - 1) = c"
  by (induction s) (auto simp: Let_def nth_Cons' split: if_splits)

lemma service_pattern_last: "service_pattern p = Some q \<Longrightarrow> q \<noteq> [] \<and> last q = CHR ''/''"
proof -
  assume a: "service_pattern p = Some q"
  let ?i = "after_last p CHR ''/''"
  have "?i > 1" "q = take ?i p" using a by (auto simp: service_pattern_def Let_def split: if_splits)
  moreover have "?i \<le> length p" by (rule after_last_le)
  moreover from calculation have "q \<noteq> []" by auto
  ultimately show ?thesis using after_last_char [of p "CHR ''/''"]
    by (simp add: last_conv_nth del: take_eq_Nil)
qed

lemma set_mount_services:
  "set (mount_services specs services) = set services \<union> {p. \<exists>spec \<in> set specs. service_pattern (spec_Procedure spec) = Some p}"
  by (induction specs services rule: mount_services.induct) (auto split: option.splits if_splits)

lemma distinct_mount_services: "distinct services \<Longrightarrow> distinct (mount_services specs services)"
  by (induction specs services rule: mount_services.induct) (auto split: option.splits)

text \<open>What a mounted server answers for. With no procedure that ends in a slash, \<open>Mount\<close>
  registers every pattern once, so that the router cannot refuse it: each procedure with its own
  handler, and each service path with the handler of unknown methods.\<close>

lemma mounted_patterns:
  assumes "Register ms (NewServer ics) = Inr s"
    and "\<forall>m \<in> set ms. last (spec_Procedure (mt_Spec m)) \<noteq> CHR ''/''"
  shows "let routes = Mount mime codecs compressors s options;
             opts = resolve codecs compressors options in
    distinct (map fst routes) \<and>
    (\<forall>m \<in> set ms. map_of routes (spec_Procedure (mt_Spec m)) =
       Some (ProcedureHandler (newProcedureHandler mime s (mt_Spec m) opts))) \<and>
    (\<forall>p. map_of routes p = Some UnknownMethodHandler \<longleftrightarrow>
       (\<exists>m \<in> set ms. service_pattern (spec_Procedure (mt_Spec m)) = Some p))"
proof -
  let ?opts = "resolve codecs compressors options"
  let ?ps = "map (\<lambda>spec. (spec_Procedure spec, ProcedureHandler (newProcedureHandler mime s spec ?opts))) (map mt_Spec ms)"
  let ?us = "map (\<lambda>service. (service, UnknownMethodHandler)) (mount_services (map mt_Spec ms) [])"
  have specs: "Specs s = map mt_Spec ms" using Register_specs [OF assms(1)] by (simp add: Specs_def)
  have routes: "Mount mime codecs compressors s options = ?ps @ ?us"
    by (simp add: Mount_def specs Let_def)
  have services: "p \<in> set (mount_services (map mt_Spec ms) []) \<longleftrightarrow>
      (\<exists>m \<in> set ms. service_pattern (spec_Procedure (mt_Spec m)) = Some p)" for p
    by (auto simp: set_mount_services)
  have "distinct (map (spec_Procedure \<circ> mt_Spec) ms)"
    using Register_ok_iff [of ms "NewServer ics"] assms(1) by auto
  moreover have sep: "spec_Procedure (mt_Spec m) \<notin> set (mount_services (map mt_Spec ms) [])" if "m \<in> set ms" for m
    using assms(2) that service_pattern_last by (force simp: services)
  ultimately have dist: "distinct (map fst (?ps @ ?us))"
    using distinct_mount_services [of "[]" "map mt_Spec ms"] by (auto simp: o_def)
  have proc: "map_of (?ps @ ?us) (spec_Procedure (mt_Spec m)) =
      Some (ProcedureHandler (newProcedureHandler mime s (mt_Spec m) ?opts))" if "m \<in> set ms" for m
    using dist that by (intro map_of_is_SomeI) (simp_all del: map_append)
  have "map_of (?ps @ ?us) p = Some UnknownMethodHandler \<longleftrightarrow> p \<in> set (mount_services (map mt_Spec ms) [])" for p
    using map_of_eq_Some_iff [OF dist, of p UnknownMethodHandler] by auto
  with dist proc services show ?thesis by (simp add: routes Let_def del: map_append map_of_append)
qed

definition hello_method :: "(bytes, bytes handler_stream) rpc_method" where
  "hello_method = \<lparr>mt_Spec = \<lparr>spec_StreamType = 0, spec_IdempotencyLevel = 0, spec_Procedure = ''/greet.v1.Greet/Hello''\<rparr>,
     mt_Handler = (\<lambda>ctx spec stream st. (Return None, st))\<rparr>"

lemma mounted_patterns_witness:
  "\<exists>s. Register [hello_method] (NewServer []) = Inr s \<and>
     (\<forall>mime codecs compressors options.
        map_of (Mount mime codecs compressors s options) ''/greet.v1.Greet/'' = Some UnknownMethodHandler)"
proof -
  obtain s where s: "Register [hello_method] (NewServer []) = Inr s"
    using Register_ok_iff [of "[hello_method]" "NewServer []"] by (auto simp: has_key_def)
  have "service_pattern (spec_Procedure (mt_Spec hello_method)) = Some ''/greet.v1.Greet/''"
    "last (spec_Procedure (mt_Spec hello_method)) \<noteq> CHR ''/''"
    by (simp_all add: hello_method_def service_pattern_def Let_def)
  with mounted_patterns [OF s] s show ?thesis by (auto simp: Let_def)
qed

end
