(* ===== verification/Http_Client.thy ===== *)
theory Http_Client
  imports Http_Server
begin

section \<open>The client side of the HTTP transport (connecthttp/connecthttp.go, client_stream.go)\<close>

text \<open>
  \<open>NewTransport\<close>, the choice of the protocol, the two \<open>connect.ClientStream\<close>s of the package and
  \<open>NewClientStream\<close>, which opens one. A client connection is one of the three of the protocols,
  with errors translated by \<open>wrapClientConnWithCodedErrors\<close>. An operation that waits for the
  response lets the request goroutine finish first; \<open>None\<close> is an operation that never returns,
  because no request was started and the context never ends. The lemmas show what a unary stream
  accepts, what it reads, that request metadata is written once, and where requests are sent.
\<close>

subsection \<open>Connections of all protocols\<close>

datatype 'm client_conn =
    ConnectUnaryConn "'m connect_unary_client_conn"
  | ConnectStreamingConn "'m connect_streaming_client_conn"
  | GrpcClientConn "'m grpc_client_conn"

text \<open>What the transport needs from outside: the HTTP client and the clock, protowire, the Protobuf
  codec, \<open>url.URL.String\<close>, the user agents, what closing a response body returns.\<close>

record client_env =
  cv_http :: http_env
  cv_pw :: protowire
  cv_protobuf :: "any_msg codec"
  cv_urlString :: "http_request \<Rightarrow> string"
  cv_connectUserAgent :: string
  cv_grpcUserAgent :: string
  cv_closeErr :: "go_error option"

definition cc_call :: "'m client_conn \<Rightarrow> duplex_call" where
  "cc_call conn =
     (case conn of
        ConnectUnaryConn cc \<Rightarrow> uc_call cc
      | ConnectStreamingConn cc \<Rightarrow> sc_call cc
      | GrpcClientConn cc \<Rightarrow> gc_call cc)"

definition cc_map_call :: "(duplex_call \<Rightarrow> duplex_call) \<Rightarrow> 'm client_conn \<Rightarrow> 'm client_conn" where
  "cc_map_call f conn =
     (case conn of
        ConnectUnaryConn cc \<Rightarrow> ConnectUnaryConn (cc\<lparr>uc_call := f (uc_call cc)\<rparr>)
      | ConnectStreamingConn cc \<Rightarrow> ConnectStreamingConn (cc\<lparr>sc_call := f (sc_call cc)\<rparr>)
      | GrpcClientConn cc \<Rightarrow> GrpcClientConn (cc\<lparr>gc_call := f (gc_call cc)\<rparr>))"

definition cc_RequestHeader :: "'m client_conn \<Rightarrow> http_header" where
  "cc_RequestHeader conn = rq_Header (dc_request (cc_call conn))"

definition cc_setRequestHeader :: "http_header \<Rightarrow> 'm client_conn \<Rightarrow> 'm client_conn" where
  "cc_setRequestHeader header = cc_map_call (\<lambda>d. d\<lparr>dc_request := (dc_request d)\<lparr>rq_Header := header\<rparr>\<rparr>)"

text \<open>The request goroutine of a streaming call runs to its end.\<close>

definition cc_finish :: "http_env \<Rightarrow> 'm client_conn \<Rightarrow> 'm client_conn" where
  "cc_finish he conn =
     (if dc_running (cc_call conn)
      then (case conn of
              ConnectUnaryConn cc \<Rightarrow> ConnectUnaryConn (uc_complete he cc)
            | ConnectStreamingConn cc \<Rightarrow> ConnectStreamingConn (sc_complete he cc)
            | GrpcClientConn cc \<Rightarrow> GrpcClientConn (gc_complete he cc))
      else conn)"

definition cc_Send :: "http_env \<Rightarrow> 'm option \<Rightarrow> 'm client_conn \<Rightarrow> go_error option \<times> 'm client_conn" where
  "cc_Send he msg =
     translated (\<lambda>conn.
       case conn of
         ConnectUnaryConn cc \<Rightarrow> (case uc_Send he msg cc of (e, cc') \<Rightarrow> (e, ConnectUnaryConn cc'))
       | ConnectStreamingConn cc \<Rightarrow> (case sc_Send he msg cc of (e, cc') \<Rightarrow> (e, ConnectStreamingConn cc'))
       | GrpcClientConn cc \<Rightarrow> (case gc_Send he msg cc of (e, cc') \<Rightarrow> (e, GrpcClientConn cc')))"

definition cc_CloseRequest :: "'m client_conn \<Rightarrow> go_error option \<times> 'm client_conn" where
  "cc_CloseRequest =
     translated (\<lambda>conn.
       case conn of
         ConnectUnaryConn cc \<Rightarrow> (case uc_CloseRequest cc of (e, cc') \<Rightarrow> (e, ConnectUnaryConn cc'))
       | ConnectStreamingConn cc \<Rightarrow> (case sc_CloseRequest cc of (e, cc') \<Rightarrow> (e, ConnectStreamingConn cc'))
       | GrpcClientConn cc \<Rightarrow> (case gc_CloseRequest cc of (e, cc') \<Rightarrow> (e, GrpcClientConn cc')))"

definition cc_Receive ::
  "client_env \<Rightarrow> 'm \<Rightarrow> 'm client_conn \<Rightarrow> (go_error option \<times> 'm \<times> 'm client_conn) option" where
  "cc_Receive env msg conn =
     map_option (\<lambda>(e, m, c). (wrapIfUncoded e, m, c))
       (case cc_finish (cv_http env) conn of
          ConnectUnaryConn cc \<Rightarrow> map_option (\<lambda>(e, m, cc'). (e, m, ConnectUnaryConn cc')) (uc_Receive msg cc)
        | ConnectStreamingConn cc \<Rightarrow> map_option (\<lambda>(e, m, cc'). (e, m, ConnectStreamingConn cc')) (sc_Receive msg cc)
        | GrpcClientConn cc \<Rightarrow> map_option (\<lambda>(e, m, cc'). (e, m, GrpcClientConn cc')) (gc_Receive (cv_pw env) msg cc))"

definition cc_CloseResponse :: "client_env \<Rightarrow> 'm client_conn \<Rightarrow> (go_error option \<times> 'm client_conn) option" where
  "cc_CloseResponse env conn =
     (let conn = cc_finish (cv_http env) conn in
      map_option (\<lambda>e. (wrapIfUncoded e, conn)) (duplex_CloseRead (cv_http env) (cv_closeErr env) (cc_call conn)))"

definition cc_ResponseHeader :: "'m client_conn \<Rightarrow> http_header option" where
  "cc_ResponseHeader conn =
     (case conn of
        ConnectUnaryConn cc \<Rightarrow> uc_ResponseHeader cc
      | ConnectStreamingConn cc \<Rightarrow> sc_ResponseHeader cc
      | GrpcClientConn cc \<Rightarrow> gc_ResponseHeader cc)"

definition cc_ResponseTrailer :: "'m client_conn \<Rightarrow> http_header option" where
  "cc_ResponseTrailer conn =
     (case conn of
        ConnectUnaryConn cc \<Rightarrow> uc_ResponseTrailer cc
      | ConnectStreamingConn cc \<Rightarrow> sc_ResponseTrailer cc
      | GrpcClientConn cc \<Rightarrow> gc_ResponseTrailer cc)"

definition cc_ResponseEncoding :: "'m client_conn \<Rightarrow> string option" where
  "cc_ResponseEncoding conn =
     (case conn of
        ConnectUnaryConn cc \<Rightarrow> uc_ResponseEncoding cc
      | ConnectStreamingConn cc \<Rightarrow> sc_ResponseEncoding cc
      | GrpcClientConn cc \<Rightarrow> gc_ResponseEncoding cc)"

subsection \<open>Protocol clients\<close>

datatype 'm protocol_client =
    ConnectClient "'m client_params"
  | GrpcClient bool "'m client_params"

definition selectClientProtocol :: "string \<Rightarrow> connect_error + ('m client_params \<Rightarrow> 'm protocol_client)" where
  "selectClientProtocol name =
     (if name = [] \<or> name = ''connect'' then Inr ConnectClient
      else if name = ''grpc'' then Inr (GrpcClient False)
      else if name = ''grpcweb'' then Inr (GrpcClient True)
      else Inl (Errorf CodeInternal ''unknown protocol %q'' [Quote name]))"

definition pc_params :: "'m protocol_client \<Rightarrow> 'm client_params" where
  "pc_params client = (case client of ConnectClient p \<Rightarrow> p | GrpcClient _ p \<Rightarrow> p)"

text \<open>\<open>newPeerForURL\<close>: address and protocol of the peer.\<close>

definition pc_Peer :: "'m protocol_client \<Rightarrow> string \<times> string" where
  "pc_Peer client =
     (rq_Host (cp_URL (pc_params client)),
      case client of ConnectClient _ \<Rightarrow> ''connect'' | GrpcClient web _ \<Rightarrow> if web then ''grpcweb'' else ''grpc'')"

definition pc_WriteRequestHeader :: "client_env \<Rightarrow> 'm protocol_client \<Rightarrow> stream_type \<Rightarrow> http_header \<Rightarrow> http_header" where
  "pc_WriteRequestHeader env client streamType header =
     (case client of
        ConnectClient p \<Rightarrow> connect_WriteRequestHeader (cv_connectUserAgent env) p streamType header
      | GrpcClient web p \<Rightarrow> grpc_WriteRequestHeader (cv_grpcUserAgent env) web p header)"

definition pc_NewConn ::
  "client_env \<Rightarrow> 'm protocol_client \<Rightarrow> context_t \<Rightarrow> rpc_spec \<Rightarrow> http_header \<Rightarrow> 'm client_conn" where
  "pc_NewConn env client ctx spec header =
     (case client of
        ConnectClient p \<Rightarrow>
          (case connectClient_NewConn (he_now (cv_http env)) p ctx spec header True of
             UnaryClientConn cc \<Rightarrow> ConnectUnaryConn cc | StreamingClientConn cc \<Rightarrow> ConnectStreamingConn cc)
      | GrpcClient web p \<Rightarrow>
          GrpcClientConn (grpcClient_NewConn (he_now (cv_http env)) (cv_protobuf env) web p ctx spec header True))"

subsection \<open>Client streams\<close>

text \<open>The metadata of the call after an operation: what the hooks of the HTTP call saw and the
  encoding of the response.\<close>

definition sync_info :: "'m client_conn \<Rightarrow> call_info \<Rightarrow> call_info" where
  "sync_info conn info =
     info\<lparr>ci_TransportInfo := Some (ClientInfo (dc_infoRequest (cc_call conn)) (dc_infoResponse (cc_call conn))),
          ci_ResponseEncoding := (case cc_ResponseEncoding conn of Some e \<Rightarrow> e | None \<Rightarrow> ci_ResponseEncoding info)\<rparr>"

definition flush_header ::
  "client_env \<Rightarrow> 'm protocol_client \<Rightarrow> stream_type \<Rightarrow> call_info \<Rightarrow> 'm client_conn \<Rightarrow> 'm client_conn" where
  \<comment> \<open>the common body of the two methods \<open>flushHeader\<close>\<close>
  "flush_header env client streamType info conn =
     cc_setRequestHeader
       (pc_WriteRequestHeader env client streamType (toHTTPHeader (cc_RequestHeader conn) (RequestHeader info))) conn"

definition receiveUnaryResponse ::
  "client_env \<Rightarrow> 'm \<Rightarrow> call_info \<Rightarrow> 'm client_conn \<Rightarrow> (go_error option \<times> 'm \<times> call_info \<times> 'm client_conn) option" where
  "receiveUnaryResponse env dst info conn =
     (case cc_Receive env dst conn of
        None \<Rightarrow> None
      | Some (err, dst, conn) \<Rightarrow>
          (case (case err of
                   None \<Rightarrow>
                     map_option (\<lambda>(drainErr, dst, conn).
                       (case drainErr of
                          None \<Rightarrow> Some (Coded (Errorf CodeUnimplemented ''unary stream has multiple messages'' []))
                        | Some e \<Rightarrow> if errors_Is e EOF then None else Some e, dst, conn))
                       (cc_Receive env dst conn)
                 | Some e \<Rightarrow>
                     Some (Some (if errors_Is e EOF
                                 then Coded (Errorf CodeUnimplemented ''unary stream has zero messages'' []) else e),
                           dst, conn)) of
             None \<Rightarrow> None
           | Some (err, dst, conn) \<Rightarrow>
               (case (cc_ResponseHeader conn, cc_ResponseTrailer conn, cc_CloseResponse env conn) of
                  (Some header, Some trailer, Some (_, conn)) \<Rightarrow>
                    let info = sync_info conn info;
                        info = info\<lparr>ci_response := header_map (fromHTTPHeader (ResponseHeader info) header)\<rparr>;
                        info = info\<lparr>ci_trailer := header_map (fromHTTPHeader (ResponseTrailer info) trailer)\<rparr>
                    in Some (err, dst, info, conn)
                | _ \<Rightarrow> None)))"

record 'm unary_client_stream =
  ucs_conn :: "'m client_conn"
  ucs_info :: call_info
  ucs_protoClient :: "'m protocol_client"
  ucs_streamType :: stream_type
  ucs_headerFlushed :: bool
  ucs_sentOnce :: bool
  ucs_sendClosed :: bool
  ucs_rxEnd :: bool

definition ucs_flushHeader :: "client_env \<Rightarrow> 'm unary_client_stream \<Rightarrow> 'm unary_client_stream" where
  "ucs_flushHeader env s =
     (if ucs_headerFlushed s then s
      else s\<lparr>ucs_headerFlushed := True,
             ucs_conn := flush_header env (ucs_protoClient s) (ucs_streamType s) (ucs_info s) (ucs_conn s)\<rparr>)"

definition ucs_SendHeaders :: "client_env \<Rightarrow> 'm unary_client_stream \<Rightarrow> go_error option \<times> 'm unary_client_stream" where
  "ucs_SendHeaders env s = (None, ucs_flushHeader env s)"

definition ucs_Send ::
  "client_env \<Rightarrow> 'm option \<Rightarrow> 'm unary_client_stream \<Rightarrow> go_error option \<times> 'm unary_client_stream" where
  "ucs_Send env msg s =
     (if ucs_sendClosed s then (Some (Sentinel EOF), s)
      else if ucs_sentOnce s then (Some (Plain ''connecthttp: unary stream sent more than once''), s)
      else
        let s = ucs_flushHeader env (s\<lparr>ucs_sentOnce := True\<rparr>) in
        case cc_Send (cv_http env) msg (ucs_conn s) of
          (err, conn) \<Rightarrow> (err, s\<lparr>ucs_conn := conn, ucs_info := sync_info conn (ucs_info s)\<rparr>))"

definition ucs_CloseSend :: "client_env \<Rightarrow> 'm unary_client_stream \<Rightarrow> go_error option \<times> 'm unary_client_stream" where
  "ucs_CloseSend env s =
     (let s = ucs_flushHeader env (s\<lparr>ucs_sendClosed := True\<rparr>) in
      case cc_CloseRequest (ucs_conn s) of (err, conn) \<Rightarrow> (err, s\<lparr>ucs_conn := conn\<rparr>))"

definition ucs_Receive ::
  "client_env \<Rightarrow> 'm \<Rightarrow> 'm unary_client_stream \<Rightarrow> (go_error option \<times> 'm \<times> 'm unary_client_stream) option" where
  "ucs_Receive env dst s =
     (if ucs_rxEnd s then Some (Some (Sentinel EOF), dst, s)
      else map_option (\<lambda>(err, dst, info, conn). (err, dst, s\<lparr>ucs_rxEnd := True, ucs_conn := conn, ucs_info := info\<rparr>))
             (receiveUnaryResponse env dst (ucs_info s) (ucs_conn s)))"

definition ucs_Close :: "client_env \<Rightarrow> 'm unary_client_stream \<Rightarrow> (go_error option \<times> 'm unary_client_stream) option" where
  "ucs_Close env s =
     (case cc_CloseRequest (ucs_conn s) of
        (_, conn) \<Rightarrow> map_option (\<lambda>(err, conn). (err, s\<lparr>ucs_conn := conn\<rparr>)) (cc_CloseResponse env conn))"

record 'm streaming_client_stream =
  scs_conn :: "'m client_conn"
  scs_info :: call_info
  scs_protoClient :: "'m protocol_client"
  scs_streamType :: stream_type
  scs_headerFlushed :: bool
  scs_syncedHeader :: bool
  scs_rxEnd :: bool

definition scs_flushHeader :: "client_env \<Rightarrow> 'm streaming_client_stream \<Rightarrow> 'm streaming_client_stream" where
  "scs_flushHeader env s =
     (if scs_headerFlushed s then s
      else s\<lparr>scs_headerFlushed := True,
             scs_conn := flush_header env (scs_protoClient s) (scs_streamType s) (scs_info s) (scs_conn s)\<rparr>)"

definition scs_Send ::
  "client_env \<Rightarrow> 'm option \<Rightarrow> 'm streaming_client_stream \<Rightarrow> go_error option \<times> 'm streaming_client_stream" where
  "scs_Send env msg s =
     (let s = scs_flushHeader env s in
      case cc_Send (cv_http env) msg (scs_conn s) of
        (err, conn) \<Rightarrow> (err, s\<lparr>scs_conn := conn, scs_info := sync_info conn (scs_info s)\<rparr>))"

definition scs_SendHeaders ::
  "client_env \<Rightarrow> 'm streaming_client_stream \<Rightarrow> go_error option \<times> 'm streaming_client_stream" where
  "scs_SendHeaders env s = scs_Send env None s"

definition scs_CloseSend ::
  "client_env \<Rightarrow> 'm streaming_client_stream \<Rightarrow> go_error option \<times> 'm streaming_client_stream" where
  "scs_CloseSend env s =
     (let s = scs_flushHeader env s in
      case cc_CloseRequest (scs_conn s) of (err, conn) \<Rightarrow> (err, s\<lparr>scs_conn := conn\<rparr>))"

definition scs_Receive ::
  "client_env \<Rightarrow> 'm \<Rightarrow> 'm streaming_client_stream \<Rightarrow> (go_error option \<times> 'm \<times> 'm streaming_client_stream) option" where
  "scs_Receive env dst s =
     (if scs_streamType s = StreamTypeClient then
        (if scs_rxEnd s then Some (Some (Sentinel EOF), dst, s)
         else map_option (\<lambda>(err, dst, info, conn). (err, dst, s\<lparr>scs_rxEnd := True, scs_conn := conn, scs_info := info\<rparr>))
                (receiveUnaryResponse env dst (scs_info s) (scs_conn s)))
      else
        (case cc_Receive env dst (scs_conn s) of
           None \<Rightarrow> None
         | Some (err, dst, conn) \<Rightarrow>
             let info = sync_info conn (scs_info s) in
             (case if scs_syncedHeader s then Some info
                   else map_option (\<lambda>header. info\<lparr>ci_response := header_map (fromHTTPHeader (ResponseHeader info) header)\<rparr>)
                          (cc_ResponseHeader conn) of
                None \<Rightarrow> None
              | Some info \<Rightarrow>
                  let s = s\<lparr>scs_syncedHeader := True\<rparr> in
                  if err = None then Some (err, dst, s\<lparr>scs_conn := conn, scs_info := info\<rparr>)
                  else (case (cc_ResponseTrailer conn, cc_CloseResponse env conn) of
                          (Some trailer, Some (_, conn)) \<Rightarrow>
                            Some (err, dst, s\<lparr>scs_conn := conn,
                              scs_info := info\<lparr>ci_trailer := header_map (fromHTTPHeader (ResponseTrailer info) trailer)\<rparr>\<rparr>)
                        | _ \<Rightarrow> None))))"

definition scs_Close ::
  "client_env \<Rightarrow> 'm streaming_client_stream \<Rightarrow> (go_error option \<times> 'm streaming_client_stream) option" where
  "scs_Close env s =
     (case cc_CloseRequest (scs_conn s) of
        (_, conn) \<Rightarrow> map_option (\<lambda>(err, conn). (err, s\<lparr>scs_conn := conn\<rparr>)) (cc_CloseResponse env conn))"

subsection \<open>The transport\<close>

text \<open>\<open>tr_procedureURLs\<close> is the cache of \<open>urlForProcedure\<close>.\<close>

record 'm http_transport =
  tr_options :: "'m http_options"
  tr_baseURL :: "go_error + http_request"
  tr_procedureURLs :: "(string \<times> http_request) list"

definition NewTransport ::
  "(string \<Rightarrow> go_error + http_request) \<Rightarrow> 'm codec list \<Rightarrow> compressor list \<Rightarrow> string \<Rightarrow> 'm http_option list
     \<Rightarrow> 'm http_transport" where
  \<comment> \<open>the first argument is \<open>url.Parse\<close>\<close>
  "NewTransport parse codecs compressors baseURL options =
     \<lparr>tr_options = resolve codecs compressors options, tr_baseURL = parse baseURL, tr_procedureURLs = []\<rparr>"

definition joinURLPath :: "string \<Rightarrow> string \<Rightarrow> string" where
  "joinURLPath base procedure =
     (if base = [] then procedure
      else if last base = CHR ''/'' \<and> procedure \<noteq> [] \<and> hd procedure = CHR ''/'' then base @ tl procedure
      else base @ procedure)"

definition procedure_url :: "client_env \<Rightarrow> http_request \<Rightarrow> string \<Rightarrow> http_request" where
  "procedure_url env base procedure =
     (let u = base\<lparr>rq_Path := joinURLPath (rq_Path base) procedure\<rparr> in u\<lparr>rq_URL := cv_urlString env u\<rparr>)"

definition urlForProcedure ::
  "client_env \<Rightarrow> http_request \<Rightarrow> string \<Rightarrow> 'm http_transport \<Rightarrow> http_request \<times> 'm http_transport" where
  "urlForProcedure env base procedure t =
     (case map_of (tr_procedureURLs t) procedure of
        Some u \<Rightarrow> (u, t)
      | None \<Rightarrow>
          let u = procedure_url env base procedure
          in (u, t\<lparr>tr_procedureURLs := AList.update procedure u (tr_procedureURLs t)\<rparr>))"

definition newProtocolClient ::
  "client_env \<Rightarrow> http_request \<Rightarrow> rpc_spec \<Rightarrow> 'm http_options \<Rightarrow> 'm codec \<Rightarrow> 'm http_transport
     \<Rightarrow> (connect_error + 'm protocol_client) \<times> 'm http_transport" where
  \<comment> \<open>the fifth argument stands for the codec that \<open>codecs.Get\<close> returns\<close>
  "newProtocolClient env base spec opts codec t =
     (case selectClientProtocol (op_protocol opts) of
        Inl err \<Rightarrow> (Inl err, t)
      | Inr proto \<Rightarrow>
          (case urlForProcedure env base (spec_Procedure spec) t of
             (u, t) \<Rightarrow>
               (Inr (proto
                  \<lparr>cp_CompressionName = op_sendCompressor opts,
                   cp_CompressionPools = newReadOnlyCompressionPools (op_compressors opts),
                   cp_Codec = codec, cp_CompressMinBytes = op_compressMinBytes opts, cp_URL = u,
                   cp_ReadMaxBytes = op_readMaxBytes opts, cp_SendMaxBytes = op_sendMaxBytes opts,
                   cp_EnableGet = op_getEnabled opts, cp_GetURLMaxBytes = op_getMaxURLBytes opts,
                   cp_GetUseFallback = op_getUseFallback opts\<rparr>), t)))"

datatype 'm http_client_stream =
    UnaryStream "'m unary_client_stream"
  | StreamingStream "'m streaming_client_stream"

text \<open>\<open>NewClientStream\<close>, on the \<open>CallInfo\<close> that the context carries or that was attached to it.\<close>

definition NewClientStream ::
  "client_env \<Rightarrow> context_t \<Rightarrow> rpc_spec \<Rightarrow> call_info \<Rightarrow> 'm http_transport
     \<Rightarrow> (go_error + 'm http_client_stream) \<times> 'm http_transport" where
  "NewClientStream env ctx spec info t =
     (let opts = forSpec (tr_options t) spec;
          sendCodecName = getSendCodecName opts
      in if op_sendCompressor opts \<noteq> [] \<and> op_sendCompressor opts \<noteq> CompressionNameIdentity \<and>
            \<not> list_ex (\<lambda>c. c_Name c = op_sendCompressor opts) (op_compressors opts)
         then (Inl (Coded (Errorf CodeUnknown ''unknown compression %q'' [Quote (op_sendCompressor opts)])), t)
         else if sendCodecName = []
         then (Inl (Coded (Errorf CodeUnknown ''no codecs registered'' [])), t)
         else case codecs_Get (newReadOnlyCodecs [] (op_codecs opts)) sendCodecName of
           None \<Rightarrow> (Inl (Coded (Errorf CodeUnknown ''unknown codec %q'' [Quote sendCodecName])), t)
         | Some codec \<Rightarrow>
             (case tr_baseURL t of
                Inl err \<Rightarrow> (Inl (Coded (Errorf CodeUnavailable ''invalid base URL: %v'' [error_text err])), t)
              | Inr base \<Rightarrow>
                  (case newProtocolClient env base spec opts codec t of
                     (Inl err, t) \<Rightarrow> (Inl (Coded err), t)
                   | (Inr client, t) \<Rightarrow>
                       let conn = cc_map_call (\<lambda>d. d\<lparr>dc_hooks := True\<rparr>) (pc_NewConn env client ctx spec []);
                           (addr, protocol) = pc_Peer client;
                           info = info\<lparr>ci_TransportInfo := Some (ClientInfo None None), ci_Spec := spec,
                             ci_PeerAddr := addr, ci_Protocol := protocol, ci_Codec := sendCodecName,
                             ci_RequestEncoding := encodingOrIdentity (op_sendCompressor opts)\<rparr>
                       in (Inr (if spec_StreamType spec = StreamTypeUnary
                                then UnaryStream \<lparr>ucs_conn = conn, ucs_info = info, ucs_protoClient = client,
                                       ucs_streamType = spec_StreamType spec, ucs_headerFlushed = False,
                                       ucs_sentOnce = False, ucs_sendClosed = False, ucs_rxEnd = False\<rparr>
                                else StreamingStream \<lparr>scs_conn = conn, scs_info = info, scs_protoClient = client,
                                       scs_streamType = spec_StreamType spec, scs_headerFlushed = False,
                                       scs_syncedHeader = False, scs_rxEnd = False\<rparr>), t))))"

subsection \<open>Unary streams carry one request and one response\<close>

lemma ucs_flush_sel [simp]:
  "ucs_sentOnce (ucs_flushHeader env s) = ucs_sentOnce s" "ucs_sendClosed (ucs_flushHeader env s) = ucs_sendClosed s"
  "ucs_rxEnd (ucs_flushHeader env s) = ucs_rxEnd s" "ucs_headerFlushed (ucs_flushHeader env s)"
  "ucs_info (ucs_flushHeader env s) = ucs_info s"
  by (simp_all add: ucs_flushHeader_def)

lemma ucs_flush_once [simp]: "ucs_flushHeader env (ucs_flushHeader env s) = ucs_flushHeader env s"
  by (simp add: ucs_flushHeader_def)

interpretation http_unary: one_request_stream "\<lambda>_. True" "ucs_Send env" "ucs_CloseSend env"
  ucs_sentOnce ucs_sendClosed "ucs_Receive env" ucs_rxEnd for env :: client_env
proof unfold_locales
  fix s :: "'m unary_client_stream" and m e s'
  assume "\<not> ucs_sendClosed s" "ucs_Send env m s = (e, s')"
  then show "True \<and> ucs_sentOnce s' \<and> \<not> ucs_sendClosed s'"
    by (auto simp: ucs_Send_def Let_def split: if_splits prod.splits)
next
  fix s s' :: "'m unary_client_stream" and e
  assume "ucs_CloseSend env s = (e, s')"
  then show "True \<and> ucs_sendClosed s'" by (auto simp: ucs_CloseSend_def Let_def split: prod.splits)
next
  fix s s' :: "'m unary_client_stream" and m m' :: 'm and e
  assume "ucs_Receive env m s = Some (e, m', s')"
  then show "ucs_rxEnd s'" by (auto simp: ucs_Receive_def split: if_splits)
qed (auto simp: ucs_Send_def ucs_Receive_def)

text \<open>C15. A unary HTTP stream transmits one request: of any sequence of \<open>Send\<close>s on a stream that is
  open for sending only the first changes the stream; after \<open>CloseSend\<close> every \<open>Send\<close> reports
  \<open>io.EOF\<close> and changes nothing; and once \<open>Receive\<close> has returned, with a message or an error,
  it reports the end of the stream for ever.\<close>

theorem http_unary_exchange:
  "(\<not> ucs_sendClosed s \<longrightarrow> foldl (\<lambda>s m. snd (ucs_Send env m s)) s (m # ms) = snd (ucs_Send env m s)) \<and>
   (\<forall>e s'. ucs_CloseSend env s = (e, s') \<longrightarrow> (\<forall>m. ucs_Send env m s' = (Some (Sentinel EOF), s'))) \<and>
   (\<forall>d e d' s'. ucs_Receive env d s = Some (e, d', s') \<longrightarrow>
      (\<forall>d''. ucs_Receive env d'' s' = Some (Some (Sentinel EOF), d'', s')))"
proof -
  have "foldl (\<lambda>s m. snd (ucs_Send env m s)) s ms = http_unary.sends env ms s" for s ms
    by (induction ms arbitrary: s) auto
  from this [of s "m # ms"] show ?thesis
    using http_unary.only_first_sent [where env = env and s = s and m = m and ms = ms] http_unary.nothing_after_close [where env = env and s = s]
      http_unary.one_response [where env = env and s = s] by metis
qed

text \<open>A stream over the answered gRPC-Web call of \<open>Grpc_Protocol\<close>: the response has no message.\<close>

definition witness_client_env :: client_env where
  "witness_client_env = \<lparr>cv_http = witness_server, cv_pw = base128, cv_protobuf = any_codec, cv_urlString = rq_Path,
     cv_connectUserAgent = ''connect'', cv_grpcUserAgent = ''grpc'', cv_closeErr = None\<rparr>"

definition witness_params :: "bytes client_params" where
  "witness_params = \<lparr>cp_CompressionName = [], cp_CompressionPools = \<lparr>nameToPool = [], commaSeparatedNames = []\<rparr>,
     cp_Codec = raw_codec, cp_CompressMinBytes = 0, cp_URL = witness_request, cp_ReadMaxBytes = 0,
     cp_SendMaxBytes = 0, cp_EnableGet = False, cp_GetURLMaxBytes = 0, cp_GetUseFallback = False\<rparr>"

definition witness_unary_stream :: "bytes unary_client_stream" where
  "witness_unary_stream = \<lparr>ucs_conn = GrpcClientConn witness_answered, ucs_info = new_info,
     ucs_protoClient = GrpcClient True witness_params, ucs_streamType = StreamTypeUnary,
     ucs_headerFlushed = False, ucs_sentOnce = False, ucs_sendClosed = False, ucs_rxEnd = False\<rparr>"

theorem http_unary_exchange_witness:
  "foldl (\<lambda>s m. snd (ucs_Send witness_client_env m s)) witness_unary_stream [Some [1], Some [2], None] =
     snd (ucs_Send witness_client_env (Some [1]) witness_unary_stream) \<and>
   ucs_Send witness_client_env (Some [1]) (snd (ucs_CloseSend witness_client_env witness_unary_stream)) =
     (Some (Sentinel EOF), snd (ucs_CloseSend witness_client_env witness_unary_stream)) \<and>
   (\<exists>e d s'. ucs_Receive witness_client_env [] witness_unary_stream = Some (Some e, d, s') \<and>
      asError e = Some (Errorf CodeUnimplemented ''unary stream has zero messages'' []) \<and>
      ucs_Receive witness_client_env [7] s' = Some (Some (Sentinel EOF), [7], s'))"
proof -
  have "case ucs_Receive witness_client_env [] witness_unary_stream of
      Some (Some e, d, s') \<Rightarrow> asError e = Some (Errorf CodeUnimplemented ''unary stream has zero messages'' []) | _ \<Rightarrow> False"
    by code_simp
  then obtain e d s' where r: "ucs_Receive witness_client_env [] witness_unary_stream = Some (Some e, d, s')"
    "asError e = Some (Errorf CodeUnimplemented ''unary stream has zero messages'' [])"
    by (auto split: option.splits)
  note x = http_unary_exchange [of witness_unary_stream witness_client_env "Some [1]" "[Some [2], None]"]
  obtain e1 s1 where c: "ucs_CloseSend witness_client_env witness_unary_stream = (e1, s1)" by fastforce
  have "\<not> ucs_sendClosed witness_unary_stream" by (simp add: witness_unary_stream_def)
  with x c r show ?thesis by auto
qed

subsection \<open>Errors have codes\<close>

lemma NewClientStream_error:
  "fst (NewClientStream env ctx spec info t) = Inl e \<Longrightarrow> asError e \<noteq> None"
  by (auto simp: NewClientStream_def Let_def split: if_splits option.splits sum.splits prod.splits)



subsection \<open>Request metadata\<close>

lemma cc_call_map [simp]: "cc_call (cc_map_call f conn) = f (cc_call conn)"
  by (cases conn) (simp_all add: cc_call_def cc_map_call_def)

lemma cc_RequestHeader_set [simp]: "cc_RequestHeader (cc_setRequestHeader h conn) = h"
  by (simp add: cc_RequestHeader_def cc_setRequestHeader_def)

abbreviation agent_keys :: "string set" where
  "agent_keys \<equiv> {headerUserAgent, headerXUserAgent, ''Te''}"

lemma values_of_setUserAgent: "k \<noteq> headerUserAgent \<Longrightarrow> values_of (setUserAgentIfAbsent h v) k = values_of h k"
  by (simp add: setUserAgentIfAbsent_def)

text \<open>The protocols write their own headers and the user agent, and nothing else.\<close>

lemma pc_WriteRequestHeader_other:
  assumes "k \<notin> set protocolHeaders" "k \<notin> agent_keys"
  shows "values_of (pc_WriteRequestHeader env client st h) k = values_of h k"
  using assms
  by (cases client)
    (auto simp: pc_WriteRequestHeader_def connect_WriteRequestHeader_def grpc_WriteRequestHeader_def
      protocolHeaders_def values_of_setUserAgent Let_def)

definition client_contentType :: "'m protocol_client \<Rightarrow> stream_type \<Rightarrow> string" where
  "client_contentType client st =
     (case client of
        ConnectClient p \<Rightarrow> connectContentTypeForCodecName st (codec_Name (cp_Codec p))
      | GrpcClient web p \<Rightarrow> grpcContentTypeForCodecName web (codec_Name (cp_Codec p)))"

lemma pc_WriteRequestHeader_contentType:
  "values_of (pc_WriteRequestHeader env client st h) headerContentType = [client_contentType client st]"
  by (cases client)
    (auto simp: pc_WriteRequestHeader_def connect_WriteRequestHeader_def grpc_WriteRequestHeader_def
      client_contentType_def Let_def)

lemma toHTTPHeader_user:
  "wf_map store \<Longrightarrow> k \<notin> set protocolHeaders
     \<Longrightarrow> values_of (toHTTPHeader h (Some store)) k = values_of h k @ values_of store k"
  by (simp add: toHTTPHeader_values)



subsection \<open>Where requests are sent\<close>

lemma joinURLPath_slash:
  assumes "procedure \<noteq> []" "hd procedure = CHR ''/''"
  shows "joinURLPath base procedure = TrimSuffix base ''/'' @ procedure"
proof (cases "base = []")
  case True
  then show ?thesis by (simp add: joinURLPath_def TrimSuffix_def HasSuffix_def)
next
  case False
  then obtain b c where b: "base = b @ [c]" by (metis rev_exhaust)
  show ?thesis
  proof (cases "c = CHR ''/''")
    case True
    then have "TrimSuffix base ''/'' = b" using TrimSuffix_append [of b "''/''"] b by simp
    then show ?thesis using assms True b by (cases procedure) (simp_all add: joinURLPath_def)
  next
    case False
    then show ?thesis using b assms by (simp add: joinURLPath_def TrimSuffix_def HasSuffix_iff)
  qed
qed

text \<open>The cache holds what would be computed.\<close>

definition url_cache_ok :: "client_env \<Rightarrow> http_request \<Rightarrow> 'm http_transport \<Rightarrow> bool" where
  "url_cache_ok env base t \<longleftrightarrow> (\<forall>p u. map_of (tr_procedureURLs t) p = Some u \<longrightarrow> u = procedure_url env base p)"

lemma urlForProcedure_cached:
  assumes "url_cache_ok env base t" "urlForProcedure env base p t = (u, t')"
  shows "u = procedure_url env base p" "url_cache_ok env base t'" "map_of (tr_procedureURLs t') p = Some u"
  using assms by (auto simp: urlForProcedure_def url_cache_ok_def Let_def update_conv' split: option.splits if_splits)

fun urls_for :: "client_env \<Rightarrow> http_request \<Rightarrow> string list \<Rightarrow> 'm http_transport \<Rightarrow> http_request list" where
  "urls_for env base [] t = []"
| "urls_for env base (p # ps) t = (case urlForProcedure env base p t of (u, t') \<Rightarrow> u # urls_for env base ps t')"

lemma urls_for_cached: "url_cache_ok env base t \<Longrightarrow> urls_for env base ps t = map (procedure_url env base) ps"
proof (induction ps arbitrary: t)
  case (Cons p ps)
  obtain u t' where u: "urlForProcedure env base p t = (u, t')" by fastforce
  from urlForProcedure_cached [OF Cons.prems u] Cons.IH show ?case by (simp add: u)
qed simp

text \<open>The cache of \<open>urlForProcedure\<close> is not observable: whatever procedures a new transport
  has been asked for before, the URL of a procedure is the base URL with the procedure appended to
  its path, with exactly one slash between them.\<close>

lemma procedure_urls:
  "urls_for env base ps (NewTransport parse codecs compressors baseURL options) =
     map (\<lambda>p. let u = base\<lparr>rq_Path := (if p \<noteq> [] \<and> hd p = CHR ''/'' then TrimSuffix (rq_Path base) ''/'' @ p
                                        else rq_Path base @ p)\<rparr>
              in u\<lparr>rq_URL := cv_urlString env u\<rparr>) ps"
proof -
  have "url_cache_ok env base (NewTransport parse codecs compressors baseURL options)"
    by (simp add: url_cache_ok_def NewTransport_def)
  moreover have "joinURLPath base p = base @ p" if "\<not> (p \<noteq> [] \<and> hd p = CHR ''/'')" for base p
    using that by (auto simp: joinURLPath_def)
  ultimately show ?thesis
    by (auto simp: urls_for_cached procedure_url_def joinURLPath_slash Let_def)
qed

end
