(* ===== verification/Gzip.thy ===== *)
theory Gzip
  imports Compression
begin

section \<open>The gzip compressor and its pools (connectgzip, internal/bufferpool)\<close>

text \<open>
  A \<open>Compressor\<close> recycles its writers and readers through two \<open>sync.Pool\<close>s. Objects are addresses
  in a heap, so that a recycled object and a stale pointer to it are the same object; which pooled
  object \<open>sync.Pool.Get\<close> returns, and whether it returns one at all, is an argument. Package
  \<open>compress/gzip\<close> is a record of functions with its documented laws in \<open>gzip_ok\<close>. The lemmas show
  that an object in use is never handed out again, and that a recycled object behaves like a new
  one: for the rest of the code the compressor is the pure \<open>compressor\<close> of the theory
  \<open>Compression\<close>.
\<close>

subsection \<open>Package compress/gzip\<close>

text \<open>The states of a \<open>gzip.Writer\<close> and a \<open>gzip.Reader\<close> are the type arguments. \<open>gw_dst\<close> is what the
  writer has put into its destination, a fresh buffer; \<open>gw_level\<close> the level it was made with;
  \<open>gr_stream\<close> the decoded bytes that a reader still delivers, with the error that ends them;
  \<open>gr_skip\<close> a reader after a read of at most that many bytes.\<close>

record ('w, 'r) gzip_package =
  gw_NewWriterLevel :: "int \<Rightarrow> go_error + 'w"
  gw_Reset :: "'w \<Rightarrow> 'w"
  gw_Write :: "bytes \<Rightarrow> 'w \<Rightarrow> go_error option \<times> 'w"
  gw_Close :: "'w \<Rightarrow> go_error option \<times> 'w"
  gw_dst :: "'w \<Rightarrow> bytes"
  gw_level :: "'w \<Rightarrow> int"
  gr_NewReader :: "bytes \<Rightarrow> go_error + 'r"
  gr_Reset :: "bytes \<Rightarrow> 'r \<Rightarrow> go_error + 'r"
  gr_Close :: "'r \<Rightarrow> go_error option"
  gr_stream :: "'r \<Rightarrow> reader"
  gr_skip :: "nat \<Rightarrow> 'r \<Rightarrow> 'r"

text \<open>\<open>Reset\<close> makes a writer or reader equivalent to its original state (documentation of
  \<open>compress/gzip\<close>); the level of a writer never changes.\<close>

definition gzip_ok :: "('w, 'r) gzip_package \<Rightarrow> bool" where
  "gzip_ok gz \<longleftrightarrow>
     (\<forall>l w. gw_NewWriterLevel gz l = Inr w \<longrightarrow> gw_level gz w = l) \<and>
     (\<forall>w. gw_level gz (gw_Reset gz w) = gw_level gz w) \<and>
     (\<forall>w p. gw_level gz (snd (gw_Write gz p w)) = gw_level gz w) \<and>
     (\<forall>w. gw_level gz (snd (gw_Close gz w)) = gw_level gz w) \<and>
     (\<forall>l w w'. gw_NewWriterLevel gz l = Inr w' \<longrightarrow> gw_level gz w = l \<longrightarrow> gw_Reset gz w = w') \<and>
     (\<forall>r src. gr_Reset gz src r = gr_NewReader gz src) \<and>
     (\<forall>r n. gr_stream gz (gr_skip gz n r) =
        (gr_stream gz r)\<lparr>rd_data := drop n (rd_data (gr_stream gz r))\<rparr>)"

subsection \<open>Compressor\<close>

record 'w compress_writer =
  cw_writer :: 'w
  cw_closed :: bool

record 'r decompress_reader =
  dr_reader :: 'r
  dr_closed :: bool

text \<open>\<open>gz_writers\<close> and \<open>gz_readers\<close> are the pools; the heaps have every object that was made.\<close>

record ('w, 'r) gzip_compressor =
  gz_level :: int
  gz_writers :: "nat list"
  gz_readers :: "nat list"
  gz_writerHeap :: "'w compress_writer list"
  gz_readerHeap :: "'r decompress_reader list"

definition errClosed :: go_error where
  "errClosed = Plain ''connectgzip: use after Close''"

definition gzip_DefaultCompression :: int where
  "gzip_DefaultCompression = -1"

text \<open>\<open>WithLevel\<close> is the only option; \<open>New\<close> applies a list of them.\<close>

definition WithLevel :: "int \<Rightarrow> ('w, 'r) gzip_compressor \<Rightarrow> ('w, 'r) gzip_compressor" where
  "WithLevel level c = c\<lparr>gz_level := level\<rparr>"

definition gzip_New :: "(('w, 'r) gzip_compressor \<Rightarrow> ('w, 'r) gzip_compressor) list \<Rightarrow> ('w, 'r) gzip_compressor" where
  "gzip_New opts =
     foldl (\<lambda>c opt. opt c)
       \<lparr>gz_level = gzip_DefaultCompression, gz_writers = [], gz_readers = [], gz_writerHeap = [], gz_readerHeap = []\<rparr> opts"

definition gzip_Name :: string where
  "gzip_Name = CompressionNameGzip"

text \<open>\<open>sync.Pool.Get\<close>: the object at the given position leaves the pool.\<close>

definition pool_get :: "nat option \<Rightarrow> nat list \<Rightarrow> (nat \<times> nat list) option" where
  "pool_get pick pool =
     (case pick of
        None \<Rightarrow> None
      | Some i \<Rightarrow> if i < length pool then Some (pool ! i, take i pool @ drop (Suc i) pool) else None)"

definition wrapf :: "string \<Rightarrow> go_error \<Rightarrow> go_error" where
  "wrapf format err = Wrap (Sprintf format [error_text err]) err"

definition gzip_Compress ::
  "('w, 'r) gzip_package \<Rightarrow> nat option \<Rightarrow> ('w, 'r) gzip_compressor \<Rightarrow> (go_error + nat) \<times> ('w, 'r) gzip_compressor" where
  "gzip_Compress gz pick c =
     (case pool_get pick (gz_writers c) of
        Some (a, pool) \<Rightarrow>
          (Inr a, c\<lparr>gz_writers := pool,
             gz_writerHeap := (gz_writerHeap c)[a := \<lparr>cw_writer = gw_Reset gz (cw_writer (gz_writerHeap c ! a)), cw_closed = False\<rparr>]\<rparr>)
      | None \<Rightarrow>
          (case gw_NewWriterLevel gz (gz_level c) of
             Inl err \<Rightarrow> (Inl (wrapf ''connectgzip: create writer: %w'' err), c)
           | Inr w \<Rightarrow>
               (Inr (length (gz_writerHeap c)),
                c\<lparr>gz_writerHeap := gz_writerHeap c @ [\<lparr>cw_writer = w, cw_closed = False\<rparr>]\<rparr>)))"

definition gzip_Decompress ::
  "('w, 'r) gzip_package \<Rightarrow> nat option \<Rightarrow> bytes \<Rightarrow> ('w, 'r) gzip_compressor
     \<Rightarrow> (go_error + nat) \<times> ('w, 'r) gzip_compressor" where
  "gzip_Decompress gz pick src c =
     (case pool_get pick (gz_readers c) of
        Some (a, pool) \<Rightarrow>
          (case gr_Reset gz src (dr_reader (gz_readerHeap c ! a)) of
             Inl err \<Rightarrow> (Inl (wrapf ''connectgzip: open reader: %w'' err), c\<lparr>gz_readers := pool\<rparr>)
           | Inr r \<Rightarrow>
               (Inr a, c\<lparr>gz_readers := pool,
                  gz_readerHeap := (gz_readerHeap c)[a := \<lparr>dr_reader = r, dr_closed = False\<rparr>]\<rparr>))
      | None \<Rightarrow>
          (case gr_NewReader gz src of
             Inl err \<Rightarrow> (Inl (wrapf ''connectgzip: open reader: %w'' err), c)
           | Inr r \<Rightarrow>
               (Inr (length (gz_readerHeap c)),
                c\<lparr>gz_readerHeap := gz_readerHeap c @ [\<lparr>dr_reader = r, dr_closed = False\<rparr>]\<rparr>)))"

subsection \<open>Writers and readers\<close>

definition compressWriter_Write ::
  "('w, 'r) gzip_package \<Rightarrow> nat \<Rightarrow> bytes \<Rightarrow> ('w, 'r) gzip_compressor \<Rightarrow> go_error option \<times> ('w, 'r) gzip_compressor" where
  "compressWriter_Write gz a p c =
     (let w = gz_writerHeap c ! a in
      if cw_closed w then (Some errClosed, c)
      else case gw_Write gz p (cw_writer w) of
        (err, w') \<Rightarrow>
          (map_option (wrapf ''connectgzip: compress: %w'') err,
           c\<lparr>gz_writerHeap := (gz_writerHeap c)[a := w\<lparr>cw_writer := w'\<rparr>]\<rparr>))"

definition compressWriter_Close ::
  "('w, 'r) gzip_package \<Rightarrow> nat \<Rightarrow> ('w, 'r) gzip_compressor \<Rightarrow> go_error option \<times> ('w, 'r) gzip_compressor" where
  "compressWriter_Close gz a c =
     (let w = gz_writerHeap c ! a in
      if cw_closed w then (None, c)
      else case gw_Close gz (cw_writer w) of
        (err, w') \<Rightarrow>
          let c = c\<lparr>gz_writerHeap := (gz_writerHeap c)[a := \<lparr>cw_writer = w', cw_closed = True\<rparr>]\<rparr> in
          (case err of
             Some e \<Rightarrow> (Some (wrapf ''connectgzip: close writer: %w'' e), c)
           | None \<Rightarrow> (None, c\<lparr>gz_writers := gz_writers c @ [a]\<rparr>)))"

text \<open>\<open>decompressReader.Read\<close>: the bytes of one read, at most \<open>n\<close>, and its error.\<close>

definition decompressReader_Read ::
  "('w, 'r) gzip_package \<Rightarrow> nat \<Rightarrow> nat \<Rightarrow> ('w, 'r) gzip_compressor
     \<Rightarrow> bytes \<times> go_error option \<times> ('w, 'r) gzip_compressor" where
  "decompressReader_Read gz a n c =
     (let r = gz_readerHeap c ! a; s = gr_stream gz (dr_reader r) in
      if dr_closed r then ([], Some errClosed, c)
      else
        (take n (rd_data s),
         if rd_data s = [] then Some (if errors_Is (rd_err s) EOF then rd_err s
                                      else wrapf ''connectgzip: decompress: %w'' (rd_err s)) else None,
         c\<lparr>gz_readerHeap := (gz_readerHeap c)[a := r\<lparr>dr_reader := gr_skip gz n (dr_reader r)\<rparr>]\<rparr>))"

definition decompressReader_Close ::
  "('w, 'r) gzip_package \<Rightarrow> nat \<Rightarrow> ('w, 'r) gzip_compressor \<Rightarrow> go_error option \<times> ('w, 'r) gzip_compressor" where
  "decompressReader_Close gz a c =
     (let r = gz_readerHeap c ! a in
      if dr_closed r then (None, c)
      else
        let c = c\<lparr>gz_readerHeap := (gz_readerHeap c)[a := r\<lparr>dr_closed := True\<rparr>]\<rparr> in
        (case gr_Close gz (dr_reader r) of
           Some e \<Rightarrow> (Some (wrapf ''connectgzip: close reader: %w'' e), c)
         | None \<Rightarrow> (None, c\<lparr>gz_readers := gz_readers c @ [a]\<rparr>)))"

subsection \<open>Buffers (internal/bufferpool)\<close>

record go_buffer =
  bf_data :: bytes
  bf_cap :: int

abbreviation initialBufferSize :: int where "initialBufferSize \<equiv> 1024"
abbreviation maxRecycleBufferSize :: int where "maxRecycleBufferSize \<equiv> 8 * 1024 * 1024"

definition bufferpool_Get :: "nat option \<Rightarrow> go_buffer list \<Rightarrow> go_buffer \<times> go_buffer list" where
  "bufferpool_Get pick pool =
     (case pick of
        Some i \<Rightarrow> if i < length pool then ((pool ! i)\<lparr>bf_data := []\<rparr>, take i pool @ drop (Suc i) pool)
                  else (\<lparr>bf_data = [], bf_cap = initialBufferSize\<rparr>, pool)
      | None \<Rightarrow> (\<lparr>bf_data = [], bf_cap = initialBufferSize\<rparr>, pool))"

definition bufferpool_Put :: "go_buffer \<Rightarrow> go_buffer list \<Rightarrow> go_buffer list" where
  "bufferpool_Put buf pool = (if bf_cap buf > maxRecycleBufferSize then pool else pool @ [buf])"

lemma bufferpool_bounded:
  assumes "list_all (\<lambda>b. bf_cap b \<le> maxRecycleBufferSize) pool"
  shows "list_all (\<lambda>b. bf_cap b \<le> maxRecycleBufferSize) (bufferpool_Put buf pool)"
    and "bufferpool_Get pick pool = (b, pool') \<Longrightarrow>
      bf_data b = [] \<and> bf_cap b \<le> maxRecycleBufferSize \<and> list_all (\<lambda>b. bf_cap b \<le> maxRecycleBufferSize) pool'"
  using assms
  by (auto 4 4 dest!: set_take_subset [THEN subsetD] set_drop_subset [THEN subsetD] simp: bufferpool_Put_def bufferpool_Get_def list_all_iff split: option.splits if_splits)

subsection \<open>Objects in use are not shared\<close>

text \<open>The histories of a compressor: any sequence of operations on any objects, also on closed and
  recycled ones; the garbage collector may empty the pools at any time.\<close>

inductive gz_reachable :: "('w, 'r) gzip_package \<Rightarrow> ('w, 'r) gzip_compressor \<Rightarrow> bool"
  for gz :: "('w, 'r) gzip_package" where
  gz_new: "gz_reachable gz (gzip_New (map WithLevel levels))"
| gz_compress: "gz_reachable gz c \<Longrightarrow> gz_reachable gz (snd (gzip_Compress gz pick c))"
| gz_write: "gz_reachable gz c \<Longrightarrow> a < length (gz_writerHeap c) \<Longrightarrow> gz_reachable gz (snd (compressWriter_Write gz a p c))"
| gz_close_writer: "gz_reachable gz c \<Longrightarrow> a < length (gz_writerHeap c) \<Longrightarrow> gz_reachable gz (snd (compressWriter_Close gz a c))"
| gz_decompress: "gz_reachable gz c \<Longrightarrow> gz_reachable gz (snd (gzip_Decompress gz pick src c))"
| gz_read: "gz_reachable gz c \<Longrightarrow> a < length (gz_readerHeap c)
    \<Longrightarrow> gz_reachable gz (snd (snd (decompressReader_Read gz a n c)))"
| gz_close_reader: "gz_reachable gz c \<Longrightarrow> a < length (gz_readerHeap c) \<Longrightarrow> gz_reachable gz (snd (decompressReader_Close gz a c))"
| gz_collect: "gz_reachable gz c
    \<Longrightarrow> gz_reachable gz (c\<lparr>gz_writers := filter P (gz_writers c), gz_readers := filter Q (gz_readers c)\<rparr>)"

text \<open>A pool has distinct closed objects.\<close>

definition pool_inv :: "bool list \<Rightarrow> nat list \<Rightarrow> bool" where
  "pool_inv closed pool \<longleftrightarrow> distinct pool \<and> (\<forall>a \<in> set pool. a < length closed \<and> closed ! a)"

lemma pool_inv_simps [simp]:
  "pool_inv closed []"
  "pool_inv closed pool \<Longrightarrow> pool_inv closed (filter P pool)"
  "pool_inv closed pool \<Longrightarrow> pool_inv (closed @ [b]) pool"
  by (auto simp: pool_inv_def nth_append)

lemma pool_inv_get:
  assumes "pool_inv closed pool" "pool_get pick pool = Some (a, pool')"
  shows "a < length closed" "closed ! a" "a \<notin> set pool'" "pool_inv closed pool'" "pool_inv (closed[a := b]) pool'"
proof -
  from assms(2) obtain i where i: "i < length pool" "a = pool ! i" "pool' = take i pool @ drop (Suc i) pool"
    by (auto simp: pool_get_def split: option.splits if_splits)
  then have "pool = take i pool @ a # drop (Suc i) pool" by (simp add: id_take_nth_drop)
  with assms(1) i(3) have "distinct (a # pool')" "\<forall>x \<in> set (a # pool'). x < length closed \<and> closed ! x"
    unfolding pool_inv_def by (metis distinct.simps(2) distinct_append distinct_length_2_or_more
        distinct_singleton disjoint_insert(2) inf_bot_right list.set(2) not_distinct_conv_prefix Un_iff insert_iff set_append)+
  then show "a < length closed" "closed ! a" "a \<notin> set pool'" "pool_inv closed pool'" "pool_inv (closed[a := b]) pool'"
    by (auto simp: pool_inv_def nth_list_update)
qed

lemma pool_inv_put: "pool_inv closed pool \<Longrightarrow> a < length closed \<Longrightarrow> \<not> closed ! a \<Longrightarrow> pool_inv (closed[a := True]) (pool @ [a])"
  by (auto simp: pool_inv_def nth_list_update)

lemma pool_inv_close: "pool_inv closed pool \<Longrightarrow> pool_inv (closed[a := True]) pool"
  by (cases "a < length closed") (auto simp: pool_inv_def nth_list_update)

definition gz_inv :: "('w, 'r) gzip_package \<Rightarrow> ('w, 'r) gzip_compressor \<Rightarrow> bool" where
  "gz_inv gz c \<longleftrightarrow>
     pool_inv (map cw_closed (gz_writerHeap c)) (gz_writers c) \<and>
     pool_inv (map dr_closed (gz_readerHeap c)) (gz_readers c)"

lemma gzip_New_pools [simp]:
  "gz_writers (gzip_New (map WithLevel levels)) = []" "gz_readers (gzip_New (map WithLevel levels)) = []"
  "gz_writerHeap (gzip_New (map WithLevel levels)) = []" "gz_readerHeap (gzip_New (map WithLevel levels)) = []"
  by (induction levels rule: rev_induct) (simp_all add: gzip_New_def WithLevel_def)

lemma heap_flags:
  "(map cw_closed ws)[a := cw_closed (ws ! a)] = map cw_closed ws"
  "(map dr_closed rs)[a := dr_closed (rs ! a)] = map dr_closed rs"
  by (metis list_update_id map_update)+

lemma gz_inv_reachable: "gz_reachable gz c \<Longrightarrow> gz_inv gz c"
proof (induction rule: gz_reachable.induct)
  case (gz_new levels)
  then show ?case by (simp add: gz_inv_def)
next
  case (gz_compress c pick)
  then show ?case
    by (auto simp: gz_inv_def gzip_Compress_def map_update intro: pool_inv_get(4,5) split: option.splits sum.splits)
next
  case (gz_write c a p)
  then show ?case
    using heap_flags(1) [of "gz_writerHeap c" a]
    by (cases "cw_closed (gz_writerHeap c ! a)")
      (simp_all add: gz_inv_def compressWriter_Write_def map_update Let_def split: prod.split)
next
  case (gz_close_writer c a)
  then show ?case
    by (auto simp: gz_inv_def compressWriter_Close_def map_update Let_def pool_inv_put pool_inv_close
        split: prod.splits option.splits)
next
  case (gz_decompress c pick src)
  then show ?case
    by (auto simp: gz_inv_def gzip_Decompress_def map_update intro: pool_inv_get(4,5) split: option.splits sum.splits)
next
  case (gz_read c a n)
  then show ?case
    using heap_flags(2) [of "gz_readerHeap c" a]
    by (cases "dr_closed (gz_readerHeap c ! a)") (simp_all add: gz_inv_def decompressReader_Read_def map_update Let_def)
next
  case (gz_close_reader c a)
  then show ?case
    by (auto simp: gz_inv_def decompressReader_Close_def map_update Let_def pool_inv_put pool_inv_close
        split: prod.splits option.splits)
qed (simp add: gz_inv_def)

text \<open>C38. The pools of the gzip compressor never share an object. After any history, \<open>Compress\<close> and
  \<open>Decompress\<close> return an object that nobody has open (a new one, or one that was closed), leave it
  open and outside the pool, and change no other object; and an object that is in a pool is closed,
  so that writing to it or reading from it fails.\<close>

theorem gzip_exclusive:
  assumes "gz_reachable gz c"
  shows "(\<forall>pick a c'. gzip_Compress gz pick c = (Inr a, c') \<longrightarrow>
      (a < length (gz_writerHeap c) \<longrightarrow> cw_closed (gz_writerHeap c ! a)) \<and>
      \<not> cw_closed (gz_writerHeap c' ! a) \<and> a \<notin> set (gz_writers c') \<and>
      (\<forall>b < length (gz_writerHeap c). b \<noteq> a \<longrightarrow> gz_writerHeap c' ! b = gz_writerHeap c ! b)) \<and>
    (\<forall>pick src a c'. gzip_Decompress gz pick src c = (Inr a, c') \<longrightarrow>
      (a < length (gz_readerHeap c) \<longrightarrow> dr_closed (gz_readerHeap c ! a)) \<and>
      \<not> dr_closed (gz_readerHeap c' ! a) \<and> a \<notin> set (gz_readers c') \<and>
      (\<forall>b < length (gz_readerHeap c). b \<noteq> a \<longrightarrow> gz_readerHeap c' ! b = gz_readerHeap c ! b)) \<and>
    (\<forall>a \<in> set (gz_writers c). \<forall>p. compressWriter_Write gz a p c = (Some errClosed, c)) \<and>
    (\<forall>a \<in> set (gz_readers c). \<forall>n. decompressReader_Read gz a n c = ([], Some errClosed, c))"
  (is "?A \<and> ?B \<and> ?C \<and> ?D")
proof -
  have inv: "pool_inv (map cw_closed (gz_writerHeap c)) (gz_writers c)" "pool_inv (map dr_closed (gz_readerHeap c)) (gz_readers c)"
    using gz_inv_reachable [OF assms] by (simp_all add: gz_inv_def)
  have new: "n \<notin> set pool" if "pool_inv closed pool" "length closed \<le> n" for closed pool and n :: nat
    using that by (auto simp: pool_inv_def)
  have ?A
    using pool_inv_get(1,2,3) [OF inv(1)] new [OF inv(1)]
    by (fastforce simp: gzip_Compress_def nth_append split: option.splits sum.splits)
  moreover have ?B
    using pool_inv_get(1,2,3) [OF inv(2)] new [OF inv(2)]
    by (fastforce simp: gzip_Decompress_def nth_append split: option.splits sum.splits)
  moreover have ?C ?D
    using inv by (auto simp: pool_inv_def compressWriter_Write_def decompressReader_Read_def)
  ultimately show ?thesis by blast
qed

subsection \<open>Recycled objects behave like new ones\<close>

text \<open>How \<open>compressionPool.Compress\<close> uses a compressor: compress into a fresh buffer, write the payload
  if it is not empty, close. The result is what the model of a compressor in \<open>Compression\<close> has.\<close>

definition gzip_payload ::
  "('w, 'r) gzip_package \<Rightarrow> nat option \<Rightarrow> bytes \<Rightarrow> ('w, 'r) gzip_compressor
     \<Rightarrow> (go_error + (go_error option \<times> bytes)) \<times> ('w, 'r) gzip_compressor" where
  "gzip_payload gz pick src c =
     (case gzip_Compress gz pick c of
        (Inl err, c) \<Rightarrow> (Inl err, c)
      | (Inr a, c) \<Rightarrow>
          (case if src = [] then (None, c) else compressWriter_Write gz a src c of
             (err, c) \<Rightarrow>
               (case compressWriter_Close gz a c of
                  (_, c) \<Rightarrow> (Inr (err, gw_dst gz (cw_writer (gz_writerHeap c ! a))), c))))"

text \<open>Reading a decompressor to its end, with reads of the given sizes.\<close>

fun decompress_all ::
  "('w, 'r) gzip_package \<Rightarrow> nat \<Rightarrow> nat list \<Rightarrow> ('w, 'r) gzip_compressor
     \<Rightarrow> bytes \<times> go_error option \<times> ('w, 'r) gzip_compressor" where
  "decompress_all gz a [] c = ([], None, c)"
| "decompress_all gz a (n # ns) c =
     (case decompressReader_Read gz a n c of
        (d, Some e, c) \<Rightarrow> (d, Some e, c)
      | (d, None, c) \<Rightarrow> (case decompress_all gz a ns c of (d', e, c) \<Rightarrow> (d @ d', e, c)))"

text \<open>The pure compressor that the rest of the development uses.\<close>

definition decoded :: "reader \<Rightarrow> reader" where
  "decoded s = s\<lparr>rd_err := (if errors_Is (rd_err s) EOF then rd_err s else wrapf ''connectgzip: decompress: %w'' (rd_err s))\<rparr>"

definition gzip_compressor_of :: "('w, 'r) gzip_package \<Rightarrow> int \<Rightarrow> compressor" where
  "gzip_compressor_of gz level =
     \<lparr>c_Name = gzip_Name,
      c_Compress = (\<lambda>src.
        case gw_NewWriterLevel gz level of
          Inl err \<Rightarrow> Inl (wrapf ''connectgzip: create writer: %w'' err)
        | Inr w \<Rightarrow>
            (case if src = [] then (None, w) else gw_Write gz src w of
               (err, w) \<Rightarrow> Inr (map_option (wrapf ''connectgzip: compress: %w'') err, gw_dst gz (snd (gw_Close gz w))))),
      c_Decompress = (\<lambda>src.
        case gr_NewReader gz src of
          Inl err \<Rightarrow> Inl (wrapf ''connectgzip: open reader: %w'' err)
        | Inr r \<Rightarrow> Inr (decoded (gr_stream gz r)))\<rparr>"

lemma writer_levels:
  assumes "gzip_ok gz" "gz_reachable gz c"
  shows "list_all (\<lambda>w. gw_level gz (cw_writer w) = gz_level c \<and> (\<exists>w'. gw_NewWriterLevel gz (gz_level c) = Inr w')) (gz_writerHeap c)"
  using assms(2)
proof (induction rule: gz_reachable.induct)
  case (gz_compress c pick)
  then show ?case
    using assms(1) gz_inv_reachable [OF gz_compress.hyps] pool_inv_get(1) [of "map cw_closed (gz_writerHeap c)" "gz_writers c" pick]
    by (auto simp: gzip_Compress_def gzip_ok_def gz_inv_def list_all_length nth_list_update nth_append
        less_Suc_eq split: option.splits sum.splits)
next
  case (gz_write c a p)
  then show ?case
    using assms(1) by (auto simp: compressWriter_Write_def gzip_ok_def list_all_length nth_list_update Let_def case_prod_beta)
next
  case (gz_close_writer c a)
  then show ?case
    using assms(1)
    by (auto simp: compressWriter_Close_def gzip_ok_def list_all_length nth_list_update Let_def case_prod_beta split: option.splits)
next
  case (gz_close_reader c a)
  then show ?case by (auto simp: decompressReader_Close_def Let_def split: option.splits)
next
  case (gz_decompress c pick src)
  then show ?case by (auto simp: gzip_Decompress_def split: option.splits sum.splits)
qed (simp_all add: decompressReader_Read_def Let_def)

lemma gzip_payload_new:
  assumes "gw_NewWriterLevel gz (gz_level c) = Inr w" "gzip_Compress gz pick c = (Inr a, c')"
    and "a < length (gz_writerHeap c')" "gz_writerHeap c' ! a = \<lparr>cw_writer = w, cw_closed = False\<rparr>"
  shows "fst (gzip_payload gz pick src c) = c_Compress (gzip_compressor_of gz (gz_level c)) src"
  using assms
  by (cases "src = []")
    (auto simp: gzip_payload_def gzip_compressor_of_def compressWriter_Write_def compressWriter_Close_def Let_def
      case_prod_beta split: option.splits)

lemma decompress_all_stream:
  assumes "gzip_ok gz" "a < length (gz_readerHeap c)" "\<not> dr_closed (gz_readerHeap c ! a)"
    and "list_all (\<lambda>n. n > 0) sizes" "length (rd_data (gr_stream gz (dr_reader (gz_readerHeap c ! a)))) < length sizes"
  shows "\<exists>c'. decompress_all gz a sizes c =
    (let s = decoded (gr_stream gz (dr_reader (gz_readerHeap c ! a))) in (rd_data s, Some (rd_err s), c'))"
  using assms(2-)
proof (induction sizes arbitrary: c)
  case (Cons n ns)
  let ?s = "gr_stream gz (dr_reader (gz_readerHeap c ! a))"
  show ?case
  proof (cases "rd_data ?s = []")
    case True
    with Cons.prems show ?thesis by (simp add: decompressReader_Read_def decoded_def Let_def)
  next
    case False
    let ?c = "snd (snd (decompressReader_Read gz a n c))"
    have r: "gz_readerHeap ?c ! a = \<lparr>dr_reader = gr_skip gz n (dr_reader (gz_readerHeap c ! a)), dr_closed = False\<rparr>"
      "a < length (gz_readerHeap ?c)"
      using Cons.prems by (simp_all add: decompressReader_Read_def Let_def)
    have s: "gr_stream gz (gr_skip gz n (dr_reader (gz_readerHeap c ! a))) = ?s\<lparr>rd_data := drop n (rd_data ?s)\<rparr>"
      using assms(1) by (simp add: gzip_ok_def)
    have "length (drop n (rd_data ?s)) < length ns"
      using Cons.prems False by (cases "rd_data ?s") auto
    with Cons.IH [of ?c] Cons.prems(3) r s obtain c' where
      "decompress_all gz a ns ?c = (drop n (rd_data ?s), Some (rd_err (decoded ?s)), c')"
      by (auto simp: decoded_def Let_def)
    with False Cons.prems show ?thesis
      by (auto simp: decompressReader_Read_def decoded_def Let_def)
  qed
qed simp

lemma gzip_Decompress_opens:
  assumes "gzip_ok gz" "pool_inv (map dr_closed (gz_readerHeap c)) (gz_readers c)"
  shows "case gzip_Decompress gz pick src c of
      (Inl err, _) \<Rightarrow> \<exists>e. gr_NewReader gz src = Inl e \<and> err = wrapf ''connectgzip: open reader: %w'' e
    | (Inr a, c') \<Rightarrow> \<exists>r. gr_NewReader gz src = Inr r \<and> a < length (gz_readerHeap c') \<and>
        gz_readerHeap c' ! a = \<lparr>dr_reader = r, dr_closed = False\<rparr>"
  using assms(1) pool_inv_get(1) [OF assms(2), of pick]
  by (auto simp: gzip_Decompress_def gzip_ok_def split: option.splits sum.splits)

text \<open>C14. The pooled gzip compressor refines a pure one. Whatever happened before and whatever object the
  pools return, compressing a payload gives exactly what a new \<open>gzip.Writer\<close> of the configured
  level gives, and the reader that \<open>Decompress\<close> opens delivers, in reads of any sizes, exactly the
  bytes and the final error of a new \<open>gzip.Reader\<close>.\<close>

theorem gzip_refines_compressor:
  assumes "gzip_ok gz" and "gz_reachable gz c"
  shows "fst (gzip_payload gz pick src c) = c_Compress (gzip_compressor_of gz (gz_level c)) src \<and>
    (case gzip_Decompress gz pick data c of
       (Inl err, _) \<Rightarrow> c_Decompress (gzip_compressor_of gz (gz_level c)) data = Inl err
     | (Inr a, c') \<Rightarrow>
         \<exists>s. c_Decompress (gzip_compressor_of gz (gz_level c)) data = Inr s \<and>
           (\<forall>sizes. list_all (\<lambda>n. n > 0) sizes \<longrightarrow> length (rd_data s) < length sizes \<longrightarrow>
              (\<exists>c''. decompress_all gz a sizes c' = (rd_data s, Some (rd_err s), c''))))"
  (is "?C \<and> ?D")
proof
  have inv: "pool_inv (map cw_closed (gz_writerHeap c)) (gz_writers c)" "pool_inv (map dr_closed (gz_readerHeap c)) (gz_readers c)"
    using gz_inv_reachable [OF assms(2)] by (simp_all add: gz_inv_def)
  show ?C
  proof (cases "pool_get pick (gz_writers c)")
    case None
    then show ?thesis
    proof (cases "gw_NewWriterLevel gz (gz_level c)")
      case (Inl err)
      with None show ?thesis by (simp add: gzip_payload_def gzip_Compress_def gzip_compressor_of_def)
    next
      case (Inr w)
      with None show ?thesis by (intro gzip_payload_new [OF Inr]) (auto simp: gzip_Compress_def)
    qed
  next
    case (Some x)
    then obtain a pool where a: "pool_get pick (gz_writers c) = Some (a, pool)" by (cases x) auto
    from pool_inv_get(1) [OF inv(1) this] have "a < length (gz_writerHeap c)" by simp
    moreover from this have new: "gw_NewWriterLevel gz (gz_level c) = Inr (gw_Reset gz (cw_writer (gz_writerHeap c ! a)))"
      using writer_levels [OF assms] assms(1) unfolding gzip_ok_def list_all_length by metis
    ultimately show ?thesis using gzip_payload_new [OF new, of pick a] a by (simp add: gzip_Compress_def)
  qed
  have opened: "\<exists>s. c_Decompress (gzip_compressor_of gz (gz_level c)) data = Inr s \<and>
      (\<forall>sizes. list_all (\<lambda>n. n > 0) sizes \<longrightarrow> length (rd_data s) < length sizes \<longrightarrow>
         (\<exists>c''. decompress_all gz a sizes c' = (rd_data s, Some (rd_err s), c'')))"
    if "gr_NewReader gz data = Inr r" "a < length (gz_readerHeap c')" "gz_readerHeap c' ! a = \<lparr>dr_reader = r, dr_closed = False\<rparr>" for a r c'
    using that decompress_all_stream [OF assms(1), of a c'] by (simp add: gzip_compressor_of_def decoded_def Let_def)
  show ?D
    using gzip_Decompress_opens [OF assms(1) inv(2), where pick = pick and src = data] opened
    by (auto simp: gzip_compressor_of_def split: prod.splits sum.splits)
qed

text \<open>A package that stores payloads uncompressed behind one byte, to show that the laws can hold.\<close>

definition stored_gzip :: "(int \<times> bytes, reader) gzip_package" where
  "stored_gzip =
     \<lparr>gw_NewWriterLevel = (\<lambda>l. if -2 \<le> l \<and> l \<le> 9 then Inr (l, [0x1f]) else Inl (Plain ''gzip: invalid compression level'')),
      gw_Reset = (\<lambda>(l, _). (l, [0x1f])), gw_Write = (\<lambda>p (l, out). (None, l, out @ p)),
      gw_Close = (\<lambda>w. (None, w)), gw_dst = snd, gw_level = fst,
      gr_NewReader = (\<lambda>src. if src \<noteq> [] \<and> hd src = 0x1f then Inr (clean_reader (tl src)) else Inl (Plain ''gzip: invalid header'')),
      gr_Reset = (\<lambda>src _. if src \<noteq> [] \<and> hd src = 0x1f then Inr (clean_reader (tl src)) else Inl (Plain ''gzip: invalid header'')),
      gr_Close = (\<lambda>_. None), gr_stream = (\<lambda>r. r), gr_skip = (\<lambda>n r. r\<lparr>rd_data := drop n (rd_data r)\<rparr>)\<rparr>"

lemma stored_gzip_ok: "gzip_ok stored_gzip"
  by (auto simp: gzip_ok_def stored_gzip_def split: if_splits)

text \<open>A compressor whose only writer was used for another payload and recycled.\<close>

definition used_gzip :: "(int \<times> bytes, reader) gzip_compressor" where
  "used_gzip = snd (compressWriter_Close stored_gzip 0 (snd (compressWriter_Write stored_gzip 0 [9]
     (snd (gzip_Compress stored_gzip None (gzip_New (map WithLevel [3])))))))"

lemma used_gzip_reachable: "gz_reachable stored_gzip used_gzip"
proof -
  let ?c = "snd (gzip_Compress stored_gzip None (gzip_New (map WithLevel [3])))"
  have "gz_reachable stored_gzip ?c" by (intro gz_compress gz_new)
  moreover have "length (gz_writerHeap ?c) = 1" "length (gz_writerHeap (snd (compressWriter_Write stored_gzip 0 [9] ?c))) = 1"
    by (simp_all add: gzip_Compress_def pool_get_def gzip_New_def WithLevel_def stored_gzip_def compressWriter_Write_def Let_def)
  ultimately show ?thesis unfolding used_gzip_def by (intro gz_close_writer gz_write) simp_all
qed

theorem gzip_exclusive_witness:
  "gz_writers used_gzip = [0] \<and> compressWriter_Write stored_gzip 0 [1] used_gzip = (Some errClosed, used_gzip)"
proof -
  have "gz_writers used_gzip = [0]" by code_simp
  then show ?thesis using gzip_exclusive [OF used_gzip_reachable] by auto
qed

theorem gzip_refines_compressor_witness:
  "fst (gzip_payload stored_gzip (Some 0) [1, 2] used_gzip) = Inr (None, [0x1f, 1, 2]) \<and>
   (\<exists>s. c_Decompress (gzip_compressor_of stored_gzip (gz_level used_gzip)) [0x1f, 1, 2] = Inr s \<and> rd_data s = [1, 2])"
proof -
  have "c_Compress (gzip_compressor_of stored_gzip (gz_level used_gzip)) [1, 2] = Inr (None, [0x1f, 1, 2])" by code_simp
  moreover have "case c_Decompress (gzip_compressor_of stored_gzip (gz_level used_gzip)) [0x1f, 1, 2] of Inr s \<Rightarrow> rd_data s = [1, 2] | _ \<Rightarrow> False"
    by code_simp
  ultimately show ?thesis
    using gzip_refines_compressor [OF stored_gzip_ok used_gzip_reachable, of "Some 0" "[1, 2]"] by (auto split: sum.splits)
qed

end
