(* ===== verification/Proto_Codec.thy ===== *)
theory Proto_Codec
  imports Message_Stream
begin

section \<open>Protobuf codecs (connectproto, connecthttp/protobuf_util.go)\<close>

text \<open>
  \<open>BinaryCodec\<close> and \<open>JSONCodec\<close> over packages \<open>proto\<close>, \<open>protojson\<close> and \<open>json\<close>, which are a record of
  functions with their documented laws in \<open>proto_ok\<close>. A destination is an \<open>io.Writer\<close>, perhaps with
  the methods \<open>AvailableBuffer\<close> and \<open>Grow\<close> that let a codec encode in place. The lemmas show that
  both ways of writing give the same bytes, that decoding inverts encoding, and that the codecs are
  instances of the \<open>codec\<close> that the protocols use.
\<close>

subsection \<open>Packages proto, protojson and json\<close>

record marshal_options =
  mo_Deterministic :: bool
  mo_UseCachedSize :: bool

text \<open>A marshal function appends to a slice. The first argument of the others is the type resolver;
  \<open>nil\<close> is the global registry.\<close>

record ('m, 'res) proto_lib =
  pl_isMessage :: "'m \<Rightarrow> bool"
  pl_typeName :: "'m \<Rightarrow> string"
  pl_Size :: "marshal_options \<Rightarrow> 'm \<Rightarrow> nat"
  pl_MarshalAppend :: "marshal_options \<Rightarrow> bytes \<Rightarrow> 'm \<Rightarrow> go_error + bytes"
  pl_Unmarshal :: "'res option \<Rightarrow> bytes \<Rightarrow> 'm \<Rightarrow> go_error + 'm"
  pj_MarshalAppend :: "'res option \<Rightarrow> bytes \<Rightarrow> 'm \<Rightarrow> go_error + bytes"
  pj_Marshal :: "'res option \<Rightarrow> 'm \<Rightarrow> go_error + bytes"
  pj_Unmarshal :: "'res option \<Rightarrow> bool \<Rightarrow> bytes \<Rightarrow> 'm \<Rightarrow> go_error + 'm"
  json_Compact :: "bytes \<Rightarrow> go_error + bytes"

subsection \<open>Destinations and buffers\<close>

text \<open>\<open>ds_buffered\<close>: the writer has \<open>AvailableBuffer\<close>; \<open>ds_spare\<close> its spare capacity; \<open>ds_grower\<close>: it has
  \<open>Grow\<close>. \<open>AvailableBuffer\<close> is an empty slice.\<close>

record destination =
  ds_writer :: writer
  ds_buffered :: bool
  ds_grower :: bool
  ds_spare :: nat

definition ds_Grow :: "nat \<Rightarrow> destination \<Rightarrow> destination" where
  "ds_Grow n dst = dst\<lparr>ds_spare := max n (ds_spare dst)\<rparr>"

definition ds_Write :: "bytes \<Rightarrow> destination \<Rightarrow> go_error option \<times> destination" where
  "ds_Write bs dst = (case io_Write bs (ds_writer dst) of (_, err, w) \<Rightarrow> (err, dst\<lparr>ds_writer := w\<rparr>))"

text \<open>The second half of \<open>marshalAppendWrite\<close> encodes into a pooled buffer, which is empty.\<close>

definition marshalAppendWrite ::
  "nat option \<Rightarrow> (bytes \<Rightarrow> go_error + bytes) \<Rightarrow> destination \<Rightarrow> go_error option \<times> destination" where
  "marshalAppendWrite sizeHint marshalAppend dst =
     (if ds_buffered dst then
        let dst = (case sizeHint of Some n \<Rightarrow> if ds_grower dst then ds_Grow n dst else dst | None \<Rightarrow> dst) in
        (case marshalAppend [] of Inl err \<Rightarrow> (Some err, dst) | Inr out \<Rightarrow> ds_Write out dst)
      else
        (case marshalAppend [] of Inl err \<Rightarrow> (Some err, dst) | Inr out \<Rightarrow> ds_Write out dst))"

definition unmarshalReadAll :: "reader \<Rightarrow> (bytes \<Rightarrow> go_error + 'm) \<Rightarrow> go_error + 'm" where
  "unmarshalReadAll src unmarshal =
     (case io_ReadAll None src of
        (_, Some err, _) \<Rightarrow> Inl err
      | (data, None, _) \<Rightarrow> unmarshal data)"

definition ErrNotProtoMessage :: go_error where
  "ErrNotProtoMessage = Plain ''connectproto: value does not implement proto.Message''"

definition not_proto :: "('m, 'res) proto_lib \<Rightarrow> 'm \<Rightarrow> go_error" where
  "not_proto pl msg = Wrap (Sprintf ''%w: got %T'' [error_text ErrNotProtoMessage, pl_typeName pl msg]) ErrNotProtoMessage"

subsection \<open>Codecs\<close>

text \<open>An option sets the resolver.\<close>

definition WithTypeResolver :: "'res option \<Rightarrow> 'res option \<Rightarrow> 'res option" where
  "WithTypeResolver res resolver = res"

record 'res binary_codec =
  bc_MarshalOptions :: marshal_options
  bc_Resolver :: "'res option"

record 'res json_codec =
  jc_MarshalResolver :: "'res option"
  jc_UnmarshalResolver :: "'res option"
  jc_DiscardUnknown :: bool

definition NewBinaryCodec :: "('res option \<Rightarrow> 'res option) list \<Rightarrow> 'res binary_codec" where
  "NewBinaryCodec opts =
     \<lparr>bc_MarshalOptions = \<lparr>mo_Deterministic = False, mo_UseCachedSize = False\<rparr>,
      bc_Resolver = foldl (\<lambda>res opt. opt res) None opts\<rparr>"

definition NewJSONCodec :: "('res option \<Rightarrow> 'res option) list \<Rightarrow> 'res json_codec" where
  "NewJSONCodec opts =
     (let resolver = foldl (\<lambda>res opt. opt res) None opts in
      \<lparr>jc_MarshalResolver = resolver, jc_UnmarshalResolver = resolver, jc_DiscardUnknown = True\<rparr>)"

definition marshalBinary ::
  "('m, 'res) proto_lib \<Rightarrow> 'res binary_codec \<Rightarrow> bool \<Rightarrow> 'm \<Rightarrow> destination \<Rightarrow> go_error option \<times> destination" where
  "marshalBinary pl c deterministic msg dst =
     (if \<not> pl_isMessage pl msg then (Some (not_proto pl msg), dst)
      else
        let opts = bc_MarshalOptions c;
            opts = (if deterministic then opts\<lparr>mo_Deterministic := deterministic\<rparr> else opts);
            size' = pl_Size pl opts msg;
            opts = opts\<lparr>mo_UseCachedSize := True\<rparr>
        in marshalAppendWrite (Some size') (\<lambda>buf. pl_MarshalAppend pl opts buf msg) dst)"

definition Binary_MarshalWrite where
  "Binary_MarshalWrite pl c = marshalBinary pl c False"

definition Binary_MarshalWriteStable where
  "Binary_MarshalWriteStable pl c = marshalBinary pl c True"

definition Binary_UnmarshalRead ::
  "('m, 'res) proto_lib \<Rightarrow> 'res binary_codec \<Rightarrow> reader \<Rightarrow> 'm \<Rightarrow> go_error + 'm" where
  "Binary_UnmarshalRead pl c src msg =
     (if \<not> pl_isMessage pl msg then Inl (not_proto pl msg)
      else unmarshalReadAll src (\<lambda>data. pl_Unmarshal pl (bc_Resolver c) data msg))"

definition JSON_MarshalWrite ::
  "('m, 'res) proto_lib \<Rightarrow> 'res json_codec \<Rightarrow> 'm \<Rightarrow> destination \<Rightarrow> go_error option \<times> destination" where
  "JSON_MarshalWrite pl c msg dst =
     (if \<not> pl_isMessage pl msg then (Some (not_proto pl msg), dst)
      else marshalAppendWrite None (\<lambda>buf. pj_MarshalAppend pl (jc_MarshalResolver c) buf msg) dst)"

definition JSON_MarshalWriteStable ::
  "('m, 'res) proto_lib \<Rightarrow> 'res json_codec \<Rightarrow> 'm \<Rightarrow> destination \<Rightarrow> go_error option \<times> destination" where
  "JSON_MarshalWriteStable pl c msg dst =
     (if \<not> pl_isMessage pl msg then (Some (not_proto pl msg), dst)
      else case pj_Marshal pl (jc_MarshalResolver c) msg of
        Inl err \<Rightarrow> (Some err, dst)
      | Inr raw \<Rightarrow>
          (case json_Compact pl raw of
             Inl err \<Rightarrow> (Some err, dst)
           | Inr compact \<Rightarrow> ds_Write compact dst))"

definition JSON_UnmarshalRead ::
  "('m, 'res) proto_lib \<Rightarrow> 'res json_codec \<Rightarrow> reader \<Rightarrow> 'm \<Rightarrow> go_error + 'm" where
  "JSON_UnmarshalRead pl c src msg =
     (if \<not> pl_isMessage pl msg then Inl (not_proto pl msg)
      else unmarshalReadAll src (\<lambda>data.
        if data = [] then Inl (Plain ''zero-length payload is not a valid JSON object'')
        else pj_Unmarshal pl (jc_UnmarshalResolver c) (jc_DiscardUnknown c) data msg))"

text \<open>The codecs as the protocols see them: what is written to a fresh buffer.\<close>

definition fresh_buffer :: destination where
  "fresh_buffer = \<lparr>ds_writer = good_writer, ds_buffered = True, ds_grower = True, ds_spare = 0\<rparr>"

definition written :: "go_error option \<times> destination \<Rightarrow> go_error + bytes" where
  "written r = (case r of (Some err, _) \<Rightarrow> Inl err | (None, dst) \<Rightarrow> Inr (w_out (ds_writer dst)))"

definition binary_codec_of :: "('m, 'res) proto_lib \<Rightarrow> 'res binary_codec \<Rightarrow> 'm codec" where
  "binary_codec_of pl c =
     \<lparr>codec_Name = ''proto'', codec_MarshalWrite = (\<lambda>msg. written (Binary_MarshalWrite pl c msg fresh_buffer)),
      codec_UnmarshalRead = (\<lambda>data. Binary_UnmarshalRead pl c (clean_reader data)),
      codec_stable = Some (\<lambda>msg. written (Binary_MarshalWriteStable pl c msg fresh_buffer), True)\<rparr>"

definition json_codec_of :: "('m, 'res) proto_lib \<Rightarrow> 'res json_codec \<Rightarrow> 'm codec" where
  "json_codec_of pl c =
     \<lparr>codec_Name = ''json'', codec_MarshalWrite = (\<lambda>msg. written (JSON_MarshalWrite pl c msg fresh_buffer)),
      codec_UnmarshalRead = (\<lambda>data. JSON_UnmarshalRead pl c (clean_reader data)),
      codec_stable = Some (\<lambda>msg. written (JSON_MarshalWriteStable pl c msg fresh_buffer), False)\<rparr>"

subsection \<open>Procedure paths\<close>

definition extractProtoPath :: "string \<Rightarrow> string" where
  "extractProtoPath path =
     (let segments = Split path (CHR ''/'');
          n = length segments;
          (pkg, method) = (if n > 1 then (segments ! (n - 2), segments ! (n - 1))
                           else if n > 0 then (segments ! 0, []) else ([], []))
      in if pkg = [] then ''/''
         else if method = [] then CHR ''/'' # pkg
         else CHR ''/'' # pkg @ CHR ''/'' # method)"

subsection \<open>Encoding and decoding\<close>

text \<open>Laws of the packages for messages whose types the resolver knows: decoding an encoded message into
  a fresh one gives an equal message, only the empty message is encoded as nothing, JSON text is
  never empty, and compacting it keeps its value.\<close>

definition proto_ok :: "('m, 'res) proto_lib \<Rightarrow> 'res option \<Rightarrow> 'm \<Rightarrow> bool" where
  "proto_ok pl res zero \<longleftrightarrow>
     pl_isMessage pl zero \<and>
     (\<forall>opts m bs. pl_isMessage pl m \<longrightarrow> pl_MarshalAppend pl opts [] m = Inr bs \<longrightarrow>
        pl_Unmarshal pl res bs zero = Inr m \<and> (bs = [] \<longrightarrow> m = zero)) \<and>
     (\<forall>m bs discard. pl_isMessage pl m \<longrightarrow> pj_MarshalAppend pl res [] m = Inr bs \<or> pj_Marshal pl res m = Inr bs \<longrightarrow>
        bs \<noteq> [] \<and> pj_Unmarshal pl res discard bs zero = Inr m) \<and>
     (\<forall>raw bs discard. json_Compact pl raw = Inr bs \<longrightarrow> raw \<noteq> [] \<longrightarrow>
        bs \<noteq> [] \<and> pj_Unmarshal pl res discard bs zero = pj_Unmarshal pl res discard raw zero)"

lemma resolver_of_options [simp]:
  "bc_Resolver (NewBinaryCodec opts) = foldl (\<lambda>res opt. opt res) None opts"
  "jc_MarshalResolver (NewJSONCodec opts) = foldl (\<lambda>res opt. opt res) None opts"
  "jc_UnmarshalResolver (NewJSONCodec opts) = foldl (\<lambda>res opt. opt res) None opts"
  by (simp_all add: NewBinaryCodec_def NewJSONCodec_def Let_def)

lemma written_fresh:
  "written (ds_Write bs fresh_buffer) = Inr bs" "written (ds_Write bs (ds_Grow n fresh_buffer)) = Inr bs"
  by (simp_all add: written_def ds_Write_def ds_Grow_def fresh_buffer_def good_writer_def)

lemma written_append:
  "written (marshalAppendWrite hint f fresh_buffer) = f []"
proof -
  have "ds_buffered fresh_buffer" "ds_grower fresh_buffer" by (simp_all add: fresh_buffer_def)
  then show ?thesis
    by (cases "f []"; cases hint) (simp_all add: marshalAppendWrite_def written_fresh, simp_all add: written_def)
qed

lemma marshalBinary_written:
  "written (marshalBinary pl c det msg fresh_buffer) =
     (if pl_isMessage pl msg
      then pl_MarshalAppend pl \<lparr>mo_Deterministic = det \<or> mo_Deterministic (bc_MarshalOptions c), mo_UseCachedSize = True\<rparr> [] msg
      else Inl (not_proto pl msg))"
  by (cases "bc_MarshalOptions c") (auto simp: marshalBinary_def written_append Let_def, simp add: written_def)

lemma read_clean [simp]: "unmarshalReadAll (clean_reader data) f = f data"
  by (simp add: unmarshalReadAll_def io_ReadAll_def clean_reader_def)

text \<open>Decoding inverts encoding for both Protobuf codecs, in the plain and the stable form: this is
  what the protocols require of a codec.\<close>

lemma proto_codecs_round_trip:
  assumes "proto_ok pl (foldl (\<lambda>res opt. opt res) None opts) zero"
  defines "bin \<equiv> binary_codec_of pl (NewBinaryCodec opts)" and "js \<equiv> json_codec_of pl (NewJSONCodec opts)"
  shows "codec_ok bin zero \<and> codec_ok js zero \<and>
    (\<forall>c \<in> {bin, js}. \<forall>m bs. fst (the (codec_stable c)) m = Inr bs \<longrightarrow> codec_UnmarshalRead c bs zero = Inr m)"
proof -
  let ?res = "foldl (\<lambda>res opt. opt res) None opts"
  from assms(1) have zero: "pl_isMessage pl zero"
    and b: "\<And>o' m bs. pl_isMessage pl m \<Longrightarrow> pl_MarshalAppend pl o' [] m = Inr bs \<Longrightarrow> pl_Unmarshal pl ?res bs zero = Inr m \<and> (bs = [] \<longrightarrow> m = zero)"
    and j: "\<And>m bs d. pl_isMessage pl m \<Longrightarrow> pj_MarshalAppend pl ?res [] m = Inr bs \<Longrightarrow> bs \<noteq> [] \<and> pj_Unmarshal pl ?res d bs zero = Inr m"
    and s: "\<And>m bs d. pl_isMessage pl m \<Longrightarrow> pj_Marshal pl ?res m = Inr bs \<Longrightarrow> bs \<noteq> [] \<and> pj_Unmarshal pl ?res d bs zero = Inr m"
    and k: "\<And>raw bs d. json_Compact pl raw = Inr bs \<Longrightarrow> raw \<noteq> [] \<Longrightarrow>
      bs \<noteq> [] \<and> pj_Unmarshal pl ?res d bs zero = pj_Unmarshal pl ?res d raw zero"
    unfolding proto_ok_def by blast+
  have "codec_UnmarshalRead bin bs zero = Inr m" if "fst (the (codec_stable bin)) m = Inr bs" for m bs
    using that zero b
    by (auto simp: codec_ok_def bin_def binary_codec_of_def Binary_MarshalWrite_def Binary_MarshalWriteStable_def
        Binary_UnmarshalRead_def marshalBinary_written split: if_splits)
  moreover have "codec_ok bin zero"
    using zero b
    by (auto simp: codec_ok_def bin_def binary_codec_of_def Binary_MarshalWrite_def Binary_UnmarshalRead_def
        marshalBinary_written split: if_splits)
  moreover have "codec_ok js zero"
    using zero j
    by (auto simp: codec_ok_def js_def json_codec_of_def JSON_MarshalWrite_def JSON_UnmarshalRead_def written_append
        split: if_splits) (auto simp: written_def)
  moreover have "codec_UnmarshalRead js bs zero = Inr m" if "fst (the (codec_stable js)) m = Inr bs" for m bs
  proof -
    from that obtain raw where "pl_isMessage pl m" "pj_Marshal pl ?res m = Inr raw" "json_Compact pl raw = Inr bs"
      by (auto simp: js_def json_codec_of_def JSON_MarshalWriteStable_def written_fresh split: if_splits sum.splits)
        (auto simp: written_def split: if_splits sum.splits)
    with s k zero show ?thesis
      by (fastforce simp: js_def json_codec_of_def JSON_UnmarshalRead_def)
  qed
  ultimately show ?thesis by auto
qed

text \<open>Packages for byte strings of up to three bytes, to show that the laws can hold.\<close>

definition byte_proto :: "(bytes, unit) proto_lib" where
  "byte_proto =
     \<lparr>pl_isMessage = (\<lambda>m. length m \<le> 3), pl_typeName = (\<lambda>_. ''[]byte''), pl_Size = (\<lambda>_. length),
      pl_MarshalAppend = (\<lambda>_ buf m. Inr (buf @ m)), pl_Unmarshal = (\<lambda>_ data _. Inr data),
      pj_MarshalAppend = (\<lambda>_ buf m. Inr (buf @ 0x22 # m)), pj_Marshal = (\<lambda>_ m. Inr (0x22 # m)),
      pj_Unmarshal = (\<lambda>_ _ data _. Inr (tl data)), json_Compact = Inr\<rparr>"

lemma byte_proto_ok: "proto_ok byte_proto res []"
  by (auto simp: proto_ok_def byte_proto_def)

lemma proto_codecs_round_trip_witness:
  "codec_MarshalWrite (json_codec_of byte_proto (NewJSONCodec [WithTypeResolver (Some ())])) [1, 2] = Inr [0x22, 1, 2] \<and>
   codec_UnmarshalRead (json_codec_of byte_proto (NewJSONCodec [WithTypeResolver (Some ())])) [0x22, 1, 2] [] = Inr [1, 2]"
proof -
  have "codec_MarshalWrite (json_codec_of byte_proto (NewJSONCodec [WithTypeResolver (Some ())])) [1, 2] = Inr [0x22, 1, 2]"
    by code_simp
  with proto_codecs_round_trip [OF byte_proto_ok, of "[WithTypeResolver (Some ())]"] show ?thesis
    unfolding codec_ok_def by blast
qed

subsection \<open>Errors\<close>

text \<open>Errors of the Protobuf codecs. A value that is not a message is refused by every operation with
  an error that wraps \<open>ErrNotProtoMessage\<close>, before anything is written or read; an error of the source
  is returned as it is, so that size limits and cancellation keep their identity; an empty payload
  is a message for the binary codec and an error for JSON. What a destination gets does not depend
  on whether it supports encoding in place.\<close>

lemma proto_codec_errors:
  "(\<forall>msg. \<not> pl_isMessage pl msg \<longrightarrow>
      (\<exists>e. ErrNotProtoMessage \<in> set (chain e) \<and>
        Binary_MarshalWrite pl c msg dst = (Some e, dst) \<and> Binary_MarshalWriteStable pl c msg dst = (Some e, dst) \<and>
        JSON_MarshalWrite pl j msg dst = (Some e, dst) \<and> JSON_MarshalWriteStable pl j msg dst = (Some e, dst) \<and>
        Binary_UnmarshalRead pl c src msg = Inl e \<and> JSON_UnmarshalRead pl j src msg = Inl e)) \<and>
   (\<forall>msg. pl_isMessage pl msg \<longrightarrow> rd_err src \<noteq> Sentinel EOF \<longrightarrow>
      Binary_UnmarshalRead pl c src msg = Inl (rd_err src) \<and> JSON_UnmarshalRead pl j src msg = Inl (rd_err src)) \<and>
   (\<forall>msg. pl_isMessage pl msg \<longrightarrow>
      Binary_UnmarshalRead pl c (clean_reader []) msg = pl_Unmarshal pl (bc_Resolver c) [] msg \<and>
      JSON_UnmarshalRead pl j (clean_reader []) msg = Inl (Plain ''zero-length payload is not a valid JSON object'')) \<and>
   (\<forall>hint f dst'. ds_writer dst' = ds_writer dst \<longrightarrow>
      fst (marshalAppendWrite hint f dst') = fst (marshalAppendWrite hint f dst) \<and>
      ds_writer (snd (marshalAppendWrite hint f dst')) = ds_writer (snd (marshalAppendWrite hint f dst)))"
  (is "?A \<and> ?B \<and> ?C \<and> ?D")
proof (intro conjI)
  have "ErrNotProtoMessage \<in> set (chain (not_proto pl msg))" for msg
    by (simp add: not_proto_def ErrNotProtoMessage_def)
  then show ?A
    by (auto simp: Binary_MarshalWrite_def Binary_MarshalWriteStable_def marshalBinary_def JSON_MarshalWrite_def
        JSON_MarshalWriteStable_def Binary_UnmarshalRead_def JSON_UnmarshalRead_def)
  show ?B by (simp add: Binary_UnmarshalRead_def JSON_UnmarshalRead_def unmarshalReadAll_def io_ReadAll_def)
  show ?C by (simp add: Binary_UnmarshalRead_def JSON_UnmarshalRead_def)
  have append: "ds_writer (snd (marshalAppendWrite hint f d)) =
      (case f [] of Inl _ \<Rightarrow> ds_writer d | Inr out \<Rightarrow> snd (snd (io_Write out (ds_writer d))))"
    "fst (marshalAppendWrite hint f d) =
      (case f [] of Inl e \<Rightarrow> Some e | Inr out \<Rightarrow> fst (snd (io_Write out (ds_writer d))))" for hint f d
    by (auto simp: marshalAppendWrite_def ds_Write_def ds_Grow_def Let_def case_prod_beta split: sum.splits option.splits)
  then show ?D by (auto split: sum.splits)
qed

lemma proto_codec_errors_witness:
  "\<exists>e. Binary_MarshalWrite byte_proto (NewBinaryCodec []) [1, 2, 3, 4] fresh_buffer = (Some e, fresh_buffer) \<and>
     ErrNotProtoMessage \<in> set (chain e) \<and>
     JSON_UnmarshalRead byte_proto (NewJSONCodec []) (clean_reader []) [1] =
       Inl (Plain ''zero-length payload is not a valid JSON object'')"
proof -
  have "\<not> pl_isMessage byte_proto [1, 2, 3, 4]" "pl_isMessage byte_proto [1]" by (simp_all add: byte_proto_def)
  with proto_codec_errors [of byte_proto "NewBinaryCodec []" fresh_buffer "NewJSONCodec []" "clean_reader []"]
  show ?thesis by metis
qed

subsection \<open>Procedure paths\<close>

lemma Split_append: "Split (a @ c # b) c = Split a c @ Split b c"
  by (induction a) (auto split: list.splits)

lemma Split_one: "c \<notin> set a \<Longrightarrow> Split a c = [a]"
  by (induction a) auto

text \<open>Whatever prefix a server is mounted under, the service and the method are found.\<close>

lemma extractProtoPath_mounted:
  assumes "CHR ''/'' \<notin> set svc" "CHR ''/'' \<notin> set m" "svc \<noteq> []" "m \<noteq> []"
  shows "extractProtoPath (prefix @ CHR ''/'' # svc @ CHR ''/'' # m) = CHR ''/'' # svc @ CHR ''/'' # m"
proof -
  have "Split (prefix @ CHR ''/'' # svc @ CHR ''/'' # m) (CHR ''/'') = Split prefix (CHR ''/'') @ [svc, m]"
    using assms by (simp add: Split_append Split_one)
  moreover have "length (Split prefix (CHR ''/'')) > 0" by simp
  ultimately show ?thesis using assms by (simp add: extractProtoPath_def Let_def nth_append)
qed

end
