(* ===== verification/Unary_Messages.thy ===== *)
theory Unary_Messages
  imports Connect_Unary Message_Stream Gzip Proto_Codec
begin

section \<open>Unary messages from end to end\<close>

text \<open>
  What \<open>connectUnaryMarshaler\<close> writes, \<open>connectUnaryUnmarshaler\<close> reads: the two halves of a unary
  Connect body with the compression header between them, over any codec and compressor, in
  particular the ones of the repository. The read limits of both kinds of bodies follow.
\<close>

subsection \<open>What is written\<close>

text \<open>A sender that collects the body and the header of a message.\<close>

type_synonym outgoing = "writer \<times> http_header"

definition outgoing_send :: "outgoing sender" where
  "outgoing_send p s = (case writeSender_Send p (fst s) of (err, w) \<Rightarrow> (err, w, snd s))"

definition outgoing_setHeader :: "string \<Rightarrow> string \<Rightarrow> outgoing \<Rightarrow> outgoing" where
  "outgoing_setHeader key val s = (fst s, setHeaderCanonical (snd s) key val)"

lemma outgoing_bytes:
  "w_room w = None \<Longrightarrow> outgoing_send (BytesPayload data 0) (w, h) = (None, w\<lparr>w_out := w_out w @ data\<rparr>, h)"
  by (simp add: outgoing_send_def writeSender_Send_def payload_WriteTo_def)

lemma um_writeAndRecord_ok:
  "w_room w = None \<Longrightarrow> um_writeAndRecord outgoing_send m data a b (w, h) =
     (None, um_recordStats a b (m\<lparr>um_wroteHeader := True\<rparr>), w\<lparr>w_out := w_out w @ data\<rparr>, h)"
  by (simp add: um_writeAndRecord_def um_write_def outgoing_bytes Let_def)

text \<open>A message that was sent went out as it is, or compressed with the header saying so.\<close>

lemma um_Marshal_sent:
  assumes "um_Marshal outgoing_send outgoing_setHeader codec m (Some msg) (good_writer, h) = (None, m', w', h')"
  obtains buf where "codec_MarshalWrite codec msg = Inr buf" "h' = h" "w_out w' = buf"
  | buf pool where "codec_MarshalWrite codec msg = Inr buf" "um_compressionPool m = Some pool"
      "h' = setHeaderCanonical h connectUnaryHeaderCompression (um_compressionName m)" "c_Compress pool buf = Inr (None, w_out w')"
proof -
  have good: "w_room good_writer = None" "w_out good_writer = []" by (simp_all add: good_writer_def)
  from assms show ?thesis
    using that
    by (auto simp: um_Marshal_def um_writeAndRecord_ok good outgoing_setHeader_def compressionPool_Compress_def Let_def
        split: sum.splits option.splits if_splits)
qed

subsection \<open>What is read\<close>

lemma uu_read_all:
  assumes "uu_reader u = clean_reader data" "\<not> uu_alreadyRead u" "read_limit_ok (uu_readMaxBytes u) data"
  shows "uu_UnmarshalFunc unmarshal msg u =
    (let u' = u\<lparr>uu_alreadyRead := True, uu_reader := clean_reader []\<rparr> in
     case (if data = [] then None else uu_compressionPool u) of
       None \<Rightarrow> uu_decode unmarshal msg u' data 0
     | Some pool \<Rightarrow>
         (case compressionPool_Decompress pool data (uu_readMaxBytes u) of
            Inl err \<Rightarrow> (Some err, msg, u')
          | Inr decompressed \<Rightarrow> uu_decode unmarshal msg u' decompressed (int (length data))))"
proof -
  have "io_ReadAll (if 0 < uu_readMaxBytes u \<and> uu_readMaxBytes u < max_int64 then Some (nat (uu_readMaxBytes u + 1)) else None)
      (clean_reader data) = (data, None, clean_reader [])"
    using assms(3) by (auto simp: io_ReadAll_def clean_reader_def read_limit_ok_def)
  with assms show ?thesis by (auto simp: uu_UnmarshalFunc_def Let_def read_limit_ok_def split: option.splits)
qed

lemma uu_decode_ok:
  "unmarshal data msg = Inr msg' \<Longrightarrow> \<exists>u'. uu_decode unmarshal msg u data n = (None, msg', u') \<and>
     uu_alreadyRead u' = uu_alreadyRead u"
  by (simp add: uu_decode_def)

text \<open>C4. A unary Connect message arrives as it was sent. For every codec and compressor that keep their
  contracts: the body that the marshaler wrote, read by an unmarshaler that uses the pool named in the
  header and whose limit it fits, gives the message, and a second read reports the end of the stream.\<close>

theorem connect_unary_message_round_trip:
  assumes "codec_ok codec zero" and "pool_ok (um_compressionPool m)" and "um_compressionName m \<noteq> []"
    and "getHeaderCanonical h connectUnaryHeaderCompression = []"
    and "um_Marshal outgoing_send outgoing_setHeader codec m (Some msg) (good_writer, h) = (None, m', w', h')"
    and "uu_reader u = clean_reader (w_out w')" and "\<not> uu_alreadyRead u"
    and "uu_compressionPool u =
      (if getHeaderCanonical h' connectUnaryHeaderCompression = [] then None else um_compressionPool m)"
    and "read_limit_ok (uu_readMaxBytes u) (w_out w')"
    and "\<forall>buf. codec_MarshalWrite codec msg = Inr buf \<longrightarrow> read_limit_ok (uu_readMaxBytes u) buf"
  shows "\<exists>u' err. uu_Unmarshal codec zero u = (None, msg, u') \<and>
    uu_Unmarshal codec msg u' = (Some err, msg, u') \<and> errors_Is (Coded err) EOF"
proof -
  have read: "\<exists>u'. uu_Unmarshal codec zero u = (None, msg, u') \<and> uu_alreadyRead u'"
    using assms(5)
  proof (cases rule: um_Marshal_sent)
    case (1 buf)
    have "codec_UnmarshalRead codec buf zero = Inr msg" using assms(1) 1 by (simp add: codec_ok_def)
    with assms(4,8) 1 show ?thesis
      unfolding uu_Unmarshal_def uu_read_all [OF assms(6,7,9)]
      by (auto simp: uu_decode_def Let_def)
  next
    case (2 buf pool)
    have c: "codec_UnmarshalRead codec buf zero = Inr msg" using assms(1) 2 by (simp add: codec_ok_def)
    have d: "c_Decompress pool (w_out w') = Inr (clean_reader buf)" "w_out w' = [] \<Longrightarrow> buf = []"
      using assms(2) 2 by (auto simp: pool_ok_def compressor_ok_def)
    from d(1) assms(10) 2(1) have "compressionPool_Decompress pool (w_out w') (uu_readMaxBytes u) = Inr buf"
      by (subst Decompress_exact) (auto simp: clean_reader_def read_limit_ok_def)
    with c d(2) assms(3,8) 2 show ?thesis
      unfolding uu_Unmarshal_def uu_read_all [OF assms(6,7,9)]
      by (auto simp: uu_decode_def Let_def)
  qed
  then obtain u' where u': "uu_Unmarshal codec zero u = (None, msg, u')" "uu_alreadyRead u'" by blast
  have "\<exists>err. uu_Unmarshal codec msg u' = (Some err, msg, u') \<and> errors_Is (Coded err) EOF"
    using u'(2) by (simp add: uu_Unmarshal_def uu_UnmarshalFunc_def errors_Is_WithCause errors_Is_Sentinel)
  with u'(1) show ?thesis by blast
qed

text \<open>Over the pooled gzip compressor and the JSON codec of the repository, with the concrete packages
  of \<open>Gzip\<close> and \<open>Proto_Codec\<close>.\<close>

definition demo_codec :: "bytes codec" where
  "demo_codec = json_codec_of byte_proto (NewJSONCodec [])"

definition demo_pool :: compression_pool where
  "demo_pool = gzip_compressor_of stored_gzip 3"

definition demo_marshaler :: connect_unary_marshaler where
  "demo_marshaler = \<lparr>um_ctx = \<lparr>cx_err = None, cx_deadline = None\<rparr>, um_compressMinBytes = 0, um_compressionName = ''gzip'',
     um_compressionPool = Some demo_pool, um_sendMaxBytes = 100, um_wroteHeader = False, um_stats = None\<rparr>"

definition demo_unmarshaler :: "bytes \<Rightarrow> connect_unary_unmarshaler" where
  "demo_unmarshaler body = \<lparr>uu_ctx = \<lparr>cx_err = None, cx_deadline = None\<rparr>, uu_reader = clean_reader body,
     uu_compressionPool = Some demo_pool, uu_alreadyRead = False, uu_readMaxBytes = 10, uu_stats = None\<rparr>"

lemma demo_pool_ok: "compressor_ok demo_pool"
  by (auto simp: compressor_ok_def demo_pool_def gzip_compressor_of_def stored_gzip_def decoded_def clean_reader_def
      errors_Is_Sentinel split: if_splits)

lemma demo_codec_ok: "codec_ok demo_codec []"
  by (auto simp: codec_ok_def demo_codec_def json_codec_of_def byte_proto_def JSON_MarshalWrite_def JSON_UnmarshalRead_def
      written_append split: if_splits) (auto simp: written_def)

theorem connect_unary_message_round_trip_witness:
  "\<exists>u'. uu_Unmarshal demo_codec [] (demo_unmarshaler [0x1f, 0x22, 5, 6]) = (None, [5, 6], u')"
proof -
  let ?r = "um_Marshal outgoing_send outgoing_setHeader demo_codec demo_marshaler (Some [5, 6]) (good_writer, [])"
  obtain e m' w' h' where r: "?r = (e, m', w', h')" by (metis prod_cases4)
  have "fst ?r = None \<and> w_out (fst (snd (snd ?r))) = [0x1f, 0x22, 5, 6] \<and>
      getHeaderCanonical (snd (snd (snd ?r))) connectUnaryHeaderCompression = ''gzip''" by code_simp
  with r have w: "e = None" "w_out w' = [0x1f, 0x22, 5, 6]" "getHeaderCanonical h' connectUnaryHeaderCompression = ''gzip''"
    by simp_all
  have "codec_MarshalWrite demo_codec [5, 6] = Inr [0x22, 5, 6]" by code_simp
  with connect_unary_message_round_trip [OF demo_codec_ok _ _ _ r [unfolded w(1)], of "demo_unmarshaler (w_out w')"] w
  show ?thesis
    by (auto simp: pool_ok_def demo_marshaler_def demo_unmarshaler_def demo_pool_ok read_limit_ok_def)
qed

subsection \<open>Read limits\<close>

lemma size_bounded: "n \<le> unat w \<Longrightarrow> \<not> limit < uint w \<Longrightarrow> int n \<le> limit"
proof -
  assume "n \<le> unat w" "\<not> limit < uint w"
  moreover have "int (unat w) = uint w" by simp
  ultimately show "int n \<le> limit" by linarith
qed

lemma er_Read_bounded:
  assumes "er_Read r = (Inr env, r')" "er_readMaxBytes r > 0"
  shows "int (length (env_Data env)) \<le> er_readMaxBytes r" "er_readMaxBytes r' = er_readMaxBytes r"
  using assms
  by (auto simp: er_Read_def er_advance_def Let_def split: prod.splits option.splits if_splits
      dest!: io_CopyN_length intro: size_bounded)



end
