(* ===== verification/Unary_Served.thy ===== *)
theory Unary_Served
  imports Http_Client In_Process Unary_Messages
begin

section \<open>A unary request through an HTTP handler\<close>

text \<open>
  What \<open>ServeHTTP\<close> does with a unary Connect request for a mounted procedure, without compression:
  the protocol is chosen, a connection is made, the method of the server runs on the decoded
  message, and its response or its scrubbed error is what the response writer sends. The
  lemmas follow the request from \<open>ServeHTTP\<close> to the method and back; \<open>request_served\<close> and
  \<open>request_failed\<close> put them together for \<open>Unary_Call\<close>.
\<close>

subsection \<open>The response writer\<close>

definition fresh_writer :: response_writer where
  "fresh_writer = \<lparr>rw_Header = [], rw_wrote = None, rw_body = good_writer, rw_flusher = True, rw_flushes = 0\<rparr>"

lemma fresh_header: "rw_Header fresh_writer = []"
  by (simp add: fresh_writer_def)

subsection \<open>The handler\<close>

text \<open>A connection with a request that was not read and a response that was not begun, no
  compression.\<close>

definition fresh_conn :: "'m codec \<Rightarrow> 'm connect_unary_handler_conn \<Rightarrow> bool" where
  "fresh_conn codec hc \<longleftrightarrow>
     uh_codec hc = codec \<and> um_compressionPool (uh_marshaler hc) = None \<and> um_sendMaxBytes (uh_marshaler hc) \<le> 0 \<and>
     rq_Method (uh_request hc) = ''POST'' \<and> rw_wrote (uh_responseWriter hc) = None \<and>
     rw_body (uh_responseWriter hc) = good_writer \<and> uh_responseTrailer hc = [] \<and> \<not> um_wroteHeader (uh_marshaler hc)"

definition ready_conn :: "'m codec \<Rightarrow> bytes \<Rightarrow> 'm connect_unary_handler_conn \<Rightarrow> bool" where
  "ready_conn codec data hc \<longleftrightarrow>
     fresh_conn codec hc \<and> uu_reader (uh_unmarshaler hc) = clean_reader data \<and> \<not> uu_alreadyRead (uh_unmarshaler hc) \<and>
     uu_compressionPool (uh_unmarshaler hc) = None \<and> read_limit_ok (uu_readMaxBytes (uh_unmarshaler hc)) data"

abbreviation unary_conn :: "'m connect_unary_handler_conn \<Rightarrow> 'm handler_conn" where
  "unary_conn hc \<equiv> ConnectConn (UnaryHandlerConn hc)"

text \<open>An uncompressed body: one message, then the end.\<close>

definition end_of_body :: connect_error where
  "end_of_body = WithCause (Errorf CodeInternal ''%s'' [sentinel_text EOF]) (Some (Sentinel EOF))"

lemma plain_unmarshal:
  assumes "uu_reader u = clean_reader data" "\<not> uu_alreadyRead u" "uu_compressionPool u = None"
    and "read_limit_ok (uu_readMaxBytes u) data" "codec_UnmarshalRead codec data zero = Inr msg"
  shows "\<exists>u'. uu_alreadyRead u' \<and> uu_Unmarshal codec zero u = (None, msg, u')"
  using assms by (auto simp: uu_Unmarshal_def uu_read_all uu_decode_def Let_def)

lemma unmarshal_again: "uu_alreadyRead u \<Longrightarrow> uu_Unmarshal codec m u = (Some end_of_body, m, u)"
  by (simp add: uu_Unmarshal_def uu_UnmarshalFunc_def end_of_body_def)

lemma end_of_body_is_EOF:
  "errors_Is (Coded end_of_body) EOF" "wrapIfUncoded (Some (Coded end_of_body)) = Some (Coded end_of_body)"
  by (simp_all add: end_of_body_def errors_Is_WithCause errors_Is_Sentinel wrapIfUncoded_keeps del: sentinel_text.simps)

lemma receive_request:
  assumes "ready_conn codec data hc" "codec_UnmarshalRead codec data zero = Inr req"
  shows "\<exists>u. uu_alreadyRead u \<and> conn_Receive zero (unary_conn hc) = (None, req, unary_conn (hc\<lparr>uh_unmarshaler := u\<rparr>))"
  using plain_unmarshal [of "uh_unmarshaler hc" data codec zero req] assms
  by (auto simp: conn_Receive_def raw_Receive_def uh_Receive_def ready_conn_def fresh_conn_def)

lemma receive_again:
  "uu_alreadyRead (uh_unmarshaler hc) \<Longrightarrow> conn_Receive m (unary_conn hc) = (Some (Coded end_of_body), m, unary_conn hc)"
  by (simp add: conn_Receive_def raw_Receive_def uh_Receive_def unmarshal_again end_of_body_is_EOF)

lemma stream_receive:
  assumes "ready_conn codec data hc" "codec_UnmarshalRead codec data zero = Inr req"
    and "hs_conn s = unary_conn hc" "hs_singleRequest s" "\<not> hs_rxEnd s"
  shows "\<exists>u. hs_Receive zero s = (None, req, s\<lparr>hs_rxEnd := True, hs_conn := unary_conn (hc\<lparr>uh_unmarshaler := u\<rparr>)\<rparr>)"
proof -
  obtain u where u: "uu_alreadyRead u" "conn_Receive zero (unary_conn hc) = (None, req, unary_conn (hc\<lparr>uh_unmarshaler := u\<rparr>))"
    using receive_request [OF assms(1,2)] by blast
  show ?thesis using assms(3-5) u by (auto simp: hs_Receive_def receive_again end_of_body_is_EOF)
qed

lemma um_Marshal_plain:
  assumes "codec_MarshalWrite codec msg = Inr out" "um_compressionPool m = None" "um_sendMaxBytes m \<le> 0"
    and "send (BytesPayload out 0) s = (None, s')"
  shows "um_Marshal send setHeader codec m (Some msg) s =
    (None, um_recordStats (int (length out)) 0 (m\<lparr>um_wroteHeader := True\<rparr>), s')"
  using assms by (auto simp: um_Marshal_def um_writeAndRecord_def um_write_def Let_def)

lemma um_recordStats_wrote [simp]: "um_wroteHeader (um_recordStats a b m) = um_wroteHeader m"
  by (simp add: um_recordStats_def)

text \<open>Sending a response on a connection without trailers.\<close>

lemma send_response:
  assumes "fresh_conn codec hc" "codec_MarshalWrite codec res = Inr out"
  shows "\<exists>m rw. conn_Send (Some res) (unary_conn hc) = (None, unary_conn (hc\<lparr>uh_marshaler := m, uh_responseWriter := rw\<rparr>)) \<and>
    um_wroteHeader m \<and> rs_StatusCode (rw_finish rw) = 200 \<and> w_out (rw_body rw) = out \<and>
    rs_Header (rw_finish rw) = without_trailers (rw_Header (uh_responseWriter hc))"
proof -
  have hc: "uh_codec hc = codec" "um_compressionPool (uh_marshaler hc) = None" "um_sendMaxBytes (uh_marshaler hc) \<le> 0"
    "rq_Method (uh_request hc) = ''POST''" "rw_wrote (uh_responseWriter hc) = None"
    "rw_body (uh_responseWriter hc) = good_writer" "uh_responseTrailer hc = []"
    using assms(1) by (simp_all add: fresh_conn_def)
  have "uh_mergeResponseHeader hc = hc" using hc by (simp add: uh_mergeResponseHeader_def Let_def)
  moreover have "rw_Send (BytesPayload out 0) (uh_responseWriter hc) =
      (None, (if out = [] then uh_responseWriter hc else rw_WriteHeader 200 (uh_responseWriter hc))\<lparr>rw_body := good_writer\<lparr>w_out := out\<rparr>\<rparr>)"
    using hc by (simp add: rw_Send_def payload_writes_def writeSender_Send_def payload_WriteTo_def good_writer_def Let_def)
  moreover note um_Marshal_plain [where send = rw_Send and setHeader = rw_setHeader, OF assms(2) hc(2,3) this]
  ultimately obtain m where "um_wroteHeader m" "uh_mergeResponseHeader hc = hc"
    "um_Marshal rw_Send rw_setHeader codec (uh_marshaler hc) (Some res) (uh_responseWriter hc) = (None, m,
      (if out = [] then uh_responseWriter hc else rw_WriteHeader 200 (uh_responseWriter hc))\<lparr>rw_body := good_writer\<lparr>w_out := out\<rparr>\<rparr>)"
    by fastforce
  then have "conn_Send (Some res) (unary_conn hc) = (None, unary_conn (hc\<lparr>uh_marshaler := m, uh_responseWriter :=
      (if out = [] then uh_responseWriter hc else rw_WriteHeader 200 (uh_responseWriter hc))\<lparr>rw_body := good_writer\<lparr>w_out := out\<rparr>\<rparr>\<rparr>)) \<and>
      um_wroteHeader m"
    using hc by (simp add: conn_Send_def translated_def raw_Send_def uh_Send_def)
  then show ?thesis using hc by (fastforce simp: rw_finish_def rw_WriteHeader_def Let_def)
qed

text \<open>The procedure on a handler stream: the response of the method is written.\<close>

definition new_stream :: "call_info \<Rightarrow> 'm handler_conn \<Rightarrow> 'm handler_stream" where
  "new_stream info conn = \<lparr>hs_conn = conn, hs_info = info, hs_unary = True, hs_singleRequest = True,
     hs_headerFlushed = False, hs_trailerFlushed = False, hs_rxEnd = False\<rparr>"

lemma no_metadata [simp]:
  "ci_response info = [] \<Longrightarrow> conn_addHeader (ResponseHeader info) (unary_conn hc) = unary_conn hc"
  "ci_trailer info = [] \<Longrightarrow> conn_addTrailer (ResponseTrailer info) (unary_conn hc) = unary_conn hc"
  by (simp_all add: conn_addHeader_def conn_addTrailer_def ResponseHeader_def ResponseTrailer_def toHTTPHeader_def
      Header_All_def Let_def)

lemma procedure_served:
  assumes server: "Register ms (NewServer []) = Inr server" "m \<in> set ms" "mt_Handler m = unary_handler zero f"
    and conn: "ready_conn codec data hc" "codec_UnmarshalRead codec data zero = Inr req"
    and res: "f req = Inr res" "codec_MarshalWrite codec res = Inr out"
    and info: "ci_response info = []" "ci_trailer info = []"
  shows "\<exists>hc'. server_procedure server (spec_Procedure (mt_Spec m)) ctx (new_stream info (unary_conn hc)) =
      (Return None, (new_stream info (unary_conn hc'))\<lparr>hs_headerFlushed := True, hs_trailerFlushed := True, hs_rxEnd := True\<rparr>) \<and>
    um_wroteHeader (uh_marshaler hc') \<and> rs_StatusCode (rw_finish (uh_responseWriter hc')) = 200 \<and>
    w_out (rw_body (uh_responseWriter hc')) = out \<and>
    rs_Header (rw_finish (uh_responseWriter hc')) = without_trailers (rw_Header (uh_responseWriter hc))"
proof -
  let ?s = "new_stream info (unary_conn hc)" and ?gctx = "\<lparr>gx_ctx = ctx, gx_clientInfo = None, gx_serverInfo = None\<rparr>"
  obtain u where u: "hs_Receive zero ?s = (None, req, ?s\<lparr>hs_rxEnd := True, hs_conn := unary_conn (hc\<lparr>uh_unmarshaler := u\<rparr>)\<rparr>)"
    using stream_receive [OF conn, of ?s] by (auto simp: new_stream_def)
  let ?hc = "hc\<lparr>uh_unmarshaler := u\<rparr>"
  have sendable: "\<exists>m rw. conn_Send (Some res) (unary_conn ?hc) = (None, unary_conn (?hc\<lparr>uh_marshaler := m, uh_responseWriter := rw\<rparr>)) \<and>
      um_wroteHeader m \<and> rs_StatusCode (rw_finish rw) = 200 \<and> w_out (rw_body rw) = out \<and>
      rs_Header (rw_finish rw) = without_trailers (rw_Header (uh_responseWriter ?hc))"
    using conn(1) by (intro send_response [OF _ res(2)]) (simp_all add: ready_conn_def fresh_conn_def)
  then obtain mm rw where send: "conn_Send (Some res) (unary_conn ?hc) = (None, unary_conn (?hc\<lparr>uh_marshaler := mm, uh_responseWriter := rw\<rparr>))"
    "um_wroteHeader mm" "rs_StatusCode (rw_finish rw) = 200" "w_out (rw_body rw) = out"
    "rs_Header (rw_finish rw) = without_trailers (rw_Header (uh_responseWriter hc))"
    by auto
  let ?hc' = "?hc\<lparr>uh_marshaler := mm, uh_responseWriter := rw\<rparr>"
  have h: "hs_Send (Some res) (?s\<lparr>hs_rxEnd := True, hs_conn := unary_conn ?hc\<rparr>) =
      (None, (new_stream info (unary_conn ?hc'))\<lparr>hs_headerFlushed := True, hs_trailerFlushed := True, hs_rxEnd := True\<rparr>)"
    using send(1) info by (simp add: hs_Send_def hs_flushHeader_def hs_flushTrailer_def new_stream_def Let_def)
  have "server_procedure server (spec_Procedure (mt_Spec m)) ctx ?s =
      (Return None, (new_stream info (unary_conn ?hc'))\<lparr>hs_headerFlushed := True, hs_trailerFlushed := True, hs_rxEnd := True\<rparr>)"
    using u h dispatch_registered [OF server(1,2), where i = 0 and ctx = ?gctx] server(3) res(1)
    by (simp add: server_procedure_def unary_handler_def handlerStream_server_stream_def on_stream_def new_stream_def)
  with send show ?thesis by (intro exI [of _ ?hc']) simp
qed

subsection \<open>Serving the request\<close>

text \<open>A procedure without compression whose only codec is the given one.\<close>

definition plain_procedure :: "'m http_options \<Rightarrow> rpc_spec \<Rightarrow> 'm codec \<Rightarrow> bool" where
  "plain_procedure opts spec codec \<longleftrightarrow>
     spec_StreamType spec = StreamTypeUnary \<and> codec_Name codec = ''proto'' \<and> op_codecs (forSpec opts spec) = [codec] \<and>
     op_compressors (forSpec opts spec) = [] \<and> op_sendMaxBytes (forSpec opts spec) \<le> 0"

text \<open>A unary Connect request for it.\<close>

definition plain_request :: "bytes \<Rightarrow> http_request \<Rightarrow> bool" where
  "plain_request data request \<longleftrightarrow>
     rq_Method request = ''POST'' \<and> rq_Body request = clean_reader data \<and>
     getHeaderCanonical (rq_Header request) headerContentType = ''application/proto'' \<and>
     getHeaderCanonical (rq_Header request) connectUnaryHeaderCompression = [] \<and>
     getHeaderCanonical (rq_Header request) connectHeaderTimeout = [] \<and>
     getHeaderCanonical (rq_Header request) connectHeaderProtocolVersion = connectProtocolVersion"

definition connect_params :: "'m http_options \<Rightarrow> rpc_spec \<Rightarrow> 'm codec \<Rightarrow> 'm handler_params" where
  "connect_params opts spec codec =
     (let o' = forSpec opts spec in
      \<lparr>hp_spec = spec, hp_Codecs = [(''proto'', codec)],
       hp_CompressionPools = \<lparr>nameToPool = [], commaSeparatedNames = []\<rparr>, hp_CompressMinBytes = op_compressMinBytes o',
       hp_ReadMaxBytes = op_readMaxBytes o', hp_SendMaxBytes = op_sendMaxBytes o',
       hp_RequireConnectProtocolHeader = op_requireConnectProtocolHeader o',
       hp_IdempotencyLevel = spec_IdempotencyLevel spec\<rparr>)"

lemma application_proto: "content_type_scan 0 ''application/proto'' = Some 1"
  by code_simp

lemma connect_first:
  assumes "plain_procedure opts spec codec"
  shows "\<exists>ps. newProtocolHandlers mime (newServerHandlerConfig spec (forSpec opts spec)) =
    protocolConnect_NewHandler mime (connect_params opts spec codec) # ps"
proof -
  have "newReadOnlyCodecs [] [codec] = [(''proto'', codec)]"
    "newReadOnlyCompressionPools [] = \<lparr>nameToPool = [], commaSeparatedNames = []\<rparr>"
    using assms by (simp_all add: plain_procedure_def has_key_def newReadOnlyCompressionPools_def)
  then show ?thesis
    using assms
    by (cases spec)
      (simp add: newProtocolHandlers_def newServerHandlerConfig_def newSpec_def plain_procedure_def connect_params_def Let_def)
qed

lemma serving_connect:
  assumes "plain_procedure opts spec codec" "plain_request data request" "env_mime env = mime"
  shows "serving_protocol env (newProcedureHandler mime server spec opts) request =
      Some (protocolConnect_NewHandler mime (connect_params opts spec codec))"
    "request_contentType env request = ''application/proto''"
proof -
  let ?h = "newProcedureHandler mime server spec opts" and ?p = "protocolConnect_NewHandler mime (connect_params opts spec codec)"
  show ct: "request_contentType env request = ''application/proto''"
    using assms(2) by (simp add: request_contentType_def plain_request_def canonicalizeContentType_fast [OF application_proto])
  have "ph_accept ?p = [''application/proto'']"
    using assms(1) canonicalizeContentType_fast [OF application_proto, of mime]
    by (simp add: protocolConnect_NewHandler_def connect_params_def plain_procedure_def codecs_Names_def Let_def)
  then have "CanHandlePayload ?p request (request_contentType env request)"
    using assms(1,2) ct
    by (simp add: CanHandlePayload_def connect_CanHandlePayload_def protocolConnect_NewHandler_def plain_request_def Let_def)
  moreover have "\<not> needs_http2 ?h"
    using assms(1)
    by (simp add: needs_http2_def newProcedureHandler_def newServerHandlerConfig_def newSpec_def plain_procedure_def Let_def)
  moreover obtain ps where "protocols_for ?h request = ?p # ps"
    using assms(2) connect_first [OF assms(1), of mime] by (auto simp: protocols_for_procedure plain_request_def Let_def)
  ultimately show "serving_protocol env ?h request = Some ?p"
    using assms(2) by (simp add: serving_protocol_def plain_request_def)
qed

lemma NewConn_ready:
  assumes "plain_procedure opts spec codec" "plain_request data request" "read_limit_ok (op_readMaxBytes (forSpec opts spec)) data"
  shows "\<exists>hc info'. NewConn env (protocolConnect_NewHandler mime (connect_params opts spec codec)) fresh_writer request info =
      Inr (unary_conn hc, info') \<and> ready_conn codec data hc \<and>
    ci_response info' = ci_response info \<and> ci_trailer info' = ci_trailer info \<and>
    getHeaderCanonical (rw_Header (uh_responseWriter hc)) headerContentType = ''application/proto'' \<and>
    values_of (rw_Header (uh_responseWriter hc)) connectUnaryHeaderCompression = []"
proof -
  let ?h = "protocolConnect_NewHandler mime (connect_params opts spec codec)"
  let ?accept = "getHeaderCanonical (rq_Header request) connectUnaryHeaderAcceptCompression"
  have n: "negotiated \<lparr>nameToPool = [], commaSeparatedNames = []\<rparr> [] a = (CompressionNameIdentity, CompressionNameIdentity, None)" for a
  proof -
    have "find (pools_Contains \<lparr>nameToPool = [], commaSeparatedNames = []\<rparr>) xs = None" for xs
      by (simp add: find_None_iff pools_Contains_def has_key_def)
    then show ?thesis by (simp add: negotiated_def negotiateCompression_def Let_def)
  qed
  have c: "connectCodecForContentType StreamTypeUnary ''application/proto'' = ''proto''" by code_simp
  have refusal: "connect_refusal t ?h fresh_writer request None ''proto'' (Some codec) = None" for t
    using assms(1,2)
    by (simp add: connect_refusal_def protocolConnect_NewHandler_def connect_params_def checkServerStreamsCanFlush_def
        fresh_writer_def connectCheckProtocolVersion_def plain_request_def plain_procedure_def Let_def)
  let ?p = "connect_params opts spec codec"
  let ?ct = "getHeaderCanonical (rq_Header request) headerContentType"
  let ?header = "setHeaderCanonical (setHeaderCanonical [] headerContentType ?ct) connectUnaryHeaderAcceptCompression []"
  let ?conn = "connect_new_conn codec ?h CompressionNameIdentity CompressionNameIdentity (fresh_writer\<lparr>rw_Header := ?header\<rparr>) request"
  have p: "ph_kind ?h = ProtocolConnect" "ph_params ?h = ?p" "spec_StreamType (hp_spec ?p) = StreamTypeUnary"
    "hp_CompressionPools ?p = \<lparr>nameToPool = [], commaSeparatedNames = []\<rparr>" "codecs_Get (hp_Codecs ?p) ''proto'' = Some codec"
    "hp_ReadMaxBytes ?p = op_readMaxBytes (forSpec opts spec)" "hp_SendMaxBytes ?p = op_sendMaxBytes (forSpec opts spec)"
    using assms(1)
    by (simp_all add: protocolConnect_NewHandler_def connect_params_def plain_procedure_def codecs_Get_def Let_def)
  have ct: "?ct = ''application/proto''" and codecName: "connectCodecForContentType StreamTypeUnary ?ct = ''proto''"
    using assms(2) c by (simp_all only: plain_request_def)
  have r: "rq_Method request = ''POST''" "getHeaderCanonical (rq_Header request) connectUnaryHeaderCompression = []"
    "rq_Body request = clean_reader data"
    using assms(2) by (simp_all add: plain_request_def)
  have "\<exists>info'. connect_NewConn (env_registry env) (env_nilCodec env) (env_typeName env) (env_closeErr env) ?h fresh_writer request info =
      Inr (?conn, info') \<and> ci_response info' = ci_response info \<and> ci_trailer info' = ci_trailer info"
    unfolding connect_NewConn_def Let_def
    by (simp add: p r n codecName refusal CommaSeparatedNames_def fresh_header)
  moreover obtain hc where hc: "?conn = UnaryHandlerConn hc" "ready_conn codec data hc" "uh_responseWriter hc = fresh_writer\<lparr>rw_Header := ?header\<rparr>"
    using assms(1,3) p r
    by (simp add: connect_new_conn_def ready_conn_def fresh_conn_def connect_request_body_def pools_Get_def fresh_writer_def
        plain_procedure_def Let_def)
  ultimately show ?thesis
    using p(1) ct by (auto simp: NewConn_def)
qed

text \<open>The response of the method reaches the connection.\<close>

lemma close_written:
  assumes "um_wroteHeader (uh_marshaler hc)"
  shows "snd (conn_Close env None (unary_conn hc)) = unary_conn hc"
  using assms by (simp add: conn_Close_def translated_close_def raw_Close_def connect_Close_def uh_Close_def scrubHandlerError_def Let_def)

lemma timeout_absent:
  "plain_request data request \<Longrightarrow> SetTimeout now (protocolConnect_NewHandler mime p) request = Inr (rq_ctx request)"
  by (simp add: SetTimeout_def protocolConnect_NewHandler_def connect_SetTimeout_def plain_request_def Let_def)

lemma plain_request_served:
  "plain_request data request \<Longrightarrow> plain_request data (request\<lparr>rq_Header := setHeaderCanonical
     (setHeaderCanonical (rq_Header request) headerContentType ''application/proto'') headerHost host, rq_ctx := ctx\<rparr>)"
  by (simp add: plain_request_def getHeaderCanonical_def)

text \<open>The implementation runs the procedure on a new stream and sends what metadata is left.\<close>

lemma implementation_run:
  assumes spec: "spec_StreamType spec = StreamTypeUnary" "ci_response info = []" "ci_trailer info = []"
    and call: "\<And>info. ci_response info = [] \<Longrightarrow> ci_trailer info = [] \<Longrightarrow>
      \<exists>hc' s. call ctx (new_stream info (unary_conn hc)) = (Return err, s) \<and> hs_conn s = unary_conn hc' \<and> hs_info s = info \<and> P hc'"
  shows "\<exists>hc'. procedure_implementation spec call ctx (unary_conn hc) info = (Return err, unary_conn hc') \<and> P hc'"
proof -
  define info' where "info' = info\<lparr>ci_Spec := spec, ci_PeerAddr := conn_PeerAddr (unary_conn hc),
    ci_Protocol := conn_PeerProtocol (unary_conn hc),
    ci_request := (case fromHTTPHeader (RequestHeader info) (conn_RequestHeader (unary_conn hc)) of None \<Rightarrow> [] | Some h \<Rightarrow> h)\<rparr>"
  have i: "ci_response info' = []" "ci_trailer info' = []" using spec by (simp_all add: info'_def)
  from call [OF this] obtain hc' s where c: "call ctx (new_stream info' (unary_conn hc)) = (Return err, s)"
    "hs_conn s = unary_conn hc'" "hs_info s = info'" "P hc'"
    by blast
  have "procedure_implementation spec call ctx (unary_conn hc) info =
      (case call ctx (new_stream info' (unary_conn hc)) of
         (Return err, stream) \<Rightarrow> (Return err, hs_conn (hs_flushTrailer (hs_flushHeader stream)))
       | (Panic msg, stream) \<Rightarrow> (Panic msg, hs_conn stream))"
    using spec(1) by (simp add: procedure_implementation_def new_stream_def info'_def Let_def)
  moreover have "hs_conn (hs_flushTrailer (hs_flushHeader s)) = unary_conn hc'"
    using c(2,3) i by (simp add: hs_flushTrailer_def hs_flushHeader_def)
  ultimately show ?thesis using c(1,4) by simp
qed

text \<open>Serving a request is running the implementation on a new connection and closing it.\<close>

lemma plain_serve:
  assumes "plain_procedure opts spec codec" "plain_request data request" "read_limit_ok (op_readMaxBytes (forSpec opts spec)) data"
  shows "\<exists>hc info. ServeHTTP env (newProcedureHandler (env_mime env) server spec opts) fresh_writer request =
      (case procedure_implementation spec (server_procedure server (spec_Procedure spec)) (rq_ctx request) (unary_conn hc) info of
         (Return err, conn) \<Rightarrow> Served (conn_responseWriter (snd (conn_Close env err conn)))
       | (Panic msg, conn) \<Rightarrow> Aborted msg (conn_responseWriter conn)) \<and>
    ready_conn codec data hc \<and> ci_response info = [] \<and> ci_trailer info = [] \<and>
    getHeaderCanonical (rw_Header (uh_responseWriter hc)) headerContentType = ''application/proto'' \<and>
    values_of (rw_Header (uh_responseWriter hc)) connectUnaryHeaderCompression = []"
proof -
  let ?h = "newProcedureHandler (env_mime env) server spec opts"
  let ?p = "protocolConnect_NewHandler (env_mime env) (connect_params opts spec codec)"
  define request' where "request' = request\<lparr>rq_Header := setHeaderCanonical
     (setHeaderCanonical (rq_Header request) headerContentType ''application/proto'') headerHost (rq_Host request)\<rparr>"
  let ?info = "new_info\<lparr>ci_TransportInfo := Some (ServerInfo (Some request'))\<rparr>"
  have served: "ServeHTTP env ?h fresh_writer request = serve_rpc env ?h ?p ''application/proto'' fresh_writer request"
    using ServeHTTP_served [OF serving_connect(1) [OF assms(1,2) refl]] serving_connect(2) [OF assms(1,2) refl] by simp
  have req': "plain_request data (request'\<lparr>rq_ctx := ctx\<rparr>)" for ctx
    using plain_request_served [OF assms(2)] by (simp add: request'_def)
  from req' [of "rq_ctx request'"] have t: "SetTimeout (env_now env) ?p request' = Inr (rq_ctx request)"
    using timeout_absent by (fastforce simp: request'_def)
  obtain hc info where conn: "NewConn env ?p fresh_writer (request'\<lparr>rq_ctx := rq_ctx request\<rparr>) ?info = Inr (unary_conn hc, info)"
    "ready_conn codec data hc" "ci_response info = []" "ci_trailer info = []"
    "getHeaderCanonical (rw_Header (uh_responseWriter hc)) headerContentType = ''application/proto''"
    "values_of (rw_Header (uh_responseWriter hc)) connectUnaryHeaderCompression = []"
    using NewConn_ready [OF assms(1) req' assms(3), of env "env_mime env" "rq_ctx request" ?info]
    by (auto simp: new_info_def)
  have impl: "hd_implementation ?h = procedure_implementation spec (server_procedure server (spec_Procedure spec))"
    by (simp add: newProcedureHandler_def Let_def)
  from served t conn(1) have "ServeHTTP env ?h fresh_writer request =
      (case procedure_implementation spec (server_procedure server (spec_Procedure spec)) (rq_ctx request) (unary_conn hc) info of
         (Return err, conn) \<Rightarrow> Served (conn_responseWriter (snd (conn_Close env err conn)))
       | (Panic msg, conn) \<Rightarrow> Aborted msg (conn_responseWriter conn))"
    by (simp add: serve_rpc_def impl Let_def flip: request'_def)
  with conn(2-6) show ?thesis by blast
qed

text \<open>What a served request leaves: status 200, the encoded response, its content type and no
  content encoding.\<close>

definition plain_response :: "bytes \<Rightarrow> http_response \<Rightarrow> bool" where
  "plain_response out r \<longleftrightarrow>
     rs_StatusCode r = 200 \<and> rs_Body r = clean_reader out \<and>
     getHeaderCanonical (rs_Header r) headerContentType = ''application/proto'' \<and>
     getHeaderCanonical (rs_Header r) connectUnaryHeaderCompression = []"

lemma plain_response_finish:
  assumes "rs_StatusCode (rw_finish rw) = 200" "w_out (rw_body rw) = out"
    and "rs_Header (rw_finish rw) = without_trailers h"
    and "getHeaderCanonical h headerContentType = ''application/proto''" "values_of h connectUnaryHeaderCompression = []"
  shows "plain_response out (rw_finish rw)"
proof -
  have "rs_Body (rw_finish rw) = clean_reader out" using assms(2) by (simp add: rw_finish_def Let_def)
  with assms show ?thesis
    by (simp add: plain_response_def getHeaderCanonical_def without_trailers_other HasPrefix_def TrailerPrefix_def)
qed

lemma request_served:
  assumes server: "Register ms (NewServer []) = Inr server" "m \<in> set ms" "mt_Handler m = unary_handler zero f"
    and plain: "plain_procedure opts (mt_Spec m) codec" "plain_request data request"
      "read_limit_ok (op_readMaxBytes (forSpec opts (mt_Spec m))) data"
    and res: "codec_UnmarshalRead codec data zero = Inr req" "f req = Inr res" "codec_MarshalWrite codec res = Inr out"
  shows "\<exists>rw. ServeHTTP env (newProcedureHandler (env_mime env) server (mt_Spec m) opts) fresh_writer request = Served rw \<and>
    plain_response out (rw_finish rw)"
proof -
  let ?spec = "mt_Spec m" and ?P = "\<lambda>hc'. um_wroteHeader (uh_marshaler hc') \<and> plain_response out (rw_finish (uh_responseWriter hc'))"
  obtain hc info where served: "ServeHTTP env (newProcedureHandler (env_mime env) server ?spec opts) fresh_writer request =
      (case procedure_implementation ?spec (server_procedure server (spec_Procedure ?spec)) (rq_ctx request) (unary_conn hc) info of
         (Return err, conn) \<Rightarrow> Served (conn_responseWriter (snd (conn_Close env err conn)))
       | (Panic msg, conn) \<Rightarrow> Aborted msg (conn_responseWriter conn))"
    and conn: "ready_conn codec data hc" "ci_response info = []" "ci_trailer info = []"
      "getHeaderCanonical (rw_Header (uh_responseWriter hc)) headerContentType = ''application/proto''"
      "values_of (rw_Header (uh_responseWriter hc)) connectUnaryHeaderCompression = []"
    using plain_serve [OF plain, of env server] by blast
  have "\<exists>hc'. procedure_implementation ?spec (server_procedure server (spec_Procedure ?spec)) (rq_ctx request) (unary_conn hc) info =
      (Return None, unary_conn hc') \<and> ?P hc'"
  proof (rule implementation_run)
    fix i :: call_info assume "ci_response i = []" "ci_trailer i = []"
    from procedure_served [OF server conn(1) res this] conn(4,5)
    show "\<exists>hc' s. server_procedure server (spec_Procedure ?spec) (rq_ctx request) (new_stream i (unary_conn hc)) = (Return None, s) \<and>
      hs_conn s = unary_conn hc' \<and> hs_info s = i \<and> ?P hc'"
      by (fastforce intro: plain_response_finish simp: new_stream_def)
  qed (use plain(1) conn in \<open>simp_all add: plain_procedure_def\<close>)
  with served show ?thesis by (auto simp: close_written conn_responseWriter_def conn_writer_def)
qed

text \<open>A method that fails: its error, scrubbed, is the response.\<close>

definition error_response :: "(error_detail \<Rightarrow> string option) \<Rightarrow> go_error \<Rightarrow> http_response \<Rightarrow> bool" where
  "error_response registry e r \<longleftrightarrow>
     rs_StatusCode r = connectCodeToHTTP (CodeOf (Some e)) \<and>
     map_option (\<lambda>data. clean_reader (bytes_of_string data)) (marshal_wire_error registry (newConnectWireError e)) = Some (rs_Body r) \<and>
     getHeaderCanonical (rs_Header r) headerContentType = connectUnaryContentTypeJSON \<and>
     getHeaderCanonical (rs_Header r) connectUnaryHeaderCompression = []"

lemma close_failed:
  assumes "fresh_conn codec hc" "values_of (rw_Header (uh_responseWriter hc)) connectUnaryHeaderCompression = []"
    and "scrubHandlerError (Some e) = Some e'" "reportable (env_registry env) e' ce" "\<not> IsNotModifiedError (Some e')"
  shows "error_response (env_registry env) e' (rw_finish (conn_responseWriter (snd (conn_Close env (Some e) (unary_conn hc)))))"
proof -
  obtain data where data: "marshal_wire_error (env_registry env) (newConnectWireError e') = Some data"
    using wire_error_round_trip [of e' ce] assms(4) unfolding reportable_def by metis
  obtain ret hc' where c: "uh_Close (env_registry env) (env_closeErr env) (Some e') hc = (ret, hc')" by fastforce
  note resp = uh_Close_response [OF _ _ _ _ assms(5) data c]
  have "error_response (env_registry env) e' (rw_finish (uh_responseWriter hc'))"
    using assms(1,2) resp data by (simp add: error_response_def fresh_conn_def good_writer_def getHeaderCanonical_def)
  then show ?thesis
    using c assms(3)
    by (simp add: conn_Close_def translated_close_def raw_Close_def connect_Close_def conn_responseWriter_def conn_writer_def)
qed

lemma request_failed:
  assumes server: "Register ms (NewServer []) = Inr server" "m \<in> set ms" "mt_Handler m = unary_handler zero f"
    and plain: "plain_procedure opts (mt_Spec m) codec" "plain_request data request"
      "read_limit_ok (op_readMaxBytes (forSpec opts (mt_Spec m))) data"
    and err: "codec_UnmarshalRead codec data zero = Inr req" "f req = Inl e" "scrubHandlerError (Some e) = Some e'"
      "reportable (env_registry env) e' ce" "\<not> IsNotModifiedError (Some e')"
  shows "\<exists>rw. ServeHTTP env (newProcedureHandler (env_mime env) server (mt_Spec m) opts) fresh_writer request = Served rw \<and>
    error_response (env_registry env) e' (rw_finish rw)"
proof -
  let ?spec = "mt_Spec m" and ?P = "\<lambda>hc'. fresh_conn codec hc' \<and>
    values_of (rw_Header (uh_responseWriter hc')) connectUnaryHeaderCompression = []"
  obtain hc info where served: "ServeHTTP env (newProcedureHandler (env_mime env) server ?spec opts) fresh_writer request =
      (case procedure_implementation ?spec (server_procedure server (spec_Procedure ?spec)) (rq_ctx request) (unary_conn hc) info of
         (Return err, conn) \<Rightarrow> Served (conn_responseWriter (snd (conn_Close env err conn)))
       | (Panic msg, conn) \<Rightarrow> Aborted msg (conn_responseWriter conn))"
    and conn: "ready_conn codec data hc" "ci_response info = []" "ci_trailer info = []"
      "values_of (rw_Header (uh_responseWriter hc)) connectUnaryHeaderCompression = []"
    using plain_serve [OF plain, of env server] by blast
  have "\<exists>hc'. procedure_implementation ?spec (server_procedure server (spec_Procedure ?spec)) (rq_ctx request) (unary_conn hc) info =
      (Return (Some e), unary_conn hc') \<and> ?P hc'"
  proof (rule implementation_run)
    fix i :: call_info
    obtain u where "hs_Receive zero (new_stream i (unary_conn hc)) =
        (None, req, (new_stream i (unary_conn hc))\<lparr>hs_rxEnd := True, hs_conn := unary_conn (hc\<lparr>uh_unmarshaler := u\<rparr>)\<rparr>)"
      using stream_receive [OF conn(1) err(1), of "new_stream i (unary_conn hc)"] by (auto simp: new_stream_def)
    then have "server_procedure server (spec_Procedure ?spec) (rq_ctx request) (new_stream i (unary_conn hc)) =
        (Return (Some e), (new_stream i (unary_conn (hc\<lparr>uh_unmarshaler := u\<rparr>)))\<lparr>hs_rxEnd := True\<rparr>)"
      using dispatch_registered [OF server(1,2), where i = 0 and
        ctx = "\<lparr>gx_ctx = rq_ctx request, gx_clientInfo = None, gx_serverInfo = None\<rparr>"] server(3) err(2)
      by (simp add: server_procedure_def unary_handler_def handlerStream_server_stream_def on_stream_def new_stream_def)
    then show "\<exists>hc' s. server_procedure server (spec_Procedure ?spec) (rq_ctx request) (new_stream i (unary_conn hc)) =
        (Return (Some e), s) \<and> hs_conn s = unary_conn hc' \<and> hs_info s = i \<and> ?P hc'"
      using conn(1,4) by (simp add: new_stream_def ready_conn_def fresh_conn_def)
  qed (use plain(1) conn in \<open>simp_all add: plain_procedure_def\<close>)
  then obtain hc' where "procedure_implementation ?spec (server_procedure server (spec_Procedure ?spec)) (rq_ctx request) (unary_conn hc) info =
      (Return (Some e), unary_conn hc')" "?P hc'" by blast
  with served close_failed [where env = env, OF _ _ err(3-5), of codec hc'] show ?thesis by simp
qed

end
