(* ===== verification/Unary_Call.thy ===== *)
theory Unary_Call
  imports Unary_Served
begin

section \<open>A unary call over HTTP, from the client's stream to the handler and back\<close>

text \<open>
  The client stream of \<open>Http_Client\<close> and the handler of \<open>Http_Handler\<close> joined by an HTTP connection
  that hands the request to \<open>ServeHTTP\<close> and its response back. The theorems follow a message
  through both stacks of the Connect protocol, without compression: the client receives the
  response of the method, or its error.
\<close>

subsection \<open>The connection\<close>

text \<open>The bytes of a request body.\<close>

definition body_bytes :: "payload_closer \<Rightarrow> bytes" where
  "body_bytes body = w_out (snd (snd (payloadCloser_WriteTo body good_writer)))"

definition http_exchange ::
  "'m handler_env \<Rightarrow> 'm http_handler \<Rightarrow> http_request \<Rightarrow> payload_closer \<Rightarrow> go_error + http_response" where
  "http_exchange env h request body =
     (case ServeHTTP env h fresh_writer
             (request\<lparr>rq_Body := clean_reader (body_bytes body), rq_ctx := \<lparr>cx_err = None, cx_deadline = None\<rparr>\<rparr>) of
        Served rw \<Rightarrow> Inr (rw_finish rw)
      | Aborted _ _ \<Rightarrow> Inl (Sentinel ErrUnexpectedEOF))"

subsection \<open>The client\<close>

text \<open>A transport that speaks the Connect protocol to the procedure with the codec and no compression.\<close>

definition plain_client :: "'m http_options \<Rightarrow> rpc_spec \<Rightarrow> 'm codec \<Rightarrow> bool" where
  "plain_client opts spec codec \<longleftrightarrow>
     plain_procedure opts spec codec \<and> op_protocol (forSpec opts spec) \<in> {[], ''connect''} \<and>
     op_sendCompressor (forSpec opts spec) = [] \<and> op_sendCodecName (forSpec opts spec) = [] \<and>
     \<not> op_getEnabled (forSpec opts spec)"

text \<open>A unary connection over which nothing was sent; one whose response has arrived.\<close>

definition idle_conn :: "'m codec \<Rightarrow> int \<Rightarrow> 'm connect_unary_client_conn \<Rightarrow> bool" where
  "idle_conn codec readMax cc \<longleftrightarrow>
     uc_codec cc = codec \<and> uc_pools cc = \<lparr>nameToPool = [], commaSeparatedNames = []\<rparr> \<and>
     um_compressionPool (rm_marshaler (uc_marshaler cc)) = None \<and> um_sendMaxBytes (rm_marshaler (uc_marshaler cc)) \<le> 0 \<and>
     \<not> rm_enableGet (uc_marshaler cc) \<and>
     \<not> uu_alreadyRead (uc_unmarshaler cc) \<and> uu_readMaxBytes (uc_unmarshaler cc) = readMax \<and>
     dc_streamType (uc_call cc) = StreamTypeUnary \<and> cx_err (dc_ctx (uc_call cc)) = None \<and>
     \<not> dc_requestSent (uc_call cc) \<and> \<not> dc_running (uc_call cc) \<and> \<not> dc_ready (uc_call cc) \<and>
     dc_body (uc_call cc) = None \<and> dc_responseErr (uc_call cc) = None \<and> rq_Method (dc_request (uc_call cc)) = ''POST''"

definition answered_conn :: "'m codec \<Rightarrow> int \<Rightarrow> bytes \<Rightarrow> 'm connect_unary_client_conn \<Rightarrow> bool" where
  "answered_conn codec readMax out cc \<longleftrightarrow>
     uc_codec cc = codec \<and> \<not> uu_alreadyRead (uc_unmarshaler cc) \<and> uu_readMaxBytes (uc_unmarshaler cc) = readMax \<and>
     uu_compressionPool (uc_unmarshaler cc) = None \<and> uu_reader (uc_unmarshaler cc) = clean_reader out \<and>
     dc_requestSent (uc_call cc) \<and> \<not> dc_running (uc_call cc) \<and> dc_ready (uc_call cc) \<and>
     dc_responseErr (uc_call cc) = None \<and> dc_response (uc_call cc) \<noteq> None"

text \<open>The header that is sent.\<close>

definition plain_header :: "http_header \<Rightarrow> bool" where
  "plain_header h \<longleftrightarrow>
     getHeaderCanonical h headerContentType = ''application/proto'' \<and>
     getHeaderCanonical h connectUnaryHeaderCompression = [] \<and>
     getHeaderCanonical h connectHeaderTimeout = [] \<and>
     getHeaderCanonical h connectHeaderProtocolVersion = connectProtocolVersion"

lemma validate_plain:
  assumes "uc_pools cc = \<lparr>nameToPool = [], commaSeparatedNames = []\<rparr>" "codec_Name (uc_codec cc) = ''proto''" "plain_response out r"
  shows "\<exists>header trailer enc. uc_validateResponse r (cc\<lparr>uc_call := d\<rparr>) =
    (None, cc\<lparr>uc_call := d, uc_responseHeader := header, uc_responseTrailer := trailer,
       uc_unmarshaler := (uc_unmarshaler cc)\<lparr>uu_compressionPool := None\<rparr>, uc_ResponseEncoding := enc\<rparr>)"
proof -
  obtain header trailer where split:
    "split_response_header (uc_responseHeader cc) (uc_responseTrailer cc) (rs_Header r) = (header, trailer)"
    by fastforce
  have ct: "connectValidateUnaryResponseContentType ''proto'' verb 200 st ''application/proto'' = None" for verb st
    by (simp add: connectValidateUnaryResponseContentType_def connectCodecForContentType_def HasPrefix_def TrimPrefix_def)
  have "known_encoding pools [] = None" for pools by (simp add: known_encoding_def)
  moreover have "pools_Get \<lparr>nameToPool = [], commaSeparatedNames = []\<rparr> [] = None" by (simp add: pools_Get_def)
  ultimately show ?thesis
    using assms
    by (auto simp: uc_validateResponse_def split plain_response_def ct Let_def)
qed

text \<open>A request with this header and body is answered.\<close>

definition answers :: "http_env \<Rightarrow> bytes \<Rightarrow> (http_response \<Rightarrow> bool) \<Rightarrow> bool" where
  "answers he data P \<longleftrightarrow>
     (\<forall>request body. rq_Method request = ''POST'' \<longrightarrow> plain_header (rq_Header request) \<longrightarrow> body_bytes body = data \<longrightarrow>
        (\<exists>r. he_Do he request body = Inr r \<and> P r))"

lemma makeRequest_answered:
  assumes "answers he data P" "rq_Method (dc_request d) = ''POST''" "plain_header (rq_Header (dc_request d))"
    and "body_bytes (dc_body d) = data" "dc_streamType d = StreamTypeUnary" "dc_responseErr d = None"
  shows "\<exists>r. P r \<and> dc_response (makeRequest he d) = Some r \<and>
    dc_responseErr (makeRequest he d) = map_option Coded (he_validate he r) \<and>
    dc_ready (makeRequest he d) \<and> \<not> dc_running (makeRequest he d) \<and> dc_requestSent (makeRequest he d) = dc_requestSent d \<and>
    dc_ctx (makeRequest he d) = dc_ctx d"
proof -
  let ?host = "getHeaderCanonical (rq_Header (dc_request d)) headerHost"
  let ?request = "if ?host \<noteq> [] then (dc_request d)\<lparr>rq_Host := ?host\<rparr> else dc_request d"
  have "rq_Method ?request = ''POST''" "plain_header (rq_Header ?request)" using assms(2,3) by simp_all
  then obtain r where r: "he_Do he ?request (dc_body d) = Inr r" "P r"
    using assms(1) [unfolded answers_def, rule_format, of ?request "dc_body d"] assms(4) by blast
  with assms(5,6) show ?thesis
    by (intro exI [of _ r]) (auto simp: makeRequest_def close_body_def Let_def split: option.splits)
qed

lemma body_bytes_sent: "body_bytes None = []" "body_bytes (newPayloadCloser (BytesPayload data 0)) = data"
  by (simp_all add: body_bytes_def payloadCloser_WriteTo_def newPayloadCloser_def payload_WriteTo_def io_Write_def good_writer_def)

lemma unary_sent:
  assumes "idle_conn codec readMax cc" "answers he data P" "plain_header (rq_Header (dc_request (uc_call cc)))"
  shows "\<exists>d r. duplex_Send he (BytesPayload data 0) (uc_call cc) = (int (length data), None, d) \<and> P r \<and>
    dc_response d = Some r \<and> dc_responseErr d = map_option Coded (he_validate he r) \<and> dc_ready d \<and> \<not> dc_running d \<and>
    dc_requestSent d \<and> cx_err (dc_ctx d) = None"
proof -
  let ?d = "uc_call cc"
  define d1 where "d1 = (if data = [] then ?d\<lparr>dc_requestSent := True\<rparr>
    else ?d\<lparr>dc_requestSent := True, dc_body := newPayloadCloser (BytesPayload data 0),
      dc_request := (dc_request ?d)\<lparr>rq_ContentLength := int (length data)\<rparr>\<rparr>)"
  have idle: "rq_Method (dc_request ?d) = ''POST''" "dc_streamType ?d = StreamTypeUnary" "dc_responseErr ?d = None"
    "\<not> dc_requestSent ?d" "dc_body ?d = None" "cx_err (dc_ctx ?d) = None"
    using assms(1) by (simp_all add: idle_conn_def)
  have d1: "rq_Method (dc_request d1) = ''POST''" "plain_header (rq_Header (dc_request d1))" "body_bytes (dc_body d1) = data"
    "dc_streamType d1 = StreamTypeUnary" "dc_responseErr d1 = None"
    using idle assms(3) body_bytes_sent by (simp_all add: d1_def)
  have d1': "dc_requestSent d1" "cx_err (dc_ctx d1) = None" using idle by (simp_all add: d1_def)
  obtain r where r: "P r" "dc_response (makeRequest he d1) = Some r"
    "dc_responseErr (makeRequest he d1) = map_option Coded (he_validate he r)"
    "dc_ready (makeRequest he d1)" "\<not> dc_running (makeRequest he d1)" "dc_requestSent (makeRequest he d1)"
    "cx_err (dc_ctx (makeRequest he d1)) = None"
    using makeRequest_answered [OF assms(2) d1] d1' by auto
  have "duplex_Send he (BytesPayload data 0) ?d = (int (length data), None,
      (makeRequest he d1)\<lparr>dc_body := payloadCloser_Release (dc_body (makeRequest he d1))\<rparr>)"
    using idle r(7) by (cases "data = []") (simp_all add: duplex_Send_def duplex_sendUnary_def payload_Len_def d1_def Let_def)
  with r show ?thesis by auto
qed

lemma request_sent:
  assumes "idle_conn codec readMax cc" "answers he data P"
    and "plain_header (rq_Header (dc_request (uc_call cc)))" "codec_MarshalWrite codec req = Inr data"
  shows "\<exists>d r rm. uc_Send he (Some req) cc = (None, uc_arrived he d (cc\<lparr>uc_marshaler := rm\<rparr>)) \<and> P r \<and>
    dc_response d = Some r \<and> dc_responseErr d = map_option Coded (fst (uc_validateResponse r cc)) \<and>
    dc_ready d \<and> \<not> dc_running d \<and> dc_requestSent d \<and> cx_err (dc_ctx d) = None"
proof -
  have "answers (uc_env he cc) data P" using assms(2) by (simp add: answers_def uc_env_def)
  then obtain d r where d: "duplex_Send (uc_env he cc) (BytesPayload data 0) (uc_call cc) = (int (length data), None, d)"
    "P r" "dc_response d = Some r" "dc_responseErr d = map_option Coded (fst (uc_validateResponse r cc))"
    "dc_ready d" "\<not> dc_running d" "dc_requestSent d" "cx_err (dc_ctx d) = None"
    using unary_sent [OF assms(1) _ assms(3)] by (fastforce simp: uc_env_def)
  let ?rm = "uc_marshaler cc"
  have "\<exists>rm. rm_Marshal (uc_env he cc) codec ?rm (Some req) (uc_call cc) = (None, rm, d)"
    using assms(1,4) d(1) um_Marshal_plain [where send = "duplex_sender (uc_env he cc)" and setHeader = dc_setHeader and
      m = "rm_marshaler ?rm" and s = "uc_call cc" and s' = d and msg = req and codec = codec and out = data]
    by (auto simp: rm_Marshal_def on_marshaler_def idle_conn_def)
  then obtain rm where "rm_Marshal (uc_env he cc) codec ?rm (Some req) (uc_call cc) = (None, rm, d)" by blast
  with d assms(1) show ?thesis
    by (intro exI [of _ d] exI [of _ r] exI [of _ rm]) (simp add: uc_Send_def idle_conn_def Let_def)
qed

lemma send_request:
  assumes "idle_conn codec readMax cc" "codec_Name codec = ''proto''" "answers he data (plain_response out)"
    and "plain_header (rq_Header (dc_request (uc_call cc)))" "codec_MarshalWrite codec req = Inr data"
  shows "\<exists>cc'. uc_Send he (Some req) cc = (None, cc') \<and> answered_conn codec readMax out cc'"
proof -
  obtain d r rm where sent: "uc_Send he (Some req) cc = (None, uc_arrived he d (cc\<lparr>uc_marshaler := rm\<rparr>))" "plain_response out r"
    and d: "dc_response d = Some r" "dc_responseErr d = map_option Coded (fst (uc_validateResponse r cc))"
      "dc_ready d" "\<not> dc_running d" "dc_requestSent d" "cx_err (dc_ctx d) = None"
    using request_sent [OF assms(1,3-5)] by blast
  have cc: "uc_pools cc = \<lparr>nameToPool = [], commaSeparatedNames = []\<rparr>" "codec_Name (uc_codec cc) = ''proto''"
    using assms(1,2) by (simp_all add: idle_conn_def)
  have ok: "dc_responseErr d = None" using validate_plain [OF cc sent(2), of "uc_call cc"] d(2) by auto
  obtain header trailer enc where v: "uc_validateResponse r (cc\<lparr>uc_marshaler := rm, uc_call := d\<rparr>) =
      (None, cc\<lparr>uc_marshaler := rm, uc_call := d, uc_responseHeader := header, uc_responseTrailer := trailer,
         uc_unmarshaler := (uc_unmarshaler cc)\<lparr>uu_compressionPool := None\<rparr>, uc_ResponseEncoding := enc\<rparr>)"
    using validate_plain [of "cc\<lparr>uc_marshaler := rm\<rparr>", OF _ _ sent(2), of d] cc by auto
  have "rs_Body r = clean_reader out" using sent(2) by (simp add: plain_response_def)
  then have "duplex_Read he d = Some (clean_reader out)"
    using d ok by (simp add: duplex_Read_def blockUntilResponseReady_def clean_reader_def errors_Is_Sentinel Let_def)
  with sent(1) v d ok assms(1) show ?thesis
    by (auto simp: uc_arrived_def answered_conn_def idle_conn_def Let_def)
qed

text \<open>A connection whose response was an error.\<close>

definition failed_conn :: "connect_error \<Rightarrow> 'm connect_unary_client_conn \<Rightarrow> bool" where
  "failed_conn err cc \<longleftrightarrow>
     dc_requestSent (uc_call cc) \<and> \<not> dc_running (uc_call cc) \<and> dc_ready (uc_call cc) \<and>
     dc_responseErr (uc_call cc) = Some (Coded err) \<and> dc_response (uc_call cc) \<noteq> None"

text \<open>What the client reports of an error.\<close>

definition reported :: "(error_detail \<Rightarrow> string option) \<Rightarrow> connect_error \<Rightarrow> connect_error \<Rightarrow> bool" where
  "reported registry ce r \<longleftrightarrow>
     Error_Code r = Error_Code ce \<and> Error_Message r = Error_Message ce \<and>
     Error_Details r = map (sent_detail registry) (Error_Details ce) \<and> IsRemote r"

lemma validate_error:
  assumes "error_response registry e response" "reportable registry e ce"
  shows "\<exists>r. fst (uc_validateResponse response cc) = Some r \<and> reported registry ce r \<and> \<not> errors_Is (Coded r) s"
proof -
  obtain data where data: "marshal_wire_error registry (newConnectWireError e) = Some data"
    "rs_Body response = clean_reader (bytes_of_string data)"
    using assms(1) by (auto simp: error_response_def)
  have resp: "rs_StatusCode response = connectCodeToHTTP (CodeOf (Some e))"
    "getHeaderCanonical (rs_Header response) headerContentType = connectUnaryContentTypeJSON"
    "getHeaderCanonical (rs_Header response) connectUnaryHeaderCompression = []"
    using assms(1) by (simp_all add: error_response_def)
  obtain r cc' where r: "uc_validateResponse response cc = (Some r, cc')" "reported registry ce r"
    using unary_error_seen [OF _ _ _ _ data(1) resp(1) data(2) resp(2,3), of ce cc] assms(2)
    by (auto simp: reported_def reportable_def)
  have st: "rs_StatusCode response \<noteq> 200" "rs_StatusCode response \<noteq> 304"
    using connectCodeToHTTP_not_ok by (simp_all add: resp(1))
  obtain ctx pool where u: "unary_error_response ctx pool response = Some r"
    using r(1) st
    by (auto simp: uc_validateResponse_def resp(2,3) connectValidateUnaryResponseContentType_def known_encoding_def Let_def
        split: prod.splits)
  obtain x a b where "uu_UnmarshalFunc (\<lambda>src _. decode_wire_error src) no_wire_error
      \<lparr>uu_ctx = ctx, uu_reader = rs_Body response, uu_compressionPool = pool, uu_alreadyRead = False,
       uu_readMaxBytes = 0, uu_stats = None\<rparr> = (x, a, b)"
    by (rule prod_cases3)
  with u have "\<not> errors_Is (Coded r) s"
    by (cases x) (auto simp: unary_error_response_def Let_def dest: asError_not_EOF)
  with r show ?thesis by simp
qed

lemma send_failing:
  assumes "idle_conn codec readMax cc" "answers he data (error_response registry e)" "reportable registry e ce"
    and "plain_header (rq_Header (dc_request (uc_call cc)))" "codec_MarshalWrite codec req = Inr data"
  shows "\<exists>cc' r. uc_Send he (Some req) cc = (None, cc') \<and> failed_conn r cc' \<and> reported registry ce r \<and> \<not> errors_Is (Coded r) EOF"
proof -
  obtain d response rm where sent: "uc_Send he (Some req) cc = (None, uc_arrived he d (cc\<lparr>uc_marshaler := rm\<rparr>))"
    "error_response registry e response"
    and d: "dc_response d = Some response" "dc_responseErr d = map_option Coded (fst (uc_validateResponse response cc))"
      "dc_ready d" "\<not> dc_running d" "dc_requestSent d"
    using request_sent [OF assms(1,2,4,5)] by blast
  obtain r where r: "fst (uc_validateResponse response cc) = Some r" "reported registry ce r" "\<not> errors_Is (Coded r) EOF"
    using validate_error [OF sent(2) assms(3)] by blast
  then have "failed_conn r (uc_arrived he d (cc\<lparr>uc_marshaler := rm\<rparr>))"
    using d by (simp add: failed_conn_def uc_arrived_def Let_def)
  with sent(1) r show ?thesis by blast
qed

lemma response_parts:
  assumes "\<not> dc_running (uc_call cc)" "blockUntilResponseReady (uc_call cc) = Some (response, err)" "dc_requestSent (uc_call cc)"
  shows "\<exists>header trailer closed. cc_ResponseHeader (ConnectUnaryConn cc) = Some header \<and>
    cc_ResponseTrailer (ConnectUnaryConn cc) = Some trailer \<and> cc_CloseResponse env (ConnectUnaryConn cc) = Some closed"
  using assms
  by (cases response)
    (auto simp: cc_ResponseHeader_def cc_ResponseTrailer_def cc_CloseResponse_def uc_ResponseHeader_def uc_ResponseTrailer_def
      awaitResponse_def cc_finish_def cc_call_def duplex_CloseRead_def Let_def)

lemma failure_read:
  assumes "failed_conn r cc" "\<not> errors_Is (Coded r) EOF"
  shows "\<exists>info' conn'. receiveUnaryResponse env dst info (ConnectUnaryConn cc) = Some (Some (Coded r), dst, info', conn')"
proof -
  have cc: "\<not> dc_running (uc_call cc)" "blockUntilResponseReady (uc_call cc) = Some (dc_response (uc_call cc), Some (Coded r))"
    "dc_requestSent (uc_call cc)"
    using assms(1) by (simp_all add: failed_conn_def blockUntilResponseReady_def)
  have "wrapIfUncoded (Some (Coded r)) = Some (Coded r)" by (rule wrapIfUncoded_keeps) simp
  then have "cc_Receive env dst (ConnectUnaryConn cc) = Some (Some (Coded r), dst, ConnectUnaryConn cc)"
    using cc by (simp add: cc_Receive_def cc_finish_def cc_call_def uc_Receive_def)
  moreover obtain header trailer closed where "cc_ResponseHeader (ConnectUnaryConn cc) = Some header"
    "cc_ResponseTrailer (ConnectUnaryConn cc) = Some trailer" "cc_CloseResponse env (ConnectUnaryConn cc) = Some closed"
    using response_parts [OF cc] by blast
  ultimately show ?thesis using assms(2) by (simp add: receiveUnaryResponse_def case_prod_beta Let_def)
qed

text \<open>The response is read: one message, then the end of the body.\<close>

lemma response_read:
  assumes "answered_conn codec readMax out cc" "read_limit_ok readMax out" "codec_UnmarshalRead codec out zero = Inr res"
  shows "\<exists>info' conn'. receiveUnaryResponse env zero info (ConnectUnaryConn cc) = Some (None, res, info', conn')"
proof -
  obtain u where u: "uu_alreadyRead u" "uu_Unmarshal codec zero (uc_unmarshaler cc) = (None, res, u)"
    using plain_unmarshal [of "uc_unmarshaler cc" out codec zero res] assms by (auto simp: answered_conn_def)
  let ?cc = "cc\<lparr>uc_unmarshaler := u\<rparr>"
  have cc: "uc_codec cc = codec" "\<not> dc_running (uc_call cc)" "blockUntilResponseReady (uc_call cc) = Some (dc_response (uc_call cc), None)"
    "dc_requestSent (uc_call cc)"
    using assms(1) by (simp_all add: answered_conn_def blockUntilResponseReady_def)
  have first: "cc_Receive env zero (ConnectUnaryConn cc) = Some (None, res, ConnectUnaryConn ?cc)"
    using cc u(2) by (simp add: cc_Receive_def cc_finish_def cc_call_def uc_Receive_def wrapIfUncoded_def)
  have second: "cc_Receive env res (ConnectUnaryConn ?cc) = Some (Some (Coded end_of_body), res, ConnectUnaryConn ?cc)"
    using cc u(1) by (simp add: cc_Receive_def cc_finish_def cc_call_def uc_Receive_def unmarshal_again end_of_body_is_EOF)
  obtain header trailer closed where "cc_ResponseHeader (ConnectUnaryConn ?cc) = Some header"
    "cc_ResponseTrailer (ConnectUnaryConn ?cc) = Some trailer" "cc_CloseResponse env (ConnectUnaryConn ?cc) = Some closed"
    using response_parts [of ?cc _ _ env] cc by auto
  then show ?thesis
    by (simp add: receiveUnaryResponse_def first second end_of_body_is_EOF case_prod_beta Let_def)
qed

lemma flushed_header:
  assumes "cp_Codec p = codec" "codec_Name codec = ''proto''" "wf_map (ci_request info)"
    and "h = connect_WriteRequestHeader agent p StreamTypeUnary (toHTTPHeader [] (RequestHeader info))"
  shows "plain_header h"
proof -
  have "values_of (toHTTPHeader [] (RequestHeader info)) k = []" if "k \<in> set protocolHeaders" for k
    using that assms(3) by (simp add: RequestHeader_def toHTTPHeader_values)
  then have "values_of (toHTTPHeader [] (RequestHeader info)) connectUnaryHeaderCompression = []"
    "values_of (toHTTPHeader [] (RequestHeader info)) connectHeaderTimeout = []"
    by (simp_all add: protocolHeaders_def)
  then show ?thesis
    using assms(1,2,4)
    by (auto simp: plain_header_def connect_WriteRequestHeader_def getHeaderCanonical_def values_of_setUserAgent
        connectContentTypeForCodecName_def Let_def)
qed

text \<open>The stream that a transport opens.\<close>

definition idle_stream :: "'m codec \<Rightarrow> int \<Rightarrow> call_info \<Rightarrow> 'm unary_client_stream \<Rightarrow> bool" where
  "idle_stream codec readMax info s \<longleftrightarrow>
     (\<exists>cc p. ucs_conn s = ConnectUnaryConn cc \<and> idle_conn codec readMax cc \<and> rq_Header (dc_request (uc_call cc)) = [] \<and>
        ucs_protoClient s = ConnectClient p \<and> cp_Codec p = codec) \<and>
     ci_request (ucs_info s) = ci_request info \<and> ucs_streamType s = StreamTypeUnary \<and>
     \<not> ucs_headerFlushed s \<and> \<not> ucs_sentOnce s \<and> \<not> ucs_sendClosed s \<and> \<not> ucs_rxEnd s"

lemma stream_opened:
  assumes "plain_client (tr_options t) spec codec" "tr_baseURL t = Inr base" "cx_err ctx = None" "cx_deadline ctx = None"
  shows "\<exists>s t'. NewClientStream env ctx spec info t = (Inr (UnaryStream s), t') \<and>
    idle_stream codec (op_readMaxBytes (forSpec (tr_options t) spec)) info s"
proof -
  let ?opts = "forSpec (tr_options t) spec"
  have o: "op_codecs ?opts = [codec]" "op_compressors ?opts = []" "op_sendCompressor ?opts = []" "op_sendCodecName ?opts = []"
    "codec_Name codec = ''proto''" "spec_StreamType spec = StreamTypeUnary" "\<not> op_getEnabled ?opts" "op_sendMaxBytes ?opts \<le> 0"
    using assms(1) by (simp_all add: plain_client_def plain_procedure_def)
  have proto: "selectClientProtocol (op_protocol ?opts) = Inr ConnectClient"
    using assms(1) by (auto simp: plain_client_def selectClientProtocol_def)
  obtain u t' where url: "urlForProcedure env base (spec_Procedure spec) t = (u, t')" by fastforce
  have pools: "newReadOnlyCompressionPools [] = \<lparr>nameToPool = [], commaSeparatedNames = []\<rparr>"
    by (simp add: newReadOnlyCompressionPools_def)
  have name: "getSendCodecName ?opts = ''proto''" using o by (simp add: getSendCodecName_def)
  have codec: "codecs_Get (newReadOnlyCodecs [] [codec]) ''proto'' = Some codec"
    using o by (simp add: has_key_def codecs_Get_def)
  define p where "p = \<lparr>cp_CompressionName = [], cp_CompressionPools = \<lparr>nameToPool = [], commaSeparatedNames = []\<rparr>,
     cp_Codec = codec, cp_CompressMinBytes = op_compressMinBytes ?opts, cp_URL = u,
     cp_ReadMaxBytes = op_readMaxBytes ?opts, cp_SendMaxBytes = op_sendMaxBytes ?opts,
     cp_EnableGet = op_getEnabled ?opts, cp_GetURLMaxBytes = op_getMaxURLBytes ?opts, cp_GetUseFallback = op_getUseFallback ?opts\<rparr>"
  have client: "newProtocolClient env base spec ?opts codec t = (Inr (ConnectClient p), t')"
    by (simp add: newProtocolClient_def proto url o pools p_def)
  obtain cc where cc: "cc_map_call (\<lambda>d. d\<lparr>dc_hooks := True\<rparr>) (pc_NewConn env (ConnectClient p) ctx spec []) = ConnectUnaryConn cc"
    "idle_conn codec (op_readMaxBytes ?opts) cc" "rq_Header (dc_request (uc_call cc)) = []"
    using o assms(3,4)
    by (simp add: pc_NewConn_def connectClient_NewConn_def connect_timeout_header_def cc_map_call_def idle_conn_def
        newDuplexHTTPCall_def pools_Get_def p_def Let_def)
  obtain addr protocol where peer: "pc_Peer (ConnectClient p) = (addr, protocol)" by fastforce
  have "cp_Codec p = codec" by (simp add: p_def)
  with cc(2,3) show ?thesis
    by (simp add: NewClientStream_def name o codec has_key_def codecs_Get_def assms(2) client cc(1) peer idle_stream_def Let_def)
qed

lemma closed_sent:
  assumes "dc_requestSent (uc_call cc)"
  shows "\<exists>pipe. cc_CloseRequest (ConnectUnaryConn cc) =
    (None, ConnectUnaryConn (cc\<lparr>uc_call := (uc_call cc)\<lparr>dc_pipe := pipe\<rparr>\<rparr>))"
  using assms
  by (auto simp: cc_CloseRequest_def translated_def uc_CloseRequest_def duplex_CloseWrite_def start_request_def close_body_def
      wrapIfUncoded_def)

text \<open>A whole exchange on a stream, given what sending on its connection and reading from it give.\<close>

lemma stream_exchange:
  assumes idle: "idle_stream codec readMax info s" "codec_Name codec = ''proto''" "wf_map (ci_request info)"
    and send: "\<And>cc. idle_conn codec readMax cc \<Longrightarrow> plain_header (rq_Header (dc_request (uc_call cc))) \<Longrightarrow>
      \<exists>cc'. uc_Send (cv_http env) (Some req) cc = (None, cc') \<and> dc_requestSent (uc_call cc') \<and> P cc'"
    and closed: "\<And>cc pipe. P cc \<Longrightarrow> P (cc\<lparr>uc_call := (uc_call cc)\<lparr>dc_pipe := pipe\<rparr>\<rparr>)"
    and receive: "\<And>cc info. P cc \<Longrightarrow>
      \<exists>err dst' info' conn'. receiveUnaryResponse env dst info (ConnectUnaryConn cc) = Some (err, dst', info', conn') \<and> Q err dst'"
  shows "\<exists>s1 s2 s3 err dst'. ucs_Send env (Some req) s = (None, s1) \<and> ucs_CloseSend env s1 = (None, s2) \<and>
    ucs_Receive env dst s2 = Some (err, dst', s3) \<and> Q err dst'"
proof -
  obtain cc p where s: "ucs_conn s = ConnectUnaryConn cc" "idle_conn codec readMax cc" "rq_Header (dc_request (uc_call cc)) = []"
    "ucs_protoClient s = ConnectClient p" "cp_Codec p = codec" "ci_request (ucs_info s) = ci_request info"
    "ucs_streamType s = StreamTypeUnary" "\<not> ucs_headerFlushed s" "\<not> ucs_sentOnce s" "\<not> ucs_sendClosed s" "\<not> ucs_rxEnd s"
    using idle(1) by (auto simp: idle_stream_def)
  let ?h = "connect_WriteRequestHeader (cv_connectUserAgent env) p StreamTypeUnary (toHTTPHeader [] (RequestHeader (ucs_info s)))"
  let ?cc = "cc\<lparr>uc_call := (uc_call cc)\<lparr>dc_request := (dc_request (uc_call cc))\<lparr>rq_Header := ?h\<rparr>\<rparr>\<rparr>"
  have flush: "ucs_conn (ucs_flushHeader env (s\<lparr>ucs_sentOnce := True\<rparr>)) = ConnectUnaryConn ?cc"
    using s by (simp add: ucs_flushHeader_def flush_header_def cc_setRequestHeader_def cc_RequestHeader_def cc_call_def
        cc_map_call_def pc_WriteRequestHeader_def)
  have "plain_header ?h" using flushed_header [OF s(5) idle(2) _ refl] s(6) idle(3) by simp
  moreover have "idle_conn codec readMax ?cc" using s(2) by (simp add: idle_conn_def)
  ultimately obtain cc' where sent: "uc_Send (cv_http env) (Some req) ?cc = (None, cc')" "dc_requestSent (uc_call cc')" "P cc'"
    using send [of ?cc] by auto
  obtain pipe where close: "cc_CloseRequest (ConnectUnaryConn cc') = (None, ConnectUnaryConn (cc'\<lparr>uc_call := (uc_call cc')\<lparr>dc_pipe := pipe\<rparr>\<rparr>))"
    using closed_sent [OF sent(2)] by blast
  let ?cc'' = "cc'\<lparr>uc_call := (uc_call cc')\<lparr>dc_pipe := pipe\<rparr>\<rparr>"
  define s1 where "s1 = (ucs_flushHeader env (s\<lparr>ucs_sentOnce := True\<rparr>))\<lparr>ucs_conn := ConnectUnaryConn cc',
    ucs_info := sync_info (ConnectUnaryConn cc') (ucs_info s)\<rparr>"
  have "ucs_Send env (Some req) s = (None, s1)"
    using s(9,10) sent(1) flush by (simp add: ucs_Send_def cc_Send_def translated_def wrapIfUncoded_def s1_def Let_def)
  moreover have "ucs_CloseSend env s1 = (None, s1\<lparr>ucs_sendClosed := True, ucs_conn := ConnectUnaryConn ?cc''\<rparr>)"
    using close by (simp add: ucs_CloseSend_def ucs_flushHeader_def s1_def Let_def)
  moreover obtain err dst' info' conn' where "Q err dst'"
    "receiveUnaryResponse env dst (ucs_info s1) (ConnectUnaryConn ?cc'') = Some (err, dst', info', conn')"
    using receive [OF closed [OF sent(3), of pipe], of "ucs_info s1"] by blast
  then have "\<exists>s3. ucs_Receive env dst (s1\<lparr>ucs_sendClosed := True, ucs_conn := ConnectUnaryConn ?cc''\<rparr>) = Some (err, dst', s3)" "Q err dst'"
    using s(11) by (simp_all add: ucs_Receive_def s1_def)
  ultimately show ?thesis by blast
qed

lemma stream_answered:
  assumes "idle_stream codec readMax info s" "codec_Name codec = ''proto''" "wf_map (ci_request info)"
    and "answers (cv_http env) data (plain_response out)" "read_limit_ok readMax out"
    and "codec_MarshalWrite codec req = Inr data" "codec_UnmarshalRead codec out zero = Inr res"
  shows "\<exists>s1 s2 s3. ucs_Send env (Some req) s = (None, s1) \<and> ucs_CloseSend env s1 = (None, s2) \<and>
    ucs_Receive env zero s2 = Some (None, res, s3)"
proof -
  have "\<exists>s1 s2 s3 err dst'. ucs_Send env (Some req) s = (None, s1) \<and> ucs_CloseSend env s1 = (None, s2) \<and>
      ucs_Receive env zero s2 = Some (err, dst', s3) \<and> (err = None \<and> dst' = res)"
  proof (rule stream_exchange [OF assms(1-3), where P = "answered_conn codec readMax out"])
    fix cc :: "'a connect_unary_client_conn"
    assume "idle_conn codec readMax cc" "plain_header (rq_Header (dc_request (uc_call cc)))"
    from send_request [OF this(1) assms(2,4) this(2) assms(6)]
    show "\<exists>cc'. uc_Send (cv_http env) (Some req) cc = (None, cc') \<and> dc_requestSent (uc_call cc') \<and> answered_conn codec readMax out cc'"
      by (auto simp: answered_conn_def)
  next
    fix cc :: "'a connect_unary_client_conn" and info
    assume "answered_conn codec readMax out cc"
    from response_read [OF this assms(5,7), of env info]
    show "\<exists>err dst' info' conn'. receiveUnaryResponse env zero info (ConnectUnaryConn cc) = Some (err, dst', info', conn') \<and>
        (err = None \<and> dst' = res)" by auto
  qed (simp add: answered_conn_def)
  then show ?thesis by blast
qed

lemma stream_failed:
  assumes "idle_stream codec readMax info s" "codec_Name codec = ''proto''" "wf_map (ci_request info)"
    and "answers (cv_http env) data (error_response registry e)" "reportable registry e ce" "codec_MarshalWrite codec req = Inr data"
  shows "\<exists>s1 s2 s3 r. ucs_Send env (Some req) s = (None, s1) \<and> ucs_CloseSend env s1 = (None, s2) \<and>
    ucs_Receive env dst s2 = Some (Some (Coded r), dst, s3) \<and> reported registry ce r"
proof -
  let ?P = "\<lambda>cc. \<exists>r. failed_conn r cc \<and> reported registry ce r \<and> \<not> errors_Is (Coded r) EOF"
  have "\<exists>s1 s2 s3 err dst'. ucs_Send env (Some req) s = (None, s1) \<and> ucs_CloseSend env s1 = (None, s2) \<and>
      ucs_Receive env dst s2 = Some (err, dst', s3) \<and> (\<exists>r. err = Some (Coded r) \<and> dst' = dst \<and> reported registry ce r)"
  proof (rule stream_exchange [OF assms(1-3), where P = ?P])
    fix cc :: "'a connect_unary_client_conn"
    assume "idle_conn codec readMax cc" "plain_header (rq_Header (dc_request (uc_call cc)))"
    from send_failing [OF this(1) assms(4,5) this(2) assms(6)]
    show "\<exists>cc'. uc_Send (cv_http env) (Some req) cc = (None, cc') \<and> dc_requestSent (uc_call cc') \<and> ?P cc'"
      by (fastforce simp: failed_conn_def)
  next
    fix cc :: "'a connect_unary_client_conn" and info
    assume "?P cc"
    then obtain r where r: "failed_conn r cc" "reported registry ce r" "\<not> errors_Is (Coded r) EOF" by blast
    from failure_read [OF r(1,3), of env dst info] r(2)
    show "\<exists>err dst' info' conn'. receiveUnaryResponse env dst info (ConnectUnaryConn cc) = Some (err, dst', info', conn') \<and>
        (\<exists>r. err = Some (Coded r) \<and> dst' = dst \<and> reported registry ce r)" by blast
  qed (auto simp: failed_conn_def)
  then show ?thesis by blast
qed

lemma exchange_answers:
  assumes "he_Do he = http_exchange env h"
    and "\<And>request. plain_request data request \<Longrightarrow> \<exists>rw. ServeHTTP env h fresh_writer request = Served rw \<and> P (rw_finish rw)"
  shows "answers he data P"
proof -
  have "\<exists>r. http_exchange env h request body = Inr r \<and> P r"
    if "rq_Method request = ''POST''" "plain_header (rq_Header request)" "body_bytes body = data" for request body
  proof -
    have "plain_request data (request\<lparr>rq_Body := clean_reader (body_bytes body), rq_ctx := \<lparr>cx_err = None, cx_deadline = None\<rparr>\<rparr>)"
      using that by (simp add: plain_request_def plain_header_def)
    from assms(2) [OF this] show ?thesis by (auto simp: http_exchange_def)
  qed
  with assms(1) show ?thesis by (simp add: answers_def)
qed

subsection \<open>The call\<close>

text \<open>C1. A unary call over HTTP returns what the method returns. A transport without compression opens a
  stream to a mounted procedure; the message that is sent is decoded by the handler, the method runs
  on exactly this message, and \<open>Receive\<close> gives its response and no error. Headers, protocol
  selection, timeouts, marshalling and the end-of-body checks of both sides are those of the code;
  the connection between them hands over requests and responses.\<close>

theorem http_unary_call:
  assumes "Register ms (NewServer []) = Inr server" and "m \<in> set ms" and "mt_Handler m = unary_handler zero f"
    and "plain_procedure opts (mt_Spec m) codec" and "plain_client (tr_options t) (mt_Spec m) codec" and "codec_ok codec zero"
    and "he_Do (cv_http env) = http_exchange henv (newProcedureHandler (env_mime henv) server (mt_Spec m) opts)"
    and "tr_baseURL t = Inr base" and "cx_err ctx = None" and "cx_deadline ctx = None" and "wf_map (ci_request info)"
    and "f req = Inr res" and "codec_MarshalWrite codec req = Inr data" and "codec_MarshalWrite codec res = Inr out"
    and "read_limit_ok (op_readMaxBytes (forSpec opts (mt_Spec m))) data"
    and "read_limit_ok (op_readMaxBytes (forSpec (tr_options t) (mt_Spec m))) out"
  shows "\<exists>s t' s1 s2 s3. NewClientStream env ctx (mt_Spec m) info t = (Inr (UnaryStream s), t') \<and>
    ucs_Send env (Some req) s = (None, s1) \<and> ucs_CloseSend env s1 = (None, s2) \<and>
    ucs_Receive env zero s2 = Some (None, res, s3)"
proof -
  obtain s t' where s: "NewClientStream env ctx (mt_Spec m) info t = (Inr (UnaryStream s), t')"
    "idle_stream codec (op_readMaxBytes (forSpec (tr_options t) (mt_Spec m))) info s"
    using stream_opened [OF assms(5,8-10)] by blast
  have decode: "codec_UnmarshalRead codec data zero = Inr req" "codec_UnmarshalRead codec out zero = Inr res"
    using assms(6,13,14) by (simp_all add: codec_ok_def)
  have "answers (cv_http env) data (plain_response out)"
    by (rule exchange_answers [OF assms(7)], rule request_served [OF assms(1-4) _ assms(15) decode(1) assms(12,14)])
  moreover have "codec_Name codec = ''proto''" using assms(4) by (simp add: plain_procedure_def)
  ultimately show ?thesis
    using stream_answered [OF s(2) _ assms(11) _ assms(16,13) decode(2)] s(1) by metis
qed

text \<open>A method that reverses bytes and refuses the empty message, called with the default options.\<close>

definition echo_spec :: rpc_spec where
  "echo_spec = \<lparr>spec_StreamType = StreamTypeUnary, spec_IdempotencyLevel = IdempotencyUnknown, spec_Procedure = ''/echo.Echo/Reverse''\<rparr>"

definition echo_error :: connect_error where
  "echo_error = NewError CodeInvalidArgument ''empty''"

definition echo :: "bytes \<Rightarrow> go_error + bytes" where
  "echo m = (if m = [] then Inl (Coded echo_error) else Inr (rev m))"

definition echo_method :: "(bytes, bytes handler_stream) rpc_method" where
  "echo_method = \<lparr>mt_Spec = echo_spec, mt_Handler = unary_handler [] echo\<rparr>"

definition echo_server :: "(bytes, bytes handler_stream) rpc_server" where
  "echo_server = (case Register [echo_method] (NewServer []) of Inr s \<Rightarrow> s | Inl _ \<Rightarrow> NewServer [])"

definition echo_options :: "bytes http_options" where
  "echo_options = resolve [raw_codec] [] []"

definition echo_henv :: "bytes handler_env" where
  "echo_henv = \<lparr>env_mime = \<lparr>ParseMediaType = (\<lambda>v. Inl (Plain v)), FormatMediaType = (\<lambda>t _. t)\<rparr>, env_pw = base128,
     env_protobuf = any_codec, env_registry = (\<lambda>_. None), env_nilCodec = raw_codec, env_typeName = ''response'',
     env_closeErr = None, env_now = 0\<rparr>"

definition echo_env :: client_env where
  "echo_env = witness_client_env\<lparr>cv_http := \<lparr>he_now = 0,
     he_Do = http_exchange echo_henv (newProcedureHandler (env_mime echo_henv) echo_server echo_spec echo_options),
     he_validate = (\<lambda>_. None)\<rparr>\<rparr>"

definition echo_transport :: "bytes http_transport" where
  "echo_transport = NewTransport (\<lambda>_. Inr witness_request) [raw_codec] [] ''http://localhost'' []"

lemma echo_setup:
  "Register [echo_method] (NewServer []) = Inr echo_server" "mt_Handler echo_method = unary_handler [] echo"
  "mt_Spec echo_method = echo_spec" "plain_procedure echo_options echo_spec raw_codec"
  "plain_client (tr_options echo_transport) echo_spec raw_codec" "codec_ok raw_codec []"
  "he_Do (cv_http echo_env) = http_exchange echo_henv (newProcedureHandler (env_mime echo_henv) echo_server echo_spec echo_options)"
  "tr_baseURL echo_transport = Inr witness_request"
proof -
  obtain s where "Register [echo_method] (NewServer []) = Inr s"
    using Register_ok_iff [of "[echo_method]" "NewServer []"] by (auto simp: has_key_def)
  then show "Register [echo_method] (NewServer []) = Inr echo_server" by (simp add: echo_server_def)
qed (simp_all add: echo_method_def echo_options_def echo_transport_def NewTransport_def echo_env_def plain_client_def
    plain_procedure_def resolve_def defaultOptions_def forSpec_def raw_codec_def echo_spec_def codec_ok_def)

lemma echo_limit:
  "int (length bs) \<le> 100 \<Longrightarrow> read_limit_ok (op_readMaxBytes (forSpec echo_options echo_spec)) bs"
  "int (length bs) \<le> 100 \<Longrightarrow> read_limit_ok (op_readMaxBytes (forSpec (tr_options echo_transport) echo_spec)) bs"
  by (simp_all add: echo_options_def echo_transport_def NewTransport_def resolve_def defaultOptions_def forSpec_def
      read_limit_ok_def defaultReadMaxBytes_def)

theorem http_unary_call_witness:
  "\<exists>s t' s1 s2 s3.
     NewClientStream echo_env \<lparr>cx_err = None, cx_deadline = None\<rparr> echo_spec new_info echo_transport = (Inr (UnaryStream s), t') \<and>
     ucs_Send echo_env (Some [1, 2, 3]) s = (None, s1) \<and> ucs_CloseSend echo_env s1 = (None, s2) \<and>
     ucs_Receive echo_env [] s2 = Some (None, [3, 2, 1], s3)"
  using http_unary_call [OF echo_setup(1) _ echo_setup(2), unfolded echo_setup(3), OF _ echo_setup(4-8),
      of "\<lparr>cx_err = None, cx_deadline = None\<rparr>" new_info "[1, 2, 3]" "[3, 2, 1]" "[1, 2, 3]" "[3, 2, 1]"]
  by (simp add: echo_limit echo_def new_info_def raw_codec_def wf_map_def)

text \<open>C2. When the method fails, the client's \<open>Receive\<close> reports the error that the handler may show: the
  error of the method after \<open>scrubHandlerError\<close>, as a remote error with the same code, message and
  details; \<open>Send\<close> and \<open>CloseSend\<close> succeed and the destination keeps its value.\<close>

theorem http_unary_call_error:
  assumes "Register ms (NewServer []) = Inr server" and "m \<in> set ms" and "mt_Handler m = unary_handler zero f"
    and "plain_procedure opts (mt_Spec m) codec" and "plain_client (tr_options t) (mt_Spec m) codec" and "codec_ok codec zero"
    and "he_Do (cv_http env) = http_exchange henv (newProcedureHandler (env_mime henv) server (mt_Spec m) opts)"
    and "tr_baseURL t = Inr base" and "cx_err ctx = None" and "cx_deadline ctx = None" and "wf_map (ci_request info)"
    and "codec_MarshalWrite codec req = Inr data"
    and "read_limit_ok (op_readMaxBytes (forSpec opts (mt_Spec m))) data"
    and "f req = Inl e" and "scrubHandlerError (Some e) = Some e'" and "reportable (env_registry henv) e' ce"
    and "\<not> IsNotModifiedError (Some e')"
  shows "\<exists>s t' s1 s2 s3 r. NewClientStream env ctx (mt_Spec m) info t = (Inr (UnaryStream s), t') \<and>
    ucs_Send env (Some req) s = (None, s1) \<and> ucs_CloseSend env s1 = (None, s2) \<and>
    ucs_Receive env dst s2 = Some (Some (Coded r), dst, s3) \<and> reported (env_registry henv) ce r"
proof -
  obtain s t' where s: "NewClientStream env ctx (mt_Spec m) info t = (Inr (UnaryStream s), t')"
    "idle_stream codec (op_readMaxBytes (forSpec (tr_options t) (mt_Spec m))) info s"
    using stream_opened [OF assms(5,8-10)] by blast
  have decode: "codec_UnmarshalRead codec data zero = Inr req" using assms(6,12) by (simp add: codec_ok_def)
  have "answers (cv_http env) data (error_response (env_registry henv) e')"
    by (rule exchange_answers [OF assms(7)], rule request_failed [OF assms(1-4) _ assms(13) decode assms(14-17)])
  moreover have "codec_Name codec = ''proto''" using assms(4) by (simp add: plain_procedure_def)
  ultimately show ?thesis
    using stream_failed [OF s(2) _ assms(11) _ assms(16,12)] s(1) by metis
qed

lemma echo_error_fields:
  "Error_Code echo_error = CodeInvalidArgument" "Error_Message echo_error = ''empty''" "Error_Details echo_error = []"
  "\<not> IsRemote echo_error" "utf8_valid ''empty''"
  by code_simp+

lemma echo_error_reportable: "reportable (env_registry echo_henv) (Coded echo_error) echo_error"
  by (simp add: reportable_def echo_error_fields known_code_def)

theorem http_unary_call_error_witness:
  "\<exists>s t' s1 s2 s3 r.
     NewClientStream echo_env \<lparr>cx_err = None, cx_deadline = None\<rparr> echo_spec new_info echo_transport = (Inr (UnaryStream s), t') \<and>
     ucs_Send echo_env (Some []) s = (None, s1) \<and> ucs_CloseSend echo_env s1 = (None, s2) \<and>
     ucs_Receive echo_env [9] s2 = Some (Some (Coded r), [9], s3) \<and>
     Error_Code r = CodeInvalidArgument \<and> Error_Message r = ''empty'' \<and> IsRemote r"
proof -
  have "scrubHandlerError (Some (Coded echo_error)) = Some (Coded echo_error)"
    "\<not> IsNotModifiedError (Some (Coded echo_error))"
    by (simp_all add: scrubHandlerError_def echo_error_fields) (simp add: IsNotModifiedError_def echo_error_def)
  then have "\<exists>s t' s1 s2 s3 r.
     NewClientStream echo_env \<lparr>cx_err = None, cx_deadline = None\<rparr> echo_spec new_info echo_transport = (Inr (UnaryStream s), t') \<and>
     ucs_Send echo_env (Some []) s = (None, s1) \<and> ucs_CloseSend echo_env s1 = (None, s2) \<and>
     ucs_Receive echo_env [9] s2 = Some (Some (Coded r), [9], s3) \<and> reported (env_registry echo_henv) echo_error r"
    using http_unary_call_error [OF echo_setup(1) _ echo_setup(2), unfolded echo_setup(3), OF _ echo_setup(4-8),
        of "\<lparr>cx_err = None, cx_deadline = None\<rparr>" new_info "[]" "[]" "Coded echo_error" "Coded echo_error" echo_error "[9]"]
    by (simp add: echo_limit echo_def new_info_def raw_codec_def wf_map_def echo_error_reportable)
  then show ?thesis unfolding reported_def echo_error_fields by metis
qed

end
