(* ===== verification/Code_Gen.thy ===== *)
theory Code_Gen
  imports Codes Go_Json
begin

section \<open>The code generator (cmd/protoc-gen-connect-go/main.go)\<close>

text \<open>
  For every Protobuf file with services the plugin prints one Go file: constants for the names, a
  \<open>Spec\<close> per method, a client and a handler interface, their implementations and the types of the
  streams. A generator is a function to the lines that it prints with \<open>g.P\<close>. Descriptors are records
  with the fields that the plugin reads; comments are given as \<open>protogen.Comments.String\<close> renders
  them. The package \<open>protogen\<close> is not in the repository: \<open>QualifiedGoIdent\<close>, which also chooses the
  aliases of imports, is a parameter, and annotations for editors leave no lines.
  Names of services and methods come from \<open>protogen\<close>, which never makes them empty.
\<close>

subsection \<open>Packages path, strings, unicode/utf8 and go/token\<close>

text \<open>The components of a path after \<open>path.Clean\<close>, last one first.\<close>

fun clean_components :: "bool \<Rightarrow> string list \<Rightarrow> string list \<Rightarrow> string list" where
  "clean_components rooted stack [] = stack"
| "clean_components rooted stack (c # cs) =
     clean_components rooted
       (if c = [] \<or> c = ''.'' then stack
        else if c = ''..''
        then (if stack \<noteq> [] \<and> hd stack \<noteq> ''..'' then tl stack
              else if rooted then stack else c # stack)
        else c # stack) cs"

definition path_Clean :: "string \<Rightarrow> string" where
  "path_Clean p =
     (let rooted = HasPrefix p ''/'';
          cs = rev (clean_components rooted [] (Split p (CHR ''/'')))
      in if rooted then ''/'' @ Join cs ''/'' else if cs = [] then ''.'' else Join cs ''/'')"

definition path_Join :: "string list \<Rightarrow> string" where
  "path_Join elems =
     (let es = filter (\<lambda>e. e \<noteq> []) elems in if es = [] then [] else path_Clean (Join es ''/''))"

definition path_Dir :: "string \<Rightarrow> string" where
  "path_Dir p = path_Clean (take (after_last p (CHR ''/'')) p)"

definition path_Base :: "string \<Rightarrow> string" where
  "path_Base p =
     (if p = [] then ''.''
      else let s = rev (dropWhile (\<lambda>c. c = CHR ''/'') (rev p))
           in if s = [] then ''/'' else drop (after_last s (CHR ''/'')) s)"

text \<open>\<open>filepath.Ext\<close> of a name without separators.\<close>

definition path_Ext :: "string \<Rightarrow> string" where
  "path_Ext name = (let i = after_last name (CHR ''.'') in if i = 0 then [] else drop (i - 1) name)"

definition Fields :: "string \<Rightarrow> string list" where
  "Fields s = FieldsFunc is_space [] s"

function RuneCount :: "string \<Rightarrow> nat" where
  "RuneCount [] = 0"
| "RuneCount (c # s) =
     (if of_char c < (0x80 :: nat) then Suc (RuneCount s)
      else case rune_width (c # s) of None \<Rightarrow> Suc (RuneCount s) | Some n \<Rightarrow> Suc (RuneCount (drop (n - 1) s)))"
  by pat_completeness auto
termination
  by (relation "measure length") auto

definition go_keywords :: "string list" where
  "go_keywords =
     [''break'', ''default'', ''func'', ''interface'', ''select'', ''case'', ''defer'', ''go'', ''map'', ''struct'',
      ''chan'', ''else'', ''goto'', ''package'', ''switch'', ''const'', ''fallthrough'', ''if'', ''range'', ''type'',
      ''continue'', ''for'', ''import'', ''return'', ''var'']"

definition is_letter :: "char \<Rightarrow> bool" where
  "is_letter c \<longleftrightarrow> in_range CHR ''a'' CHR ''z'' c \<or> in_range CHR ''A'' CHR ''Z'' c \<or> c = CHR ''_''"

text \<open>\<open>token.IsIdentifier\<close>; \<open>unicode\<close> decides names with bytes outside of ASCII.\<close>

definition IsIdentifier :: "(string \<Rightarrow> bool) \<Rightarrow> string \<Rightarrow> bool" where
  "IsIdentifier unicode name =
     (if list_all (\<lambda>c. (of_char c :: nat) < 128) name
      then name \<noteq> [] \<and> name \<notin> set go_keywords \<and> is_letter (hd name) \<and> list_all (\<lambda>c. is_letter c \<or> is_digit c) name
      else unicode name)"

subsection \<open>Descriptors\<close>

record go_ident =
  gi_ImportPath :: string
  gi_GoName :: string

abbreviation contextPackage :: string where "contextPackage \<equiv> ''context''"
abbreviation syncPackage :: string where "syncPackage \<equiv> ''sync''"
abbreviation connectPackage :: string where "connectPackage \<equiv> ''connectrpc.com/connect''"
abbreviation connectV2Package :: string where "connectV2Package \<equiv> ''connectrpc.com/connect/v2''"
abbreviation generatedFilenameExtension :: string where "generatedFilenameExtension \<equiv> ''.connect.go''"
abbreviation commentWidth :: nat where "commentWidth \<equiv> 97"

datatype idempotency_option = IDEMPOTENCY_UNKNOWN | NO_SIDE_EFFECTS | IDEMPOTENT

record method_options =
  mo_Deprecated :: bool
  mo_IdempotencyLevel :: idempotency_option

text \<open>Options are \<open>None\<close> where the type assertion of the code fails or gives nil.\<close>

record proto_method =
  pm_GoName :: string
  pm_ParentGoName :: string
  pm_Name :: string
  pm_FullName :: string
  pm_Input :: go_ident
  pm_Output :: go_ident
  pm_IsStreamingClient :: bool
  pm_IsStreamingServer :: bool
  pm_Options :: "method_options option"
  pm_Comments :: string

record proto_service =
  ps_GoName :: string
  ps_Name :: string
  ps_FullName :: string
  ps_Deprecated :: "bool option"
  ps_Methods :: "proto_method list"

record proto_file =
  pf_Services :: "proto_service list"
  pf_GoPackageName :: string
  pf_GoImportPath :: string
  pf_GeneratedFilenamePrefix :: string
  pf_GoDescriptorIdent :: go_ident
  pf_Path :: string
  pf_Deprecated :: bool
  pf_SyntaxDetached :: "string list"
  pf_SyntaxLeading :: string
  pf_PackageDetached :: "string list"
  pf_PackageLeading :: string

record generated_file =
  gf_filename :: string
  gf_goImportPath :: string
  gf_imports :: "string list"
  gf_lines :: "string list"

text \<open>\<open>g.P\<close>: its arguments without spaces between them, as one line.\<close>

definition gP :: "string list \<Rightarrow> string list" where
  "gP v = [concat v]"

abbreviation dquote :: string where "dquote \<equiv> [CHR 0x22]"

definition importRewriteFunc :: "string \<Rightarrow> string" where
  "importRewriteFunc path = (if path = connectPackage then connectV2Package else path)"

subsection \<open>Names\<close>

definition unexport :: "string \<Rightarrow> string" where
  "unexport s =
     (let lowercased = ToLower (take 1 s) @ drop 1 s
      in if lowercased \<in> set go_keywords then ''_'' @ lowercased else lowercased)"

definition serviceNameConst :: "proto_service \<Rightarrow> string" where
  "serviceNameConst service = ps_GoName service @ ''Name''"

definition procedureConstName :: "proto_method \<Rightarrow> string" where
  "procedureConstName m = Sprintf ''%s%sProcedure'' [pm_ParentGoName m, pm_GoName m]"

definition specVar :: "proto_service \<Rightarrow> proto_method \<Rightarrow> string" where
  "specVar service m = unexport (ps_GoName service) @ pm_GoName m @ ''Spec''"

definition clientStruct :: "proto_service \<Rightarrow> string" where
  "clientStruct service = unexport (ps_GoName service) @ ''Client''"

definition adapterStruct :: "proto_service \<Rightarrow> string" where
  "adapterStruct service = unexport (ps_GoName service) @ ''Handler''"

definition adapterMethod :: "proto_method \<Rightarrow> string" where
  "adapterMethod m = unexport (pm_GoName m)"

definition clientStreamType :: "proto_service \<Rightarrow> proto_method \<Rightarrow> string" where
  "clientStreamType service m = ps_GoName service @ pm_GoName m @ ''ClientStream''"

definition serverStreamType :: "proto_service \<Rightarrow> proto_method \<Rightarrow> string" where
  "serverStreamType service m = ps_GoName service @ pm_GoName m @ ''ServerStream''"

definition isDeprecatedService :: "proto_service \<Rightarrow> bool" where
  "isDeprecatedService service = (ps_Deprecated service = Some True)"

definition isDeprecatedMethod :: "proto_method \<Rightarrow> bool" where
  "isDeprecatedMethod m = (case pm_Options m of None \<Rightarrow> False | Some opts \<Rightarrow> mo_Deprecated opts)"

type_synonym qualifier = "go_ident \<Rightarrow> string"

definition Ident :: "string \<Rightarrow> string \<Rightarrow> go_ident" where
  "Ident path name = \<lparr>gi_ImportPath = path, gi_GoName = name\<rparr>"

definition methodIdempotencyName :: "qualifier \<Rightarrow> proto_method \<Rightarrow> string" where
  "methodIdempotencyName g m =
     (case pm_Options m of
        None \<Rightarrow> []
      | Some opts \<Rightarrow>
          (case mo_IdempotencyLevel opts of
             NO_SIDE_EFFECTS \<Rightarrow> g (Ident connectPackage ''IdempotencyNoSideEffects'')
           | IDEMPOTENT \<Rightarrow> g (Ident connectPackage ''IdempotencyIdempotent'')
           | IDEMPOTENCY_UNKNOWN \<Rightarrow> []))"

definition methodCardinality :: "proto_method \<Rightarrow> stream_type" where
  "methodCardinality m =
     (if pm_IsStreamingClient m \<and> pm_IsStreamingServer m then StreamTypeBidi
      else if pm_IsStreamingClient m then StreamTypeClient
      else if pm_IsStreamingServer m then StreamTypeServer
      else StreamTypeUnary)"

definition methodStreamName :: "qualifier \<Rightarrow> proto_method \<Rightarrow> string" where
  "methodStreamName g m =
     (let card = methodCardinality m in
      if card = StreamTypeClient then g (Ident connectPackage ''StreamTypeClient'')
      else if card = StreamTypeServer then g (Ident connectPackage ''StreamTypeServer'')
      else if card = StreamTypeBidi then g (Ident connectPackage ''StreamTypeBidi'')
      else g (Ident connectPackage ''StreamTypeUnary''))"

subsection \<open>Comments\<close>

fun wrap_words :: "string list \<Rightarrow> string \<Rightarrow> nat \<Rightarrow> string list" where
  "wrap_words [] text pos = (if text \<noteq> [] then gP [''// '', text] else [])"
| "wrap_words (word # words) text pos =
     (let numRunes = RuneCount word;
          full = (pos > 0 \<and> pos + numRunes + 1 > commentWidth);
          (out, text, pos) = (if full then (gP [''// '', text], [], 0) else ([], text, pos));
          (text, pos) = (if pos > 0 then (text @ '' '', pos + 1) else (text, pos))
      in out @ wrap_words words (text @ word) (pos + numRunes))"

definition wrapComments :: "string list \<Rightarrow> string list" where
  "wrapComments elems = wrap_words (Fields (concat elems)) [] 0"

definition deprecated :: "string list" where
  "deprecated = gP [''// Deprecated: do not use.'']"

definition leadingComments :: "string \<Rightarrow> bool \<Rightarrow> string list" where
  "leadingComments comments isDeprecated =
     (if comments \<noteq> [] then gP [TrimSpace comments] else []) @
     (if isDeprecated then (if comments \<noteq> [] then gP [''//''] else []) @ deprecated else [])"

subsection \<open>The parts of a generated file\<close>

definition generatePreamble :: "string \<Rightarrow> proto_file \<Rightarrow> string list" where
  \<comment> \<open>the first argument is \<open>os.Args[0]\<close>; separators are slashes\<close>
  "generatePreamble arg0 file =
     (let programName = path_Base arg0;
          ext = path_Ext programName;
          programName = (if ToLower ext = ''.exe'' then TrimSuffix programName ext else programName)
      in concat (map (\<lambda>c. leadingComments c False) (pf_SyntaxDetached file)) @ gP [] @
         leadingComments (pf_SyntaxLeading file) False @ gP [] @
         gP [''// Code generated by '', programName, ''. DO NOT EDIT.''] @ gP [''//''] @
         (if pf_Deprecated file then wrapComments [pf_Path file, '' is a deprecated file.'']
          else gP [''// Source: '', pf_Path file]) @ gP [] @
         concat (map (\<lambda>c. leadingComments c False) (pf_PackageDetached file)) @ gP [] @
         leadingComments (pf_PackageLeading file) False @
         gP [''package '', pf_GoPackageName file] @ gP [])"

definition service_constant :: "proto_service \<Rightarrow> string list" where
  "service_constant service =
     wrapComments [serviceNameConst service, '' is the fully-qualified name of the '', ps_Name service, '' service.''] @
     gP [serviceNameConst service, '' = '', dquote, ps_FullName service, dquote]"

definition procedure_constant :: "proto_service \<Rightarrow> proto_method \<Rightarrow> string list" where
  "procedure_constant service m =
     wrapComments [procedureConstName m, '' is the procedure name of the '', ps_Name service, [CHR 0x27], ''s '',
       pm_Name m, '' RPC.''] @
     gP [procedureConstName m, '' = '', dquote, Sprintf ''/%s/%s'' [ps_FullName service, pm_Name m], dquote]"

definition generateServiceNameConstants :: "proto_service list \<Rightarrow> string list" where
  "generateServiceNameConstants services =
     gP [''const (''] @ concat (map service_constant services) @ gP ['')''] @ gP [] @
     (if sum_list (map (\<lambda>s. length (ps_Methods s)) services) = 0 then []
      else
        wrapComments [''These constants are the procedure names of the RPCs defined in this package. '',
          ''They'', [CHR 0x27], ''re exposed at runtime as Spec.Procedure and as the final two segments of the HTTP route.''] @
        gP [''//''] @
        wrapComments [''Note that these are different from the fully-qualified method names used by '',
          ''google.golang.org/protobuf/reflect/protoreflect. To convert from these constants to '',
          ''reflection-formatted method names, remove the leading slash and convert the '',
          ''remaining slash to a period.''] @
        gP [''const (''] @
        concat (map (\<lambda>s. concat (map (procedure_constant s) (ps_Methods s))) services) @
        gP ['')''] @ gP [])"

definition spec_var_lines :: "qualifier \<Rightarrow> go_ident \<Rightarrow> proto_service \<Rightarrow> proto_method \<Rightarrow> string list" where
  "spec_var_lines g descriptor service m =
     (let specType = g (Ident connectPackage ''Spec''); onceValue = g (Ident syncPackage ''OnceValue'');
          descIdent = g descriptor; idem = methodIdempotencyName g m
      in gP [specVar service m, '' = '', onceValue, ''(func() '', specType, '' {''] @
         gP [''return '', specType, ''{''] @
         gP [''StreamType: '', methodStreamName g m, '',''] @
         gP [''Schema: '', descIdent, ''.Services().ByName('', dquote, ps_Name service, dquote, '').Methods().ByName('', dquote, pm_Name m, dquote, ''),''] @
         gP [''Procedure: '', procedureConstName m, '',''] @
         (if idem \<noteq> [] then gP [''IdempotencyLevel: '', idem, '',''] else []) @
         gP [''}''] @ gP [''})''])"

definition generateSpecVars :: "qualifier \<Rightarrow> proto_file \<Rightarrow> proto_service \<Rightarrow> string list" where
  "generateSpecVars g file service =
     (if ps_Methods service = [] then []
      else gP [''var (''] @ concat (map (spec_var_lines g (pf_GoDescriptorIdent file) service) (ps_Methods service)) @
           gP ['')''] @ gP [])"

text \<open>The identifiers that the signatures of a method use.\<close>

abbreviation ctx_of :: "qualifier \<Rightarrow> string" where
  "ctx_of g \<equiv> g (Ident contextPackage ''Context'')"

definition client_signature :: "qualifier \<Rightarrow> proto_service \<Rightarrow> proto_method \<Rightarrow> string list" where
  "client_signature g service m =
     (let ctx = ctx_of g; input = g (pm_Input m); out = g (pm_Output m); name = pm_GoName m;
          streamT = clientStreamType service m; card = methodCardinality m
      in leadingComments (pm_Comments m) (isDeprecatedMethod m) @
         (if card = StreamTypeUnary then gP [name, ''('', ctx, '', *'', input, '') (*'', out, '', error)'']
          else if card = StreamTypeClient \<or> card = StreamTypeBidi then gP [name, ''('', ctx, '') ('', streamT, '', error)'']
          else if card = StreamTypeServer then gP [name, ''('', ctx, '', *'', input, '') ('', streamT, '', error)'']
          else []))"

definition generateClientInterface :: "qualifier \<Rightarrow> proto_service \<Rightarrow> string list" where
  "generateClientInterface g service =
     wrapComments [ps_GoName service, ''Client is a client for the '', ps_FullName service, '' service.''] @
     (if isDeprecatedService service then gP [''//''] @ deprecated else []) @
     gP [''type '', ps_GoName service, ''Client interface {''] @
     concat (map (client_signature g service) (ps_Methods service)) @
     gP [''}''] @ gP []"

definition generateClientConstructor :: "qualifier \<Rightarrow> proto_service \<Rightarrow> string list" where
  "generateClientConstructor g service =
     (let clientType = g (Ident connectPackage ''Client'') in
      wrapComments [''New'', ps_GoName service, ''Client constructs a client for the '', ps_FullName service, '' service. '',
        ''Multiple service clients may share a single '', clientType, ''.''] @
      gP [''func New'', ps_GoName service, ''Client(client *'', clientType, '') '', ps_GoName service, ''Client {''] @
      gP [''return &'', clientStruct service, ''{client: client}''] @
      gP [''}''] @ gP [])"

definition server_signature :: "qualifier \<Rightarrow> proto_service \<Rightarrow> proto_method \<Rightarrow> string list" where
  "server_signature g service m =
     (let ctx = ctx_of g; input = g (pm_Input m); out = g (pm_Output m); name = pm_GoName m;
          streamT = serverStreamType service m; card = methodCardinality m
      in leadingComments (pm_Comments m) (isDeprecatedMethod m) @
         (if card = StreamTypeUnary then gP [name, ''('', ctx, '', *'', input, '') (*'', out, '', error)'']
          else if card = StreamTypeClient then gP [name, ''('', ctx, '', '', streamT, '') (*'', out, '', error)'']
          else if card = StreamTypeServer then gP [name, ''('', ctx, '', *'', input, '', '', streamT, '') error'']
          else if card = StreamTypeBidi then gP [name, ''('', ctx, '', '', streamT, '') error'']
          else []))"

definition generateServerInterface :: "qualifier \<Rightarrow> proto_service \<Rightarrow> string list" where
  "generateServerInterface g service =
     wrapComments [ps_GoName service, ''Handler is an implementation of the '', ps_FullName service, '' service.''] @
     (if isDeprecatedService service then gP [''//''] @ deprecated else []) @
     gP [''type '', ps_GoName service, ''Handler interface {''] @
     concat (map (server_signature g service) (ps_Methods service)) @
     gP [''}''] @ gP []"

definition register_line :: "qualifier \<Rightarrow> proto_service \<Rightarrow> proto_method \<Rightarrow> string list" where
  "register_line g service m =
     gP [g (Ident connectPackage ''Method''), ''{Spec: '', specVar service m, ''(), Handler: adapter.'', adapterMethod m, ''},'']"

definition generateRegisterHandler :: "qualifier \<Rightarrow> proto_service \<Rightarrow> string list" where
  "generateRegisterHandler g service =
     (let serverType = g (Ident connectPackage ''Server'') in
      wrapComments [''Register'', ps_GoName service, ''Handler registers svc as the '', ps_FullName service,
        '' implementation on server.''] @
      gP [''func Register'', ps_GoName service, ''Handler(server *'', serverType, '', svc '', ps_GoName service, ''Handler) {''] @
      (if ps_Methods service \<noteq> [] then gP [''adapter := '', adapterStruct service, ''{svc: svc}''] else []) @
      gP [''server.Register(''] @
      concat (map (register_line g service) (ps_Methods service)) @
      gP ['')''] @ gP [''}''] @ gP [])"


definition client_stream_lines :: "qualifier \<Rightarrow> proto_service \<Rightarrow> proto_method \<Rightarrow> string list" where
  "client_stream_lines g service m =
     (let streamIface = g (Ident connectPackage ''ClientStream''); card = methodCardinality m;
          typeName = clientStreamType service m; input = g (pm_Input m); out = g (pm_Output m)
      in if card = StreamTypeUnary then []
         else
           wrapComments [typeName, '' is the client stream for the '', ps_Name service, [CHR 0x27], ''s '', pm_Name m, '' RPC.''] @
           gP [''type '', typeName, '' struct {''] @ gP [''stream '', streamIface] @ gP [''}''] @ gP [] @
           (if card = StreamTypeClient \<or> card = StreamTypeBidi then
              wrapComments [''SendHeaders opens the stream and flushes the request headers without a message. The first Send or Receive does this implicitly.''] @
              gP [''func (s '', typeName, '') SendHeaders() error {''] @ gP [''return s.stream.SendHeaders()''] @ gP [''}''] @ gP [] @
              wrapComments [''Send sends a request message to the server.''] @
              gP [''func (s '', typeName, '') Send(req *'', input, '') error {''] @ gP [''return s.stream.Send(req)''] @ gP [''}''] @ gP []
            else []) @
           (if card = StreamTypeBidi then
              wrapComments [''CloseSend closes the request side of the stream.''] @
              gP [''func (s '', typeName, '') CloseSend() error {''] @ gP [''return s.stream.CloseSend()''] @ gP [''}''] @ gP []
            else []) @
           (if card = StreamTypeClient then
              wrapComments [''CloseAndReceive closes the request side of the stream and returns the single response message. It reads the stream to completion to release its resources.''] @
              gP [''func (s '', typeName, '') CloseAndReceive() (*'', out, '', error) {''] @
              gP [''if err := s.stream.CloseSend(); err != nil {''] @ gP [''return nil, err''] @ gP [''}''] @
              gP [''var res '', out] @
              gP [''if err := s.stream.Receive(&res); err != nil {''] @ gP [''return nil, err''] @ gP [''}''] @
              gP [''return &res, nil''] @ gP [''}''] @ gP []
            else
              wrapComments [''Receive returns the next response message from the server.''] @
              gP [''func (s '', typeName, '') Receive() (*'', out, '', error) {''] @
              gP [''var res '', out] @
              gP [''if err := s.stream.Receive(&res); err != nil {''] @ gP [''return nil, err''] @ gP [''}''] @
              gP [''return &res, nil''] @ gP [''}''] @ gP [] @
              wrapComments [''Close releases the stream'', [CHR 0x27], ''s resources. It is idempotent and is typically deferred to clean up a stream abandoned before io.EOF.''] @
              gP [''func (s '', typeName, '') Close() error {''] @ gP [''return s.stream.Close()''] @ gP [''}''] @ gP []))"

definition generatePerRPCClientStreams :: "qualifier \<Rightarrow> proto_service \<Rightarrow> string list" where
  "generatePerRPCClientStreams g service = concat (map (client_stream_lines g service) (ps_Methods service))"

definition server_stream_lines :: "qualifier \<Rightarrow> proto_service \<Rightarrow> proto_method \<Rightarrow> string list" where
  "server_stream_lines g service m =
     (let streamIface = g (Ident connectPackage ''ServerStream''); card = methodCardinality m;
          typeName = serverStreamType service m; input = g (pm_Input m); out = g (pm_Output m)
      in if card = StreamTypeUnary then []
         else
           wrapComments [typeName, '' is the server stream for the '', ps_Name service, [CHR 0x27], ''s '', pm_Name m, '' RPC.''] @
           gP [''type '', typeName, '' struct {''] @ gP [''stream '', streamIface] @ gP [''}''] @ gP [] @
           (if card = StreamTypeClient \<or> card = StreamTypeBidi then
              wrapComments [''Receive returns the next request message from the client.''] @
              gP [''func (s '', typeName, '') Receive() (*'', input, '', error) {''] @
              gP [''var req '', input] @
              gP [''if err := s.stream.Receive(&req); err != nil {''] @ gP [''return nil, err''] @ gP [''}''] @
              gP [''return &req, nil''] @ gP [''}''] @ gP []
            else []) @
           (if card = StreamTypeServer \<or> card = StreamTypeBidi then
              wrapComments [''SendHeaders flushes the response headers without a message. The first Send does this implicitly.''] @
              gP [''func (s '', typeName, '') SendHeaders() error {''] @ gP [''return s.stream.SendHeaders()''] @ gP [''}''] @ gP [] @
              wrapComments [''Send sends a response message to the client.''] @
              gP [''func (s '', typeName, '') Send(res *'', out, '') error {''] @ gP [''return s.stream.Send(res)''] @ gP [''}''] @ gP []
            else []))"

definition generatePerRPCServerStreams :: "qualifier \<Rightarrow> proto_service \<Rightarrow> string list" where
  "generatePerRPCServerStreams g service = concat (map (server_stream_lines g service) (ps_Methods service))"

definition client_method_lines :: "qualifier \<Rightarrow> proto_service \<Rightarrow> proto_method \<Rightarrow> string list" where
  "client_method_lines g service m =
     (let recv = Sprintf ''c *%s'' [clientStruct service]; ctx = ctx_of g; input = g (pm_Input m); out = g (pm_Output m);
          name = pm_GoName m; streamT = clientStreamType service m; spec = specVar service m @ ''()'';
          card = methodCardinality m
      in (if card = StreamTypeUnary then
            gP [''func ('', recv, '') '', name, ''(ctx '', ctx, '', req *'', input, '') (*'', out, '', error) {''] @
            gP [''var res '', out] @
            gP [''if err := c.client.CallUnary(ctx, '', spec, '', req, &res); err != nil {''] @
            gP [''return nil, err''] @ gP [''}''] @ gP [''return &res, nil''] @ gP [''}'']
          else if card = StreamTypeClient \<or> card = StreamTypeBidi then
            gP [''func ('', recv, '') '', name, ''(ctx '', ctx, '') ('', streamT, '', error) {''] @
            gP [''stream, err := c.client.CallClientStream(ctx, '', spec, '')''] @
            gP [''if err != nil {''] @ gP [''return '', streamT, ''{}, err''] @ gP [''}''] @
            gP [''return '', streamT, ''{stream: stream}, nil''] @ gP [''}'']
          else if card = StreamTypeServer then
            gP [''func ('', recv, '') '', name, ''(ctx '', ctx, '', req *'', input, '') ('', streamT, '', error) {''] @
            gP [''stream, err := c.client.CallServerStream(ctx, '', spec, '', req)''] @
            gP [''if err != nil {''] @ gP [''return '', streamT, ''{}, err''] @ gP [''}''] @
            gP [''return '', streamT, ''{stream: stream}, nil''] @ gP [''}'']
          else []) @ gP [])"

definition generateClientImplementation :: "qualifier \<Rightarrow> proto_service \<Rightarrow> string list" where
  "generateClientImplementation g service =
     gP [''type '', clientStruct service, '' struct {''] @
     gP [''client *'', g (Ident connectPackage ''Client'')] @ gP [''}''] @ gP [] @
     concat (map (client_method_lines g service) (ps_Methods service))"

definition adapter_method_lines :: "qualifier \<Rightarrow> proto_service \<Rightarrow> proto_method \<Rightarrow> string list" where
  "adapter_method_lines g service m =
     (let recv = ''h '' @ adapterStruct service; ctx = ctx_of g; specType = g (Ident connectPackage ''Spec'');
          handlerStream = g (Ident connectPackage ''ServerStream''); name = adapterMethod m; input = g (pm_Input m);
          streamT = serverStreamType service m; card = methodCardinality m;
          head = gP [''func ('', recv, '') '', name, ''(ctx '', ctx, '', _ '', specType, '', stream '', handlerStream, '') error {'']
      in (if card = StreamTypeUnary then
            head @ gP [''var req '', input] @
            gP [''if err := stream.Receive(&req); err != nil {''] @ gP [''return err''] @ gP [''}''] @
            gP [''res, err := h.svc.'', pm_GoName m, ''(ctx, &req)''] @
            gP [''if err != nil {''] @ gP [''return err''] @ gP [''}''] @
            gP [''return stream.Send(res)''] @ gP [''}'']
          else if card = StreamTypeClient then
            head @ gP [''res, err := h.svc.'', pm_GoName m, ''(ctx, '', streamT, ''{stream: stream})''] @
            gP [''if err != nil {''] @ gP [''return err''] @ gP [''}''] @
            gP [''return stream.Send(res)''] @ gP [''}'']
          else if card = StreamTypeServer then
            head @ gP [''var req '', input] @
            gP [''if err := stream.Receive(&req); err != nil {''] @ gP [''return err''] @ gP [''}''] @
            gP [''return h.svc.'', pm_GoName m, ''(ctx, &req, '', streamT, ''{stream: stream})''] @ gP [''}'']
          else if card = StreamTypeBidi then
            head @ gP [''return h.svc.'', pm_GoName m, ''(ctx, '', streamT, ''{stream: stream})''] @ gP [''}'']
          else []) @ gP [])"

definition generateHandlerAdapter :: "qualifier \<Rightarrow> proto_service \<Rightarrow> string list" where
  "generateHandlerAdapter g service =
     gP [''type '', adapterStruct service, '' struct{ svc '', ps_GoName service, ''Handler }''] @ gP [] @
     concat (map (adapter_method_lines g service) (ps_Methods service))"

definition unimplemented_method_lines :: "qualifier \<Rightarrow> proto_service \<Rightarrow> proto_method \<Rightarrow> string list" where
  "unimplemented_method_lines g service m =
     (let newError = g (Ident connectPackage ''NewError''); codeUnimplemented = g (Ident connectPackage ''CodeUnimplemented'');
          typeName = ''Unimplemented'' @ ps_GoName service @ ''Handler''; ctx = ctx_of g;
          input = g (pm_Input m); out = g (pm_Output m);
          msg = Quote (Sprintf ''%s is not implemented'' [pm_FullName m]); card = methodCardinality m;
          streamT = serverStreamType service m
      in (if card = StreamTypeUnary then
            gP [''func ('', typeName, '') '', pm_GoName m, ''('', ctx, '', *'', input, '') (*'', out, '', error) {''] @
            gP [''return nil, '', newError, ''('', codeUnimplemented, '', '', msg, '')'']
          else if card = StreamTypeClient then
            gP [''func ('', typeName, '') '', pm_GoName m, ''('', ctx, '', '', streamT, '') (*'', out, '', error) {''] @
            gP [''return nil, '', newError, ''('', codeUnimplemented, '', '', msg, '')'']
          else if card = StreamTypeServer then
            gP [''func ('', typeName, '') '', pm_GoName m, ''('', ctx, '', *'', input, '', '', streamT, '') error {''] @
            gP [''return '', newError, ''('', codeUnimplemented, '', '', msg, '')'']
          else if card = StreamTypeBidi then
            gP [''func ('', typeName, '') '', pm_GoName m, ''('', ctx, '', '', streamT, '') error {''] @
            gP [''return '', newError, ''('', codeUnimplemented, '', '', msg, '')'']
          else []) @ gP [''}''] @ gP [])"

definition generateUnimplementedServerImplementation :: "qualifier \<Rightarrow> proto_service \<Rightarrow> string list" where
  "generateUnimplementedServerImplementation g service =
     (let typeName = ''Unimplemented'' @ ps_GoName service @ ''Handler'' in
      wrapComments [typeName, '' returns CodeUnimplemented from all methods.''] @
      gP [''type '', typeName, '' struct{}''] @ gP [] @
      concat (map (unimplemented_method_lines g service) (ps_Methods service)))"

subsection \<open>Files\<close>

definition generateService :: "qualifier \<Rightarrow> proto_file \<Rightarrow> proto_service \<Rightarrow> string list" where
  "generateService g file service =
     generateSpecVars g file service @
     generateClientInterface g service @
     generateClientConstructor g service @
     generatePerRPCClientStreams g service @
     generateServerInterface g service @
     generateRegisterHandler g service @
     generatePerRPCServerStreams g service @
     generateUnimplementedServerImplementation g service @
     generateClientImplementation g service @
     generateHandlerAdapter g service"

text \<open>What the plugin needs from outside: \<open>QualifiedGoIdent\<close>, the Unicode part of \<open>token.IsIdentifier\<close>
  and \<open>os.Args[0]\<close>.\<close>

record gen_env =
  ge_QualifiedGoIdent :: qualifier
  ge_unicode :: "string \<Rightarrow> bool"
  ge_arg0 :: string

text \<open>An error, or the generated file if there is one.\<close>

definition generate :: "gen_env \<Rightarrow> proto_file \<Rightarrow> string \<Rightarrow> string + generated_file option" where
  "generate env file packageSuffix =
     (let g = ge_QualifiedGoIdent env in
      if pf_Services file = [] then Inr None
      else if packageSuffix \<noteq> [] \<and> \<not> IsIdentifier (ge_unicode env) packageSuffix
      then Inl (Sprintf ''package_suffix %q is not a valid Go identifier'' [Quote packageSuffix])
      else
        let (file', goImportPath) =
              (if packageSuffix \<noteq> [] then
                 let name = pf_GoPackageName file @ packageSuffix; prefix = pf_GeneratedFilenamePrefix file
                 in (file\<lparr>pf_GoPackageName := name,
                          pf_GeneratedFilenamePrefix := path_Join [path_Dir prefix, name, path_Base prefix]\<rparr>,
                     path_Join [pf_GoImportPath file, name])
               else (file, pf_GoImportPath file))
        in Inr (Some
             \<lparr>gf_filename = pf_GeneratedFilenamePrefix file' @ generatedFilenameExtension,
              gf_goImportPath = goImportPath,
              gf_imports = (if packageSuffix \<noteq> [] then [pf_GoImportPath file'] else []),
              gf_lines = generatePreamble (ge_arg0 env) file' @ generateServiceNameConstants (pf_Services file') @
                concat (map (generateService g file') (pf_Services file'))\<rparr>))"

text \<open>\<open>main\<close>: what it does with its arguments. \<open>protogen\<close> reads the request and the parameters, of which
  \<open>packageSuffix\<close> is the only one; the plugin stops at no file, but an error of one is the answer.\<close>

abbreviation usage :: string where
  "usage \<equiv> ''See https://connectrpc.com/docs/go/getting-started to learn how to use this plugin.'' @ [CHR 0x0A, CHR 0x0A] @
     ''Flags:'' @ [CHR 0x0A] @ ''  -h, --help'' @ [CHR 0x09] @ ''Print this help and exit.'' @ [CHR 0x0A] @
     ''      --version'' @ [CHR 0x09] @ ''Print the version and exit.''"

abbreviation Version :: string where "Version \<equiv> ''2.0.0-dev''"

datatype plugin_outcome =
    Exit int string \<comment> \<open>the code, and what is printed to stdout (0) or stderr (1)\<close>
  | Answered "(string + generated_file option) list"

definition plugin_main :: "gen_env \<Rightarrow> string list \<Rightarrow> string \<Rightarrow> (proto_file \<times> bool) list \<Rightarrow> plugin_outcome" where
  "plugin_main env args packageSuffix files =
     (if length args = 2 \<and> args ! 1 = ''--version'' then Exit 0 Version
      else if length args = 2 \<and> (args ! 1 = ''-h'' \<or> args ! 1 = ''--help'') then Exit 0 usage
      else if length args \<noteq> 1 then Exit 1 usage
      else Answered (map (\<lambda>(file, _). generate env file packageSuffix) (filter snd files)))"

end
