(* ===== verification/Generated_Code.thy ===== *)
theory Generated_Code
  imports Code_Gen Rpc_Core "HOL-Library.Multiset"
begin

section \<open>What the code generator prints\<close>

text \<open>
  Properties of the lines of \<open>Code_Gen\<close>: comments are wrapped without losing words and within the
  width, a generated file declares every name once when the names of its services and methods
  cannot be confused, and the procedures of a file can all be registered on one server.
\<close>

subsection \<open>Words\<close>

abbreviation word :: "string \<Rightarrow> bool" where
  "word w \<equiv> w \<noteq> [] \<and> list_all (\<lambda>c. \<not> is_space c) w"

lemma FieldsFunc_words:
  "list_all (\<lambda>c. \<not> f c) acc \<Longrightarrow> w \<in> set (FieldsFunc f acc s) \<Longrightarrow> w \<noteq> [] \<and> list_all (\<lambda>c. \<not> f c) w"
proof (induction s arbitrary: acc)
  case Nil
  then show ?case by (cases "acc = []") auto
next
  case (Cons x s)
  from Cons.IH [of "[]"] Cons.IH [of "x # acc"] Cons.prems show ?case
    by (cases "f x"; cases "acc = []") auto
qed

lemma Fields_words: "w \<in> set (Fields s) \<Longrightarrow> word w"
  using FieldsFunc_words [of is_space "[]" w s] by (simp add: Fields_def)

lemma FieldsFunc_append: "list_all (\<lambda>c. \<not> f c) w \<Longrightarrow> FieldsFunc f acc (w @ s) = FieldsFunc f (rev w @ acc) s"
  by (induction w arbitrary: acc) auto

lemma Fields_Join: "list_all word ws \<Longrightarrow> Fields (Join ws '' '') = ws"
proof (induction ws rule: induct_list012)
  case (2 w)
  then show ?case using FieldsFunc_append [of is_space w "[]" "[]"] by (simp add: Fields_def)
next
  case (3 w x ws)
  then show ?case
    using FieldsFunc_append [of is_space w "[]" "CHR '' '' # Join (x # ws) '' ''"] by (simp add: Fields_def is_space_def)
qed (simp add: Fields_def)

lemma Join_append: "xs \<noteq> [] \<Longrightarrow> ys \<noteq> [] \<Longrightarrow> Join (xs @ ys) sep = Join xs sep @ sep @ Join ys sep"
proof (induction xs rule: induct_list012)
  case (2 x)
  then show ?case by (cases ys) auto
qed auto

subsection \<open>Comments\<close>

lemma byte_in_space [simp]: "0x20 < lo \<Longrightarrow> \<not> byte_in lo hi (CHR '' '')"
  by (simp add: byte_in_def)

lemma rune_width_space: "s \<noteq> [] \<Longrightarrow> rune_width (s @ CHR '' '' # t) = rune_width s"
proof -
  assume "s \<noteq> []"
  then consider a where "s = [a]" | a b where "s = [a, b]" | a b c where "s = [a, b, c]" | a b c d u where "s = a # b # c # d # u"
    by (metis list.exhaust)
  then show ?thesis
  proof cases
    case 1
    then show ?thesis by (cases t rule: rune_width.cases) simp_all
  next
    case 2
    then show ?thesis by (cases t) simp_all
  qed simp_all
qed

lemma rune_width_le: "rune_width s = Some n \<Longrightarrow> n \<le> length s"
  by (cases s rule: rune_width.cases) (auto split: if_splits)

lemma RuneCount_space: "RuneCount (s @ '' '' @ t) = RuneCount s + 1 + RuneCount t"
proof (induction s rule: RuneCount.induct)
  case (2 c s)
  show ?case
  proof (cases "of_char c < (0x80 :: nat)")
    case True
    with 2 show ?thesis by simp
  next
    case False
    with 2 rune_width_space [of "c # s" t] rune_width_le [of "c # s"] show ?thesis
      by (cases "rune_width (c # s)") auto
  qed
qed simp

lemma RuneCount_pos: "s \<noteq> [] \<Longrightarrow> 0 < RuneCount s"
  by (cases s) (auto split: option.split)

text \<open>Groups of words that fit in the width, each of which leaves no room for the next word.\<close>

abbreviation line_of :: "string list \<Rightarrow> string" where
  "line_of ws \<equiv> Join ws '' ''"

definition fits :: "string list \<Rightarrow> bool" where
  "fits ws \<longleftrightarrow> RuneCount (line_of ws) \<le> commentWidth \<or> length ws = 1"

definition no_room :: "string list \<Rightarrow> string list \<Rightarrow> bool" where
  "no_room ws vs \<longleftrightarrow> commentWidth < RuneCount (line_of ws) + 1 + RuneCount (hd vs)"

definition wrapped :: "string list list \<Rightarrow> bool" where
  "wrapped gs \<longleftrightarrow> (\<forall>g \<in> set gs. g \<noteq> [] \<and> fits g) \<and> successively no_room gs"

lemma wrapped_Nil [simp]: "wrapped []"
  by (simp add: wrapped_def)

lemma wrapped_Cons:
  "g \<noteq> [] \<Longrightarrow> fits g \<Longrightarrow> wrapped gs \<Longrightarrow> (gs \<noteq> [] \<Longrightarrow> no_room g (hd gs)) \<Longrightarrow> wrapped (g # gs)"
  by (cases gs) (auto simp: wrapped_def)

lemma line_of_eq_Nil: "list_all word ws \<Longrightarrow> line_of ws = [] \<longleftrightarrow> ws = []"
  by (induction ws rule: induct_list012) auto

lemma wrap_words_groups:
  assumes "list_all word (ws @ words)" "ws \<noteq> []" "fits ws"
  shows "\<exists>gs. wrap_words words (line_of ws) (RuneCount (line_of ws)) = map (\<lambda>g. ''// '' @ line_of g) gs \<and>
    concat gs = ws @ words \<and> wrapped gs \<and> gs \<noteq> [] \<and> hd (hd gs) = hd ws"
  using assms
proof (induction words arbitrary: ws)
  case Nil
  then show ?case by (intro exI [of _ "[ws]"]) (auto simp: gP_def wrapped_def line_of_eq_Nil)
next
  case (Cons w words)
  have pos: "0 < RuneCount (line_of ws)" using Cons.prems by (intro RuneCount_pos) (simp add: line_of_eq_Nil)
  show ?case
  proof (cases "RuneCount (line_of ws) + RuneCount w + 1 > commentWidth")
    case True
    obtain gs where "wrap_words words (line_of [w]) (RuneCount (line_of [w])) = map (\<lambda>g. ''// '' @ line_of g) gs"
        "concat gs = [w] @ words" "wrapped gs" "gs \<noteq> []" "hd (hd gs) = hd [w]"
      using Cons.IH [of "[w]"] Cons.prems by (auto simp: fits_def)
    with True pos Cons.prems show ?thesis
      by (intro exI [of _ "ws # gs"]) (auto simp: gP_def no_room_def intro: wrapped_Cons)
  next
    case False
    have line: "line_of (ws @ [w]) = line_of ws @ '' '' @ w" using Cons.prems by (simp add: Join_append)
    have "fits (ws @ [w])" using False unfolding fits_def line RuneCount_space by simp
    then obtain gs where "wrap_words words (line_of (ws @ [w])) (RuneCount (line_of (ws @ [w]))) = map (\<lambda>g. ''// '' @ line_of g) gs"
        "concat gs = (ws @ [w]) @ words" "wrapped gs" "gs \<noteq> []" "hd (hd gs) = hd (ws @ [w])"
      using Cons.IH [of "ws @ [w]"] Cons.prems by auto
    with False pos Cons.prems show ?thesis
      unfolding line RuneCount_space by (intro exI [of _ gs]) (simp add: ac_simps)
  qed
qed

lemma wrapComments_groups:
  "\<exists>gs. wrapComments elems = map (\<lambda>g. ''// '' @ line_of g) gs \<and> concat gs = Fields (concat elems) \<and> wrapped gs"
proof (cases "Fields (concat elems)")
  case Nil
  then show ?thesis by (intro exI [of _ "[]"]) (simp add: wrapComments_def)
next
  case (Cons w words)
  then have ws: "list_all word ([w] @ words)" using Fields_words [of _ "concat elems"] by (auto simp: list_all_iff)
  have "wrapComments elems = wrap_words words (line_of [w]) (RuneCount (line_of [w]))"
    using Cons by (simp add: wrapComments_def)
  with wrap_words_groups [OF ws] Cons show ?thesis by (auto simp: fits_def)
qed

text \<open>C26. Comments. Wrapping keeps every word of the text in order; every line of the comment starts
  with the comment marker, is at most 100 characters wide unless it is one word that is too long,
  and ends only where the next word does not fit.\<close>

theorem wrap_comments:
  "concat (map (\<lambda>l. Fields (drop 3 l)) (wrapComments elems)) = Fields (concat elems) \<and>
   (\<forall>l \<in> set (wrapComments elems).
     HasPrefix l ''// '' \<and> (RuneCount (drop 3 l) \<le> 97 \<or> length (Fields (drop 3 l)) = 1)) \<and>
   successively (\<lambda>l l'. 97 < RuneCount (drop 3 l) + 1 + RuneCount (hd (Fields (drop 3 l')))) (wrapComments elems)"
    (is "?words \<and> ?width \<and> ?greedy")
proof (intro conjI)
  obtain gs where gs: "wrapComments elems = map (\<lambda>g. ''// '' @ line_of g) gs"
      "concat gs = Fields (concat elems)" "wrapped gs"
    using wrapComments_groups by blast
  have words: "list_all word g" if "g \<in> set gs" for g
    using Fields_words [of _ "concat elems"] that by (auto simp: list_all_iff gs(2) [symmetric])
  have fields: "Fields (line_of g) = g" if "g \<in> set gs" for g using Fields_Join words [OF that] .
  show ?words by (simp add: gs comp_def fields cong: map_cong)
  show ?width using gs(3) fields by (auto simp: gs(1) wrapped_def fits_def HasPrefix_iff)
  show ?greedy
    using gs(3) fields unfolding gs(1) wrapped_def
    by (auto simp: successively_map no_room_def elim!: successively_mono [rotated])
qed

theorem wrap_comments_witness:
  "\<exists>a b. wrapComments [replicate 50 (CHR ''a''), '' '', replicate 60 (CHR ''b'')] = [''// '' @ a, ''// '' @ b] \<and>
     Fields a @ Fields b = [replicate 50 (CHR ''a''), replicate 60 (CHR ''b'')] \<and> RuneCount a \<le> 97"
proof -
  let ?e = "[replicate 50 (CHR ''a''), '' '', replicate 60 (CHR ''b'')]"
  have *: "wrapComments ?e = [''// '' @ replicate 50 (CHR ''a''), ''// '' @ replicate 60 (CHR ''b'')]"
    by code_simp
  have "RuneCount (replicate 50 (CHR ''a'')) \<le> 97"
    using wrap_comments [of ?e] by code_simp
  moreover have "Fields (replicate 50 (CHR ''a'')) @ Fields (replicate 60 (CHR ''b'')) =
      [replicate 50 (CHR ''a''), replicate 60 (CHR ''b'')]"
    using wrap_comments [of ?e] by code_simp
  ultimately show ?thesis using * by blast
qed

subsection \<open>The names that a file declares\<close>

definition ident_char :: "char \<Rightarrow> bool" where
  "ident_char c \<longleftrightarrow> is_letter c \<or> is_digit c"

text \<open>The name that a line of Go declares at the top level: a type, a function without a receiver, or a
  constant or variable of a group.\<close>

definition declared :: "string \<Rightarrow> string list" where
  "declared l =
     (if HasPrefix l ''type '' then [takeWhile ident_char (drop 5 l)]
      else if HasPrefix l ''func '' then (if HasPrefix l ''func ('' then [] else [takeWhile ident_char (drop 5 l)])
      else if ident_char (hd (l @ '' '')) \<and> HasPrefix (dropWhile ident_char l) '' = '' then [takeWhile ident_char l]
      else [])"

lemma ident_char_simps [simp]:
  "\<not> ident_char (CHR '' '')" "\<not> ident_char (CHR ''('')" "\<not> ident_char (CHR '')'')" "\<not> ident_char (CHR ''.'')"
  "\<not> ident_char (CHR ''/'')" "\<not> ident_char (CHR ''{'')" "\<not> ident_char (CHR ''}'')" "\<not> ident_char (CHR '':'')"
  "\<not> ident_char (CHR '','')" "\<not> ident_char (CHR ''*'')" "\<not> ident_char (CHR ''='')"
  "ident_char (CHR ''_'')"
  by (simp_all add: ident_char_def is_letter_def is_digit_def in_range_def)

lemma ident_char_letters [simplified, simp]:
  "list_all ident_char ''abcdefghijklmnopqrstuvwxyzABCDEFGHIJKLMNOPQRSTUVWXYZ''"
  by (simp add: ident_char_def is_letter_def in_range_def)

definition declared_in :: "string list \<Rightarrow> string list" where
  "declared_in ls = concat (map declared ls)"

lemma declared_in_simps [simp]:
  "declared_in [] = []" "declared_in (l # ls) = declared l @ declared_in ls" "declared_in (xs @ ys) = declared_in xs @ declared_in ys"
  by (simp_all add: declared_in_def)

lemma declared_comment: "HasPrefix l ''//'' \<Longrightarrow> declared l = []"
  by (auto simp: declared_def HasPrefix_iff)

lemma declared_wrapComments [simp]: "declared_in (wrapComments elems) = []"
proof -
  obtain gs where "wrapComments elems = map (\<lambda>g. ''// '' @ line_of g) gs" using wrapComments_groups by blast
  then show ?thesis by (auto simp: declared_in_def HasPrefix_iff intro: declared_comment)
qed

lemma TrimSpace_comment: "HasPrefix s ''//'' \<Longrightarrow> HasPrefix (TrimSpace s) ''//''"
proof -
  assume "HasPrefix s ''//''"
  then obtain t where s: "s = CHR ''/'' # CHR ''/'' # t" by (auto simp: HasPrefix_iff)
  have "dropWhile is_space (rev s) = dropWhile is_space (rev t) @ ''//''"
    using dropWhile_append3 [of is_space "CHR ''/''" "rev t" "''/''"] by (simp add: s is_space_def)
  then show ?thesis unfolding TrimSpace_def s by (simp add: is_space_def HasPrefix_iff)
qed

lemma declared_leadingComments: "c = [] \<or> HasPrefix c ''//'' \<Longrightarrow> declared_in (leadingComments c b) = []"
  by (auto simp: leadingComments_def deprecated_def gP_def HasPrefix_iff intro!: declared_comment TrimSpace_comment)

lemma HasPrefix_split: "HasPrefix l (p @ c # q) \<Longrightarrow> list_all f p \<Longrightarrow> \<not> f c \<Longrightarrow> takeWhile f l = p \<and> (\<exists>t. dropWhile f l = c # t)"
  by (auto simp: HasPrefix_iff list_all_iff takeWhile_tail dropWhile_append3 dropWhile_eq_Nil_conv)

lemma HasPrefix_keyword:
  assumes "HasPrefix l ''type '' \<or> HasPrefix l ''func ''" "\<And>c. f c \<longleftrightarrow> ident_char c \<or> c = CHR ''.'' \<and> dot"
  shows "takeWhile f l \<in> {''type'', ''func''} \<and> (\<exists>t. dropWhile f l = CHR '' '' # t)"
  using assms HasPrefix_split [of l "''type''" "CHR '' ''" "[]" f] HasPrefix_split [of l "''func''" "CHR '' ''" "[]" f]
    by (auto simp: list_all_iff)

lemma declared_none:
  assumes "list_all (\<lambda>c. ident_char c \<or> c = CHR ''.'') n" "\<not> ident_char c" "c \<noteq> CHR ''.''" "c \<noteq> CHR '' ''"
  shows "declared (n @ c # t) = []"
proof -
  let ?f = "\<lambda>c. ident_char c \<or> c = CHR ''.''"
  have drop: "dropWhile ?f (n @ c # t) = c # t"
    using assms by (auto simp: list_all_iff dropWhile_append3 dropWhile_eq_Nil_conv)
  have "\<not> (HasPrefix (n @ c # t) ''type '' \<or> HasPrefix (n @ c # t) ''func '')"
    using HasPrefix_keyword [of "n @ c # t" ?f True] assms(4) unfolding drop by auto
  moreover have "\<not> HasPrefix (dropWhile ident_char (n @ c # t)) '' = ''"
    using assms by (induction n) (auto simp: HasPrefix_iff)
  ultimately show ?thesis by (simp add: declared_def)
qed

lemma declared_value:
  assumes "list_all ident_char n" "n \<noteq> []" "n \<noteq> ''type''" "n \<noteq> ''func''"
  shows "declared (n @ '' = '' @ t) = [n]"
proof -
  let ?l = "n @ '' = '' @ t"
  have take: "takeWhile ident_char ?l = n" and drop: "dropWhile ident_char ?l = '' = '' @ t"
    using assms by (auto simp: list_all_iff dropWhile_append3 dropWhile_eq_Nil_conv takeWhile_tail)
  have "\<not> (HasPrefix ?l ''type '' \<or> HasPrefix ?l ''func '')"
    using HasPrefix_keyword [of ?l ident_char False] assms unfolding take by auto
  moreover have "ident_char (hd (?l @ '' ''))" using assms by (cases n) auto
  ultimately show ?thesis
    using HasPrefix_append [of "'' = ''" t] unfolding declared_def take drop by simp
qed

lemma declared_type:
  assumes "list_all ident_char n" "\<not> ident_char c"
  shows "declared (''type '' @ n @ c # t) = [n]"
  using assms by (auto simp: declared_def HasPrefix_iff list_all_iff takeWhile_tail)

lemma declared_func:
  assumes "list_all ident_char n" "n \<noteq> []" "\<not> ident_char c"
  shows "declared (''func '' @ n @ c # t) = [n]"
  using assms by (cases n) (auto simp: declared_def HasPrefix_iff list_all_iff takeWhile_tail)

text \<open>What \<open>protogen\<close> guarantees: Go names are identifiers, those of services start with a capital,
  qualified identifiers have a dot at most, and comments start with a comment marker.\<close>

abbreviation comment :: "string \<Rightarrow> bool" where
  "comment c \<equiv> c = [] \<or> HasPrefix c ''//''"

definition go_name :: "string \<Rightarrow> bool" where
  "go_name n \<longleftrightarrow> n \<noteq> [] \<and> list_all ident_char n"

definition plain_qualifier :: "qualifier \<Rightarrow> bool" where
  "plain_qualifier g \<longleftrightarrow> (\<forall>x. g x \<noteq> [] \<and> list_all (\<lambda>c. ident_char c \<or> c = CHR ''.'') (g x))"

definition plain_method :: "proto_service \<Rightarrow> proto_method \<Rightarrow> bool" where
  "plain_method service m \<longleftrightarrow> pm_ParentGoName m = ps_GoName service \<and> go_name (pm_GoName m) \<and> comment (pm_Comments m)"

definition plain_service :: "proto_service \<Rightarrow> bool" where
  "plain_service service \<longleftrightarrow> go_name (ps_GoName service) \<and> in_range CHR ''A'' CHR ''Z'' (hd (ps_GoName service)) \<and>
     (\<forall>m \<in> set (ps_Methods service). plain_method service m)"

definition plain_file :: "proto_file \<Rightarrow> bool" where
  "plain_file file \<longleftrightarrow> (\<forall>service \<in> set (pf_Services file). plain_service service) \<and> go_name (pf_GoPackageName file) \<and>
     (\<forall>c \<in> set (pf_SyntaxDetached file) \<union> set (pf_PackageDetached file). comment c) \<and>
     comment (pf_SyntaxLeading file) \<and> comment (pf_PackageLeading file)"

lemma ident_char_lower: "ident_char c \<Longrightarrow> ident_char (lower_char c)"
  by (auto simp: ident_char_def is_letter_def lower_char_def in_range_def char_add_def)

lemma unexport_ident: "list_all ident_char n \<Longrightarrow> list_all ident_char (unexport n)"
  by (cases n) (auto simp: unexport_def ToLower_def Let_def ident_char_lower)

lemma unexport_nonempty: "unexport n = [] \<longleftrightarrow> n = []"
  by (cases n) (auto simp: unexport_def ToLower_def Let_def go_keywords_def)

text \<open>The declarations of a service, in the order of the file.\<close>

definition streaming :: "proto_service \<Rightarrow> proto_method list" where
  "streaming service = filter (\<lambda>m. methodCardinality m \<noteq> StreamTypeUnary) (ps_Methods service)"

definition service_names :: "proto_service \<Rightarrow> string list" where
  "service_names s =
     map (specVar s) (ps_Methods s) @
     [ps_GoName s @ ''Client'', ''New'' @ ps_GoName s @ ''Client''] @
     map (clientStreamType s) (streaming s) @
     [ps_GoName s @ ''Handler'', ''Register'' @ ps_GoName s @ ''Handler''] @
     map (serverStreamType s) (streaming s) @
     [''Unimplemented'' @ ps_GoName s @ ''Handler'', clientStruct s, adapterStruct s]"

lemma plain_service_name: "plain_service s \<Longrightarrow> ps_GoName s \<noteq> [] \<and> list_all ident_char (ps_GoName s)"
  by (simp add: plain_service_def go_name_def)

lemma plain_methodD:
  "plain_service s \<Longrightarrow> m \<in> set (ps_Methods s) \<Longrightarrow>
     pm_ParentGoName m = ps_GoName s \<and> list_all ident_char (pm_GoName m) \<and> pm_GoName m \<noteq> [] \<and> comment (pm_Comments m)"
  by (simp add: plain_service_def plain_method_def go_name_def)

lemma declared_in_map: "(\<And>x. x \<in> set xs \<Longrightarrow> declared_in (f x) = h x) \<Longrightarrow> declared_in (concat (map f xs)) = concat (map h xs)"
  by (induction xs) auto

lemma declared_service_constant:
  "plain_service s \<Longrightarrow> declared_in (service_constant s) = [serviceNameConst s]"
  using declared_value [of "ps_GoName s @ ''Name''" "dquote @ ps_FullName s @ dquote"] plain_service_name [of s]
  by (simp add: service_constant_def serviceNameConst_def gP_def)

lemma declared_procedure_constant:
  "plain_service s \<Longrightarrow> m \<in> set (ps_Methods s) \<Longrightarrow> declared_in (procedure_constant s m) = [procedureConstName m]"
  using declared_value [of "ps_GoName s @ pm_GoName m @ ''Procedure''" "dquote @ Sprintf ''/%s/%s'' [ps_FullName s, pm_Name m] @ dquote"]
    plain_service_name [of s] plain_methodD [of s m]
  by (simp add: procedure_constant_def procedureConstName_def gP_def)

text \<open>Rules that read a line of which the first characters are known.\<close>

named_theorems reading \<open>evaluation of the declarations of a line\<close>

lemma HasPrefix_simps [reading]:
  "HasPrefix l []" "\<not> HasPrefix [] (b # p)" "HasPrefix (a # l) (b # p) \<longleftrightarrow> a = b \<and> HasPrefix l p"
  by (auto simp: HasPrefix_iff)

lemma declared_simps [reading]:
  "declared [] = []"
  "declared (CHR ''t'' # CHR ''y'' # CHR ''p'' # CHR ''e'' # CHR '' '' # l) = [takeWhile ident_char l]"
  "declared (CHR ''f'' # CHR ''u'' # CHR ''n'' # CHR ''c'' # CHR '' '' # l) =
     (if HasPrefix l ''('' then [] else [takeWhile ident_char l])"
  by (simp_all add: declared_def HasPrefix_simps)

lemma declared_other [reading]:
  "takeWhile ident_char l \<noteq> ''type'' \<Longrightarrow> takeWhile ident_char l \<noteq> ''func'' \<Longrightarrow>
   \<not> HasPrefix (dropWhile ident_char l) '' = '' \<Longrightarrow> declared l = []"
  using HasPrefix_keyword [of l ident_char False] by (auto simp: declared_def HasPrefix_iff)

lemma takeWhile_ident [reading]: "list_all ident_char n \<Longrightarrow> takeWhile ident_char (n @ t) = n @ takeWhile ident_char t"
  "list_all ident_char n \<Longrightarrow> takeWhile ident_char n = n"
  by (auto simp: list_all_iff)

lemma declared_signature [reading]: "list_all ident_char n \<Longrightarrow> declared (n @ CHR ''('' # t) = []"
  by (rule declared_none) (auto simp: list_all_iff)

lemma declared_qualified [reading]: "plain_qualifier g \<Longrightarrow> declared (g x @ CHR ''{'' # t) = []"
  by (rule declared_none) (auto simp: plain_qualifier_def)

lemma qualified_no_value [reading]:
  assumes "plain_qualifier g"
  shows "\<not> HasPrefix (g x @ t) (CHR ''='' # p)" "\<not> HasPrefix (g x) (CHR ''='' # p)"
proof -
  have "g x \<noteq> []" "list_all (\<lambda>c. ident_char c \<or> c = CHR ''.'') (g x)"
    using assms unfolding plain_qualifier_def by auto
  then show "\<not> HasPrefix (g x @ t) (CHR ''='' # p)" "\<not> HasPrefix (g x) (CHR ''='' # p)"
    by (cases "g x"; auto simp: HasPrefix_iff)+
qed

lemma name_no_value [reading]:
  "go_name n \<Longrightarrow> \<not> HasPrefix (n @ t) (CHR ''='' # p)" "go_name n \<Longrightarrow> \<not> HasPrefix n (CHR ''='' # p)"
  by (cases n; auto simp: go_name_def HasPrefix_iff)+

lemmas printed = gP_def Let_def reading

lemma declared_generatePreamble:
  assumes "plain_file file"
  shows "declared_in (generatePreamble arg0
    (file\<lparr>pf_GoPackageName := pf_GoPackageName file @ suffix, pf_GeneratedFilenamePrefix := prefix\<rparr>)) = []"
  using assms declared_in_map [of "pf_SyntaxDetached file" "\<lambda>c. leadingComments c False" "\<lambda>_. []"]
    declared_in_map [of "pf_PackageDetached file" "\<lambda>c. leadingComments c False" "\<lambda>_. []"]
  by (simp add: generatePreamble_def plain_file_def declared_leadingComments printed)

lemma declared_generateServiceNameConstants:
  assumes "\<forall>s \<in> set services. plain_service s"
  shows "declared_in (generateServiceNameConstants services) =
    map serviceNameConst services @ concat (map (\<lambda>s. map procedureConstName (ps_Methods s)) services)"
proof -
  have "declared_in (concat (map service_constant services)) = concat (map (\<lambda>s. [serviceNameConst s]) services)"
    using assms by (intro declared_in_map) (simp add: declared_service_constant)
  moreover have "declared_in (concat (map (procedure_constant s) (ps_Methods s))) = map procedureConstName (ps_Methods s)"
    if "s \<in> set services" for s
    using declared_in_map [of "ps_Methods s" "procedure_constant s" "\<lambda>m. [procedureConstName m]"] assms that
    by (simp add: declared_procedure_constant)
  then have "declared_in (concat (map (\<lambda>s. concat (map (procedure_constant s) (ps_Methods s))) services)) =
      concat (map (\<lambda>s. map procedureConstName (ps_Methods s)) services)"
    by (rule declared_in_map)
  ultimately show ?thesis
    by (auto simp: generateServiceNameConstants_def printed concat_eq_Nil_conv)
qed

lemma declared_spec_var_lines:
  assumes "plain_qualifier g" "plain_service s" "m \<in> set (ps_Methods s)"
  shows "declared_in (spec_var_lines g d s m) = [specVar s m]"
proof -
  have "declared (specVar s m @ '' = '' @ t) = [specVar s m]" for t
    using plain_service_name [OF assms(2)] plain_methodD [OF assms(2,3)]
      unexport_ident [of "ps_GoName s"] unexport_nonempty [of "ps_GoName s"]
    by (intro declared_value) (auto simp: specVar_def append_eq_Cons_conv)
  with assms(1) show ?thesis by (simp add: spec_var_lines_def printed)
qed

lemma declared_generateSpecVars:
  assumes "plain_qualifier g" "plain_service s"
  shows "declared_in (generateSpecVars g file s) = map (specVar s) (ps_Methods s)"
  using declared_in_map [of "ps_Methods s" "spec_var_lines g (pf_GoDescriptorIdent file) s" "\<lambda>m. [specVar s m]"] assms
  by (simp add: generateSpecVars_def printed declared_spec_var_lines)

lemma declared_client_signature:
  assumes "plain_service s" "m \<in> set (ps_Methods s)"
  shows "declared_in (client_signature g s m) = []"
  using plain_methodD [OF assms] by (simp add: client_signature_def printed declared_leadingComments)

lemma declared_server_signature:
  assumes "plain_service s" "m \<in> set (ps_Methods s)"
  shows "declared_in (server_signature g s m) = []"
  using plain_methodD [OF assms] by (simp add: server_signature_def printed declared_leadingComments)

lemma declared_generateClientInterface:
  assumes "plain_service s"
  shows "declared_in (generateClientInterface g s) = [ps_GoName s @ ''Client'']"
  using declared_in_map [of "ps_Methods s" "client_signature g s" "\<lambda>_. []"] assms plain_service_name [OF assms]
  by (simp add: generateClientInterface_def printed declared_client_signature deprecated_def)

lemma declared_generateServerInterface:
  assumes "plain_service s"
  shows "declared_in (generateServerInterface g s) = [ps_GoName s @ ''Handler'']"
  using declared_in_map [of "ps_Methods s" "server_signature g s" "\<lambda>_. []"] assms plain_service_name [OF assms]
  by (simp add: generateServerInterface_def printed declared_server_signature deprecated_def)

lemma declared_generateClientConstructor:
  assumes "plain_qualifier g" "plain_service s"
  shows "declared_in (generateClientConstructor g s) = [''New'' @ ps_GoName s @ ''Client'']"
  using assms plain_service_name [of s] by (simp add: generateClientConstructor_def printed)

lemma declared_generateRegisterHandler:
  assumes "plain_qualifier g" "plain_service s"
  shows "declared_in (generateRegisterHandler g s) = [''Register'' @ ps_GoName s @ ''Handler'']"
  using declared_in_map [of "ps_Methods s" "register_line g s" "\<lambda>_. []"] assms plain_service_name [of s]
  by (simp add: generateRegisterHandler_def printed register_line_def)

lemma declared_client_stream_lines:
  assumes "plain_qualifier g" "plain_service s" "m \<in> set (ps_Methods s)"
  shows "declared_in (client_stream_lines g s m) = (if methodCardinality m \<noteq> StreamTypeUnary then [clientStreamType s m] else [])"
  using assms(1) plain_service_name [OF assms(2)] plain_methodD [OF assms(2,3)]
  by (simp add: client_stream_lines_def clientStreamType_def printed)

lemma declared_server_stream_lines:
  assumes "plain_qualifier g" "plain_service s" "m \<in> set (ps_Methods s)"
  shows "declared_in (server_stream_lines g s m) = (if methodCardinality m \<noteq> StreamTypeUnary then [serverStreamType s m] else [])"
  using assms(1) plain_service_name [OF assms(2)] plain_methodD [OF assms(2,3)]
  by (simp add: server_stream_lines_def serverStreamType_def printed)

lemma concat_map_filter: "concat (map (\<lambda>x. if f x then [h x] else []) xs) = map h (filter f xs)"
  by (induction xs) auto

lemma declared_generatePerRPCClientStreams:
  assumes "plain_qualifier g" "plain_service s"
  shows "declared_in (generatePerRPCClientStreams g s) = map (clientStreamType s) (streaming s)"
  unfolding generatePerRPCClientStreams_def streaming_def concat_map_filter [symmetric]
  using assms by (intro declared_in_map declared_client_stream_lines)

lemma declared_generatePerRPCServerStreams:
  assumes "plain_qualifier g" "plain_service s"
  shows "declared_in (generatePerRPCServerStreams g s) = map (serverStreamType s) (streaming s)"
  unfolding generatePerRPCServerStreams_def streaming_def concat_map_filter [symmetric]
  using assms by (intro declared_in_map declared_server_stream_lines)

lemma go_name_clientStreamType:
  "plain_service s \<Longrightarrow> m \<in> set (ps_Methods s) \<Longrightarrow> go_name (clientStreamType s m)"
  using plain_service_name [of s] plain_methodD [of s m] by (simp add: go_name_def clientStreamType_def)

lemma declared_client_method_lines:
  assumes "plain_qualifier g" "plain_service s" "m \<in> set (ps_Methods s)"
  shows "declared_in (client_method_lines g s m) = []"
  using assms(1) go_name_clientStreamType [OF assms(2,3)] by (simp add: client_method_lines_def printed)

lemma declared_adapter_method_lines: "plain_qualifier g \<Longrightarrow> declared_in (adapter_method_lines g s m) = []"
  by (simp add: adapter_method_lines_def printed)

lemma declared_unimplemented_method_lines: "plain_qualifier g \<Longrightarrow> declared_in (unimplemented_method_lines g s m) = []"
  by (simp add: unimplemented_method_lines_def printed)

lemma declared_generateUnimplementedServerImplementation:
  assumes "plain_qualifier g" "plain_service s"
  shows "declared_in (generateUnimplementedServerImplementation g s) = [''Unimplemented'' @ ps_GoName s @ ''Handler'']"
  using declared_in_map [of "ps_Methods s" "unimplemented_method_lines g s" "\<lambda>_. []"] assms plain_service_name [of s]
  by (simp add: generateUnimplementedServerImplementation_def printed declared_unimplemented_method_lines)

lemma declared_generateClientImplementation:
  assumes "plain_qualifier g" "plain_service s"
  shows "declared_in (generateClientImplementation g s) = [clientStruct s]"
  using declared_in_map [of "ps_Methods s" "client_method_lines g s" "\<lambda>_. []"] assms
    unexport_ident [of "ps_GoName s"] plain_service_name [of s]
  by (simp add: generateClientImplementation_def printed declared_client_method_lines clientStruct_def)

lemma declared_generateHandlerAdapter:
  assumes "plain_qualifier g" "plain_service s"
  shows "declared_in (generateHandlerAdapter g s) = [adapterStruct s]"
  using declared_in_map [of "ps_Methods s" "adapter_method_lines g s" "\<lambda>_. []"] assms
    unexport_ident [of "ps_GoName s"] plain_service_name [of s]
  by (simp add: generateHandlerAdapter_def printed declared_adapter_method_lines adapterStruct_def)

lemma declared_generateService:
  assumes "plain_qualifier g" "plain_service s"
  shows "declared_in (generateService g file s) = service_names s"
  using assms
  by (simp add: generateService_def service_names_def declared_generateSpecVars declared_generateClientInterface
      declared_generateClientConstructor declared_generatePerRPCClientStreams declared_generateServerInterface
      declared_generateRegisterHandler declared_generatePerRPCServerStreams
      declared_generateUnimplementedServerImplementation declared_generateClientImplementation
      declared_generateHandlerAdapter)

text \<open>The names of a file.\<close>

definition file_names :: "proto_service list \<Rightarrow> string list" where
  "file_names services =
     map serviceNameConst services @ concat (map (\<lambda>s. map procedureConstName (ps_Methods s)) services) @
     concat (map service_names services)"

lemma declared_generate:
  assumes "generate env file suffix = Inr (Some gf)" "plain_qualifier (ge_QualifiedGoIdent env)" "plain_file file"
  shows "declared_in (gf_lines gf) = file_names (pf_Services file)"
proof -
  define ext where "ext p = file\<lparr>pf_GoPackageName := pf_GoPackageName file @ suffix, pf_GeneratedFilenamePrefix := p\<rparr>" for p
  have plain: "ext (pf_GeneratedFilenamePrefix file) = file" if "suffix = []" using that by (simp add: ext_def)
  obtain p where lines: "gf_lines gf = generatePreamble (ge_arg0 env) (ext p) @ generateServiceNameConstants (pf_Services file) @
      concat (map (generateService (ge_QualifiedGoIdent env) (ext p)) (pf_Services file))"
  proof (cases "suffix = []")
    case True
    with assms(1) plain show ?thesis
      by (intro that [of "pf_GeneratedFilenamePrefix file"]) (auto simp: generate_def Let_def split: if_splits)
  next
    case False
    with assms(1) show ?thesis by (auto simp: generate_def Let_def ext_def intro: that split: if_splits)
  qed
  have services: "\<forall>s \<in> set (pf_Services file). plain_service s" using assms(3) by (simp add: plain_file_def)
  then have "declared_in (concat (map (generateService (ge_QualifiedGoIdent env) (ext p)) (pf_Services file))) =
      concat (map service_names (pf_Services file))"
    using assms(2) by (intro declared_in_map) (simp add: declared_generateService)
  with assms(3) services show ?thesis
    by (simp add: lines file_names_def ext_def declared_generatePreamble declared_generateServiceNameConstants)
qed

subsection \<open>When they are distinct\<close>

text \<open>Names of different kinds differ in their last characters or in the case of the first one.\<close>

definition name_kind :: "string \<Rightarrow> string \<times> string \<times> bool" where
  "name_kind n =
     (let e = take 4 (rev n) in (e, if e = ''maer'' then drop 6 (take 7 (rev n)) else [], in_range CHR ''A'' CHR ''Z'' (hd n)))"

lemma distinct_kinds:
  "list_all2 (\<lambda>xs k. \<forall>x \<in> set xs. f x = k) xss ks \<Longrightarrow> distinct ks \<Longrightarrow>
     distinct (concat xss) \<longleftrightarrow> list_all distinct xss"
proof (induction xss ks rule: list_all2_induct)
  case (Cons xs xss k ks)
  have "f x \<in> set ks" if "x \<in> set (concat xss)" for x
    using Cons.hyps(2) that by (fastforce simp: list_all2_conv_all_nth in_set_conv_nth [of _ xss])
  then have "set xs \<inter> set (concat xss) = {}" using Cons.hyps(1) Cons.prems by force
  with Cons show ?case by (simp del: set_concat)
qed simp

lemma mset_concat_append: "mset (concat (map (\<lambda>x. f x @ h x) xs)) = mset (concat (map f xs)) + mset (concat (map h xs))"
  by (induction xs) auto

lemma mset_concat_Cons: "mset (concat (map (\<lambda>x. f x # h x) xs)) = mset (map f xs) + mset (concat (map h xs))"
  by (induction xs) auto

lemma mset_concat_single: "concat (map (\<lambda>x. [f x]) xs) = map f xs"
  by (induction xs) auto

abbreviation pairs :: "(proto_service \<Rightarrow> proto_method list) \<Rightarrow> (proto_service \<Rightarrow> proto_method \<Rightarrow> string) \<Rightarrow> proto_service list \<Rightarrow> string list" where
  "pairs ms f services \<equiv> concat (map (\<lambda>s. map (f s) (ms s)) services)"

definition name_classes :: "proto_service list \<Rightarrow> string list list" where
  "name_classes ss =
     [map serviceNameConst ss, pairs ps_Methods (\<lambda>s. procedureConstName) ss, pairs ps_Methods specVar ss,
      map (\<lambda>s. ps_GoName s @ ''Client'') ss @ map (\<lambda>s. ''New'' @ ps_GoName s @ ''Client'') ss,
      pairs streaming clientStreamType ss,
      map (\<lambda>s. ps_GoName s @ ''Handler'') ss @ map (\<lambda>s. ''Register'' @ ps_GoName s @ ''Handler'') ss @
        map (\<lambda>s. ''Unimplemented'' @ ps_GoName s @ ''Handler'') ss,
      pairs streaming serverStreamType ss, map clientStruct ss, map adapterStruct ss]"

lemma mset_file_names: "mset (file_names ss) = mset (concat (name_classes ss))"
  by (simp add: file_names_def name_classes_def service_names_def [abs_def] mset_concat_append mset_concat_Cons ac_simps
      del: mset_map)

text \<open>Lower-casing the first letter of a capitalised name loses nothing, even where the result is
  a keyword.\<close>

lemma lower_char_capital:
  "in_range CHR ''A'' CHR ''Z'' c \<Longrightarrow> (of_char (lower_char c) :: nat) = of_char c + 32"
  by (auto simp: in_range_def lower_char_def char_add_def)

lemma lower_char_inj:
  assumes "in_range CHR ''A'' CHR ''Z'' c" "in_range CHR ''A'' CHR ''Z'' d"
  shows "lower_char c = lower_char d \<longleftrightarrow> c = d"
  using assms lower_char_capital [of c] lower_char_capital [of d] by (metis add_right_cancel of_char_eq_iff)

definition capital :: "string \<Rightarrow> bool" where
  "capital n \<longleftrightarrow> n \<noteq> [] \<and> in_range CHR ''A'' CHR ''Z'' (hd n)"

lemma unexport_capital:
  assumes "capital (c # n)"
  shows "unexport (c # n) = (if lower_char c # n \<in> set go_keywords then CHR ''_'' # lower_char c # n else lower_char c # n)"
    "lower_char c \<noteq> CHR ''_''" "\<not> in_range CHR ''A'' CHR ''Z'' (lower_char c)"
  using assms lower_char_capital [of c]
  by (auto simp: unexport_def ToLower_def capital_def in_range_def)

lemma unexport_append_inj:
  assumes "capital n" "capital n'" "unexport n @ m = unexport n' @ m'"
  shows "n @ m = n' @ m'"
proof -
  obtain c u d v where n: "n = c # u" "n' = d # v" using assms(1,2) by (cases n; cases n') (auto simp: capital_def)
  have caps: "in_range CHR ''A'' CHR ''Z'' c" "in_range CHR ''A'' CHR ''Z'' d" using assms(1,2) by (auto simp: capital_def n)
  show ?thesis
    using assms(3) unexport_capital [of c u] unexport_capital [of d v] assms(1,2) lower_char_inj [OF caps]
    by (auto simp: n split: if_splits)
qed

lemma unexport_not_capital: "capital n \<Longrightarrow> \<not> in_range CHR ''A'' CHR ''Z'' (hd (unexport n @ m))"
  using unexport_capital [of "hd n" "tl n"] by (cases n) (auto simp: capital_def in_range_def)

definition rpcs :: "proto_service list \<Rightarrow> (proto_service \<times> proto_method) list" where
  "rpcs ss = concat (map (\<lambda>s. map (Pair s) (ps_Methods s)) ss)"

definition rpc_name :: "proto_service \<Rightarrow> proto_method \<Rightarrow> string" where
  "rpc_name s m = ps_GoName s @ pm_GoName m"

lemma rpcs_simps [simp]: "rpcs [] = []" "rpcs (s # ss) = map (Pair s) (ps_Methods s) @ rpcs ss"
  by (simp_all add: rpcs_def)

lemma pairs_rpcs: "pairs ps_Methods f ss = map (\<lambda>(s, m). f s m) (rpcs ss)"
  by (induction ss) auto

lemma pairs_streaming:
  "pairs streaming f ss = map (\<lambda>(s, m). f s m) (filter (\<lambda>(s, m). methodCardinality m \<noteq> StreamTypeUnary) (rpcs ss))"
  by (induction ss) (auto simp: streaming_def filter_map comp_def)

lemma in_rpcs: "(s, m) \<in> set (rpcs ss) \<longleftrightarrow> s \<in> set ss \<and> m \<in> set (ps_Methods s)"
  by (auto simp: rpcs_def)

lemma distinct_map_iff:
  "(\<And>x y. x \<in> set xs \<Longrightarrow> y \<in> set xs \<Longrightarrow> f x = f y \<longleftrightarrow> h x = h y) \<Longrightarrow> distinct (map f xs) \<longleftrightarrow> distinct (map h xs)"
  by (auto simp: distinct_map inj_on_def)

lemma distinct_map_finer:
  assumes "distinct (map h xs)" "\<And>x y. x \<in> set xs \<Longrightarrow> y \<in> set xs \<Longrightarrow> f x = f y \<Longrightarrow> h x = h y"
  shows "distinct (map f xs)" "distinct (map f (filter q xs))"
proof -
  have "inj_on f (set xs)" using assms unfolding distinct_map inj_on_def by blast
  then show "distinct (map f xs)" "distinct (map f (filter q xs))"
    using assms(1) inj_on_subset [of f "set xs" "set (filter q xs)"] by (auto simp: distinct_map)
qed

lemma plain_capital: "plain_service s \<Longrightarrow> capital (ps_GoName s)"
  by (simp add: plain_service_def go_name_def capital_def)

lemma capital_append: "capital n \<Longrightarrow> in_range CHR ''A'' CHR ''Z'' (hd (n @ m))"
  by (simp add: capital_def)

lemma name_classes_kinds:
  assumes "\<forall>s \<in> set ss. plain_service s"
  shows "list_all2 (\<lambda>xs k. \<forall>x \<in> set xs. name_kind x = k) (name_classes ss)
    [(''emaN'', [], True), (''erud'', [], True), (''cepS'', [], False), (''tnei'', [], True), (''maer'', ''t'', True),
     (''reld'', [], True), (''maer'', ''r'', True), (''tnei'', [], False), (''reld'', [], False)]"
proof -
  have caps: "capital (ps_GoName s)" if "s \<in> set ss" for s using assms that plain_capital by blast
  have parent: "pm_ParentGoName m = ps_GoName s" if "s \<in> set ss" "m \<in> set (ps_Methods s)" for s m
    using assms that plain_methodD by blast
  have up: "in_range CHR ''A'' CHR ''Z'' (hd (ps_GoName s @ t))"
    and low: "\<not> in_range CHR ''A'' CHR ''Z'' (hd (unexport (ps_GoName s) @ t))" if "s \<in> set ss" for s t
    using capital_append [OF caps [OF that]] unexport_not_capital [OF caps [OF that]] by auto
  have lit: "in_range CHR ''A'' CHR ''Z'' (CHR ''N'')" "in_range CHR ''A'' CHR ''Z'' (CHR ''R'')"
      "in_range CHR ''A'' CHR ''Z'' (CHR ''U'')"
    by (simp_all add: in_range_def)
  show ?thesis
    by (auto simp: name_classes_def name_kind_def serviceNameConst_def procedureConstName_def specVar_def
        clientStreamType_def serverStreamType_def clientStruct_def adapterStruct_def streaming_def parent up low lit)
qed

definition prefixed :: "proto_service list \<Rightarrow> string \<Rightarrow> bool" where
  "prefixed ss p = list_ex (\<lambda>s. list_ex (\<lambda>s'. ps_GoName s' = p @ ps_GoName s) ss) ss"

lemma distinct_prefixed:
  "distinct (map (\<lambda>s. p @ ps_GoName s @ w) ss) \<longleftrightarrow> distinct (map ps_GoName ss)"
  by (rule distinct_map_iff) simp

lemma prefixed_disjoint:
  "set (map (\<lambda>s. ps_GoName s @ w) ss) \<inter> set (map (\<lambda>s. p @ ps_GoName s @ w) ss) = {} \<longleftrightarrow> \<not> prefixed ss p"
proof -
  have "(\<exists>x. x \<in> set (map (\<lambda>s. ps_GoName s @ w) ss) \<and> x \<in> set (map (\<lambda>s. p @ ps_GoName s @ w) ss)) \<longleftrightarrow> prefixed ss p"
    by (auto simp: prefixed_def list_ex_iff image_iff append_assoc [symmetric] simp del: append_assoc)
  then show ?thesis by blast
qed

lemma distinct_prefixed_append:
  "distinct (map (\<lambda>s. ps_GoName s @ w) ss @ map (\<lambda>s. p @ ps_GoName s @ w) ss) \<longleftrightarrow>
     distinct (map ps_GoName ss) \<and> \<not> prefixed ss p"
  unfolding distinct_append distinct_prefixed prefixed_disjoint distinct_prefixed [of "[]", unfolded append_Nil] by simp

lemma distinct_prefixed_append3:
  assumes "p \<noteq> []" "q \<noteq> []" "hd p \<noteq> hd q"
  shows "distinct (map (\<lambda>s. ps_GoName s @ w) ss @ map (\<lambda>s. p @ ps_GoName s @ w) ss @ map (\<lambda>s. q @ ps_GoName s @ w) ss) \<longleftrightarrow>
     distinct (map ps_GoName ss) \<and> \<not> prefixed ss p \<and> \<not> prefixed ss q"
proof -
  have "set (map (\<lambda>s. p @ ps_GoName s @ w) ss) \<inter> set (map (\<lambda>s. q @ ps_GoName s @ w) ss) = {}"
    using assms by (cases p; cases q) auto
  then show ?thesis
    unfolding distinct_append set_append Int_Un_distrib Un_empty distinct_prefixed prefixed_disjoint
      distinct_prefixed [of "[]", unfolded append_Nil] by simp
qed

lemma distinct_classes:
  assumes plain: "\<forall>s \<in> set ss. plain_service s"
  shows "list_all distinct (name_classes ss) \<longleftrightarrow>
    distinct (map ps_GoName ss) \<and> distinct (map (\<lambda>(s, m). rpc_name s m) (rpcs ss)) \<and>
    \<not> prefixed ss ''New'' \<and> \<not> prefixed ss ''Register'' \<and> \<not> prefixed ss ''Unimplemented''"
proof -
  let ?S = "distinct (map ps_GoName ss)" and ?M = "distinct (map (\<lambda>(s, m). rpc_name s m) (rpcs ss))"
  have caps: "capital (ps_GoName s)" if "s \<in> set ss" for s using plain that plain_capital by blast
  have parent: "pm_ParentGoName m = ps_GoName s" if "s \<in> set ss" "m \<in> set (ps_Methods s)" for s m
    using plain that plain_methodD by blast
  have low: "unexport (ps_GoName s) @ t = unexport (ps_GoName s') @ t' \<Longrightarrow> ps_GoName s @ t = ps_GoName s' @ t'"
    if "s \<in> set ss" "s' \<in> set ss" for s s' t t'
    using unexport_append_inj caps that by blast
  have "distinct (map serviceNameConst ss) \<longleftrightarrow> ?S" by (rule distinct_map_iff) (simp add: serviceNameConst_def)
  moreover have "distinct (pairs ps_Methods (\<lambda>s. procedureConstName) ss) \<longleftrightarrow> ?M"
    unfolding pairs_rpcs
    by (rule distinct_map_iff) (auto simp: in_rpcs procedureConstName_def rpc_name_def parent append_assoc [symmetric] simp del: append_assoc)
  moreover have "?M \<Longrightarrow> distinct (pairs ps_Methods specVar ss)"
    unfolding pairs_rpcs
    by (erule distinct_map_finer(1) [where f = "\<lambda>(s, m). specVar s m"])
      (auto simp: in_rpcs specVar_def rpc_name_def append_assoc [symmetric] simp del: append_assoc dest: low)
  moreover have "?M \<Longrightarrow> distinct (pairs streaming clientStreamType ss)"
    unfolding pairs_streaming
    by (erule distinct_map_finer(2) [where f = "\<lambda>(s, m). clientStreamType s m"])
      (auto simp: clientStreamType_def rpc_name_def append_assoc [symmetric] simp del: append_assoc)
  moreover have "?M \<Longrightarrow> distinct (pairs streaming serverStreamType ss)"
    unfolding pairs_streaming
    by (erule distinct_map_finer(2) [where f = "\<lambda>(s, m). serverStreamType s m"])
      (auto simp: serverStreamType_def rpc_name_def append_assoc [symmetric] simp del: append_assoc)
  moreover have "?S \<Longrightarrow> distinct (map clientStruct ss)"
    using low [of _ _ "[]" "[]"] by (simp add: distinct_map inj_on_def clientStruct_def)
  moreover have "?S \<Longrightarrow> distinct (map adapterStruct ss)"
    using low [of _ _ "[]" "[]"] by (simp add: distinct_map inj_on_def adapterStruct_def)
  moreover have "distinct (map (\<lambda>s. ps_GoName s @ ''Handler'') ss @ map (\<lambda>s. ''Register'' @ ps_GoName s @ ''Handler'') ss @
      map (\<lambda>s. ''Unimplemented'' @ ps_GoName s @ ''Handler'') ss) \<longleftrightarrow>
      ?S \<and> \<not> prefixed ss ''Register'' \<and> \<not> prefixed ss ''Unimplemented''"
    by (rule distinct_prefixed_append3) simp_all
  ultimately show ?thesis
    unfolding name_classes_def list.pred_inject(2) distinct_prefixed_append using list.pred_inject(1) [of "distinct :: string list \<Rightarrow> bool"] by argo
qed

text \<open>C20. Declared names. When the names of \<open>protogen\<close> are identifiers, a generated file declares no
  name twice exactly when its services have different names, no two pairs of a service and a method
  have the same concatenated name, and no service is called \<open>New\<close>, \<open>Register\<close> or \<open>Unimplemented\<close>
  followed by the name of a service.\<close>

theorem generated_names:
  assumes "generate env file suffix = Inr (Some gf)" "plain_qualifier (ge_QualifiedGoIdent env)" "plain_file file"
  shows "distinct (concat (map declared (gf_lines gf))) \<longleftrightarrow>
    distinct (map ps_GoName (pf_Services file)) \<and>
    distinct (map (\<lambda>(s, m). ps_GoName s @ pm_GoName m) (rpcs (pf_Services file))) \<and>
    \<not> prefixed (pf_Services file) ''New'' \<and> \<not> prefixed (pf_Services file) ''Register'' \<and>
    \<not> prefixed (pf_Services file) ''Unimplemented''"
proof -
  have plain: "\<forall>s \<in> set (pf_Services file). plain_service s" using assms(3) by (simp add: plain_file_def)
  have "distinct (concat (map declared (gf_lines gf))) \<longleftrightarrow> distinct (concat (name_classes (pf_Services file)))"
    using declared_generate [OF assms] mset_eq_imp_distinct_iff [OF mset_file_names] by (simp add: declared_in_def)
  also have "\<dots> \<longleftrightarrow> list_all distinct (name_classes (pf_Services file))"
    by (rule distinct_kinds [OF name_classes_kinds [OF plain]]) simp
  finally show ?thesis unfolding distinct_classes [OF plain] rpc_name_def .
qed

text \<open>Two files as the plugin gets them, one of which has services whose names collide.\<close>

definition sample_method :: "string \<Rightarrow> string \<Rightarrow> bool \<Rightarrow> proto_method" where
  "sample_method service name streams =
     \<lparr>pm_GoName = name, pm_ParentGoName = service, pm_Name = name, pm_FullName = ''acme.'' @ service @ ''.'' @ name,
      pm_Input = Ident ''acme'' (name @ ''Request''), pm_Output = Ident ''acme'' (name @ ''Response''),
      pm_IsStreamingClient = streams, pm_IsStreamingServer = streams, pm_Options = None, pm_Comments = ''// A method.''\<rparr>"

definition sample_service :: "string \<Rightarrow> string list \<Rightarrow> proto_service" where
  "sample_service name ms =
     \<lparr>ps_GoName = name, ps_Name = name, ps_FullName = ''acme.'' @ name, ps_Deprecated = None,
      ps_Methods = map (\<lambda>m. sample_method name m (m = ''Talk'')) ms\<rparr>"

definition sample_file :: "proto_service list \<Rightarrow> proto_file" where
  "sample_file ss =
     \<lparr>pf_Services = ss, pf_GoPackageName = ''acme'', pf_GoImportPath = ''acme.com/gen'', pf_GeneratedFilenamePrefix = ''gen/acme'',
      pf_GoDescriptorIdent = Ident ''acme'' ''File'', pf_Path = ''acme.proto'', pf_Deprecated = False,
      pf_SyntaxDetached = [], pf_SyntaxLeading = [], pf_PackageDetached = [], pf_PackageLeading = []\<rparr>"

definition sample_env :: gen_env where
  "sample_env = \<lparr>ge_QualifiedGoIdent = (\<lambda>x. ''pkg.'' @ filter ident_char (gi_GoName x)), ge_unicode = (\<lambda>_. False), ge_arg0 = ''plugin''\<rparr>"

lemma plain_sample_env: "plain_qualifier (ge_QualifiedGoIdent sample_env)"
  by (auto simp: plain_qualifier_def sample_env_def list_all_iff)

lemma generate_sample: "ss \<noteq> [] \<Longrightarrow> \<exists>gf. generate sample_env (sample_file ss) [] = Inr (Some gf)"
  by (simp add: generate_def sample_file_def Let_def)

theorem generated_names_witness:
  "(\<exists>gf. generate sample_env (sample_file [sample_service ''Map'' [''Get'', ''Talk''], sample_service ''Rest'' [''Get'']]) [] = Inr (Some gf) \<and>
      distinct (concat (map declared (gf_lines gf)))) \<and>
   (\<exists>gf. generate sample_env (sample_file [sample_service ''Foo'' [''Get''], sample_service ''NewFoo'' [''Put'']]) [] = Inr (Some gf) \<and>
      \<not> distinct (concat (map declared (gf_lines gf))))"
proof -
  let ?f = "sample_file [sample_service ''Map'' [''Get'', ''Talk''], sample_service ''Rest'' [''Get'']]"
    and ?h = "sample_file [sample_service ''Foo'' [''Get''], sample_service ''NewFoo'' [''Put'']]"
  obtain gf gh where gen: "generate sample_env ?f [] = Inr (Some gf)" "generate sample_env ?h [] = Inr (Some gh)"
    using generate_sample by blast
  have "plain_file ?f" by code_simp
  then have "distinct (concat (map declared (gf_lines gf)))"
    by (subst generated_names [OF gen(1) plain_sample_env]) code_simp+
  moreover have "plain_file ?h" by code_simp
  then have "\<not> distinct (concat (map declared (gf_lines gh)))"
    by (subst generated_names [OF gen(2) plain_sample_env]) code_simp+
  ultimately show ?thesis using gen by blast
qed

subsection \<open>Procedures\<close>

definition procedure_of :: "proto_service \<Rightarrow> proto_method \<Rightarrow> string" where
  "procedure_of s m = ''/'' @ ps_FullName s @ ''/'' @ pm_Name m"

definition procedure_line :: "proto_service \<Rightarrow> proto_method \<Rightarrow> string" where
  "procedure_line s m = procedureConstName m @ '' = '' @ dquote @ procedure_of s m @ dquote"

lemma only_line:
  "distinct (concat (map f ls)) \<Longrightarrow> l \<in> set ls \<Longrightarrow> f l = [n] \<Longrightarrow> filter (\<lambda>l. n \<in> set (f l)) ls = [l]"
  by (induction ls) (auto simp: filter_empty_conv disjoint_iff)

lemma procedure_line_in:
  assumes "s \<in> set ss" "m \<in> set (ps_Methods s)"
  shows "procedure_line s m \<in> set (generateServiceNameConstants ss)"
proof -
  have "procedure_line s m \<in> set (procedure_constant s m)"
    by (simp add: procedure_constant_def procedure_line_def procedure_of_def gP_def)
  then have "procedure_line s m \<in> set (concat (map (\<lambda>s. concat (map (procedure_constant s) (ps_Methods s))) ss))"
    using assms by auto
  moreover have "sum_list (map (\<lambda>s. length (ps_Methods s)) ss) \<noteq> 0" using assms by (auto intro!: bexI [of _ s])
  ultimately show ?thesis unfolding generateServiceNameConstants_def by (simp del: set_concat sum_list_eq_0_iff)
qed

lemma generate_constants:
  "generate env file suffix = Inr (Some gf) \<Longrightarrow>
     set (generateServiceNameConstants (pf_Services file)) \<subseteq> set (gf_lines gf)"
  by (auto simp: generate_def Let_def split: if_splits)

lemma procedure_of_inj:
  assumes "CHR ''/'' \<notin> set (ps_FullName s)" "CHR ''/'' \<notin> set (ps_FullName s')" "procedure_of s m = procedure_of s' m'"
  shows "ps_FullName s = ps_FullName s' \<and> pm_Name m = pm_Name m'"
proof -
  have cut: "takeWhile (\<lambda>c. c \<noteq> CHR ''/'') (u @ CHR ''/'' # v) = u" if "CHR ''/'' \<notin> set u" for u v
    using that by (induction u) auto
  have eq: "ps_FullName s @ CHR ''/'' # pm_Name m = ps_FullName s' @ CHR ''/'' # pm_Name m'"
    using assms(3) by (simp add: procedure_of_def)
  then have "ps_FullName s = ps_FullName s'" using cut assms(1,2) by metis
  with eq show ?thesis by simp
qed

lemma distinct_procedures:
  assumes "distinct (map ps_FullName ss)" "\<forall>s \<in> set ss. CHR ''/'' \<notin> set (ps_FullName s) \<and> distinct (map pm_Name (ps_Methods s))"
  shows "distinct (map (\<lambda>(s, m). procedure_of s m) (rpcs ss))"
  using assms
proof (induction ss)
  case (Cons s ss)
  have "distinct (map (procedure_of s) (ps_Methods s)) \<longleftrightarrow> distinct (map pm_Name (ps_Methods s))"
    by (rule distinct_map_iff) (simp add: procedure_of_def)
  moreover have "procedure_of s m \<noteq> procedure_of s' m'" if "s' \<in> set ss" for s' m m'
    using procedure_of_inj [of s s' m m'] that Cons.prems by (metis distinct.simps(2) image_eqI image_set list.simps(9) list.set_intros)
  ultimately show ?case using Cons by (auto simp: comp_def in_rpcs)
qed simp

text \<open>C21. Procedures. In a file without duplicate names exactly one line declares the procedure
  constant of a method, and its value is the full name of the service and the name of the method
  between slashes. When the full names of the services and the names of each service's methods are
  different, one server accepts the registration of all methods of the file.\<close>

theorem generated_procedures:
  assumes "generate env file suffix = Inr (Some gf)" "plain_qualifier (ge_QualifiedGoIdent env)" "plain_file file"
    "distinct (concat (map declared (gf_lines gf)))"
  shows "(\<forall>(s, m) \<in> set (rpcs (pf_Services file)).
      filter (\<lambda>l. procedureConstName m \<in> set (declared l)) (gf_lines gf) =
        [procedureConstName m @ '' = '' @ dquote @ ''/'' @ ps_FullName s @ ''/'' @ pm_Name m @ dquote]) \<and>
    (distinct (map ps_FullName (pf_Services file)) \<and>
      (\<forall>s \<in> set (pf_Services file). CHR ''/'' \<notin> set (ps_FullName s) \<and> distinct (map pm_Name (ps_Methods s))) \<and>
      map (spec_Procedure \<circ> mt_Spec) ms = map (\<lambda>(s, m). ''/'' @ ps_FullName s @ ''/'' @ pm_Name m) (rpcs (pf_Services file)) \<longrightarrow>
      (\<exists>server. Register ms (NewServer ics) = Inr server))"
proof (intro conjI impI)
  have "filter (\<lambda>l. procedureConstName m \<in> set (declared l)) (gf_lines gf) =
        [procedureConstName m @ '' = '' @ dquote @ ''/'' @ ps_FullName s @ ''/'' @ pm_Name m @ dquote]"
    if sm: "(s, m) \<in> set (rpcs (pf_Services file))" for s m
  proof -
    have plain: "plain_service s" and m: "m \<in> set (ps_Methods s)" and s: "s \<in> set (pf_Services file)"
      using sm assms(3) by (auto simp: in_rpcs plain_file_def)
    have "procedure_line s m \<in> set (gf_lines gf)"
      using procedure_line_in [OF s m] generate_constants [OF assms(1)] by blast
    moreover have "declared (procedure_line s m) = [procedureConstName m]"
      using declared_procedure_constant [OF plain m]
      by (simp add: procedure_constant_def procedure_line_def procedure_of_def gP_def)
    ultimately show ?thesis
      using only_line [OF assms(4)] by (simp add: procedure_line_def procedure_of_def)
  qed
  then show "\<forall>(s, m) \<in> set (rpcs (pf_Services file)).
      filter (\<lambda>l. procedureConstName m \<in> set (declared l)) (gf_lines gf) =
        [procedureConstName m @ '' = '' @ dquote @ ''/'' @ ps_FullName s @ ''/'' @ pm_Name m @ dquote]" by blast
  show "\<exists>server. Register ms (NewServer ics) = Inr server"
    if *: "distinct (map ps_FullName (pf_Services file)) \<and>
      (\<forall>s \<in> set (pf_Services file). CHR ''/'' \<notin> set (ps_FullName s) \<and> distinct (map pm_Name (ps_Methods s))) \<and>
      map (spec_Procedure \<circ> mt_Spec) ms = map (\<lambda>(s, m). ''/'' @ ps_FullName s @ ''/'' @ pm_Name m) (rpcs (pf_Services file))"
    using distinct_procedures [of "pf_Services file"] * by (simp add: Register_ok_iff procedure_of_def has_key_def)
qed

theorem generated_procedures_witness:
  "\<exists>gf. generate sample_env (sample_file [sample_service ''Map'' [''Get'', ''Talk'']]) [] = Inr (Some gf) \<and>
     filter (\<lambda>l. ''MapGetProcedure'' \<in> set (declared l)) (gf_lines gf) = [''MapGetProcedure = '' @ dquote @ ''/acme.Map/Get'' @ dquote] \<and>
     (\<exists>server. Register [echo_method ''/acme.Map/Get'', echo_method ''/acme.Map/Talk''] (NewServer []) = Inr server)"
proof -
  let ?s = "sample_service ''Map'' [''Get'', ''Talk'']" and ?m = "sample_method ''Map'' ''Get'' False"
  let ?f = "sample_file [?s]"
  obtain gf where gen: "generate sample_env ?f [] = Inr (Some gf)" using generate_sample by blast
  have plain: "plain_file ?f" by code_simp
  have "distinct (file_names (pf_Services ?f))" by code_simp
  then have "distinct (concat (map declared (gf_lines gf)))"
    using declared_generate [OF gen plain_sample_env plain] by (simp add: declared_in_def)
  note ok = generated_procedures [OF gen plain_sample_env plain this,
      of "[echo_method ''/acme.Map/Get'', echo_method ''/acme.Map/Talk'']" "[]"]
  have "(?s, ?m) \<in> set (rpcs (pf_Services ?f))"
    by (simp add: in_rpcs sample_file_def sample_service_def)
  with ok have "filter (\<lambda>l. ''MapGetProcedure'' \<in> set (declared l)) (gf_lines gf) =
      [''MapGetProcedure = '' @ dquote @ ''/acme.Map/Get'' @ dquote]"
    by (fastforce simp: procedureConstName_def sample_service_def sample_method_def)
  moreover have "\<exists>server. Register [echo_method ''/acme.Map/Get'', echo_method ''/acme.Map/Talk''] (NewServer []) = Inr server"
    by (rule ok [THEN conjunct2, THEN mp]) (simp add: sample_file_def sample_service_def sample_method_def echo_method_def)
  ultimately show ?thesis using gen by blast
qed

end
