(* ===== verification/Buf_Gen.thy ===== *)
theory Buf_Gen
  imports Code_Gen
begin

section \<open>Buf templates (cmd/connect-go-v2-migrate/bufgen.go)\<close>

text \<open>
  The migration of \<open>buf.gen.yaml\<close> files: a scan over the lines that finds the entries of the connect-go
  plugin, records edits by line number and applies them at the end. The scan sets its own loop
  index, so it is a partial function, of which it is shown that it returns. The report is the one
  of \<open>rewrite.go\<close>; its counts are an association list.
\<close>

subsection \<open>Strings\<close>

fun Index :: "string \<Rightarrow> string \<Rightarrow> nat option" where
  "Index s sub =
     (if HasPrefix s sub then Some 0 else case s of [] \<Rightarrow> None | _ # s' \<Rightarrow> map_option Suc (Index s' sub))"

text \<open>\<open>strings.Replace(s, old, new, 1)\<close>.\<close>

definition Replace_first :: "string \<Rightarrow> string \<Rightarrow> string \<Rightarrow> string" where
  "Replace_first s old new =
     (case Index s old of None \<Rightarrow> s | Some i \<Rightarrow> take i s @ new @ drop (i + length old) s)"

subsection \<open>Reports (rewrite.go)\<close>

datatype warning_kind = WarningManual | WarningDeferred

record migration_warning =
  wn_File :: string
  wn_Line :: nat
  wn_Col :: nat
  wn_Msg :: string
  wn_Kind :: warning_kind
  wn_Rule :: string

record report =
  rp_Changed :: bool
  rp_Counts :: "(string \<times> nat) list"
  rp_Warnings :: "migration_warning list"

definition empty_report :: report where
  "empty_report = \<lparr>rp_Changed = False, rp_Counts = [], rp_Warnings = []\<rparr>"

definition count_of :: "(string \<times> nat) list \<Rightarrow> string \<Rightarrow> nat" where
  "count_of counts name = (case map_of counts name of None \<Rightarrow> 0 | Some n \<Rightarrow> n)"

definition bump :: "string \<Rightarrow> report \<Rightarrow> report" where
  "bump name r =
     r\<lparr>rp_Counts := (name, count_of (rp_Counts r) name + 1) # filter (\<lambda>(k, _). k \<noteq> name) (rp_Counts r), rp_Changed := True\<rparr>"

definition warnAtLinef :: "string \<Rightarrow> nat \<Rightarrow> string \<Rightarrow> string \<Rightarrow> string list \<Rightarrow> report \<Rightarrow> report" where
  "warnAtLinef file line rule format args r =
     r\<lparr>rp_Warnings := rp_Warnings r @
        [\<lparr>wn_File = file, wn_Line = line, wn_Col = 1, wn_Msg = Sprintf format args, wn_Kind = WarningManual, wn_Rule = rule\<rparr>]\<rparr>"

definition Summary :: "report \<Rightarrow> string" where
  "Summary r =
     (if \<not> rp_Changed r then ''unchanged''
      else Join (map (\<lambda>k. Sprintf ''%s=%d'' [k, itoa (int (count_of (rp_Counts r) k))]) (sort (map fst (rp_Counts r)))) '' '')"

abbreviation ruleBufgenReinstall :: string where "ruleBufgenReinstall \<equiv> ''bufgen_reinstall_plugin''"
abbreviation ruleBufgenGoMod :: string where "ruleBufgenGoMod \<equiv> ''bufgen_update_go_mod''"
abbreviation ruleBufgenRemoteUnpublished :: string where "ruleBufgenRemoteUnpublished \<equiv> ''bufgen_remote_unpublished''"

subsection \<open>YAML\<close>

text \<open>The text of a scalar without quotes and comment.\<close>

definition yamlScalar :: "string \<Rightarrow> string" where
  "yamlScalar value =
     (let value = TrimSpace value;
          unquoted = (case Index value '' #'' of None \<Rightarrow> value | Some hash \<Rightarrow> TrimSpace (take hash value))
      in if length value \<ge> 2 \<and> (hd value = CHR 0x22 \<or> hd value = CHR 0x27)
         then (case Index (tl value) [hd value] of Some e \<Rightarrow> take e (tl value) | None \<Rightarrow> unquoted)
         else unquoted)"

definition indentOf :: "string \<Rightarrow> nat" where
  "indentOf line = length (takeWhile (\<lambda>c. c = CHR '' '') line)"

definition splitFlowSequence :: "string \<Rightarrow> string list" where
  "splitFlowSequence value =
     (let inner = TrimSuffix (TrimPrefix value ''['') '']''
      in filter (\<lambda>e. e \<noteq> []) (map yamlScalar (Split inner (CHR '',''))))"

definition isSimpleToken :: "string \<Rightarrow> bool" where
  "isSimpleToken token = (let token = TrimSpace token in token = ''simple'' \<or> HasPrefix token ''simple='')"

definition optLine :: "string \<Rightarrow> (nat \<times> string) option" where
  "optLine line =
     (let trimmed = TrimSpace line
      in if \<not> HasPrefix trimmed ''opt:'' then None else Some (indentOf line, yamlScalar (drop 4 trimmed)))"

subsection \<open>Plugin entries\<close>

abbreviation connectV2Module :: string where "connectV2Module \<equiv> ''connectrpc.com/connect/v2''"
abbreviation connectLocalPlugin :: string where "connectLocalPlugin \<equiv> ''protoc-gen-connect-go''"
abbreviation connectRemotePluginVersion :: string where "connectRemotePluginVersion \<equiv> ''v2.0.0''"

datatype plugin_kind = kindLocal | kindGotool | kindRemote

definition isBufGenFile :: "string \<Rightarrow> bool" where
  "isBufGenFile base =
     (if \<not> HasSuffix base ''.yaml'' \<and> \<not> HasSuffix base ''.yml'' then False
      else base = ''buf.gen.yaml'' \<or> base = ''buf.gen.yml'' \<or> HasPrefix base ''buf.gen.'')"

text \<open>A registry host: characters other than slash and colon with a dot that is neither first nor last.\<close>

definition bsrHostPattern :: "string \<Rightarrow> bool" where
  "bsrHostPattern host \<longleftrightarrow>
     list_all (\<lambda>c. c \<noteq> CHR ''/'' \<and> c \<noteq> CHR '':'') host \<and> CHR ''.'' \<in> set (butlast (tl host))"

definition regexp_space :: "char \<Rightarrow> bool" where
  "regexp_space c \<longleftrightarrow> c = CHR '' '' \<or> c = CHR 0x09 \<or> c = CHR 0x0A \<or> c = CHR 0x0C \<or> c = CHR 0x0D"

text \<open>The submatches of the regular expression: host, plugin and version, empty if there is none.\<close>

definition connectRemotePluginRef :: "string \<Rightarrow> (string \<times> string \<times> string) option" where
  "connectRemotePluginRef ref =
     (let host = takeWhile (\<lambda>c. c \<noteq> CHR ''/'') ref; rest = drop (length host) ref;
          tail = drop (length ''/connectrpc/'') rest;
          plugin = takeWhile (\<lambda>c. c \<noteq> CHR '':'') tail; version = drop (length plugin) tail
      in if bsrHostPattern host \<and> HasPrefix rest ''/connectrpc/'' \<and> (plugin = ''go'' \<or> plugin = ''gosimple'') \<and>
            (version = [] \<or> length version > 1 \<and> list_all (\<lambda>c. \<not> regexp_space c) (tl version))
         then Some (host, plugin, tl version) else None)"

definition isConnectRemoteRef :: "string \<Rightarrow> bool" where
  "isConnectRemoteRef value \<longleftrightarrow> connectRemotePluginRef value \<noteq> None"

definition classifyLocalPlugin :: "string \<Rightarrow> (plugin_kind \<times> string) option" where
  "classifyLocalPlugin value =
     (let value = TrimSpace value in
      if value = connectLocalPlugin then Some (kindLocal, value)
      else if \<not> HasPrefix value ''['' \<or> \<not> HasSuffix value '']'' then None
      else
        let command = splitFlowSequence value in
        if command = [] \<or> path_Base (last command) \<noteq> connectLocalPlugin then None
        else if length command \<ge> 2 \<and> command ! 0 = ''go'' \<and> (command ! 1 = ''tool'' \<or> command ! 1 = ''run'')
        then Some (kindGotool, value)
        else Some (kindLocal, value))"

definition connectPluginItem :: "string \<Rightarrow> (plugin_kind \<times> string) option" where
  "connectPluginItem line =
     (let trimmed = TrimSpace line in
      if \<not> HasPrefix trimmed ''- '' then None
      else
        let rest = TrimSpace (drop 2 trimmed) in
        if HasPrefix rest ''local:'' then classifyLocalPlugin (yamlScalar (drop 6 rest))
        else if HasPrefix rest ''remote:''
        then (let value = yamlScalar (drop 7 rest) in if isConnectRemoteRef value then Some (kindRemote, value) else None)
        else if HasPrefix rest ''name:''
        then (let value = yamlScalar (drop 5 rest) in if value = ''connect-go'' then Some (kindLocal, value) else None)
        else if HasPrefix rest ''plugin:''
        then (let value = yamlScalar (drop 7 rest) in
              if isConnectRemoteRef value then Some (kindRemote, value)
              else if value = ''connect-go'' \<or> value = connectLocalPlugin then Some (kindLocal, value)
              else None)
        else None)"

text \<open>The lines from \<open>start\<close> to \<open>end\<close> are given as a list with their numbers.\<close>

type_synonym numbered = "(nat \<times> string) list"

fun pathOverride :: "numbered \<Rightarrow> (plugin_kind \<times> string) option" where
  "pathOverride [] = None"
| "pathOverride ((_, line) # block) =
     (let trimmed = TrimSpace line
      in if \<not> HasPrefix trimmed ''path:'' then pathOverride block
         else classifyLocalPlugin (yamlScalar (drop 5 trimmed)))"

subsection \<open>Edits\<close>

record line_edits =
  le_replace :: "(nat \<times> string) list"
  le_delete :: "nat list"

definition replace_line :: "nat \<Rightarrow> string \<Rightarrow> line_edits \<Rightarrow> line_edits" where
  "replace_line index line e = e\<lparr>le_replace := (index, line) # le_replace e\<rparr>"

definition delete_lines :: "nat list \<Rightarrow> line_edits \<Rightarrow> line_edits" where
  "delete_lines is e = e\<lparr>le_delete := is @ le_delete e\<rparr>"

definition edits_apply :: "line_edits \<Rightarrow> string list \<Rightarrow> string list" where
  "edits_apply e lines =
     concat (map (\<lambda>(index, line).
       if index \<in> set (le_delete e) then []
       else case map_of (le_replace e) index of Some replacement \<Rightarrow> [replacement] | None \<Rightarrow> [line])
       (enumerate 0 lines))"

definition stripInlineSimple :: "nat \<Rightarrow> nat \<Rightarrow> string \<Rightarrow> line_edits \<times> report \<Rightarrow> line_edits \<times> report" where
  "stripInlineSimple index indent value st =
     (case st of (edits, report) \<Rightarrow>
        let tokens = Split value (CHR '','');
            kept = map TrimSpace (filter (\<lambda>t. \<not> isSimpleToken t) tokens)
        in if list_all (\<lambda>t. \<not> isSimpleToken t) tokens then st
           else if kept = [] then (delete_lines [index] edits, bump ''bufgen_remove_simple'' report)
           else (replace_line index (replicate indent (CHR '' '') @ ''opt: '' @ Join kept '','') edits, bump ''bufgen_remove_simple'' report))"

text \<open>The items of an option list: their number, and the lines of those that are \<open>simple\<close>.\<close>

fun list_items :: "nat \<Rightarrow> numbered \<Rightarrow> nat \<times> nat list" where
  "list_items optIndent [] = (0, [])"
| "list_items optIndent ((index, line) # block) =
     (let trimmed = TrimSpace line in
      if trimmed = [] then list_items optIndent block
      else if indentOf line \<le> optIndent then (0, [])
      else if HasPrefix trimmed ''#'' then list_items optIndent block
      else if \<not> HasPrefix trimmed ''- '' then (0, [])
      else case list_items optIndent block of (itemCount, simpleLines) \<Rightarrow>
        (itemCount + 1, if isSimpleToken (yamlScalar (drop 2 trimmed)) then index # simpleLines else simpleLines))"

definition stripListSimple :: "nat \<Rightarrow> nat \<Rightarrow> numbered \<Rightarrow> line_edits \<times> report \<Rightarrow> line_edits \<times> report" where
  "stripListSimple optIndex optIndent block st =
     (case (st, list_items optIndent block) of ((edits, report), (itemCount, simpleLines)) \<Rightarrow>
        if simpleLines = [] then st
        else (let edits = delete_lines simpleLines edits
              in if length simpleLines = itemCount then delete_lines [optIndex] edits else edits,
              bump ''bufgen_remove_simple'' report))"

fun stripSimpleOpt :: "numbered \<Rightarrow> line_edits \<times> report \<Rightarrow> line_edits \<times> report" where
  "stripSimpleOpt [] st = st"
| "stripSimpleOpt ((index, line) # block) st =
     (case optLine line of
        None \<Rightarrow> stripSimpleOpt block st
      | Some (optIndent, value) \<Rightarrow>
          if value \<noteq> [] then stripInlineSimple index optIndent value st
          else stripListSimple index optIndent block st)"

definition pinRemotePluginV2 :: "string \<Rightarrow> string \<Rightarrow> nat \<Rightarrow> string \<Rightarrow> line_edits \<times> report \<Rightarrow> line_edits \<times> report" where
  "pinRemotePluginV2 filename line index ref st =
     (case connectRemotePluginRef ref of
        None \<Rightarrow> st
      | Some (host, plugin, version) \<Rightarrow>
          let simple = (plugin = ''gosimple'') in
          if \<not> simple \<and> HasPrefix version ''v2'' then st
          else
            let pinned = host @ ''/connectrpc/go:'' @ connectRemotePluginVersion
            in (replace_line index (Replace_first line ref pinned) (fst st),
                warnAtLinef filename (index + 1) ruleBufgenRemoteUnpublished
                  ''%s is not published yet. Until connect-go %s is released, generate with the local plugin instead: `go install %s/cmd/%s@latest` and a `local: %s` entry.''
                  [pinned, connectRemotePluginVersion, connectV2Module, connectLocalPlugin, connectLocalPlugin]
                  (bump (if simple then ''bufgen_replace_gosimple'' else ''bufgen_pin_remote_v2'') (snd st))))"

subsection \<open>The scan\<close>

text \<open>The number of lines that belong to an entry: those up to a line that is indented no more than its
  dash.\<close>

fun block_length :: "nat \<Rightarrow> string list \<Rightarrow> nat" where
  "block_length dashIndent [] = 0"
| "block_length dashIndent (line # lines) =
     (if TrimSpace line \<noteq> [] \<and> indentOf line \<le> dashIndent then 0 else Suc (block_length dashIndent lines))"

definition block_of :: "string list \<Rightarrow> nat \<Rightarrow> numbered" where
  "block_of lines index =
     enumerate (index + 1) (take (block_length (indentOf (lines ! index)) (drop (index + 1) lines)) (drop (index + 1) lines))"

text \<open>What is done for the entry at a line.\<close>

definition migrate_entry ::
  "string \<Rightarrow> string list \<Rightarrow> nat \<Rightarrow> plugin_kind \<Rightarrow> string \<Rightarrow> line_edits \<times> report \<Rightarrow> line_edits \<times> report" where
  "migrate_entry filename lines index kind ref st =
     (let block = block_of lines index;
          st = stripSimpleOpt block st;
          (kind, ref) =
            (if kind = kindLocal then (case pathOverride block of Some k \<Rightarrow> k | None \<Rightarrow> (kind, ref)) else (kind, ref))
      in case kind of
           kindLocal \<Rightarrow>
             (fst st, warnAtLinef filename (index + 1) ruleBufgenReinstall
                ''reinstall the generator with `go install %s/cmd/%s@latest`. The v1 and v2 plugins share the binary name %q, so reinstalling from the /v2 module switches generation to v2.''
                [connectV2Module, connectLocalPlugin, Quote connectLocalPlugin] (snd st))
         | kindGotool \<Rightarrow>
             (fst st, warnAtLinef filename (index + 1) ruleBufgenGoMod
                ''the plugin runs via go.mod (%s). Update the tool dependency to the v2 module with `go get -tool %s/cmd/%s` then `go mod tidy`. The buf.gen.yaml entry stays the same.''
                [ref, connectV2Module, connectLocalPlugin] (snd st))
         | kindRemote \<Rightarrow> pinRemotePluginV2 filename (lines ! index) index ref st)"

partial_function (option) bufgen_scan ::
  "string \<Rightarrow> string list \<Rightarrow> nat \<Rightarrow> line_edits \<times> report \<Rightarrow> (line_edits \<times> report) option" where
  "bufgen_scan filename lines index st =
     (if index < length lines
      then (case connectPluginItem (lines ! index) of
              None \<Rightarrow> bufgen_scan filename lines (index + 1) st
            | Some (kind, ref) \<Rightarrow>
                (let stop = index + 1 + length (block_of lines index)
                 in bufgen_scan filename lines (stop - 1 + 1) (migrate_entry filename lines index kind ref st)))
      else Some st)"

declare bufgen_scan.simps [code]

definition RewriteBufGen :: "string \<Rightarrow> string \<Rightarrow> (string \<times> report) option" where
  "RewriteBufGen filename src =
     (let lines = Split src (CHR 0x0A) in
      case bufgen_scan filename lines 0 (\<lparr>le_replace = [], le_delete = []\<rparr>, empty_report) of
        None \<Rightarrow> None
      | Some (edits, report) \<Rightarrow>
          Some (if \<not> rp_Changed report then src else Join (edits_apply edits lines) [CHR 0x0A], report))"

subsection \<open>The scan returns\<close>

text \<open>The entries that the scan visits.\<close>

function plugin_entries :: "string list \<Rightarrow> nat \<Rightarrow> (nat \<times> plugin_kind \<times> string) list" where
  "plugin_entries lines index =
     (if index < length lines
      then (case connectPluginItem (lines ! index) of
              None \<Rightarrow> plugin_entries lines (index + 1)
            | Some (kind, ref) \<Rightarrow> (index, kind, ref) # plugin_entries lines (index + 1 + length (block_of lines index)))
      else [])"
  by pat_completeness auto
termination
  by (relation "measure (\<lambda>(lines, index). length lines - index)") auto

declare plugin_entries.simps [simp del]

lemma scan_entries:
  "bufgen_scan filename lines index st =
     Some (fold (\<lambda>(i, kind, ref). migrate_entry filename lines i kind ref) (plugin_entries lines index) st)"
proof (induction lines index arbitrary: st rule: plugin_entries.induct)
  case (1 lines index)
  show ?case
    using 1 by (subst bufgen_scan.simps, subst plugin_entries.simps) (auto simp: Let_def split: option.split)
qed

text \<open>Edits concern the lines of the entry only.\<close>

definition edit_at :: "line_edits \<Rightarrow> nat \<Rightarrow> bool \<times> string option" where
  "edit_at e i = (i \<in> set (le_delete e), map_of (le_replace e) i)"

lemma edit_at_simps [simp]:
  "edit_at (replace_line j l e) i = (if i = j then (fst (edit_at e i), Some l) else edit_at e i)"
  "edit_at (delete_lines js e) i = (if i \<in> set js then (True, snd (edit_at e i)) else edit_at e i)"
  by (auto simp: edit_at_def replace_line_def delete_lines_def)

definition is_removable :: "string \<Rightarrow> bool" where
  "is_removable line \<longleftrightarrow> optLine line \<noteq> None \<or>
     HasPrefix (TrimSpace line) ''- '' \<and> isSimpleToken (yamlScalar (drop 2 (TrimSpace line)))"

definition without_simple :: "string \<Rightarrow> string option" where
  "without_simple line =
     (case optLine line of
        None \<Rightarrow> None
      | Some (indent, value) \<Rightarrow>
          Some (replicate indent (CHR '' '') @ ''opt: '' @
            Join (map TrimSpace (filter (\<lambda>t. \<not> isSimpleToken t) (Split value (CHR '','')))) '',''))"

text \<open>An edit of a line in the block of an entry.\<close>

definition option_edit :: "string \<Rightarrow> bool \<times> string option \<Rightarrow> bool" where
  "option_edit line v \<longleftrightarrow> v = (False, None) \<or> v = (True, None) \<and> is_removable line \<or> v = (False, without_simple line)"

lemma list_items_lines:
  "i \<in> set (snd (list_items ind block)) \<Longrightarrow> \<exists>line. (i, line) \<in> set block \<and> is_removable line"
proof (induction ind block rule: list_items.induct)
  case (2 ind index line block)
  then show ?case by (fastforce simp: Let_def is_removable_def split: if_splits prod.splits)
qed simp

lemma strip_edit_at:
  "edit_at (fst (stripSimpleOpt block st)) i = edit_at (fst st) i \<or>
     (\<exists>line. (i, line) \<in> set block \<and> (edit_at (fst (stripSimpleOpt block st)) i = (True, snd (edit_at (fst st) i)) \<and> is_removable line \<or>
        edit_at (fst (stripSimpleOpt block st)) i = (fst (edit_at (fst st) i), without_simple line)))"
proof (induction block st rule: stripSimpleOpt.induct)
  case (2 index line block st)
  show ?case
  proof (cases "optLine line")
    case None
    with 2 show ?thesis by auto
  next
    case (Some ov)
    then have opt: "is_removable line" by (simp add: is_removable_def)
    obtain ind v where ov: "ov = (ind, v)" by (cases ov)
    show ?thesis
    proof (cases "v = []")
      case True
      with Some ov opt show ?thesis using list_items_lines [of i ind block]
        by (cases st; cases "list_items ind block") (auto simp: stripListSimple_def Let_def)
    next
      case False
      with Some ov opt show ?thesis
        by (cases st) (auto simp: stripInlineSimple_def Let_def without_simple_def)
    qed
  qed
qed simp

lemma pin_edit_at:
  "edit_at (fst (pinRemotePluginV2 filename line j ref st)) i =
     (if i = j then
        (case connectRemotePluginRef ref of
           None \<Rightarrow> edit_at (fst st) i
         | Some (host, plugin, version) \<Rightarrow>
             if plugin \<noteq> ''gosimple'' \<and> HasPrefix version ''v2'' then edit_at (fst st) i
             else (fst (edit_at (fst st) i), Some (Replace_first line ref (host @ ''/connectrpc/go:v2.0.0''))))
      else edit_at (fst st) i)"
  by (auto simp: pinRemotePluginV2_def Let_def split: option.split)

text \<open>The line of a remote plugin after the migration.\<close>

definition pinned_line :: "string \<Rightarrow> string \<Rightarrow> string" where
  "pinned_line line ref =
     (case connectRemotePluginRef ref of
        None \<Rightarrow> line
      | Some (host, plugin, version) \<Rightarrow>
          if plugin \<noteq> ''gosimple'' \<and> HasPrefix version ''v2'' then line
          else Replace_first line ref (host @ ''/connectrpc/go:v2.0.0''))"

lemma block_of_index: "(i, line) \<in> set (block_of lines j) \<Longrightarrow> j < i \<and> i \<le> j + length (block_of lines j) \<and> line = lines ! i"
  by (auto simp: block_of_def in_set_enumerate_eq)

lemma entry_edit_at:
  assumes "i \<noteq> j"
  shows "edit_at (fst (migrate_entry filename lines j kind ref st)) i = edit_at (fst st) i \<or>
    j < i \<and> i \<le> j + length (block_of lines j) \<and>
     (edit_at (fst (migrate_entry filename lines j kind ref st)) i = (True, snd (edit_at (fst st) i)) \<and> is_removable (lines ! i) \<or>
      edit_at (fst (migrate_entry filename lines j kind ref st)) i = (fst (edit_at (fst st) i), without_simple (lines ! i)))"
proof -
  have "edit_at (fst (migrate_entry filename lines j kind ref st)) i =
      edit_at (fst (stripSimpleOpt (block_of lines j) st)) i"
    using assms by (auto simp: migrate_entry_def Let_def pin_edit_at split: plugin_kind.split option.split prod.split)
  with strip_edit_at [of "block_of lines j" st i] block_of_index [of i _ lines j] show ?thesis by metis
qed

lemma classifyLocalPlugin_kind: "classifyLocalPlugin v = Some (kind, r) \<Longrightarrow> kind \<noteq> kindRemote"
  by (auto simp: classifyLocalPlugin_def Let_def split: if_splits)

lemma pathOverride_kind: "pathOverride block = Some (kind, r) \<Longrightarrow> kind \<noteq> kindRemote"
  by (induction block rule: pathOverride.induct) (auto simp: Let_def classifyLocalPlugin_kind split: if_splits)

lemma own_edit_at:
  assumes "edit_at (fst st) j = (False, None)"
  shows "edit_at (fst (migrate_entry filename lines j kind ref st)) j = (False, None) \<and> (kind = kindRemote \<longrightarrow> pinned_line (lines ! j) ref = lines ! j) \<or>
    kind = kindRemote \<and> edit_at (fst (migrate_entry filename lines j kind ref st)) j = (False, Some (pinned_line (lines ! j) ref))"
proof -
  have strip: "edit_at (fst (stripSimpleOpt (block_of lines j) st)) j = (False, None)"
    using strip_edit_at [of "block_of lines j" st j] block_of_index [of j _ lines j] assms by auto
  show ?thesis
  proof (cases kind)
    case kindLocal
    with strip pathOverride_kind [of "block_of lines j"] show ?thesis
      by (auto simp: migrate_entry_def Let_def split: plugin_kind.split option.split prod.split)
  qed (use strip in \<open>auto simp: migrate_entry_def Let_def pin_edit_at pinned_line_def split: option.split\<close>)
qed

lemma plugin_entries_ge:
  "(j, kind, ref) \<in> set (plugin_entries lines index) \<Longrightarrow>
     index \<le> j \<and> j < length lines \<and> connectPluginItem (lines ! j) = Some (kind, ref)"
proof (induction lines index rule: plugin_entries.induct)
  case (1 lines index)
  from 1(3) show ?case
    using 1(1,2) by (subst (asm) plugin_entries.simps) (fastforce split: if_splits option.splits)
qed

text \<open>What may happen to a line: the line of an entry is kept or pinned, a line below an entry may lose
  its options, any other line is kept.\<close>

definition migrated :: "string list \<Rightarrow> (nat \<times> plugin_kind \<times> string) list \<Rightarrow> nat \<Rightarrow> bool \<times> string option \<Rightarrow> bool" where
  "migrated lines es i v \<longleftrightarrow>
     (\<forall>(j, kind, ref) \<in> set es. j = i \<longrightarrow>
        v = (False, None) \<and> (kind = kindRemote \<longrightarrow> pinned_line (lines ! i) ref = lines ! i) \<or>
        kind = kindRemote \<and> v = (False, Some (pinned_line (lines ! i) ref))) \<and>
     (i \<notin> fst ` set es \<longrightarrow> v = (False, None) \<or>
        (\<exists>(j, kind, ref) \<in> set es. j < i \<and> i \<le> j + length (block_of lines j)) \<and> option_edit (lines ! i) v)"

lemma migrated_Cons:
  assumes "migrated lines es i v" "j \<noteq> i"
  shows "migrated lines ((j, kind, ref) # es) i v"
  using assms by (auto simp: migrated_def)

definition migrate_from :: "string \<Rightarrow> string list \<Rightarrow> nat \<Rightarrow> line_edits \<times> report \<Rightarrow> line_edits \<times> report" where
  "migrate_from filename lines index =
     fold (\<lambda>(i, kind, ref). migrate_entry filename lines i kind ref) (plugin_entries lines index)"

lemma migrated_other: "(\<And>kind ref. (i, kind, ref) \<notin> set es) \<Longrightarrow> migrated lines es i (False, None)"
  by (auto simp: migrated_def)

lemma migrate_from_edits:
  "(\<And>i. index \<le> i \<Longrightarrow> edit_at (fst st) i = (False, None)) \<Longrightarrow>
   (i < index \<longrightarrow> edit_at (fst (migrate_from filename lines index st)) i = edit_at (fst st) i) \<and>
   (index \<le> i \<longrightarrow> migrated lines (plugin_entries lines index) i (edit_at (fst (migrate_from filename lines index st)) i))"
proof (induction lines index arbitrary: st i rule: plugin_entries.induct)
  case (1 lines index)
  consider "\<not> index < length lines" | "index < length lines" "connectPluginItem (lines ! index) = None"
    | kind ref where "index < length lines" "connectPluginItem (lines ! index) = Some (kind, ref)"
    by fastforce
  then show ?case
  proof cases
    case 1
    then show ?thesis using "1.prems" by (simp add: migrate_from_def plugin_entries.simps migrated_other)
  next
    case 2
    then have es: "plugin_entries lines index = plugin_entries lines (index + 1)" by (subst plugin_entries.simps) simp
    then have run: "migrate_from filename lines index = migrate_from filename lines (index + 1)" by (simp add: migrate_from_def)
    show ?thesis
      using "1.IH"(1) [OF 2, of st i] "1.prems" migrated_other [of index "plugin_entries lines (index + 1)" lines]
        plugin_entries_ge [of index _ _ lines "index + 1"]
      unfolding es run by (cases "i = index") auto
  next
    case 3
    let ?stop = "index + 1 + length (block_of lines index)" and ?st = "migrate_entry filename lines index kind ref st"
    from 3 have es: "plugin_entries lines index = (index, kind, ref) # plugin_entries lines ?stop"
      by (subst plugin_entries.simps) simp
    then have run: "migrate_from filename lines index st = migrate_from filename lines ?stop ?st" by (simp add: migrate_from_def)
    have out: "edit_at (fst ?st) i = edit_at (fst st) i" if "i < index \<or> ?stop \<le> i" for i
      using entry_edit_at [of i index filename lines kind ref st] that by auto
    have IH: "(i < ?stop \<longrightarrow> edit_at (fst (migrate_from filename lines ?stop ?st)) i = edit_at (fst ?st) i) \<and>
        (?stop \<le> i \<longrightarrow> migrated lines (plugin_entries lines ?stop) i (edit_at (fst (migrate_from filename lines ?stop ?st)) i))"
      using "1.IH"(2) [OF 3(1) 3(2) refl, of ?st i] out "1.prems" by simp
    show ?thesis
    proof (cases "index \<le> i \<and> i < ?stop")
      case True
      then have v: "edit_at (fst (migrate_from filename lines index st)) i = edit_at (fst ?st) i" using IH run by simp
      have new: "(i, k, r) \<notin> set (plugin_entries lines ?stop)" for k r using plugin_entries_ge [of i k r lines ?stop] True by auto
      have "migrated lines (plugin_entries lines index) i (edit_at (fst ?st) i)"
        using own_edit_at [of st i filename lines kind ref] entry_edit_at [of i index filename lines kind ref st]
          "1.prems" [of i] True new unfolding es migrated_def option_edit_def
        by (cases "i = index") (auto simp: image_iff)
      with True v show ?thesis by simp
    next
      case False
      with IH out run es show ?thesis by (auto intro: migrated_Cons)
    qed
  qed
qed

subsection \<open>Lines after the migration\<close>

abbreviation newline :: char where "newline \<equiv> CHR 0x0A"

definition chunk :: "line_edits \<Rightarrow> nat \<Rightarrow> string \<Rightarrow> string list" where
  "chunk e i line = (case edit_at e i of (True, _) \<Rightarrow> [] | (False, Some l) \<Rightarrow> [l] | (False, None) \<Rightarrow> [line])"

lemma edits_apply_chunks: "edits_apply e lines = concat (map (\<lambda>i. chunk e i (lines ! i)) [0..<length lines])"
proof -
  have "enumerate 0 lines = map (\<lambda>i. (i, lines ! i)) [0..<length lines]"
    by (rule nth_equalityI) (auto simp: nth_enumerate_eq)
  then show ?thesis
    by (auto simp: edits_apply_def chunk_def edit_at_def split: option.split intro!: arg_cong [where f = concat])
qed

definition unedited :: "line_edits \<times> report \<Rightarrow> bool" where
  "unedited st \<longleftrightarrow> rp_Changed (snd st) \<or> le_replace (fst st) = [] \<and> le_delete (fst st) = []"

lemma unedited_strip: "unedited st \<Longrightarrow> unedited (stripSimpleOpt block st)"
  by (induction block st rule: stripSimpleOpt.induct)
    (auto simp: unedited_def stripInlineSimple_def stripListSimple_def bump_def Let_def split: option.split prod.split)

lemma rp_Changed_simps [simp]: "rp_Changed (bump name r)" "rp_Changed (warnAtLinef file l rule fmt args r) = rp_Changed r"
  by (simp_all add: bump_def warnAtLinef_def)

lemma unedited_pin: "unedited st \<Longrightarrow> unedited (pinRemotePluginV2 filename line j ref st)"
  unfolding pinRemotePluginV2_def Let_def unedited_def by (simp split: option.split prod.split)

lemma unedited_entry: "unedited st \<Longrightarrow> unedited (migrate_entry filename lines j kind ref st)"
  using unedited_strip [of st "block_of lines j"] unedited_pin [of "stripSimpleOpt (block_of lines j) st"]
  unfolding migrate_entry_def Let_def by (simp add: unedited_def split: plugin_kind.split option.split prod.split)

lemma unedited_from: "unedited st \<Longrightarrow> unedited (migrate_from filename lines index st)"
proof -
  have "unedited st \<Longrightarrow> unedited (fold (\<lambda>(i, kind, ref). migrate_entry filename lines i kind ref) es st)" for es st
  proof (induction es arbitrary: st)
    case (Cons e es)
    then show ?case by (cases e) (simp add: unedited_entry)
  qed simp
  then show "unedited st \<Longrightarrow> ?thesis" unfolding migrate_from_def .
qed

lemma RewriteBufGen_migrate:
  fixes filename src
  defines "st \<equiv> migrate_from filename (Split src newline) 0 (\<lparr>le_replace = [], le_delete = []\<rparr>, empty_report)"
  shows "RewriteBufGen filename src = Some (Join (edits_apply (fst st) (Split src newline)) [newline], snd st)"
proof -
  have scan: "bufgen_scan filename (Split src newline) 0 (\<lparr>le_replace = [], le_delete = []\<rparr>, empty_report) = Some st"
    unfolding scan_entries st_def migrate_from_def ..
  have "unedited st" unfolding st_def by (rule unedited_from) (simp add: unedited_def)
  then have "\<not> rp_Changed (snd st) \<Longrightarrow> edits_apply (fst st) (Split src newline) = Split src newline"
    by (simp add: unedited_def edits_apply_chunks chunk_def edit_at_def map_nth)
  with scan show ?thesis by (cases st) (simp add: RewriteBufGen_def Join_Split)
qed

subsection \<open>Pinned references\<close>

text \<open>Spaces around a text that neither starts nor ends with one.\<close>

abbreviation spaces :: "string \<Rightarrow> bool" where
  "spaces \<equiv> list_all is_space"

definition tight :: "string \<Rightarrow> bool" where
  "tight s \<longleftrightarrow> s \<noteq> [] \<and> \<not> is_space (hd s) \<and> \<not> is_space (last s)"

lemma TrimSpace_spaces: "spaces a \<Longrightarrow> spaces b \<Longrightarrow> tight s \<Longrightarrow> TrimSpace (a @ s @ b) = s"
proof -
  assume a: "spaces a" "spaces b" "tight s"
  have "dropWhile is_space (a @ s @ b) = s @ b" using a by (cases s) (auto simp: tight_def list_all_iff dropWhile_append3)
  moreover have "dropWhile is_space (rev b @ rev s) = rev s"
    using a by (cases s rule: rev_cases) (auto simp: tight_def list_all_iff dropWhile_append3)
  ultimately show ?thesis by (simp add: TrimSpace_def)
qed

lemma TrimSpace_tight: "tight s \<Longrightarrow> TrimSpace s = s"
  using TrimSpace_spaces [of "[]" "[]" s] by simp

lemma dropWhile_spaces: "\<exists>a. spaces a \<and> s = a @ dropWhile is_space s"
  by (intro exI [of _ "takeWhile is_space s"]) (auto simp: list_all_iff dest: set_takeWhileD)

lemma TrimSpace_split:
  assumes "TrimSpace s \<noteq> []"
  shows "tight (TrimSpace s) \<and> (\<exists>a b. spaces a \<and> spaces b \<and> s = a @ TrimSpace s @ b)"
proof -
  obtain a t where s: "spaces a" "s = a @ t" "t = dropWhile is_space s" using dropWhile_spaces [of s] by blast
  obtain b u where t: "spaces b" "rev t = b @ u" "u = dropWhile is_space (rev t)" using dropWhile_spaces [of "rev t"] by blast
  have trim: "TrimSpace s = rev u" by (simp add: TrimSpace_def s(3) [symmetric] t(3) [symmetric])
  have rt: "t = rev u @ rev b" using t(2) by (metis rev_append rev_rev_ident)
  have ne: "u \<noteq> []" "t \<noteq> []" using assms trim rt by auto
  have "\<not> is_space (hd u)" "\<not> is_space (hd t)"
    using hd_dropWhile [of is_space "rev t"] hd_dropWhile [of is_space s] ne s(3) t(3) by auto
  moreover have "hd t = hd (rev u)" using ne by (simp add: rt)
  ultimately have "tight (TrimSpace s)" using ne by (simp add: tight_def trim last_rev)
  moreover have "s = a @ TrimSpace s @ rev b" using s(2) rt trim by simp
  moreover have "spaces (rev b)" using t(1) by (simp add: list_all_iff)
  ultimately show ?thesis using s(1) by blast
qed

text \<open>Searching for a text.\<close>

declare Index.simps [simp del]

lemma Index_Nil [simp]: "Index [] (c # p) = None"
  by (subst Index.simps) (simp add: HasPrefix_def)

lemma Index_Cons: "Index (x # s) p = (if HasPrefix (x # s) p then Some 0 else map_option Suc (Index s p))"
  by (subst Index.simps) simp

lemma Index_char: "Index (u @ c # v) [c] = Some (length u)" if "c \<notin> set u" for u
  using that by (induction u) (auto simp: Index_Cons HasPrefix_def)

lemma Index_char_None: "Index u [c] = None \<longleftrightarrow> c \<notin> set u"
  by (induction u) (auto simp: Index_Cons HasPrefix_def)

lemma Index_char_Some: "Index u [c] = Some n \<Longrightarrow> c \<notin> set (take n u) \<and> (\<exists>v. u = take n u @ c # v)"
proof (induction u arbitrary: n)
  case (Cons x u)
  then show ?case by (cases n) (auto simp: Index_Cons HasPrefix_def split: if_splits)
qed simp

fun hash_free :: "string \<Rightarrow> bool" where
  "hash_free (a # b # s) \<longleftrightarrow> \<not> (a = CHR '' '' \<and> b = CHR ''#'') \<and> hash_free (b # s)"
| "hash_free _ \<longleftrightarrow> True"

lemma Index_hash_None: "Index s '' #'' = None \<longleftrightarrow> hash_free s"
  by (induction s rule: hash_free.induct) (auto simp: Index_Cons HasPrefix_def)

lemma hash_free_append: "v = [] \<or> hd v \<noteq> CHR ''#'' \<Longrightarrow> hash_free (u @ v) \<longleftrightarrow> hash_free u \<and> hash_free v"
proof (induction u)
  case (Cons x u)
  then show ?case by (cases u; cases v) auto
qed simp

lemma hash_free_spaces: "spaces s \<Longrightarrow> hash_free s"
  by (induction s rule: hash_free.induct) (auto simp: is_space_def)

lemma Index_hash: "hash_free u \<Longrightarrow> Index (u @ '' #'' @ v) '' #'' = Some (length u)"
proof (induction u)
  case (Cons x u)
  then show ?case by (cases u) (auto simp: Index_Cons HasPrefix_def)
qed (simp add: Index_Cons HasPrefix_def)

lemma Index_hash_Some: "Index s '' #'' = Some n \<Longrightarrow> hash_free (take n s) \<and> (\<exists>v. s = take n s @ '' #'' @ v)"
proof (induction s arbitrary: n rule: hash_free.induct)
  case (1 a b s)
  show ?case
  proof (cases "a = CHR '' '' \<and> b = CHR ''#''")
    case True
    with 1(2) show ?thesis by (simp add: Index_Cons HasPrefix_def)
  next
    case False
    with 1(2) obtain m where m: "n = Suc m" "Index (b # s) '' #'' = Some m"
      by (auto simp: Index_Cons [of a] HasPrefix_def)
    with 1(1) False show ?thesis by (cases m) auto
  qed
qed (auto simp: Index_Cons HasPrefix_def)

text \<open>The two forms of a scalar with its quotes or comment around it.\<close>

definition is_quote :: "char \<Rightarrow> bool" where
  "is_quote q \<longleftrightarrow> q = CHR 0x22 \<or> q = CHR 0x27"

definition quoted :: "string \<Rightarrow> string \<Rightarrow> string \<Rightarrow> bool" where
  "quoted pre v post \<longleftrightarrow> (\<exists>q r. is_quote q \<and> pre = [q] \<and> post = q # r \<and> q \<notin> set v)"

definition plain :: "string \<Rightarrow> string \<Rightarrow> string \<Rightarrow> bool" where
  "plain pre v post \<longleftrightarrow> pre = [] \<and> tight v \<and> hash_free v \<and> (post = [] \<or> (\<exists>a r. spaces a \<and> post = a @ '' #'' @ r)) \<and>
     (is_quote (hd v) \<longrightarrow> hd v \<notin> set (tl v @ post))"

definition scalar :: "string \<Rightarrow> string \<Rightarrow> string \<Rightarrow> bool" where
  "scalar pre v post \<longleftrightarrow> tight (pre @ v @ post) \<and> (quoted pre v post \<or> plain pre v post)"

definition uncommented :: "string \<Rightarrow> string" where
  "uncommented t = (case Index t '' #'' of None \<Rightarrow> t | Some h \<Rightarrow> TrimSpace (take h t))"

definition closing :: "string \<Rightarrow> nat option" where
  "closing t = (if 2 \<le> length t \<and> is_quote (hd t) then Index (tl t) [hd t] else None)"

lemma yamlScalar_eq:
  "yamlScalar y = (case closing (TrimSpace y) of Some e \<Rightarrow> take e (tl (TrimSpace y)) | None \<Rightarrow> uncommented (TrimSpace y))"
  by (auto simp: yamlScalar_def closing_def is_quote_def uncommented_def Let_def split: option.split)

lemma yamlScalar_scalar:
  assumes "scalar pre v post" "spaces a" "spaces b"
  shows "yamlScalar (a @ pre @ v @ post @ b) = v"
proof -
  have trim: "TrimSpace (a @ pre @ v @ post @ b) = pre @ v @ post"
    using TrimSpace_spaces [of a b "pre @ v @ post"] assms by (simp add: scalar_def)
  consider "quoted pre v post" | "plain pre v post" using assms(1) by (auto simp: scalar_def)
  then show ?thesis
  proof cases
    case 1
    then show ?thesis unfolding yamlScalar_eq trim by (auto simp: quoted_def closing_def Index_char)
  next
    case 2
    then have v: "tight v" "pre = []" "hash_free v" by (auto simp: plain_def)
    have hash: "uncommented (v @ post) = v"
    proof (cases "post = []")
      case True
      with v Index_hash_None [of v] show ?thesis by (simp add: uncommented_def)
    next
      case False
      then obtain c r where c: "spaces c" "post = c @ '' #'' @ r" using 2 by (auto simp: plain_def)
      have "hash_free (v @ c)"
        using v c hash_free_spaces [of c] by (cases c) (auto simp: hash_free_append is_space_def)
      from Index_hash [OF this, of r] show ?thesis
        using TrimSpace_spaces [of "[]" c v] v c by (simp add: uncommented_def)
    qed
    have "closing (v @ post) = None"
      using 2 v by (auto simp: closing_def plain_def Index_char_None tight_def)
    with hash v(2) show ?thesis unfolding yamlScalar_eq trim by simp
  qed
qed

lemma scalar_split:
  assumes "yamlScalar y = v" "v \<noteq> []"
  shows "\<exists>a pre post b. spaces a \<and> spaces b \<and> scalar pre v post \<and> y = a @ pre @ v @ post @ b"
proof -
  define t where "t = TrimSpace y"
  have v: "v = (case closing t of Some e \<Rightarrow> take e (tl t) | None \<Rightarrow> uncommented t)"
    using assms(1) unfolding yamlScalar_eq t_def by (rule sym)
  have "uncommented [] = []" "closing [] = None" by (simp_all add: closing_def uncommented_def)
  with v assms(2) have ne: "t \<noteq> []" by fastforce
  obtain a b where y: "tight t" "spaces a" "spaces b" "y = a @ t @ b" using TrimSpace_split [of y] ne unfolding t_def [symmetric] by blast
  have "\<exists>pre post. scalar pre v post \<and> t = pre @ v @ post"
  proof (cases "closing t")
    case (Some n)
    then have n: "Index (tl t) [hd t] = Some n" "is_quote (hd t)" by (auto simp: closing_def split: if_splits)
    from v Some have v: "v = take n (tl t)" by simp
    from Index_char_Some [OF n(1)] obtain r where r: "tl t = v @ hd t # r" "hd t \<notin> set v" unfolding v by auto
    have t: "t = [hd t] @ v @ hd t # r" using ne r(1) by (cases t) auto
    have "quoted [hd t] v (hd t # r)" using n(2) r(2) by (simp add: quoted_def)
    with y(1) t show ?thesis unfolding scalar_def by metis
  next
    case None
    then have u: "uncommented t = v" using v by simp
    have q: "is_quote (hd t) \<longrightarrow> hd t \<notin> set (tl t)"
      using None ne by (cases t; cases "tl t") (auto simp: closing_def Index_char_None)
    show ?thesis
    proof (cases "Index t '' #''")
      case None
      with u q y(1) show ?thesis
        by (intro exI [of _ "[]"] exI [of _ "[]"]) (auto simp: scalar_def plain_def uncommented_def Index_hash_None)
    next
      case (Some h)
      then obtain r where r: "t = take h t @ '' #'' @ r" "hash_free (take h t)" using Index_hash_Some by blast
      from Some u assms(2) have tr: "TrimSpace (take h t) = v" "TrimSpace (take h t) \<noteq> []" by (auto simp: uncommented_def)
      from TrimSpace_split [OF tr(2)] obtain c d where c: "tight v" "spaces c" "spaces d" "take h t = c @ v @ d" unfolding tr(1) by blast
      have "c = []" using c y(1) r(1) by (cases c; cases t) (auto simp: tight_def)
      then have t: "t = v @ d @ '' #'' @ r" using r(1) c(4) by simp
      have "hash_free v"
        using r(2) c(3,4) \<open>c = []\<close> hash_free_append [of d v] by (cases d) (auto simp: is_space_def)
      moreover have "is_quote (hd v) \<longrightarrow> hd v \<notin> set (tl v @ d @ '' #'' @ r)"
        using q c(1) unfolding t by (cases v) (auto simp: tight_def)
      ultimately have "plain [] v (d @ '' #'' @ r)" using c(1,3) unfolding plain_def by blast
      with y(1) t show ?thesis unfolding scalar_def by (metis append_Nil)
    qed
  qed
  with y show ?thesis by fastforce
qed

text \<open>Remote references and the lines that name them.\<close>

lemma remote_ref:
  assumes "connectRemotePluginRef ref = Some (host, plugin, version)"
  shows "bsrHostPattern host \<and> host \<noteq> [] \<and> CHR ''/'' \<notin> set host \<and> (\<exists>t. ref = host @ ''/connectrpc/'' @ t) \<and>
    (plugin = ''go'' \<or> plugin = ''gosimple'') \<and> (version \<noteq> [] \<longrightarrow> ref = host @ ''/connectrpc/'' @ plugin @ '':'' @ version)"
proof -
  define rest where "rest = drop (length host) ref"
  define tail where "tail = drop (length ''/connectrpc/'') rest"
  define w where "w = drop (length plugin) tail"
  have h: "host = takeWhile (\<lambda>c. c \<noteq> CHR ''/'') ref" "bsrHostPattern host" "HasPrefix rest ''/connectrpc/''"
      "plugin = takeWhile (\<lambda>c. c \<noteq> CHR '':'') tail" "version = tl w"
      "plugin = ''go'' \<or> plugin = ''gosimple''"
    using assms unfolding connectRemotePluginRef_def Let_def w_def tail_def rest_def by (auto split: if_splits)
  have r1: "ref = host @ rest" using h(1) unfolding rest_def by (metis append_take_drop_id takeWhile_eq_take)
  have r2: "rest = ''/connectrpc/'' @ tail" using h(3) unfolding tail_def by (metis HasPrefix_def append_take_drop_id)
  have r3: "tail = plugin @ w" using h(4) unfolding w_def by (metis append_take_drop_id takeWhile_eq_take)
  have r4: "w = '':'' @ version" if "version \<noteq> []"
  proof -
    have v: "w = dropWhile (\<lambda>c. c \<noteq> CHR '':'') tail" using h(4) unfolding w_def by (simp add: dropWhile_eq_drop)
    have "w \<noteq> []" using that h(5) by (metis list.sel(2))
    then have "hd w = CHR '':''" using hd_dropWhile [of "\<lambda>c. c \<noteq> CHR '':''" tail] unfolding v by blast
    with \<open>w \<noteq> []\<close> show ?thesis unfolding h(5) by (cases w) simp_all
  qed
  have ne: "host \<noteq> []" using h(2) by (cases host) (simp_all add: bsrHostPattern_def)
  have slash: "CHR ''/'' \<notin> set host" using h(2) unfolding bsrHostPattern_def list_all_iff by blast
  have "ref = host @ ''/connectrpc/'' @ tail" using r1 unfolding r2 .
  moreover from this have "version \<noteq> [] \<longrightarrow> ref = host @ ''/connectrpc/'' @ plugin @ '':'' @ version"
    using r3 r4 by (metis append_assoc)
  ultimately show ?thesis using h(2,6) ne slash by blast
qed

lemma pinned_ref:
  assumes "bsrHostPattern host"
  shows "connectRemotePluginRef (host @ ''/connectrpc/go:v2.0.0'') = Some (host, ''go'', ''v2.0.0'')"
proof -
  have "takeWhile (\<lambda>c. c \<noteq> CHR ''/'') (host @ ''/connectrpc/go:v2.0.0'') = host"
    using assms by (auto simp: bsrHostPattern_def list_all_iff takeWhile_tail)
  then show ?thesis using assms by (simp add: connectRemotePluginRef_def Let_def HasPrefix_def regexp_space_def)
qed

lemma scalar_pin:
  assumes "scalar pre ref post" "connectRemotePluginRef ref = Some (host, plugin, version)"
  shows "scalar pre (host @ ''/connectrpc/go:v2.0.0'') post"
proof -
  obtain t where t: "host \<noteq> []" "ref = host @ ''/connectrpc/'' @ t" using remote_ref [OF assms(2)] by auto
  have hash: "hash_free host" if "hash_free ref"
    using that hash_free_append [of "''/connectrpc/'' @ t" host] by (simp add: t)
  have *: "hash_free (host @ ''/connectrpc/go:v2.0.0'')" if "hash_free ref"
    using hash [OF that] hash_free_append [of "''/connectrpc/go:v2.0.0''" host] by simp
  define new where "new = host @ ''/connectrpc/go:v2.0.0''"
  obtain c u where host: "host = c # u" using t(1) by (cases host) auto
  have new: "new \<noteq> []" "hd new = hd ref" "last new = CHR ''0''" "set (tl new) \<subseteq> set (tl ref) \<union> set ''connectrpc/go:v2.0.0''"
    by (simp_all add: new_def t(2) host) auto
  consider q r where "is_quote q" "pre = [q]" "post = q # r" "q \<notin> set ref" | "plain pre ref post"
    using assms(1) by (auto simp: scalar_def quoted_def)
  then have "scalar pre new post"
  proof cases
    case 1
    have "set new \<subseteq> set ref \<union> set ''go:v2.0.0''" unfolding t(2) new_def by auto
    then have "q \<notin> set new" using 1(1,4) unfolding is_quote_def by auto
    then have "quoted pre new post" using 1 by (simp add: quoted_def)
    moreover have "tight (pre @ new @ post)" using assms(1) 1(2,3) by (simp add: scalar_def tight_def)
    ultimately show ?thesis by (simp add: scalar_def)
  next
    case 2
    then have "tight new" "hash_free new" using * new by (auto simp: plain_def tight_def new_def [symmetric] is_space_def)
    moreover have "hd new \<notin> set (tl new @ post)" if "is_quote (hd new)"
      using 2 that new(2,4) by (auto simp: plain_def is_quote_def)
    ultimately have "plain pre new post" using 2 by (auto simp: plain_def)
    moreover have "tight (pre @ new @ post)"
      using assms(1) 2 \<open>tight new\<close> by (auto simp: scalar_def plain_def tight_def)
    ultimately show ?thesis by (simp add: scalar_def)
  qed
  then show ?thesis unfolding new_def .
qed

lemma tight_append: "tight (u @ v) \<Longrightarrow> spaces v \<Longrightarrow> v = []"
  by (cases v rule: rev_cases) (auto simp: tight_def)

definition remote_key :: "string \<Rightarrow> bool" where
  "remote_key k \<longleftrightarrow> k = ''remote:'' \<or> k = ''plugin:''"

lemma item_scalar:
  assumes "remote_key key" "scalar pre v post" "spaces a" "spaces b" "spaces c" "spaces d" "isConnectRemoteRef v"
  shows "connectPluginItem (a @ ''- '' @ b @ key @ c @ pre @ v @ post @ d) = Some (kindRemote, v)"
proof -
  let ?rest = "key @ c @ pre @ v @ post"
  have rest: "tight ?rest" using assms(1,2) by (auto simp: remote_key_def scalar_def tight_def is_space_def)
  then have "tight (''- '' @ b @ ?rest)" by (simp add: tight_def is_space_def)
  from TrimSpace_spaces [OF assms(3,6) this] have t: "TrimSpace (a @ ''- '' @ b @ key @ c @ pre @ v @ post @ d) = ''- '' @ b @ ?rest"
    by simp
  have r: "TrimSpace (b @ ?rest) = ?rest" using TrimSpace_spaces [of b "[]" ?rest] assms(4) rest by simp
  have y: "yamlScalar (c @ pre @ v @ post) = v" using yamlScalar_scalar [of pre v post c "[]"] assms(2,5) by simp
  show ?thesis
    unfolding connectPluginItem_def t Let_def using assms(1,7) r y by (auto simp: remote_key_def HasPrefix_def)
qed

lemma item_split:
  assumes "connectPluginItem line = Some (kindRemote, ref)"
  shows "\<exists>a b key c pre post d. remote_key key \<and> scalar pre ref post \<and> spaces a \<and> spaces b \<and> spaces c \<and> spaces d \<and>
    line = a @ ''- '' @ b @ key @ c @ pre @ ref @ post @ d \<and> isConnectRemoteRef ref"
proof -
  define x where "x = drop 2 (TrimSpace line)"
  define y where "y = drop 7 (TrimSpace x)"
  have x: "TrimSpace line = ''- '' @ x"
    using assms unfolding x_def by (auto simp: connectPluginItem_def Let_def HasPrefix_iff split: if_splits)
  obtain key where key: "remote_key key" "TrimSpace x = key @ y" "yamlScalar y = ref" "isConnectRemoteRef ref"
    using assms classifyLocalPlugin_kind unfolding connectPluginItem_def Let_def x_def [symmetric] y_def
    by (auto simp: remote_key_def HasPrefix_iff split: if_splits)
  have "ref \<noteq> []" using key(4) by (auto simp: isConnectRemoteRef_def connectRemotePluginRef_def bsrHostPattern_def Let_def)
  from scalar_split [OF key(3) this] obtain c pre post e where s: "spaces c" "spaces e" "scalar pre ref post" "y = c @ pre @ ref @ post @ e"
    by blast
  obtain a d where l: "spaces a" "spaces d" "line = a @ (''- '' @ x) @ d" "tight (''- '' @ x)"
    using TrimSpace_split [of line] unfolding x by auto
  obtain b f where r: "spaces b" "spaces f" "x = b @ (key @ y) @ f" "tight (key @ y)"
    using TrimSpace_split [of x] key(1) unfolding key(2) by (auto simp: remote_key_def)
  have "e = []" using tight_append [of "key @ c @ pre @ ref @ post" e] r(4) s by simp
  moreover have "f = []" using tight_append [of "''- '' @ b @ key @ y" f] l(4) r by simp
  ultimately show ?thesis using key(1,4) s l(1,2,3) r(1,3) by (metis append.assoc append_Nil2)
qed

lemma Index_ref:
  assumes "CHR ''/'' \<notin> set p" "CHR ''/'' \<notin> set h" "ref = h @ CHR ''/'' # t"
  shows "Index (p @ ref @ q) ref = Some (length p)"
  using assms(1)
proof (induction p)
  case Nil
  show ?case by (subst Index.simps) simp
next
  case (Cons x p)
  have cut: "takeWhile (\<lambda>c. c \<noteq> CHR ''/'') (u @ ref @ q) = u @ h" if "CHR ''/'' \<notin> set u" for u q
    using that assms(2,3) by (induction u) (auto simp: takeWhile_tail)
  have "\<not> HasPrefix ((x # p) @ ref @ q) ref"
  proof
    assume "HasPrefix ((x # p) @ ref @ q) ref"
    then obtain r where "(x # p) @ ref @ q = [] @ ref @ r" by (auto simp: HasPrefix_iff)
    from arg_cong [where f = "takeWhile (\<lambda>c. c \<noteq> CHR ''/'')", OF this] have "(x # p) @ h = [] @ h"
      using cut [of "x # p" q] cut [of "[]" r] Cons.prems by (metis empty_iff empty_set)
    then show False by simp
  qed
  with Cons show ?case by (simp add: Index_Cons)
qed

lemma Replace_first_at: "Index (p @ r @ q) r = Some (length p) \<Longrightarrow> Replace_first (p @ r @ q) r new = p @ new @ q"
  by (simp add: Replace_first_def)

lemma pinned_line_item:
  assumes "connectPluginItem line = Some (kindRemote, ref)"
  shows "\<exists>version. HasPrefix version ''v2'' \<and>
    connectPluginItem (pinned_line line ref) = Some (kindRemote, takeWhile (\<lambda>c. c \<noteq> CHR ''/'') ref @ ''/connectrpc/go:'' @ version)"
proof -
  obtain a b key c pre post d where l: "remote_key key" "scalar pre ref post" "spaces a" "spaces b" "spaces c" "spaces d"
      "line = a @ ''- '' @ b @ key @ c @ pre @ ref @ post @ d" "isConnectRemoteRef ref"
    using item_split [OF assms] by blast
  then obtain host plugin version where ref: "connectRemotePluginRef ref = Some (host, plugin, version)"
    by (auto simp: isConnectRemoteRef_def)
  from remote_ref [OF ref] obtain t where h: "bsrHostPattern host" "CHR ''/'' \<notin> set host" "ref = host @ ''/connectrpc/'' @ t"
      "version \<noteq> [] \<longrightarrow> ref = host @ ''/connectrpc/'' @ plugin @ '':'' @ version" by auto
  have host: "takeWhile (\<lambda>c. c \<noteq> CHR ''/'') ref = host"
    using ref unfolding connectRemotePluginRef_def Let_def by (auto split: if_splits)
  show ?thesis
  proof (cases "plugin \<noteq> ''gosimple'' \<and> HasPrefix version ''v2''")
    case True
    then have "plugin = ''go''" "version \<noteq> []" using remote_ref [OF ref] by (auto simp: HasPrefix_iff)
    with h(4) have "ref = host @ ''/connectrpc/go:'' @ version" by simp
    with True ref assms show ?thesis unfolding host by (intro exI [of _ version]) (simp add: pinned_line_def)
  next
    case False
    let ?pre = "a @ ''- '' @ b @ key @ c @ pre"
    have "CHR ''/'' \<notin> set ?pre"
    proof -
      have "CHR ''/'' \<notin> set s" if "spaces s" for s using that by (auto simp: list_all_iff is_space_def)
      moreover have "CHR ''/'' \<notin> set key" using l(1) by (auto simp: remote_key_def)
      moreover have "CHR ''/'' \<notin> set pre" using l(2) by (auto simp: scalar_def quoted_def plain_def is_quote_def)
      ultimately show ?thesis using l(3-5) by simp
    qed
    moreover have "ref = host @ CHR ''/'' # ''connectrpc/'' @ t" using h(3) by simp
    ultimately have "Index (?pre @ ref @ post @ d) ref = Some (length ?pre)" by (rule Index_ref [OF _ h(2)])
    moreover have "line = ?pre @ ref @ post @ d" unfolding l(7) by simp
    ultimately have "Replace_first line ref (host @ ''/connectrpc/go:v2.0.0'') = ?pre @ (host @ ''/connectrpc/go:v2.0.0'') @ post @ d"
      by (metis Replace_first_at)
    then have "pinned_line line ref = a @ ''- '' @ b @ key @ c @ pre @ (host @ ''/connectrpc/go:v2.0.0'') @ post @ d"
      using False ref by (auto simp: pinned_line_def)
    moreover have "isConnectRemoteRef (host @ ''/connectrpc/go:v2.0.0'')"
      using pinned_ref [OF h(1)] by (simp add: isConnectRemoteRef_def)
    ultimately have "connectPluginItem (pinned_line line ref) = Some (kindRemote, host @ ''/connectrpc/go:v2.0.0'')"
      using item_scalar [OF l(1) scalar_pin [OF l(2) ref] l(3-6)] by simp
    then show ?thesis unfolding host by (intro exI [of _ "''v2.0.0''"]) (simp add: HasPrefix_def)
  qed
qed


text \<open>C22. Buf templates. The migration of a template works line by line: the line of an entry for a
  remote connect-go plugin names, on the same host, the plugin \<open>go\<close> in a version 2 afterwards, the
  lines of other entries are kept; of the lines that belong to an entry, only options are rewritten
  without \<open>simple\<close> or removed; every other line stays.\<close>

theorem bufgen_edits:
  fixes filename src
  defines "lines \<equiv> Split src (CHR 0x0A)"
  defines "es \<equiv> plugin_entries lines 0"
  shows "\<exists>chunks report. RewriteBufGen filename src = Some (Join (concat chunks) [CHR 0x0A], report) \<and> length chunks = length lines \<and>
    (\<forall>i < length lines.
       case map_of es i of
         Some (kindRemote, ref) \<Rightarrow> \<exists>line version. chunks ! i = [line] \<and> HasPrefix version ''v2'' \<and>
           connectPluginItem line = Some (kindRemote, takeWhile (\<lambda>c. c \<noteq> CHR ''/'') ref @ ''/connectrpc/go:'' @ version)
       | Some _ \<Rightarrow> chunks ! i = [lines ! i]
       | None \<Rightarrow> chunks ! i = [lines ! i] \<or>
           (\<exists>(j, kind, ref) \<in> set es. j < i \<and> i \<le> j + length (block_of lines j)) \<and>
           (chunks ! i = [] \<and> is_removable (lines ! i) \<or> (\<exists>l. chunks ! i = [l] \<and> without_simple (lines ! i) = Some l)))"
    (is "\<exists>chunks report. _ \<and> _ \<and> (\<forall>i < length lines. ?ok chunks i)")
proof -
  define st where "st = migrate_from filename lines 0 (\<lparr>le_replace = [], le_delete = []\<rparr>, empty_report)"
  define chunks where "chunks = map (\<lambda>i. chunk (fst st) i (lines ! i)) [0..<length lines]"
  have m: "migrated lines es i (edit_at (fst st) i)" for i
    using migrate_from_edits [of 0 "(\<lparr>le_replace = [], le_delete = []\<rparr>, empty_report)" i filename lines]
    by (simp add: st_def es_def edit_at_def)
  have "?ok chunks i" if "i < length lines" for i
  proof (cases "map_of es i")
    case None
    then have "i \<notin> fst ` set es" by (simp add: map_of_eq_None_iff)
    with m [of i] that None show ?thesis
      by (cases "without_simple (lines ! i)") (auto simp: migrated_def option_edit_def chunks_def chunk_def)
  next
    case (Some e)
    obtain kind ref where e: "e = (kind, ref)" by (cases e)
    have mem: "(i, kind, ref) \<in> set es" using map_of_SomeD [OF Some] e by simp
    have c: "chunks ! i = [if kind = kindRemote then pinned_line (lines ! i) ref else lines ! i]"
      using m [of i] mem that by (auto simp: migrated_def chunks_def chunk_def)
    have "connectPluginItem (lines ! i) = Some (kind, ref)" using plugin_entries_ge [of i kind ref lines 0] mem by (simp add: es_def)
    with c Some e pinned_line_item [of "lines ! i" ref] show ?thesis by (cases kind) auto
  qed
  moreover have "RewriteBufGen filename src = Some (Join (concat chunks) [CHR 0x0A], snd st)"
    using RewriteBufGen_migrate [of filename src] by (simp add: st_def lines_def chunks_def edits_apply_chunks)
  moreover have "length chunks = length lines" by (simp add: chunks_def)
  ultimately show ?thesis by blast
qed

definition sample_template :: string where
  "sample_template = Join [''plugins:'', ''  - remote: buf.build/connectrpc/gosimple # v1'', ''    opt: paths=source_relative,simple'',
     ''  - local: protoc-gen-go''] [newline]"

theorem bufgen_edits_witness:
  "map_option fst (RewriteBufGen ''buf.gen.yaml'' sample_template) =
     Some (Join [''plugins:'', ''  - remote: buf.build/connectrpc/go:v2.0.0 # v1'', ''    opt: paths=source_relative'',
       ''  - local: protoc-gen-go''] [newline]) \<and>
   (\<exists>chunks report line version. RewriteBufGen ''buf.gen.yaml'' sample_template = Some (Join (concat chunks) [newline], report) \<and>
     chunks ! 1 = [line] \<and> HasPrefix version ''v2'' \<and> connectPluginItem line = Some (kindRemote, ''buf.build/connectrpc/go:'' @ version))"
proof -
  have es: "map_of (plugin_entries (Split sample_template newline) 0) 1 = Some (kindRemote, ''buf.build/connectrpc/gosimple'')"
    and n: "1 < length (Split sample_template newline)" by code_simp+
  have "map_option fst (RewriteBufGen ''buf.gen.yaml'' sample_template) =
     Some (Join [''plugins:'', ''  - remote: buf.build/connectrpc/go:v2.0.0 # v1'', ''    opt: paths=source_relative'',
       ''  - local: protoc-gen-go''] [newline])" by code_simp
  moreover obtain chunks report where c: "RewriteBufGen ''buf.gen.yaml'' sample_template = Some (Join (concat chunks) [newline], report)"
      "\<exists>line version. chunks ! 1 = [line] \<and> HasPrefix version ''v2'' \<and>
         connectPluginItem line = Some (kindRemote, takeWhile (\<lambda>c. c \<noteq> CHR ''/'') ''buf.build/connectrpc/gosimple'' @ ''/connectrpc/go:'' @ version)"
    using bufgen_edits [of "''buf.gen.yaml''" sample_template] n es by force
  ultimately show ?thesis by fastforce
qed

text \<open>A comment behind the key of an option list is taken for the inline value, so \<open>simple\<close> stays; and a
  quoted value loses its quotes, so that a part of it becomes a comment.\<close>

lemma commented_opt_keeps_simple:
  "map_option fst (RewriteBufGen ''buf.gen.yaml''
     (Join [''  - local: protoc-gen-connect-go'', ''    opt: # options'', ''      - simple=true''] [newline])) =
   Some (Join [''  - local: protoc-gen-connect-go'', ''    opt: # options'', ''      - simple=true''] [newline])"
  by code_simp

lemma quoted_opt_truncated:
  "optLine (''    opt: '' @ [CHR 0x22] @ ''a #b,simple'' @ [CHR 0x22]) = Some (4, ''a #b,simple'')"
  "without_simple (''    opt: '' @ [CHR 0x22] @ ''a #b,simple'' @ [CHR 0x22]) = Some ''    opt: a #b''"
  "optLine ''    opt: a #b'' = Some (4, ''a'')"
  by code_simp+

end
