(* ===== verification/Edit_Script.thy ===== *)
theory Edit_Script
  imports Go_Base "HOL-Library.Sublist"
begin

section \<open>The diff of the migration tool (cmd/connect-go-v2-migrate/diff.go)\<close>

text \<open>
  \<open>unifiedDiff\<close> shows what a migration changes in a file: \<open>editScript\<close> aligns the lines of both
  versions along a longest common subsequence, \<open>hunks\<close> groups the changes with three lines of
  context, and each hunk is printed with its position in both files. The lemmas show that the
  table of the code holds the lengths of longest common subsequences, that the script is a
  minimal description of both versions, and that the hunks alone turn the old lines into the new.
\<close>

subsection \<open>Edit scripts\<close>

abbreviation diffContext :: nat where "diffContext \<equiv> 3"

definition escape :: "string \<Rightarrow> string" where
  "escape s = char_of (27 :: nat) # s"

definition colorReset :: string where "colorReset = escape ''[0m''"
definition colorRed :: string where "colorRed = escape ''[31m''"
definition colorGreen :: string where "colorGreen = escape ''[32m''"
definition colorCyan :: string where "colorCyan = escape ''[36m''"

record diff_line =
  dl_tag :: char
  dl_text :: string
  dl_aNum :: nat
  dl_bNum :: nat

text \<open>The table, filled from the last row and column.\<close>

fun lcs_row :: "string list \<Rightarrow> string list \<Rightarrow> nat \<Rightarrow> nat \<Rightarrow> nat list list \<Rightarrow> nat list list" where
  "lcs_row aLines bLines i 0 lcs = lcs"
| "lcs_row aLines bLines i (Suc j) lcs =
     lcs_row aLines bLines i j
       (lcs[i := (lcs ! i)[j :=
          (if aLines ! i = bLines ! j then lcs ! (i + 1) ! (j + 1) + 1
           else max (lcs ! (i + 1) ! j) (lcs ! i ! (j + 1)))]])"

fun lcs_rows :: "string list \<Rightarrow> string list \<Rightarrow> nat \<Rightarrow> nat list list \<Rightarrow> nat list list" where
  "lcs_rows aLines bLines 0 lcs = lcs"
| "lcs_rows aLines bLines (Suc i) lcs = lcs_rows aLines bLines i (lcs_row aLines bLines i (length bLines) lcs)"

definition lcs_table :: "string list \<Rightarrow> string list \<Rightarrow> nat list list" where
  "lcs_table aLines bLines =
     lcs_rows aLines bLines (length aLines) (replicate (length aLines + 1) (replicate (length bLines + 1) 0))"

text \<open>The walk through the table, and the two loops over what is left.\<close>

function script_walk :: "nat list list \<Rightarrow> string list \<Rightarrow> string list \<Rightarrow> nat \<Rightarrow> nat \<Rightarrow> diff_line list" where
  "script_walk lcs aLines bLines aIdx bIdx =
     (if aIdx < length aLines \<and> bIdx < length bLines then
        if aLines ! aIdx = bLines ! bIdx
        then \<lparr>dl_tag = CHR '' '', dl_text = aLines ! aIdx, dl_aNum = aIdx + 1, dl_bNum = bIdx + 1\<rparr>
               # script_walk lcs aLines bLines (aIdx + 1) (bIdx + 1)
        else if lcs ! (aIdx + 1) ! bIdx \<ge> lcs ! aIdx ! (bIdx + 1)
        then \<lparr>dl_tag = CHR ''-'', dl_text = aLines ! aIdx, dl_aNum = aIdx + 1, dl_bNum = 0\<rparr>
               # script_walk lcs aLines bLines (aIdx + 1) bIdx
        else \<lparr>dl_tag = CHR ''+'', dl_text = bLines ! bIdx, dl_aNum = 0, dl_bNum = bIdx + 1\<rparr>
               # script_walk lcs aLines bLines aIdx (bIdx + 1)
      else
        map (\<lambda>i. \<lparr>dl_tag = CHR ''-'', dl_text = aLines ! i, dl_aNum = i + 1, dl_bNum = 0\<rparr>) [aIdx..<length aLines] @
        map (\<lambda>i. \<lparr>dl_tag = CHR ''+'', dl_text = bLines ! i, dl_aNum = 0, dl_bNum = i + 1\<rparr>) [bIdx..<length bLines])"
  by auto
termination
  by (relation "measure (\<lambda>(_, a, b, i, j). (length a - i) + (length b - j))") auto

declare script_walk.simps [simp del]

definition editScript :: "string list \<Rightarrow> string list \<Rightarrow> diff_line list" where
  "editScript aLines bLines = script_walk (lcs_table aLines bLines) aLines bLines 0 0"

subsection \<open>Hunks\<close>

definition mark_visible :: "diff_line list \<Rightarrow> bool list" where
  "mark_visible lines =
     (let count = length lines in
      foldl (\<lambda>visible i.
          if dl_tag (lines ! i) = CHR '' '' then visible
          else foldl (\<lambda>visible k. visible[k := True]) visible
                 [i - diffContext..<Suc (min (i + diffContext) (count - 1))])
        (replicate count False) [0..<count])"

function run_end :: "bool list \<Rightarrow> nat \<Rightarrow> nat" where
  "run_end visible i = (if i < length visible \<and> visible ! i then run_end visible (i + 1) else i)"
  by auto
termination
  by (relation "measure (\<lambda>(v, i). length v - i)") auto

declare run_end.simps [simp del]

lemma run_end_ge: "i \<le> run_end visible i"
  by (induction visible i rule: run_end.induct) (subst run_end.simps, auto)

lemma run_end_less: "i < length visible \<Longrightarrow> visible ! i \<Longrightarrow> i < run_end visible i"
  using run_end_ge [of "i + 1" visible] by (subst run_end.simps) simp

function scan_ranges :: "bool list \<Rightarrow> nat \<Rightarrow> (nat \<times> nat) list" where
  "scan_ranges visible i =
     (if i < length visible then
        if \<not> visible ! i then scan_ranges visible (i + 1)
        else (i, run_end visible i) # scan_ranges visible (run_end visible i)
      else [])"
  by auto
termination
  by (relation "measure (\<lambda>(v, i). length v - i)") (auto simp: run_end_less diff_less_mono2)

declare scan_ranges.simps [simp del]

definition hunks :: "diff_line list \<Rightarrow> (nat \<times> nat) list" where
  "hunks lines = scan_ranges (mark_visible lines) 0"

text \<open>Start line and number of lines on either side.\<close>

definition diff_bounds :: "diff_line list \<Rightarrow> nat \<times> nat \<times> nat \<times> nat" where
  "diff_bounds lines =
     foldl (\<lambda>(aStart, aCount, bStart, bCount) line.
        let (aStart, aCount) =
              (if dl_aNum line \<noteq> 0 then (if aCount = 0 then dl_aNum line else aStart, aCount + 1) else (aStart, aCount));
            (bStart, bCount) =
              (if dl_bNum line \<noteq> 0 then (if bCount = 0 then dl_bNum line else bStart, bCount + 1) else (bStart, bCount))
        in (aStart, aCount, bStart, bCount))
      (0, 0, 0, 0) lines"

subsection \<open>Printing\<close>

definition colorize :: "diff_line \<Rightarrow> bool \<Rightarrow> string" where
  "colorize line color =
     (let text = dl_tag line # dl_text line in
      if \<not> color then text
      else if dl_tag line = CHR ''-'' then colorRed @ text @ colorReset
      else if dl_tag line = CHR ''+'' then colorGreen @ text @ colorReset
      else text)"

definition writeHunk :: "diff_line list \<Rightarrow> bool \<Rightarrow> string" where
  "writeHunk lines color =
     (case diff_bounds lines of
        (aStart, aCount, bStart, bCount) \<Rightarrow>
          let header = Sprintf ''@@ -%d,%d +%d,%d @@''
                [itoa (int aStart), itoa (int aCount), itoa (int bStart), itoa (int bCount)];
              header = (if color then colorCyan @ header @ colorReset else header)
          in header @ [CHR 0x0A] @ concat (map (\<lambda>line. colorize line color @ [CHR 0x0A]) lines))"

definition sub_lines :: "nat \<times> nat \<Rightarrow> 'a list \<Rightarrow> 'a list" where
  "sub_lines r xs = (case r of (start, stop) \<Rightarrow> drop start (take stop xs))"

definition unifiedDiff :: "string \<Rightarrow> bytes \<Rightarrow> bytes \<Rightarrow> bool \<Rightarrow> string" where
  "unifiedDiff name a b color =
     (let lines = editScript (Split (string_of_bytes a) (CHR 0x0A)) (Split (string_of_bytes b) (CHR 0x0A))
      in ''--- '' @ name @ [CHR 0x0A] @ ''+++ '' @ name @ [CHR 0x0A] @
         concat (map (\<lambda>hunk. writeHunk (sub_lines hunk lines) color) (hunks lines)))"

subsection \<open>The table holds the lengths of longest common subsequences\<close>

fun lcs_length :: "'a list \<Rightarrow> 'a list \<Rightarrow> nat" where
  "lcs_length [] ys = 0"
| "lcs_length (x # xs) [] = 0"
| "lcs_length (x # xs) (y # ys) =
     (if x = y then Suc (lcs_length xs ys) else max (lcs_length xs (y # ys)) (lcs_length (x # xs) ys))"

lemma lcs_length_Nil [simp]: "lcs_length xs [] = 0"
  by (cases xs) simp_all

lemma lcs_length_longest: "subseq zs xs \<Longrightarrow> subseq zs ys \<Longrightarrow> length zs \<le> lcs_length xs ys"
proof (induction xs ys arbitrary: zs rule: lcs_length.induct)
  case (3 x xs y ys)
  show ?case
  proof (cases zs)
    case (Cons z zs')
    show ?thesis
    proof (cases "x = y")
      case True
      have "subseq zs' xs" "subseq zs' ys"
        using 3(4,5) Cons subseq_Cons' [of z zs'] by (auto split: if_splits)
      then show ?thesis using 3(1) True Cons by simp
    next
      case False
      then have "subseq zs xs \<or> subseq zs ys" using 3(4,5) Cons by (auto split: if_splits)
      with 3 False show ?thesis by (auto simp: le_max_iff_disj)
    qed
  qed simp
qed auto

lemma lcs_length_drop:
  assumes "i < length a" "j < length b"
  shows "lcs_length (drop i a) (drop j b) =
    (if a ! i = b ! j then lcs_length (drop (i + 1) a) (drop (j + 1) b) + 1
     else max (lcs_length (drop (i + 1) a) (drop j b)) (lcs_length (drop i a) (drop (j + 1) b)))"
  using assms by (simp add: Cons_nth_drop_Suc [symmetric])

lemma lcs_row_filled:
  assumes "length lcs = length a + 1" "\<forall>k \<le> length a. length (lcs ! k) = length b + 1" "i < length a" "j \<le> length b"
    and "\<forall>j' \<le> length b. lcs ! (i + 1) ! j' = lcs_length (drop (i + 1) a) (drop j' b)"
    and "\<forall>j'. j \<le> j' \<and> j' \<le> length b \<longrightarrow> lcs ! i ! j' = lcs_length (drop i a) (drop j' b)"
  shows "length (lcs_row a b i j lcs) = length a + 1 \<and> (\<forall>k. k \<noteq> i \<longrightarrow> lcs_row a b i j lcs ! k = lcs ! k) \<and>
    length (lcs_row a b i j lcs ! i) = length b + 1 \<and>
    (\<forall>j' \<le> length b. lcs_row a b i j lcs ! i ! j' = lcs_length (drop i a) (drop j' b))"
  using assms
proof (induction j arbitrary: lcs)
  case (Suc j)
  let ?v = "if a ! i = b ! j then lcs ! (i + 1) ! (j + 1) + 1 else max (lcs ! (i + 1) ! j) (lcs ! i ! (j + 1))"
  let ?lcs = "lcs[i := (lcs ! i)[j := ?v]]"
  have v: "?v = lcs_length (drop i a) (drop j b)"
    using Suc.prems lcs_length_drop [of i a j b] by simp
  have "length (lcs_row a b i j ?lcs) = length a + 1 \<and> (\<forall>k. k \<noteq> i \<longrightarrow> lcs_row a b i j ?lcs ! k = ?lcs ! k) \<and>
      length (lcs_row a b i j ?lcs ! i) = length b + 1 \<and>
      (\<forall>j' \<le> length b. lcs_row a b i j ?lcs ! i ! j' = lcs_length (drop i a) (drop j' b))"
  proof (rule Suc.IH)
    show "\<forall>j'. j \<le> j' \<and> j' \<le> length b \<longrightarrow> ?lcs ! i ! j' = lcs_length (drop i a) (drop j' b)"
    proof (intro allI impI)
      fix j' assume "j \<le> j' \<and> j' \<le> length b"
      with Suc.prems v show "?lcs ! i ! j' = lcs_length (drop i a) (drop j' b)"
        by (cases "j' = j") simp_all
    qed
  qed (use Suc.prems in \<open>auto simp: nth_list_update\<close>)
  then show ?case by auto
qed auto

lemma lcs_rows_filled:
  assumes "length lcs = length a + 1" "\<forall>k \<le> length a. length (lcs ! k) = length b + 1" "i \<le> length a"
    and "\<forall>k j. i \<le> k \<and> k \<le> length a \<and> j \<le> length b \<longrightarrow> lcs ! k ! j = lcs_length (drop k a) (drop j b)"
    and "\<forall>k < i. lcs ! k ! length b = 0"
    and "k \<le> length a" "j \<le> length b"
  shows "lcs_rows a b i lcs ! k ! j = lcs_length (drop k a) (drop j b)"
  using assms(1-5)
proof (induction i arbitrary: lcs)
  case 0
  then show ?case using assms(6,7) by simp
next
  case (Suc i)
  let ?lcs = "lcs_row a b i (length b) lcs"
  have row: "length ?lcs = length a + 1 \<and> (\<forall>k. k \<noteq> i \<longrightarrow> ?lcs ! k = lcs ! k) \<and> length (?lcs ! i) = length b + 1 \<and>
      (\<forall>j' \<le> length b. ?lcs ! i ! j' = lcs_length (drop i a) (drop j' b))"
    using Suc.prems by (intro lcs_row_filled) auto
  have "lcs_rows a b i ?lcs ! k ! j = lcs_length (drop k a) (drop j b)"
  proof (rule Suc.IH)
    show "\<forall>k j. i \<le> k \<and> k \<le> length a \<and> j \<le> length b \<longrightarrow> ?lcs ! k ! j = lcs_length (drop k a) (drop j b)"
      using row Suc.prems(4) by (metis le_antisym not_less_eq_eq)
    show "\<forall>k \<le> length a. length (?lcs ! k) = length b + 1" using row Suc.prems(2) by metis
  qed (use row Suc.prems in auto)
  then show ?case by simp
qed

lemma lcs_table_correct:
  assumes "i \<le> length a" "j \<le> length b"
  shows "lcs_table a b ! i ! j = lcs_length (drop i a) (drop j b)"
  unfolding lcs_table_def using assms by (intro lcs_rows_filled) (auto simp: less_Suc_eq_le simp del: replicate_Suc)

subsection \<open>Edit scripts describe both versions\<close>

definition old_lines :: "diff_line list \<Rightarrow> diff_line list" where
  "old_lines lines = filter (\<lambda>l. dl_tag l \<noteq> CHR ''+'') lines"

definition new_lines :: "diff_line list \<Rightarrow> diff_line list" where
  "new_lines lines = filter (\<lambda>l. dl_tag l \<noteq> CHR ''-'') lines"

definition kept_lines :: "diff_line list \<Rightarrow> diff_line list" where
  "kept_lines lines = filter (\<lambda>l. dl_tag l = CHR '' '') lines"

lemmas sides = old_lines_def new_lines_def kept_lines_def

definition well_tagged :: "diff_line \<Rightarrow> bool" where
  "well_tagged l \<longleftrightarrow> dl_tag l \<in> {CHR '' '', CHR ''-'', CHR ''+''} \<and>
     (dl_aNum l = 0 \<longleftrightarrow> dl_tag l = CHR ''+'') \<and> (dl_bNum l = 0 \<longleftrightarrow> dl_tag l = CHR ''-'')"

lemma map_nth_upt: "map ((!) xs) [i..<length xs] = drop i xs"
  by (metis drop_map drop_upt add_0 map_nth)

text \<open>A script from line \<open>i\<close> of the old and line \<open>j\<close> of the new version on.\<close>

definition describes :: "string list \<Rightarrow> string list \<Rightarrow> nat \<Rightarrow> nat \<Rightarrow> diff_line list \<Rightarrow> bool" where
  "describes a b i j w \<longleftrightarrow>
     map dl_text (old_lines w) = drop i a \<and> map dl_text (new_lines w) = drop j b \<and>
     map dl_aNum (old_lines w) = [i + 1..<length a + 1] \<and> map dl_bNum (new_lines w) = [j + 1..<length b + 1] \<and>
     list_all well_tagged w"

lemma script_walk_describes: "i \<le> length a \<Longrightarrow> j \<le> length b \<Longrightarrow> describes a b i j (script_walk lcs a b i j)"
proof (induction lcs a b i j rule: script_walk.induct)
  case (1 lcs a b i j)
  show ?case
  proof (cases "i < length a \<and> j < length b")
    case True
    then have "drop i a = a ! i # drop (i + 1) a" "drop j b = b ! j # drop (j + 1) b"
      "[i + 1..<length a + 1] = (i + 1) # [i + 2..<length a + 1]" "[j + 1..<length b + 1] = (j + 1) # [j + 2..<length b + 1]"
      by (simp_all add: Cons_nth_drop_Suc upt_rec)
    with 1 True show ?thesis
      by (subst script_walk.simps) (auto simp: describes_def sides well_tagged_def)
  next
    case False
    with 1(4,5) show ?thesis
      by (subst script_walk.simps)
        (auto simp: describes_def sides well_tagged_def map_nth_upt comp_def list_all_iff filter_empty_conv map_Suc_upt)
  qed
qed

lemma script_walk_kept:
  assumes "\<forall>i j. i \<le> length a \<and> j \<le> length b \<longrightarrow> lcs ! i ! j = lcs_length (drop i a) (drop j b)"
    and "i \<le> length a" "j \<le> length b"
  shows "length (kept_lines (script_walk lcs a b i j)) = lcs_length (drop i a) (drop j b)"
  using assms
proof (induction lcs a b i j rule: script_walk.induct)
  case (1 lcs a b i j)
  show ?case
  proof (cases "i < length a \<and> j < length b")
    case True
    with 1 lcs_length_drop [of i a j b] show ?thesis
      by (subst script_walk.simps) (auto simp: kept_lines_def max_def)
  next
    case False
    with 1(5,6) show ?thesis
      by (subst script_walk.simps) (auto simp: kept_lines_def filter_empty_conv)
  qed
qed

subsection \<open>Hunks are enough\<close>

lemma mark_one: "k < length v \<Longrightarrow> v[j := True] ! k \<longleftrightarrow> v ! k \<or> k = j"
  by (cases "j = k") simp_all

lemma mark_list:
  "length (foldl (\<lambda>v k. v[k := True]) v ks) = length v"
  "k < length v \<Longrightarrow> foldl (\<lambda>v k. v[k := True]) v ks ! k \<longleftrightarrow> v ! k \<or> k \<in> set ks"
  by (induction ks arbitrary: v) (auto simp: mark_one)

lemma mark_lists:
  fixes P :: "nat \<Rightarrow> bool" and R :: "nat \<Rightarrow> nat list"
  defines "mark \<equiv> \<lambda>v i. if P i then v else foldl (\<lambda>v k. v[k := True]) v (R i)"
  shows "length (foldl mark v xs) = length v"
    "k < length v \<Longrightarrow> foldl mark v xs ! k \<longleftrightarrow> v ! k \<or> (\<exists>i \<in> set xs. \<not> P i \<and> k \<in> set (R i))"
  by (induction xs arbitrary: v) (auto simp: mark_def mark_list)

lemma length_mark_visible [simp]: "length (mark_visible lines) = length lines"
  by (simp add: mark_visible_def mark_lists Let_def)

lemma mark_visible_iff:
  assumes "k < length lines"
  shows "mark_visible lines ! k \<longleftrightarrow>
    (\<exists>i < length lines. dl_tag (lines ! i) \<noteq> CHR '' '' \<and> i \<le> k + diffContext \<and> k \<le> i + diffContext)"
  using assms by (auto simp: mark_visible_def mark_lists Let_def)

lemma sides_append:
  "old_lines (xs @ ys) = old_lines xs @ old_lines ys" "new_lines (xs @ ys) = new_lines xs @ new_lines ys"
  by (simp_all add: sides)

lemma diff_bounds_sides:
  "list_all well_tagged h \<Longrightarrow> diff_bounds h =
     (if old_lines h = [] then 0 else dl_aNum (hd (old_lines h)), length (old_lines h),
      if new_lines h = [] then 0 else dl_bNum (hd (new_lines h)), length (new_lines h))"
proof (induction h rule: rev_induct)
  case (snoc l h)
  then have "diff_bounds h = (if old_lines h = [] then 0 else dl_aNum (hd (old_lines h)), length (old_lines h),
      if new_lines h = [] then 0 else dl_bNum (hd (new_lines h)), length (new_lines h))" "well_tagged l" by simp_all
  then show ?case by (auto simp: diff_bounds_def sides well_tagged_def hd_append)
qed (simp add: diff_bounds_def sides)

text \<open>Applying hunks to the old lines, of which \<open>p\<close> are already consumed; a hunk whose old side is
  not what the file has at its position is refused.\<close>

fun patch :: "string list \<Rightarrow> nat \<Rightarrow> diff_line list list \<Rightarrow> string list option" where
  "patch a p [] = Some (drop p a)"
| "patch a p (h # hs) =
     (case diff_bounds h of
        (aStart, aCount, _, _) \<Rightarrow>
          if map dl_text (old_lines h) = take aCount (drop (aStart - 1) a)
          then map_option (\<lambda>rest. drop p (take (aStart - 1) a) @ map dl_text (new_lines h) @ rest)
                 (patch a (aStart - 1 + aCount) hs)
          else None)"

lemma run_end_props:
  "i \<le> length v \<Longrightarrow> run_end v i \<le> length v" "i \<le> k \<Longrightarrow> k < run_end v i \<Longrightarrow> v ! k"
  "run_end v i < length v \<Longrightarrow> \<not> v ! run_end v i"
proof (induction v i rule: run_end.induct)
  case (1 v i)
  {
    case 1
    then show ?case using "1.IH"(1) by (subst run_end.simps) auto
  next
    case 2
    then show ?case using "1.IH"(2) by (cases "k = i") (auto simp: run_end.simps [of v i] split: if_splits)
  next
    case 3
    then show ?case using "1.IH"(3) by (auto simp: run_end.simps [of v i] split: if_splits)
  }
qed

lemma old_part:
  assumes "describes a b 0 0 w" "w = xs @ h @ ys"
  defines "q \<equiv> length (old_lines xs)"
  shows "map dl_text (old_lines h) = take (length (old_lines h)) (drop q a)"
    "map dl_aNum (old_lines h) = [q + 1..<q + 1 + length (old_lines h)]" "map dl_text (old_lines xs) = take q a"
proof -
  have t: "a = map dl_text (old_lines xs) @ map dl_text (old_lines h) @ map dl_text (old_lines ys)"
    and n: "[1..<length a + 1] = map dl_aNum (old_lines xs) @ map dl_aNum (old_lines h) @ map dl_aNum (old_lines ys)"
    using assms(1) by (simp_all add: describes_def assms(2) sides_append)
  show "map dl_text (old_lines h) = take (length (old_lines h)) (drop q a)" "map dl_text (old_lines xs) = take q a"
    by (simp_all add: t q_def)
  have "q + length (old_lines h) \<le> length a" using arg_cong [OF t, of length] by (simp add: q_def)
  moreover have "map dl_aNum (old_lines h) = take (length (old_lines h)) (drop q [1..<length a + 1])"
    unfolding n by (simp add: q_def)
  ultimately show "map dl_aNum (old_lines h) = [q + 1..<q + 1 + length (old_lines h)]" by (simp del: upt_Suc)
qed

text \<open>From position \<open>i\<close> of the script on: the lines of the hunks and the unchanged lines between them.\<close>

lemma patch_ranges:
  assumes w: "describes a b 0 0 w" and "i \<le> length w"
    and "i = 0 \<or> (i < length w \<longrightarrow> mark_visible w ! i \<longrightarrow> \<not> mark_visible w ! (i - 1))"
    and "p \<le> length (old_lines (take i w))"
  shows "patch a p (map (\<lambda>r. sub_lines r w) (scan_ranges (mark_visible w) i)) =
    Some (drop p (take (length (old_lines (take i w))) a) @ map dl_text (new_lines (drop i w)))"
  using assms(2-4)
proof (induction "mark_visible w" i arbitrary: p rule: scan_ranges.induct)
  case (1 i)
  let ?v = "mark_visible w" and ?q = "length (old_lines (take i w))"
  consider "i = length w" | "i < length w" "\<not> ?v ! i" | "i < length w" "?v ! i" using 1(3) by fastforce
  then show ?case
  proof cases
    case 1
    have "map dl_text (old_lines w) = a" using w by (simp add: describes_def)
    then have "length (old_lines w) = length a" by (metis length_map)
    with 1 show ?thesis by (subst scan_ranges.simps) (simp add: new_lines_def)
  next
    case 2
    have keep: "dl_tag (w ! i) = CHR '' ''" using 2 mark_visible_iff [of i w] by auto
    have split: "w = take i w @ [w ! i] @ drop (i + 1) w" using 2(1) by (simp add: Cons_nth_drop_Suc)
    have "old_lines [w ! i] = [w ! i]" "new_lines [w ! i] = [w ! i]" using keep by (simp_all add: sides)
    note part = old_part [OF w split, unfolded this]
    have t: "take (i + 1) w = take i w @ [w ! i]" using 2(1) by (simp add: take_Suc_conv_app_nth)
    then have q: "length (old_lines (take (i + 1) w)) = ?q + 1" using keep by (simp add: sides)
    have "take (?q + 1) a = take ?q a @ [dl_text (w ! i)]"
      using part(1) by (auto simp: take_add simp flip: take_add)
    moreover have "drop i w = w ! i # drop (i + 1) w" using 2(1) by (simp add: Cons_nth_drop_Suc)
    moreover have "patch a p (map (\<lambda>r. sub_lines r w) (scan_ranges ?v (i + 1))) =
        Some (drop p (take (length (old_lines (take (i + 1) w))) a) @ map dl_text (new_lines (drop (i + 1) w)))"
      using 1(1) 2 1(5) q by simp
    moreover have "?q \<le> length a" using arg_cong [OF part(3), of length] by simp
    ultimately show ?thesis
      using 2 keep 1(5) q by (subst scan_ranges.simps) (simp add: sides)
  next
    case 3
    let ?e = "run_end ?v i" and ?h = "sub_lines (i, run_end ?v i) w"
    have e: "i < ?e" "?e \<le> length w" "?e < length w \<Longrightarrow> \<not> ?v ! ?e"
      using 3 run_end_less run_end_props(1) [of i ?v] run_end_props(3) [of ?v i] by simp_all
    have t: "take ?e w = take i w @ ?h"
      using e(1) by (metis sub_lines_def append_take_drop_id case_prod_conv min.absorb1 less_imp_le take_take)
    then have split: "w = take i w @ ?h @ drop ?e w" by (metis append.assoc append_take_drop_id)
    note part = old_part [OF w split]
    have tagged: "list_all well_tagged ?h" using w split by (metis describes_def list_all_append)
    have start: "fst (diff_bounds ?h) - 1 = ?q"
    proof (cases "old_lines ?h = []")
      case True
      have "w ! i \<in> set ?h" using e by (auto simp: sub_lines_def in_set_conv_nth intro!: exI [of _ 0])
      with True have "dl_tag (w ! i) \<noteq> CHR '' ''" by (auto simp: sides filter_empty_conv)
      then have "i = 0 \<or> ?v ! (i - 1)" using 3 mark_visible_iff [of "i - 1" w] by auto
      with 1(4) 3 have "i = 0" by auto
      moreover have "fst (diff_bounds ?h) = 0" using True by (simp add: diff_bounds_sides [OF tagged])
      ultimately show ?thesis by (simp add: sides)
    next
      case False
      then have "dl_aNum (hd (old_lines ?h)) = hd [?q + 1..<?q + 1 + length (old_lines ?h)]"
        using part(2) by (metis list.map_sel(1))
      with False show ?thesis by (simp add: diff_bounds_sides [OF tagged] hd_upt del: upt_Suc)
    qed
    have q: "length (old_lines (take ?e w)) = ?q + length (old_lines ?h)" by (simp add: t sides_append)
    have "patch a (?q + length (old_lines ?h)) (map (\<lambda>r. sub_lines r w) (scan_ranges ?v ?e)) = Some (map dl_text (new_lines (drop ?e w)))"
      using 1(2) 3 e q by simp
    moreover have "drop i w = ?h @ drop ?e w" using split 3(1) by (metis append_eq_conv_conj length_take less_imp_le min.absorb2)
    ultimately show ?thesis
      using 3 start part(1) by (subst scan_ranges.simps) (simp add: diff_bounds_sides [OF tagged] sides_append)
  qed
qed

lemma script_describes: "describes a b 0 0 (editScript a b)"
  unfolding editScript_def by (rule script_walk_describes) simp_all

text \<open>C34. The edit script is right and minimal. Without the added lines it is the old version, without
  the removed ones the new version, each numbered from 1; and the unchanged lines are a longest
  common subsequence of the two versions, so no script changes fewer lines.\<close>

theorem edit_script_minimal:
  fixes a b :: "string list"
  shows "map dl_text (filter (\<lambda>l. dl_tag l \<noteq> CHR ''+'') (editScript a b)) = a \<and>
    map dl_text (filter (\<lambda>l. dl_tag l \<noteq> CHR ''-'') (editScript a b)) = b \<and>
    map dl_aNum (filter (\<lambda>l. dl_tag l \<noteq> CHR ''+'') (editScript a b)) = [1..<length a + 1] \<and>
    map dl_bNum (filter (\<lambda>l. dl_tag l \<noteq> CHR ''-'') (editScript a b)) = [1..<length b + 1] \<and>
    (\<forall>xs. subseq xs a \<longrightarrow> subseq xs b \<longrightarrow> length xs \<le> length (filter (\<lambda>l. dl_tag l = CHR '' '') (editScript a b)))"
proof -
  have "length (kept_lines (editScript a b)) = lcs_length a b"
    unfolding editScript_def using script_walk_kept [of a b "lcs_table a b" 0 0] lcs_table_correct by simp
  then show ?thesis
    using script_describes [of a b] lcs_length_longest by (auto simp: describes_def sides)
qed

theorem edit_script_minimal_witness:
  "map dl_tag (editScript [''x'', ''y'', ''z''] [''x'', ''w'', ''z'', ''v'']) = '' -+ +'' \<and>
   length [''x'', ''z''] \<le> length (filter (\<lambda>l. dl_tag l = CHR '' '') (editScript [''x'', ''y'', ''z''] [''x'', ''w'', ''z'', ''v'']))"
proof
  show "map dl_tag (editScript [''x'', ''y'', ''z''] [''x'', ''w'', ''z'', ''v'']) = '' -+ +''" by code_simp
  have "subseq [''x'', ''z''] [''x'', ''y'', ''z'']" "subseq [''x'', ''z''] [''x'', ''w'', ''z'', ''v'']" by simp_all
  then show "length [''x'', ''z''] \<le> length (filter (\<lambda>l. dl_tag l = CHR '' '') (editScript [''x'', ''y'', ''z''] [''x'', ''w'', ''z'', ''v'']))"
    using edit_script_minimal [of "[''x'', ''y'', ''z'']" "[''x'', ''w'', ''z'', ''v'']"] by blast
qed

text \<open>C35. The hunks of a diff are enough: applied to the old lines, with every removed and unchanged line
  checked at the position that the header of its hunk gives, they produce the new lines; every
  changed line is shown.\<close>

theorem hunks_patch:
  "patch a 0 (map (\<lambda>r. sub_lines r (editScript a b)) (hunks (editScript a b))) = Some b"
proof -
  have "map dl_text (new_lines (editScript a b)) = b" using script_describes [of a b] by (simp add: describes_def)
  then show ?thesis
    unfolding hunks_def using patch_ranges [OF script_describes, of 0 a b 0] by (simp add: old_lines_def)
qed

end
