(* ===== verification/Migrate_Run.thy ===== *)
theory Migrate_Run
  imports Buf_Gen Edit_Script "HOL-Library.Product_Lexorder"
begin

section \<open>Runs of the migration tool (cmd/connect-go-v2-migrate/main.go, msgpass.go)\<close>

text \<open>
  A run rewrites the Buf templates, then the Go sources whose generated code is ready, then strips
  selectors that the rewrites left dangling; it writes the results to disk if asked to and reports
  them. Discovery and the rewriting of Go syntax trees need type information of the Go toolchain:
  the discovered project, the rewriting of one Go file and the ranges to strip are parameters. The
  disk is a map from paths to contents and permissions; a write that fails may leave anything in
  its file. Messages to stderr are left out.
\<close>

subsection \<open>Data\<close>

record file_content =
  fc_path :: string
  fc_content :: string
  fc_ready :: bool

record project =
  pj_templates :: "file_content list"
  pj_sources :: "file_content list"
  pj_hasV1Gen :: bool
  pj_v1GenDirs :: "string list"
  pj_sdkModules :: "string list"
  pj_externalGenModules :: "string list"
  pj_ecosystemModules :: "string list"
  pj_packagesLoaded :: nat
  pj_goFilesScanned :: nat
  pj_nestedModuleDirs :: "string list"
  pj_mockV1Pkgs :: "string list"
  pj_goModRequires :: "(string \<times> string) list option"

record rewrite_result =
  rr_path :: string
  rr_src :: string
  rr_out :: string
  rr_summary :: string

abbreviation categoryManual :: string where "categoryManual \<equiv> ''manual_update''"
abbreviation categoryDeferred :: string where "categoryDeferred \<equiv> ''deferred_update''"

record diagnostic =
  dg_Category :: string
  dg_File :: string
  dg_Line :: nat
  dg_Column :: nat
  dg_Message :: string
  dg_Rule :: string

record results =
  rs_scanned :: nat
  rs_rewrites :: "rewrite_result list"
  rs_diagnostics :: "diagnostic list"
  rs_installNotes :: "diagnostic list"
  rs_flippedResult :: bool
  rs_errored :: nat

record msg_edit =
  me_base :: string
  me_content :: string
  me_count :: nat

type_synonym disk = "string \<Rightarrow> (string \<times> nat) option"
type_synonym rewriter = "string \<Rightarrow> string \<Rightarrow> string + string \<times> report"

record os_env =
  oe_cwd :: "string option"
  oe_write_error :: "string \<Rightarrow> string option"
  oe_leftover :: "string \<Rightarrow> string \<Rightarrow> (string \<times> nat) option"

subsection \<open>Paths\<close>

text \<open>\<open>filepath.Rel\<close> of two absolute paths.\<close>

definition components :: "string \<Rightarrow> string list" where
  "components p = filter (\<lambda>c. c \<noteq> []) (Split (path_Clean p) (CHR ''/''))"

fun common_length :: "string list \<Rightarrow> string list \<Rightarrow> nat" where
  "common_length (x # xs) (y # ys) = (if x = y then Suc (common_length xs ys) else 0)"
| "common_length _ _ = 0"

definition path_Rel :: "string \<Rightarrow> string \<Rightarrow> string" where
  "path_Rel base targ =
     (let b = components base; t = components targ; n = common_length b t;
          r = replicate (length b - n) ''..'' @ drop n t
      in if r = [] then ''.'' else Join r ''/'')"

definition IsAbs :: "string \<Rightarrow> bool" where
  "IsAbs p = HasPrefix p ''/''"

definition displayPath :: "os_env \<Rightarrow> string \<Rightarrow> string" where
  "displayPath env path =
     (if path = [] then path
      else
        let path = (if IsAbs path then
                      (case oe_cwd env of
                         Some cwd \<Rightarrow> let rel = path_Rel cwd path in if \<not> HasPrefix rel ''..'' then rel else path
                       | None \<Rightarrow> path)
                    else path)
        in if IsAbs path then path
           else if HasPrefix path ''./'' \<or> HasPrefix path ''../'' then path
           else ''./'' @ path)"

definition dirContains :: "string \<Rightarrow> string \<Rightarrow> bool" where
  "dirContains outer inner =
     (let rel = path_Rel outer inner in rel = ''.'' \<or> rel \<noteq> ''..'' \<and> \<not> HasPrefix rel ''../'')"

text \<open>The directories that a template generates into, of which \<open>base\<close> is its own directory.\<close>

definition bufGenOutDirs :: "string \<Rightarrow> string \<Rightarrow> string list" where
  "bufGenOutDirs base content =
     concat (map (\<lambda>line.
       let trimmed = TrimPrefix (TrimSpace line) ''- '' in
       if \<not> HasPrefix trimmed ''out:'' then []
       else
         let value = yamlScalar (drop 4 trimmed) in
         if value = [] then []
         else let dir = path_Join [base, value] in if dirContains dir base then [] else [dir])
       (Split content (CHR 0x0A)))"

definition underGenDir :: "string \<Rightarrow> string list \<Rightarrow> bool" where
  "underGenDir path genDirs = list_ex (\<lambda>dir. path \<noteq> dir \<and> dirContains dir path) genDirs"

subsection \<open>Rewriting files\<close>

definition toDiagnostic :: "os_env \<Rightarrow> string \<Rightarrow> migration_warning \<Rightarrow> diagnostic" where
  "toDiagnostic env fallback w =
     \<lparr>dg_Category = (if wn_Kind w = WarningDeferred then categoryDeferred else categoryManual),
      dg_File = displayPath env (if wn_File w = [] then fallback else wn_File w), dg_Line = wn_Line w, dg_Column = wn_Col w,
      dg_Message = wn_Msg w, dg_Rule = wn_Rule w\<rparr>"

definition writeFilePreservingMode :: "os_env \<Rightarrow> string \<Rightarrow> string \<Rightarrow> disk \<Rightarrow> string option \<times> disk" where
  "writeFilePreservingMode env path data disk =
     (let mode = (case disk path of Some (_, mode) \<Rightarrow> mode | None \<Rightarrow> 0x1A4)
      in case oe_write_error env path of
           None \<Rightarrow> (None, disk(path \<mapsto> (data, mode)))
         | Some err \<Rightarrow> (Some err, disk(path := oe_leftover env path data)))"

definition processFile ::
  "os_env \<Rightarrow> rewriter \<Rightarrow> bool \<Rightarrow> file_content \<Rightarrow> results \<times> disk \<Rightarrow> results \<times> disk" where
  "processFile env rewrite writing file rd =
     (case rd of (run, disk) \<Rightarrow>
        case rewrite (fc_path file) (fc_content file) of
          Inl err \<Rightarrow> (run\<lparr>rs_errored := rs_errored run + 1\<rparr>, disk)
        | Inr (out, report) \<Rightarrow>
            let run = (if count_of (rp_Counts report) ''result_unwrap_response'' > 0 then run\<lparr>rs_flippedResult := True\<rparr> else run);
                result = \<lparr>rr_path = fc_path file, rr_src = fc_content file, rr_out = out, rr_summary = Summary report\<rparr>;
                (run, disk) =
                  (if rp_Changed report then
                     if writing then
                       (case writeFilePreservingMode env (fc_path file) out disk of
                          (Some err, disk) \<Rightarrow> (run\<lparr>rs_errored := rs_errored run + 1\<rparr>, disk)
                        | (None, disk) \<Rightarrow> (run\<lparr>rs_rewrites := rs_rewrites run @ [result]\<rparr>, disk))
                     else (run\<lparr>rs_rewrites := rs_rewrites run @ [result]\<rparr>, disk)
                   else (run, disk))
            in (run\<lparr>rs_diagnostics := rs_diagnostics run @ map (toDiagnostic env (fc_path file)) (rp_Warnings report)\<rparr>, disk))"

definition splitInstallNotes :: "diagnostic list \<Rightarrow> diagnostic list \<times> diagnostic list" where
  "splitInstallNotes = partition (\<lambda>d. dg_Rule d = ruleBufgenReinstall \<or> dg_Rule d = ruleBufgenGoMod)"

text \<open>\<open>applyDeletions\<close>: ranges are half open, and removed back to front.\<close>

definition delete_range :: "int \<times> int \<Rightarrow> string \<Rightarrow> string" where
  "delete_range r out =
     (case r of (start, stop) \<Rightarrow>
        if start < 0 \<or> stop > int (length out) \<or> start > stop then out
        else take (nat start) out @ drop (nat stop) out)"

definition applyDeletions :: "string \<Rightarrow> (int \<times> int) list \<Rightarrow> string" where
  "applyDeletions content ranges = fold delete_range (rev (sort_key fst ranges)) content"

fun merge_rewrites :: "string \<Rightarrow> msg_edit \<Rightarrow> rewrite_result list \<Rightarrow> rewrite_result list" where
  "merge_rewrites path edit [] =
     [\<lparr>rr_path = path, rr_src = me_base edit, rr_out = me_content edit,
       rr_summary = Sprintf ''strip_dangling_msg=%d'' [itoa (int (me_count edit))]\<rparr>]"
| "merge_rewrites path edit (r # rs) =
     (if rr_path r = path
      then r\<lparr>rr_out := me_content edit,
             rr_summary := rr_summary r @ Sprintf '' strip_dangling_msg=%d'' [itoa (int (me_count edit))]\<rparr> # rs
      else r # merge_rewrites path edit rs)"

definition mergeMsgEdit :: "string \<Rightarrow> msg_edit \<Rightarrow> results \<Rightarrow> results" where
  "mergeMsgEdit path edit run = run\<lparr>rs_rewrites := merge_rewrites path edit (rs_rewrites run)\<rparr>"

definition apply_msg_edit :: "os_env \<Rightarrow> bool \<Rightarrow> string \<times> msg_edit \<Rightarrow> results \<times> disk \<Rightarrow> results \<times> disk" where
  "apply_msg_edit env writing pe rd =
     (case (pe, rd) of ((path, edit), (run, disk)) \<Rightarrow>
        if writing then
          (case writeFilePreservingMode env path (me_content edit) disk of
             (Some err, disk) \<Rightarrow> (run\<lparr>rs_errored := rs_errored run + 1\<rparr>, disk)
           | (None, disk) \<Rightarrow> (mergeMsgEdit path edit run, disk))
        else (mergeMsgEdit path edit run, disk))"

text \<open>The edits come from a Go map; the list has them in the order of one iteration.\<close>

type_synonym stripper = "(string \<times> string) list \<Rightarrow> string + (string \<times> msg_edit) list"

definition stripDanglingMsgPass :: "os_env \<Rightarrow> stripper \<Rightarrow> bool \<Rightarrow> results \<times> disk \<Rightarrow> results \<times> disk" where
  "stripDanglingMsgPass env stripDanglingMsg writing rd =
     (let overlay = map (\<lambda>r. (rr_path r, rr_out r)) (filter (\<lambda>r. HasSuffix (rr_path r) ''.go'') (rs_rewrites (fst rd)))
      in case stripDanglingMsg overlay of
           Inl err \<Rightarrow> rd
         | Inr edits \<Rightarrow> fold (apply_msg_edit env writing) edits rd)"

subsection \<open>A run\<close>

definition bufgen_rewriter :: rewriter where
  "bufgen_rewriter path content = (case RewriteBufGen path content of Some r \<Rightarrow> Inr r | None \<Rightarrow> Inl [])"

definition diagnostic_key :: "diagnostic \<Rightarrow> string \<times> nat \<times> nat \<times> string \<times> string" where
  "diagnostic_key d = (dg_File d, dg_Line d, dg_Column d, dg_Rule d, dg_Message d)"

definition empty_results :: "nat \<Rightarrow> results" where
  "empty_results n =
     \<lparr>rs_scanned = n, rs_rewrites = [], rs_diagnostics = [], rs_installNotes = [], rs_flippedResult = False, rs_errored = 0\<rparr>"

text \<open>\<open>runMain\<close> after the flags are parsed: \<open>proj\<close> is what \<open>discover\<close> returned, \<open>Rewrite\<close> the rewriting of a
  Go file that is ready or not. The result has the exit code.\<close>

definition rewrite_phase ::
  "os_env \<Rightarrow> (bool \<Rightarrow> rewriter) \<Rightarrow> stripper \<Rightarrow> bool \<Rightarrow> project \<Rightarrow> disk \<Rightarrow> results \<times> disk" where
  "rewrite_phase env Rewrite strip writing proj disk =
     (let rd = fold (processFile env bufgen_rewriter writing) (pj_templates proj)
                 (empty_results (pj_goFilesScanned proj + length (pj_templates proj)), disk);
          (notes, rest) = splitInstallNotes (rs_diagnostics (fst rd));
          rd = ((fst rd)\<lparr>rs_installNotes := notes, rs_diagnostics := rest\<rparr>, snd rd);
          anyReady = list_ex fc_ready (pj_sources proj);
          rd = (if anyReady \<or> \<not> pj_hasV1Gen proj
                then fold (\<lambda>file. processFile env (Rewrite (fc_ready file)) writing file) (pj_sources proj) rd else rd)
      in if anyReady \<and> rs_flippedResult (fst rd) then stripDanglingMsgPass env strip writing rd else rd)"

definition runMain ::
  "os_env \<Rightarrow> (bool \<Rightarrow> rewriter) \<Rightarrow> stripper \<Rightarrow> bool \<Rightarrow> string + project \<Rightarrow> disk \<Rightarrow> int \<times> results \<times> disk" where
  "runMain env Rewrite strip writing discovered disk =
     (case discovered of
        Inl err \<Rightarrow> (1, empty_results 0, disk)
      | Inr proj \<Rightarrow>
          let (run, disk) = rewrite_phase env Rewrite strip writing proj disk;
              run = run\<lparr>rs_diagnostics := sort_key diagnostic_key (rs_diagnostics run)\<rparr>
          in (if rs_errored run > 0 then 1 else 0, run, disk))"

subsection \<open>What a run writes\<close>

definition outs :: "results \<Rightarrow> (string \<times> string) list" where
  "outs run = map (\<lambda>r. (rr_path r, rr_out r)) (rs_rewrites run)"

definition mode_of :: "disk \<Rightarrow> string \<Rightarrow> nat" where
  "mode_of disk path = (case disk path of Some (_, mode) \<Rightarrow> mode | None \<Rightarrow> 0x1A4)"

text \<open>As long as nothing failed, the disk differs from the one at the start by the recorded rewrites.\<close>

definition written :: "disk \<Rightarrow> results \<times> disk \<Rightarrow> bool" where
  "written d rd \<longleftrightarrow> distinct (map fst (outs (fst rd))) \<and>
     (rs_errored (fst rd) = 0 \<longrightarrow>
        snd rd = (\<lambda>p. case map_of (outs (fst rd)) p of Some out \<Rightarrow> Some (out, mode_of d p) | None \<Rightarrow> d p))"

lemma write_ok [simp]:
  "oe_write_error env path = None \<Longrightarrow>
     writeFilePreservingMode env path data disk = (None, disk(path \<mapsto> (data, mode_of disk path)))"
  by (simp add: writeFilePreservingMode_def mode_of_def)

lemma write_failed [simp]:
  "oe_write_error env path = Some err \<Longrightarrow>
     writeFilePreservingMode env path data disk = (Some err, disk(path := oe_leftover env path data))"
  by (simp add: writeFilePreservingMode_def)

lemma outs_simps [simp]:
  "outs (run\<lparr>rs_errored := n\<rparr>) = outs run" "outs (run\<lparr>rs_diagnostics := ds\<rparr>) = outs run"
  "outs (run\<lparr>rs_flippedResult := b\<rparr>) = outs run" "outs (run\<lparr>rs_installNotes := ns\<rparr>) = outs run"
  "outs (run\<lparr>rs_rewrites := rs_rewrites run @ [r]\<rparr>) = outs run @ [(rr_path r, rr_out r)]"
  by (simp_all add: outs_def)

text \<open>What a processed file adds: an error, a rewrite or nothing.\<close>

definition record_rewrite :: "os_env \<Rightarrow> bool \<Rightarrow> rewrite_result \<Rightarrow> results \<times> disk \<Rightarrow> results \<times> disk" where
  "record_rewrite env writing r rd =
     (case rd of (run, disk) \<Rightarrow>
        if writing then
          (case writeFilePreservingMode env (rr_path r) (rr_out r) disk of
             (Some err, disk) \<Rightarrow> (run\<lparr>rs_errored := rs_errored run + 1\<rparr>, disk)
           | (None, disk) \<Rightarrow> (run\<lparr>rs_rewrites := rs_rewrites run @ [r]\<rparr>, disk))
        else (run\<lparr>rs_rewrites := rs_rewrites run @ [r]\<rparr>, disk))"

lemma processFile_eq:
  "processFile env rewrite writing file (run, disk) =
     (case rewrite (fc_path file) (fc_content file) of
        Inl err \<Rightarrow> (run\<lparr>rs_errored := rs_errored run + 1\<rparr>, disk)
      | Inr (out, report) \<Rightarrow>
          let run = run\<lparr>rs_flippedResult := rs_flippedResult run \<or> count_of (rp_Counts report) ''result_unwrap_response'' > 0\<rparr>;
              rd = (if rp_Changed report
                    then record_rewrite env writing
                      \<lparr>rr_path = fc_path file, rr_src = fc_content file, rr_out = out, rr_summary = Summary report\<rparr> (run, disk)
                    else (run, disk))
          in ((fst rd)\<lparr>rs_diagnostics := rs_diagnostics (fst rd) @ map (toDiagnostic env (fc_path file)) (rp_Warnings report)\<rparr>, snd rd))"
  by (auto simp: processFile_def record_rewrite_def Let_def split: sum.split prod.split option.split)

lemma written_record:
  assumes "written d rd" "rr_path r \<notin> fst ` set (outs (fst rd))"
  shows "written d (record_rewrite env True r rd) \<and>
    fst ` set (outs (fst (record_rewrite env True r rd))) \<subseteq> insert (rr_path r) (fst ` set (outs (fst rd)))"
proof (cases "oe_write_error env (rr_path r)")
  case None
  have path: "map_of (outs (fst rd)) (rr_path r) = None" using assms(2) by (simp add: map_of_eq_None_iff)
  show ?thesis
    using assms None path
    by (cases rd) (auto simp: written_def record_rewrite_def mode_of_def map_add_def fun_eq_iff split: option.split)
next
  case (Some err)
  then show ?thesis using assms
    by (cases rd) (auto simp: written_def record_rewrite_def)
qed

lemma written_diagnostics: "written d (run\<lparr>rs_diagnostics := ds\<rparr>, disk) = written d (run, disk)"
  "written d (run\<lparr>rs_flippedResult := b\<rparr>, disk) = written d (run, disk)"
  "written d (run\<lparr>rs_installNotes := ns\<rparr>, disk) = written d (run, disk)"
  by (simp_all add: written_def)

lemma written_process:
  assumes "written d rd" "fc_path file \<notin> fst ` set (outs (fst rd))"
  shows "written d (processFile env rewrite True file rd) \<and>
    fst ` set (outs (fst (processFile env rewrite True file rd))) \<subseteq> insert (fc_path file) (fst ` set (outs (fst rd)))"
proof -
  obtain run disk where rd: "rd = (run, disk)" by (cases rd)
  show ?thesis
  proof (cases "rewrite (fc_path file) (fc_content file)")
    case (Inl err)
    then show ?thesis using assms by (auto simp: rd processFile_eq written_def)
  next
    case (Inr ov)
    obtain out report where ov: "ov = (out, report)" by (cases ov)
    define r where "r = \<lparr>rr_path = fc_path file, rr_src = fc_content file, rr_out = out, rr_summary = Summary report\<rparr>"
    define rd' where "rd' = (run\<lparr>rs_flippedResult := rs_flippedResult run \<or> count_of (rp_Counts report) ''result_unwrap_response'' > 0\<rparr>, disk)"
    have "written d rd'" "rr_path r \<notin> fst ` set (outs (fst rd'))" "outs (fst rd') = outs run"
      using assms by (auto simp: rd rd'_def r_def written_diagnostics)
    from written_record [OF this(1,2), of env] this show ?thesis
      unfolding rd processFile_eq Inr ov sum.case prod.case Let_def r_def [symmetric] rd'_def [symmetric]
      by (cases "record_rewrite env True r rd'") (auto simp: rd written_diagnostics r_def rd'_def)
  qed
qed

lemma disjoint_insert_subset: "u \<subseteq> insert x v \<Longrightarrow> x \<notin> a \<Longrightarrow> a \<inter> v = {} \<Longrightarrow> a \<inter> u = {}"
  by blast

lemma subset_insert_union: "a \<subseteq> p \<union> u \<Longrightarrow> u \<subseteq> insert x v \<Longrightarrow> a \<subseteq> insert x (p \<union> v)"
  by blast

lemma written_files:
  assumes "written d rd" "distinct (map fc_path files)" "set (map fc_path files) \<inter> fst ` set (outs (fst rd)) = {}"
  shows "written d (fold (\<lambda>file. processFile env (rewrite file) True file) files rd) \<and>
    fst ` set (outs (fst (fold (\<lambda>file. processFile env (rewrite file) True file) files rd))) \<subseteq>
      set (map fc_path files) \<union> fst ` set (outs (fst rd))"
  using assms
proof (induction files arbitrary: rd)
  case (Cons f files)
  define rd' where "rd' = processFile env (rewrite f) True f rd"
  have step: "written d rd'" "fst ` set (outs (fst rd')) \<subseteq> insert (fc_path f) (fst ` set (outs (fst rd)))"
    using written_process [OF Cons.prems(1), of f env "rewrite f"] Cons.prems(3) unfolding rd'_def by auto
  have dist: "distinct (map fc_path files)" "fc_path f \<notin> set (map fc_path files)" using Cons.prems(2) by auto
  have disj: "set (map fc_path files) \<inter> fst ` set (outs (fst rd')) = {}"
    by (rule disjoint_insert_subset [OF step(2) dist(2)]) (use Cons.prems(3) in auto)
  have "fold (\<lambda>file. processFile env (rewrite file) True file) (f # files) rd =
      fold (\<lambda>file. processFile env (rewrite file) True file) files rd'" by (simp add: rd'_def)
  with Cons.IH [OF step(1) dist(1) disj] subset_insert_union [OF _ step(2)] show ?case by simp
qed simp

lemma outs_merge:
  "map_of (map (\<lambda>r. (rr_path r, rr_out r)) (merge_rewrites path edit rs)) =
     (map_of (map (\<lambda>r. (rr_path r, rr_out r)) rs))(path \<mapsto> me_content edit)"
  "distinct (map rr_path rs) \<Longrightarrow> distinct (map rr_path (merge_rewrites path edit rs))"
  "set (map rr_path (merge_rewrites path edit rs)) = insert path (set (map rr_path rs))"
  by (induction rs) (auto simp: fun_eq_iff)

lemma written_msg_edit:
  assumes "written d rd"
  shows "written d (apply_msg_edit env True pe rd)"
proof -
  obtain path edit run disk where p: "pe = (path, edit)" "rd = (run, disk)" by (cases pe; cases rd)
  show ?thesis
  proof (cases "oe_write_error env path")
    case None
    have "mode_of disk path = mode_of d path" if "rs_errored run = 0"
      using assms that by (auto simp: written_def p mode_of_def split: option.splits)
    with assms None outs_merge [where path = path and edit = edit and rs = "rs_rewrites run"] show ?thesis
      by (auto simp: p apply_msg_edit_def mergeMsgEdit_def written_def outs_def comp_def fun_eq_iff split: option.split)
  next
    case (Some err)
    with assms show ?thesis by (simp add: p apply_msg_edit_def written_def)
  qed
qed

lemma written_strip: "written d rd \<Longrightarrow> written d (stripDanglingMsgPass env strip True rd)"
proof -
  have "written d rd \<Longrightarrow> written d (fold (apply_msg_edit env True) edits rd)" for edits
    by (induction edits arbitrary: rd) (simp_all add: written_msg_edit)
  then show "written d rd \<Longrightarrow> ?thesis" by (simp add: stripDanglingMsgPass_def Let_def split: sum.split)
qed

lemma written_phase:
  assumes "distinct (map fc_path (pj_templates proj @ pj_sources proj))"
  shows "written disk (rewrite_phase env Rewrite strip True proj disk)"
proof -
  define start where "start = (empty_results (pj_goFilesScanned proj + length (pj_templates proj)), disk)"
  define t where "t = fold (processFile env bufgen_rewriter True) (pj_templates proj) start"
  define cut where "cut = (case splitInstallNotes (rs_diagnostics (fst t)) of (notes, rest) \<Rightarrow>
    ((fst t)\<lparr>rs_installNotes := notes, rs_diagnostics := rest\<rparr>, snd t))"
  define u where "u = fold (\<lambda>file. processFile env (Rewrite (fc_ready file)) True file) (pj_sources proj) cut"
  have start: "written disk start" "outs (fst start) = []"
    by (simp_all add: start_def written_def outs_def empty_results_def)
  have t: "written disk t" "fst ` set (outs (fst t)) \<subseteq> set (map fc_path (pj_templates proj))"
    using written_files [OF start(1), of "pj_templates proj" env "\<lambda>_. bufgen_rewriter"] assms start(2)
    by (auto simp: t_def)
  have cut: "written disk cut" "outs (fst cut) = outs (fst t)"
    using t(1) by (auto simp: cut_def written_def split: prod.split)
  have "written disk u"
    using written_files [OF cut(1), of "pj_sources proj" env "\<lambda>file. Rewrite (fc_ready file)"] assms t(2)
    unfolding u_def cut(2) by auto
  moreover have "rewrite_phase env Rewrite strip True proj disk =
      (let rd = (if list_ex fc_ready (pj_sources proj) \<or> \<not> pj_hasV1Gen proj then u else cut)
       in if list_ex fc_ready (pj_sources proj) \<and> rs_flippedResult (fst rd) then stripDanglingMsgPass env strip True rd else rd)"
    unfolding rewrite_phase_def Let_def u_def cut_def t_def start_def by (simp split: prod.split)
  ultimately show ?thesis using cut(1) by (simp add: Let_def written_strip)
qed

subsection \<open>Dry runs\<close>

text \<open>A dry run does to the results what a run without failing writes does, and nothing to the disk.\<close>

definition previews :: "results \<times> disk \<Rightarrow> results \<times> disk \<Rightarrow> bool" where
  "previews dry wet \<longleftrightarrow> fst dry = fst wet"

lemma fold_previews:
  "(\<And>x dry wet. previews dry wet \<Longrightarrow> previews (f x dry) (h x wet)) \<Longrightarrow> previews dry wet \<Longrightarrow>
     previews (fold f xs dry) (fold h xs wet)"
  by (induction xs arbitrary: dry wet) auto

lemma process_previews:
  assumes "\<And>p. oe_write_error env p = None" "previews dry wet"
  shows "previews (processFile env rewrite False file dry) (processFile env rewrite True file wet)"
  using assms by (cases dry; cases wet) (auto simp: previews_def processFile_eq record_rewrite_def Let_def split: sum.split)

lemma msg_previews:
  assumes "\<And>p. oe_write_error env p = None" "previews dry wet"
  shows "previews (apply_msg_edit env False pe dry) (apply_msg_edit env True pe wet)"
  using assms by (cases pe; cases dry; cases wet) (auto simp: previews_def apply_msg_edit_def)

lemma strip_previews:
  assumes "\<And>p. oe_write_error env p = None" "previews dry wet"
  shows "previews (stripDanglingMsgPass env strip False dry) (stripDanglingMsgPass env strip True wet)"
proof -
  have "previews (fold (apply_msg_edit env False) edits dry) (fold (apply_msg_edit env True) edits wet)" for edits
    by (rule fold_previews [OF msg_previews [OF assms(1)] assms(2)])
  with assms(2) show ?thesis by (auto simp: stripDanglingMsgPass_def previews_def Let_def split: sum.split)
qed

definition cut_notes :: "results \<times> disk \<Rightarrow> results \<times> disk" where
  "cut_notes rd = (case splitInstallNotes (rs_diagnostics (fst rd)) of (notes, rest) \<Rightarrow>
     ((fst rd)\<lparr>rs_installNotes := notes, rs_diagnostics := rest\<rparr>, snd rd))"

definition strip_if :: "bool \<Rightarrow> os_env \<Rightarrow> stripper \<Rightarrow> bool \<Rightarrow> results \<times> disk \<Rightarrow> results \<times> disk" where
  "strip_if b env strip writing rd = (if b \<and> rs_flippedResult (fst rd) then stripDanglingMsgPass env strip writing rd else rd)"

lemma rewrite_phase_eq:
  "rewrite_phase env Rewrite strip writing proj disk =
     strip_if (list_ex fc_ready (pj_sources proj)) env strip writing
       (fold (\<lambda>file. processFile env (Rewrite (fc_ready file)) writing file)
         (if list_ex fc_ready (pj_sources proj) \<or> \<not> pj_hasV1Gen proj then pj_sources proj else [])
         (cut_notes (fold (processFile env bufgen_rewriter writing) (pj_templates proj)
           (empty_results (pj_goFilesScanned proj + length (pj_templates proj)), disk))))"
  unfolding rewrite_phase_def Let_def strip_if_def cut_notes_def by (simp split: prod.split)

lemma phase_previews:
  assumes "\<And>p. oe_write_error env p = None"
  shows "previews (rewrite_phase env Rewrite strip False proj disk) (rewrite_phase env Rewrite strip True proj disk')"
proof -
  have cut: "previews dry wet \<Longrightarrow> previews (cut_notes dry) (cut_notes wet)" for dry wet
    by (simp add: previews_def cut_notes_def split: prod.split)
  have strip: "previews dry wet \<Longrightarrow> previews (strip_if b env strip False dry) (strip_if b env strip True wet)" for b dry wet
    using strip_previews [OF assms, of dry wet] by (auto simp: previews_def strip_if_def)
  show ?thesis unfolding rewrite_phase_eq
    by (intro strip fold_previews [OF process_previews [OF assms]] cut) (simp_all add: previews_def)
qed

lemma dry_disk:
  "snd (processFile env rewrite False file rd) = snd rd" "snd (apply_msg_edit env False pe rd) = snd rd"
  by (cases rd; auto simp: processFile_eq record_rewrite_def Let_def split: sum.split)
    (cases pe; cases rd; simp add: apply_msg_edit_def)

lemma fold_snd: "(\<And>x rd. snd (f x rd) = snd rd) \<Longrightarrow> snd (fold f xs rd) = snd rd"
  by (induction xs arbitrary: rd) auto

lemma phase_dry_disk: "snd (rewrite_phase env Rewrite strip False proj disk) = disk"
proof -
  have "snd (cut_notes rd) = snd rd" for rd by (simp add: cut_notes_def split: prod.split)
  moreover have "snd (strip_if b env strip False rd) = snd rd" for b rd
    by (auto simp: strip_if_def stripDanglingMsgPass_def Let_def fold_snd dry_disk split: sum.split)
  ultimately show ?thesis by (simp add: rewrite_phase_eq fold_snd dry_disk)
qed

text \<open>C24. Runs of the migration tool. A dry run leaves the disk alone. A run that writes and exits with 0
  has changed exactly the files of its report, to the contents of the report, with their
  permissions. Where no write fails, the dry run has the exit code and the report of the run that writes.\<close>

theorem migrate_run:
  assumes "distinct (map fc_path (pj_templates proj @ pj_sources proj))"
  shows "(\<exists>code run. runMain env Rewrite strip False (Inr proj) disk = (code, run, disk)) \<and>
    (\<forall>run disk'. runMain env Rewrite strip True (Inr proj) disk = (0, run, disk') \<longrightarrow>
      disk' = (\<lambda>p. case map_of (map (\<lambda>r. (rr_path r, rr_out r)) (rs_rewrites run)) p of
         Some out \<Rightarrow> Some (out, case disk p of Some (_, mode) \<Rightarrow> mode | None \<Rightarrow> 0x1A4)
       | None \<Rightarrow> disk p)) \<and>
    ((\<forall>p. oe_write_error env p = None) \<longrightarrow>
      (\<exists>code run disk'. runMain env Rewrite strip False (Inr proj) disk = (code, run, disk) \<and>
        runMain env Rewrite strip True (Inr proj) disk = (code, run, disk')))"
proof (intro conjI allI impI)
  let ?dry = "rewrite_phase env Rewrite strip False proj disk" and ?wet = "rewrite_phase env Rewrite strip True proj disk"
  show "\<exists>code run. runMain env Rewrite strip False (Inr proj) disk = (code, run, disk)"
    using phase_dry_disk [of env Rewrite strip proj disk] by (cases ?dry) (simp add: runMain_def Let_def)
  show "disk' = (\<lambda>p. case map_of (map (\<lambda>r. (rr_path r, rr_out r)) (rs_rewrites run)) p of
         Some out \<Rightarrow> Some (out, case disk p of Some (_, mode) \<Rightarrow> mode | None \<Rightarrow> 0x1A4)
       | None \<Rightarrow> disk p)"
    if "runMain env Rewrite strip True (Inr proj) disk = (0, run, disk')" for run disk'
    using written_phase [OF assms, of disk env Rewrite strip] that unfolding mode_of_def [symmetric]
    by (cases ?wet) (auto simp: runMain_def Let_def written_def outs_def split: if_splits)
  show "\<exists>code run disk'. runMain env Rewrite strip False (Inr proj) disk = (code, run, disk) \<and>
        runMain env Rewrite strip True (Inr proj) disk = (code, run, disk')"
    if "\<forall>p. oe_write_error env p = None"
    using phase_previews [of env Rewrite strip proj disk disk] that phase_dry_disk [of env Rewrite strip proj disk]
    by (cases ?dry; cases ?wet) (simp add: runMain_def Let_def previews_def)
qed

text \<open>A project with one template and one source that is ready.\<close>

definition sample_project :: project where
  "sample_project =
     \<lparr>pj_templates = [\<lparr>fc_path = ''/w/buf.gen.yaml'', fc_content = sample_template, fc_ready = False\<rparr>],
      pj_sources = [\<lparr>fc_path = ''/w/a.go'', fc_content = ''x.Msg'', fc_ready = True\<rparr>],
      pj_hasV1Gen = False, pj_v1GenDirs = [], pj_sdkModules = [], pj_externalGenModules = [], pj_ecosystemModules = [],
      pj_packagesLoaded = 1, pj_goFilesScanned = 1, pj_nestedModuleDirs = [], pj_mockV1Pkgs = [], pj_goModRequires = None\<rparr>"

definition sample_os :: os_env where
  "sample_os = \<lparr>oe_cwd = Some ''/w'', oe_write_error = (\<lambda>_. None), oe_leftover = (\<lambda>_ _. None)\<rparr>"

definition sample_rewriter :: "bool \<Rightarrow> rewriter" where
  "sample_rewriter ready path content = Inr (''x'', bump ''msg'' empty_report)"

theorem migrate_run_witness:
  "\<exists>run disk'. runMain sample_os sample_rewriter (\<lambda>_. Inr []) True (Inr sample_project) (\<lambda>_. None) = (0, run, disk') \<and>
     runMain sample_os sample_rewriter (\<lambda>_. Inr []) False (Inr sample_project) (\<lambda>_. None) = (0, run, \<lambda>_. None) \<and>
     disk' ''/w/a.go'' = Some (''x'', 0x1A4) \<and> disk' ''/w/b.go'' = None"
proof -
  let ?w = "runMain sample_os sample_rewriter (\<lambda>_. Inr []) True (Inr sample_project) (\<lambda>_. None)"
  have d: "distinct (map fc_path (pj_templates sample_project @ pj_sources sample_project))" by code_simp
  have code: "fst ?w = 0" by code_simp
  have paths: "map_of (map (\<lambda>r. (rr_path r, rr_out r)) (rs_rewrites (fst (snd ?w)))) ''/w/a.go'' = Some ''x''"
      "map_of (map (\<lambda>r. (rr_path r, rr_out r)) (rs_rewrites (fst (snd ?w)))) ''/w/b.go'' = None" by code_simp+
  have none: "\<forall>p. oe_write_error sample_os p = None" by (simp add: sample_os_def)
  obtain run disk' where w: "?w = (0, run, disk')" using code by (cases ?w) auto
  have "runMain sample_os sample_rewriter (\<lambda>_. Inr []) False (Inr sample_project) (\<lambda>_. None) = (0, run, \<lambda>_. None)"
    using migrate_run [OF d, of sample_os sample_rewriter "\<lambda>_. Inr []" "\<lambda>_. None"] none w by auto
  moreover have "disk' ''/w/a.go'' = Some (''x'', 0x1A4)" "disk' ''/w/b.go'' = None"
    using migrate_run [OF d, of sample_os sample_rewriter "\<lambda>_. Inr []" "\<lambda>_. None"] w paths by auto
  ultimately show ?thesis using w by blast
qed

subsection \<open>Deletions\<close>

text \<open>The positions that no range covers.\<close>

definition kept_positions :: "(int \<times> int) list \<Rightarrow> nat set" where
  "kept_positions ranges = {i. \<forall>(start, stop) \<in> set ranges. \<not> (start \<le> int i \<and> int i < stop)}"

lemma nths_middle:
  assumes "a \<le> b" "b \<le> length c" "\<And>i. i < a \<Longrightarrow> i \<in> k' \<longleftrightarrow> i \<in> k" "\<And>i. a \<le> i \<Longrightarrow> i \<in> k"
    "\<And>i. a \<le> i \<Longrightarrow> i \<in> k' \<longleftrightarrow> b \<le> i"
  shows "nths (take a c @ drop b c) k = nths c k'"
proof -
  have c: "c = take a c @ take (b - a) (drop a c) @ drop b c"
    using assms(1) by (metis append_take_drop_id drop_drop le_add_diff_inverse2)
  have "nths (take a c) k = nths (take a c) k'"
    using assms(2,3) unfolding nths_def by (intro arg_cong [where f = "map fst"] filter_cong) (auto simp: set_zip)
  moreover have "nths (drop b c) {j. j + a \<in> k} = drop b c" using assms(4) by (simp add: nths_all)
  moreover have "nths (take (b - a) (drop a c)) {j. j + a \<in> k'} = []"
    using assms(1,2,5) by (auto simp: nths_def filter_empty_conv set_zip)
  moreover have "nths (drop b c) {j. j + (b - a) + a \<in> k'} = drop b c"
    using assms(1,5) by (simp add: nths_all)
  ultimately show ?thesis
    using assms(1,2) by (subst (2) c) (simp add: nths_append min_def ac_simps)
qed

lemma fold_deletions:
  assumes "sorted_wrt (\<lambda>(a, _) (_, b). b \<le> a) rs" "\<forall>(a, b) \<in> set rs. 0 \<le> a \<and> a \<le> b \<and> b \<le> int (length c)"
  shows "fold delete_range rs c = nths c (kept_positions rs)"
  using assms
proof (induction rs arbitrary: c)
  case Nil
  then show ?case by (simp add: kept_positions_def nths_all)
next
  case (Cons r rs)
  obtain a b where r: "r = (int a, int b)" "a \<le> b" "b \<le> length c"
    using Cons.prems(2) by (cases r) (auto, metis nonneg_int_cases of_nat_le_iff order_trans)
  let ?c = "take a c @ drop b c"
  have below: "\<forall>(x, y) \<in> set rs. 0 \<le> x \<and> x \<le> y \<and> y \<le> int a" using Cons.prems by (auto simp: r)
  have "fold delete_range (r # rs) c = fold delete_range rs ?c" using r by (simp add: delete_range_def)
  also have "\<dots> = nths ?c (kept_positions rs)"
    using Cons.prems(1) below r by (intro Cons.IH) auto
  also have "\<dots> = nths c (kept_positions (r # rs))"
    using r below by (intro nths_middle) (auto simp: kept_positions_def)
  finally show ?case .
qed

text \<open>C25. Deletions. For ranges within the content that do not overlap, in any order, \<open>applyDeletions\<close>
  leaves exactly the bytes that no range covers.\<close>

theorem apply_deletions:
  assumes "distinct (map fst ranges)" "\<forall>(a, b) \<in> set ranges. 0 \<le> a \<and> a \<le> b \<and> b \<le> int (length content)"
    "\<forall>(a, b) \<in> set ranges. \<forall>(c, d) \<in> set ranges. a < c \<longrightarrow> b \<le> c"
  shows "applyDeletions content ranges = nths content {i. \<forall>(a, b) \<in> set ranges. \<not> (a \<le> int i \<and> int i < b)}"
proof -
  let ?rs = "rev (sort_key fst ranges)"
  have "distinct (map fst (sort_key fst ranges))" using assms(1) by (simp add: distinct_map)
  then have "sorted_wrt (\<lambda>x y. fst x < fst y) (sort_key fst ranges)"
    using sorted_sort_key [of fst ranges] strict_sorted_iff [of "map fst (sort_key fst ranges)"]
    by (auto simp: sorted_wrt_map)
  then have "sorted_wrt (\<lambda>(a, _) (_, b). b \<le> a) ?rs"
    unfolding sorted_wrt_rev by (rule sorted_wrt_mono_rel [rotated]) (use assms(3) in fastforce)
  from fold_deletions [OF this, of content] assms(2) show ?thesis
    by (simp add: applyDeletions_def kept_positions_def)
qed

theorem apply_deletions_witness:
  "applyDeletions ''got.Msg.Msg + x.Msg'' [(15, 19), (3, 7), (7, 11)] = ''got + x'' \<and>
   nths ''got.Msg.Msg + x.Msg'' {i. \<forall>(a, b) \<in> set [(15, 19), (3, 7), (7, 11)]. \<not> (a \<le> int i \<and> int i < b)} = ''got + x''"
proof -
  have "applyDeletions ''got.Msg.Msg + x.Msg'' [(15, 19), (3, 7), (7, 11)] = ''got + x''" by code_simp
  then show ?thesis
    using apply_deletions [of "[(15, 19), (3, 7), (7, 11)]" "''got.Msg.Msg + x.Msg''"] by simp
qed

subsection \<open>Generated directories\<close>

lemma Split_no_sep: "x \<in> set (Split s c) \<Longrightarrow> c \<notin> set x"
proof (induction s arbitrary: x)
  case (Cons a s)
  then show ?case by (cases "Split s c") (auto split: if_splits)
qed simp

lemma clean_rooted:
  "list_all (\<lambda>c. c \<noteq> [] \<and> c \<noteq> ''..'' \<and> CHR ''/'' \<notin> set c) stack \<Longrightarrow> list_all (\<lambda>c. CHR ''/'' \<notin> set c) cs \<Longrightarrow>
   list_all (\<lambda>c. c \<noteq> [] \<and> c \<noteq> ''..'' \<and> CHR ''/'' \<notin> set c) (clean_components True stack cs)"
proof (induction cs arbitrary: stack)
  case (Cons c cs)
  have tl: "list_all f (tl xs)" if "list_all f xs" for f and xs :: "string list" using that by (cases xs) auto
  from tl [OF Cons.prems(1)] Cons show ?case by simp
qed simp

lemma filter_Split_Join:
  "list_all (\<lambda>c. c \<noteq> [] \<and> CHR ''/'' \<notin> set c) cs \<Longrightarrow> filter (\<lambda>c. c \<noteq> []) (Split (Join cs ''/'') (CHR ''/'')) = cs"
proof (induction cs rule: induct_list012)
  case (2 x)
  have "Split x (CHR ''/'') = [x]" if "CHR ''/'' \<notin> set x" for x using that by (induction x) auto
  with 2 show ?case by simp
next
  case (3 x y zs)
  have "Split (x @ CHR ''/'' # t) (CHR ''/'') = x # Split t (CHR ''/'')" if "CHR ''/'' \<notin> set x" for x t
    using that by (induction x) auto
  with 3 show ?case by simp
qed simp

lemma components_absolute:
  assumes "IsAbs p"
  shows "list_all (\<lambda>c. c \<noteq> [] \<and> c \<noteq> ''..'' \<and> CHR ''/'' \<notin> set c) (components p)"
proof -
  define cs where "cs = rev (clean_components True [] (Split p (CHR ''/'')))"
  have cs: "list_all (\<lambda>c. c \<noteq> [] \<and> c \<noteq> ''..'' \<and> CHR ''/'' \<notin> set c) cs"
    using clean_rooted [of "[]" "Split p (CHR ''/'')"] by (auto simp: cs_def list_all_iff Split_no_sep)
  have "components p = filter (\<lambda>c. c \<noteq> []) (Split (Join cs ''/'') (CHR ''/''))"
    using assms by (simp add: components_def path_Clean_def IsAbs_def cs_def)
  also have "\<dots> = cs" using cs by (intro filter_Split_Join) (auto simp: list_all_iff)
  finally show ?thesis using cs by simp
qed

lemma common_length_take: "take (common_length xs ys) xs = take (common_length xs ys) ys \<and>
    common_length xs ys \<le> length xs \<and> common_length xs ys \<le> length ys"
  by (induction xs ys rule: common_length.induct) auto

lemma common_length_prefix: "common_length xs ys = length xs \<longleftrightarrow> (\<exists>zs. ys = xs @ zs)"
  by (induction xs ys rule: common_length.induct) auto

text \<open>A directory contains a path exactly when its components begin those of the path.\<close>

lemma dirContains_iff:
  assumes "IsAbs outer" "IsAbs inner"
  shows "dirContains outer inner \<longleftrightarrow> (\<exists>rest. components inner = components outer @ rest)"
proof (cases "common_length (components outer) (components inner) = length (components outer)")
  case True
  then obtain rest where rest: "components inner = components outer @ rest" using common_length_prefix by blast
  then have rel: "path_Rel outer inner = (if rest = [] then ''.'' else Join rest ''/'')"
    using True by (simp add: path_Rel_def Let_def)
  have "Join rest ''/'' \<noteq> ''..'' \<and> \<not> HasPrefix (Join rest ''/'') ''../''" if ne: "rest \<noteq> []"
  proof -
    obtain x xs where x: "rest = x # xs" using ne by (cases rest) auto
    have "x \<noteq> ''..''" "CHR ''/'' \<notin> set x" using components_absolute [OF assms(2)] by (auto simp: rest x)
    moreover have "takeWhile (\<lambda>c. c \<noteq> CHR ''/'') (Join rest ''/'') = x"
      using \<open>CHR ''/'' \<notin> set x\<close> by (cases xs) (auto simp: x takeWhile_tail)
    ultimately show ?thesis by (auto simp: HasPrefix_iff)
  qed
  with rel rest show ?thesis by (auto simp: dirContains_def Let_def)
next
  case False
  then have "length (components outer) - common_length (components outer) (components inner) \<noteq> 0"
    using common_length_take [of "components outer" "components inner"] by simp
  then obtain n where n: "length (components outer) - common_length (components outer) (components inner) = Suc n"
    by (metis not0_implies_Suc)
  have "\<not> dirContains outer inner"
    using n by (cases n; cases "drop (common_length (components outer) (components inner)) (components inner)")
      (auto simp: dirContains_def path_Rel_def Let_def HasPrefix_iff)
  with False common_length_prefix show ?thesis by blast
qed

end
