(* ===== verification/Spec2Isabelle.thy ===== *)
theory Spec2Isabelle
  imports In_Process_Stream Unary_Call Generated_Code Migrate_Run
begin

text \<open>
  \<^bold>\<open>Connect for Go: a verification development of the RPC library.\<close>

  \<^bold>\<open>The program.\<close> A server registers procedures; a client calls them through a transport.
  Package \<open>connect\<close> (\<open>connect.go\<close>) has codes, errors, headers, contexts with \<open>CallInfo\<close>, the
  generic \<open>Client\<close> and \<open>Server\<close> and interceptors. Package \<open>connecthttp\<close> is the HTTP transport with
  three protocols (Connect, gRPC, gRPC-Web); a call is a client stream over a client connection over
  a \<open>duplexHTTPCall\<close>, and on the other side a \<open>handlerStream\<close> over a handler connection. Package
  \<open>connectinprocess\<close> is the transport within a process; \<open>connectproto\<close> and \<open>connectgzip\<close> have the
  default codecs and compressor.

  \<^bold>\<open>Theories, bottom up.\<close> Operations keep their Go names, with a prefix for the receiver type.

  \<^item> \<open>Go_Base\<close>: what the code uses of the language and of packages \<open>strings\<close>, \<open>strconv\<close>, \<open>fmt\<close>;
    bytes are 8-bit words, strings are lists of bytes as characters, \<open>int64\<close> values are \<open>int\<close> with
    the range written out where it matters. \<open>Codes\<close>: \<open>Code\<close>, \<open>StreamType\<close>, \<open>IdempotencyLevel\<close>.
    \<open>Rpc_Error\<close>: \<open>connect.Error\<close>, package \<open>errors\<close>, the translations of \<open>error.go\<close>; the locale
    \<open>error_wrapper\<close> states what every translation keeps. \<open>Go_IO\<close>: readers and writers.
  \<^item> \<open>Compression\<close>: compression pools, codec registries, \<open>negotiateCompression\<close>. \<open>Envelope\<close>:
    \<open>envelope\<close>, \<open>envelopeWriter\<close>, \<open>envelopeReader\<close>, payloads. \<open>Message_Stream\<close>: sequences of messages
    through both. \<open>Gzip\<close>: \<open>connectgzip\<close> and \<open>internal/bufferpool\<close>. \<open>Proto_Codec\<close>: \<open>connectproto\<close> and
    \<open>protobuf_util.go\<close>.
  \<^item> \<open>Headers\<close>: \<open>connect.Header\<close> and \<open>http.Header\<close>, with the locale \<open>value_store\<close> of their laws. \<open>Base64\<close>:
    binary headers and GET query values.
  \<^item> \<open>Grpc_Text\<close>: timeouts, percent encoding, content types. \<open>Grpc_Status\<close>: \<open>google.rpc.Status\<close> and
    error trailers. \<open>Http\<close>: requests, responses and \<open>protocol.go\<close>. \<open>Web_Trailers\<close>: trailers in the
    body. \<open>Duplex\<close>: \<open>duplexHTTPCall\<close>. \<open>Grpc_Protocol\<close>: handler, client and connections of
    \<open>protocol_grpc.go\<close>.
  \<^item> \<open>Go_Json\<close>: \<open>encoding/json\<close> as far as the Connect protocol uses it. \<open>Connect_Wire\<close>: errors and
    end-of-stream messages as JSON. \<open>Connect_Unary\<close>: unary bodies, GET requests, timeouts.
    \<open>Connect_Protocol\<close>: handler, client and the four connections of \<open>protocol_connect.go\<close>.
    \<open>Unary_Messages\<close>: unary bodies from end to end, read limits.
  \<^item> \<open>Http_Options\<close>: \<open>option.go\<close>. \<open>Rpc_Core\<close>: \<open>Client\<close>, \<open>Server\<close>, contexts, interceptors; streams are
    records of functions on the program state, \<open>CallInfo\<close>s are addresses in it; the locales
    \<open>one_request_sender\<close> and \<open>one_request_stream\<close> are the contract of unary client streams.
    \<open>Http_Handler\<close>: \<open>handler.go\<close> and \<open>server_stream.go\<close>. \<open>Http_Server\<close>: \<open>error_writer.go\<close>, \<open>Mount\<close>.
    \<open>Http_Client\<close>: \<open>client_stream.go\<close> and \<open>NewTransport\<close>.
  \<^item> \<open>In_Process\<close>, \<open>In_Process_Stream\<close>: package \<open>connectinprocess\<close>.
  \<^item> \<open>Unary_Served\<close>, \<open>Unary_Call\<close>: a unary request through an HTTP handler, and a unary call through
    client, connection and handler.
  \<^item> \<open>Edit_Script\<close>: the diff of the migration tool (\<open>cmd/connect-go-v2-migrate/diff.go\<close>). \<open>Buf_Gen\<close>: its
    rewriting of Buf templates (\<open>bufgen.go\<close>). \<open>Migrate_Run\<close>: its runs on a disk (\<open>main.go\<close>, \<open>msgpass.go\<close>).
  \<^item> \<open>Code_Gen\<close>: the plugin \<open>protoc-gen-connect-go\<close>; every generator is a function from descriptors to
    the lines that it prints. \<open>Generated_Code\<close>: what these lines declare.

  \<^bold>\<open>What is shown.\<close>

  \<^item> Calls: a unary call over HTTP with the Connect protocol, and one in process, returns the response
    of the registered method on the message that was sent, or its error.
  \<^item> Data arrives: messages through envelopes and through unary bodies, errors in the three
    protocols and by the error writer, trailers, end-of-stream messages, GET queries, binary
    headers, percent-encoded text, Protobuf and JSON codecs.
  \<^item> Streams end properly: a client reports a clean end only after the server's explicit one; a
    single-request handler gets exactly one request; a unary client stream sends one.
  \<^item> Concurrency: in every interleaving of the caller and the request goroutine, \<open>duplexHTTPCall\<close> calls
    the HTTP client at most once and always ends with a response or a coded error; streams of the
    in-process transport end on the client after the handler and its metadata, and make progress;
    the pools of the gzip compressor never share an object and refine a pure compressor.
  \<^item> Servers: which handler runs, inside which interceptors, with which \<open>CallInfo\<close>; what is refused
    with which status; that errors a handler did not author are not disclosed; what \<open>Mount\<close> registers.
  \<^item> The migration tool: the edit script of a diff is minimal, and its hunks turn the old file into the
    new; the scan of a Buf template returns, pins remote plugins and touches options only; a dry run
    writes nothing and shows what a run does; a successful run has written what it reports.
  \<^item> The code generator: exactly when a generated file declares every name once, which procedure each
    method gets and that a server accepts them all, how comments are wrapped.
  \<^item> Bounds: timeouts lose less than their documented precision; no message above the read limit is
    decoded; a request body can be rewound and sent again whole until it is released.

  \<^bold>\<open>Loops and fuel.\<close> Every function of the model is total. Loops over data are structural or have a
  measure on the remaining input. The only fuel is the number of receives in \<open>Message_Stream\<close>
  (\<open>recv_all\<close>), for which one more than the number of messages is shown to be enough. The scan of
  \<open>Buf_Gen\<close> moves its own index and is a partial function to \<open>option\<close>, shown to return. An operation
  that waits for an event which never comes has the result \<open>None\<close>. Goroutines are step relations
  (\<open>Duplex\<close>, \<open>In_Process_Stream\<close>) with invariants over all reachable states.

  \<^bold>\<open>Parameters.\<close> Code outside of the repository is an argument: the HTTP client and the clock
  (\<open>http_env\<close>), compressors and codecs, \<open>protowire\<close>, the Protobuf packages and type registry,
  \<open>compress/gzip\<close>, \<open>mime.ParseMediaType\<close>, \<open>url.Parse\<close>, the qualified identifiers of
  \<open>protogen\<close>, and for runs of the migration tool its discovery and rewriting of Go files. The
  documented laws of libraries are the predicates
  \<open>codec_ok\<close>, \<open>compressor_ok\<close>, \<open>protowire_ok\<close>, \<open>proto_ok\<close>, \<open>gzip_ok\<close> and the like, each with a
  concrete instance.

  \<^bold>\<open>Not modelled.\<close> The rewriting of Go files by the migration tool (it works on Go syntax trees and
  types, whose libraries are not in the repository) and its printed reports, the reading of requests and parameters by
  \<open>protogen\<close>, the conformance programs,
  test helpers (\<open>internal/assert\<close>, \<open>internal/memhttp\<close>), examples and generated code. Of the modelled
  packages: accessors without logic, TLS state, how bytes are cut into single reads, timing, and
  data races outside of the two step relations.
\<close>

end
